(* ===== verification/Prelude.thy ===== *)
theory Prelude
  imports Main "HOL-Library.Word" "HOL-Library.AList" "HOL-Library.Multiset"
    "HOL-Library.List_Lexorder" "HOL-Library.Char_ord" "HOL-Library.Code_Target_Numeral"
begin

text \<open>
  What every component of the model shares: the names of the machine types, Go maps as
  association lists, \<open>sort.Slice\<close> and \<open>sort.Search\<close> as functions with their laws
  behind the locale \<open>weak_order\<close>, and the locale \<open>stepper\<close>, which lifts an
  invariant of one step to a run of steps.
\<close>

section \<open>Machine types\<close>

text \<open>
  A Go string is a sequence of bytes, which is what HOL's \<open>string\<close> is: a \<open>char\<close> is
  eight bits. The order of \<open>List_Lexorder\<close> over \<open>Char_ord\<close> is Go's order on strings.
  A \<open>time.Time\<close> is the number of nanoseconds since the Unix epoch; the zero
  \<open>time.Time\<close> is the first instant of the year 1.
\<close>

type_synonym uint64 = "64 word"
type_synonym gotime = int

definition zero_time :: gotime where
  "zero_time = -62135596800000000000"

definition second_ns :: int where
  "second_ns = 1000000000"

named_theorems chat_defs \<open>definitions a component proof unfolds\<close>
named_theorems frame_simps \<open>what an operation leaves alone\<close>

section \<open>Go maps as association lists\<close>

text \<open>
  A Go map is an association list with distinct keys. Iteration order over a Go map is
  not determined; the order of the list is one iteration order, and a statement about
  every list is a statement about every order.
\<close>

definition map_ok :: "('k \<times> 'v) list \<Rightarrow> bool" where
  "map_ok m \<longleftrightarrow> distinct (map fst m)"

definition get_or :: "'v \<Rightarrow> ('k \<times> 'v) list \<Rightarrow> 'k \<Rightarrow> 'v" where
  "get_or d m k = (case map_of m k of None \<Rightarrow> d | Some v \<Rightarrow> v)"

lemma map_ok_Nil [simp]: "map_ok []"
  by (simp add: map_ok_def)

lemma map_ok_update [simp, intro]: "map_ok m \<Longrightarrow> map_ok (AList.update k v m)"
  unfolding map_ok_def by (rule distinct_update)

lemma map_ok_delete [simp, intro]: "map_ok m \<Longrightarrow> map_ok (AList.delete k m)"
  unfolding map_ok_def by (rule distinct_delete)

lemma map_ok_filter [simp, intro]: "map_ok m \<Longrightarrow> map_ok (filter P m)"
  unfolding map_ok_def by (rule distinct_map_filter)

lemma map_of_update_simp [simp]: "map_of (AList.update k v m) = (map_of m)(k \<mapsto> v)"
  by (rule update_conv')

lemma map_of_delete_simp [simp]: "map_of (AList.delete k m) = (map_of m)(k := None)"
  by (rule delete_conv')

lemma map_of_in_set: "map_ok m \<Longrightarrow> map_of m k = Some v \<longleftrightarrow> (k, v) \<in> set m"
  unfolding map_ok_def by (rule map_of_eq_Some_iff)

lemma get_or_update [simp]: "get_or d (AList.update k v m) k' = (if k' = k then v else get_or d m k')"
  by (simp add: get_or_def)

lemma get_or_delete [simp]: "get_or d (AList.delete k m) k' = (if k' = k then d else get_or d m k')"
  by (simp add: get_or_def)

lemma get_or_Nil [simp]: "get_or d [] k = d"
  by (simp add: get_or_def)

lemma set_update_map:
  assumes "map_ok m"
  shows "set (AList.update k v m) = insert (k, v) {p \<in> set m. fst p \<noteq> k}"
proof -
  have "\<And>p. p \<in> set (AList.update k v m) \<longleftrightarrow> p \<in> insert (k, v) {p \<in> set m. fst p \<noteq> k}"
    by (auto simp: map_of_in_set [symmetric] assms split_paired_all)
  then show ?thesis by blast
qed

lemma set_delete_map:
  assumes "map_ok m"
  shows "set (AList.delete k m) = {p \<in> set m. fst p \<noteq> k}"
  by (auto simp: AList.delete_eq)

lemma map_of_filter:
  "map_ok m \<Longrightarrow> map_of (filter P m) k = (case map_of m k of None \<Rightarrow> None
     | Some v \<Rightarrow> if P (k, v) then Some v else None)"
  by (induction m) (auto simp: map_ok_def map_of_eq_None_iff rev_image_eqI split: option.splits)

section \<open>Sorting: sort.Slice and sort.Search\<close>

text \<open>
  \<open>sort.Slice\<close> leaves the order of equal elements open and \<open>sort.SliceStable\<close>
  keeps it; the model is the stable insertion sort, and the facts that hold for every
  sort follow from the laws of \<open>weak_order\<close>. \<open>insort_by\<close> inserts before the first
  element that is not less.
\<close>

fun insort_by :: "('a \<Rightarrow> 'a \<Rightarrow> bool) \<Rightarrow> 'a \<Rightarrow> 'a list \<Rightarrow> 'a list" where
  "insort_by lt x [] = [x]"
| "insort_by lt x (y # ys) = (if lt y x then y # insort_by lt x ys else x # y # ys)"

fun sort_by :: "('a \<Rightarrow> 'a \<Rightarrow> bool) \<Rightarrow> 'a list \<Rightarrow> 'a list" where
  "sort_by lt [] = []"
| "sort_by lt (x # xs) = insort_by lt x (sort_by lt xs)"

definition ordered_by :: "('a \<Rightarrow> 'a \<Rightarrow> bool) \<Rightarrow> 'a list \<Rightarrow> bool" where
  "ordered_by lt xs \<longleftrightarrow> sorted_wrt (\<lambda>a b. \<not> lt b a) xs"

text \<open>\<open>sort.Search(n, f)\<close>: the binary search of the standard library, as it is written.\<close>

function search_loop :: "(nat \<Rightarrow> bool) \<Rightarrow> nat \<Rightarrow> nat \<Rightarrow> nat" where
  "search_loop f i j =
     (if i < j
      then (let h = (i + j) div 2 in if \<not> f h then search_loop f (h + 1) j else search_loop f i h)
      else i)"
  by pat_completeness auto
termination
  by (relation "measure (\<lambda>(f, i, j). j - i)") (auto simp: Let_def)

declare search_loop.simps [simp del]

definition go_search :: "nat \<Rightarrow> (nat \<Rightarrow> bool) \<Rightarrow> nat" where
  "go_search n f = search_loop f 0 n"

text \<open>On a monotone predicate the search finds the least index where it holds.\<close>

lemma search_loop_least:
  assumes "\<And>a b. a \<le> b \<Longrightarrow> f a \<Longrightarrow> f b" and "i \<le> k" and "k \<le> j"
    and "\<And>a. a < k \<Longrightarrow> \<not> f a" and "k < j \<Longrightarrow> f k"
  shows "search_loop f i j = k"
  using assms
proof (induction f i j rule: search_loop.induct)
  case (1 f i j)
  show ?case
  proof (cases "i < j")
    case False
    with "1.prems" show ?thesis by (simp add: search_loop.simps [of f i j])
  next
    case True
    let ?h = "(i + j) div 2"
    show ?thesis
    proof (cases "f ?h")
      case True
      have "k \<le> ?h" using "1.prems"(4) True by (meson linorder_not_less)
      with True \<open>i < j\<close> "1.IH"(2) [OF \<open>i < j\<close> refl] "1.prems" show ?thesis
        by (simp add: search_loop.simps [of f i j] Let_def)
    next
      case False
      have "?h + 1 \<le> k"
      proof (rule ccontr)
        assume "\<not> ?h + 1 \<le> k"
        then have "k \<le> ?h" by simp
        with \<open>i < j\<close> have "k < j" by simp
        with "1.prems"(1) [OF \<open>k \<le> ?h\<close>] "1.prems"(5) False show False by blast
      qed
      with False \<open>i < j\<close> "1.IH"(1) [OF \<open>i < j\<close> refl] "1.prems" show ?thesis
        by (simp add: search_loop.simps [of f i j] Let_def)
    qed
  qed
qed

lemma search_loop_cong:
  "(\<And>a. i \<le> a \<Longrightarrow> a < j \<Longrightarrow> f a = g a) \<Longrightarrow> search_loop f i j = search_loop g i j"
proof (induction f i j rule: search_loop.induct)
  case (1 f i j)
  show ?case
  proof (cases "i < j")
    case False
    then show ?thesis by (simp add: search_loop.simps [of _ i j])
  next
    case True
    let ?h = "(i + j) div 2"
    have "f ?h = g ?h" using True by (intro "1.prems") auto
    moreover have "search_loop f (?h + 1) j = search_loop g (?h + 1) j" if "\<not> f ?h"
      using "1.IH"(1) [OF True refl that] "1.prems" True by simp
    moreover have "search_loop f i ?h = search_loop g i ?h" if "f ?h"
      using "1.IH"(2) [OF True refl] that "1.prems" True by simp
    ultimately show ?thesis
      using True by (simp add: search_loop.simps [of _ i j] Let_def)
  qed
qed

lemma set_insort_by [simp]: "set (insort_by lt x xs) = insert x (set xs)"
  by (induction xs) auto

lemma mset_insort_by [simp]: "mset (insort_by lt x xs) = add_mset x (mset xs)"
  by (induction xs) auto

lemma mset_sort_by [simp]: "mset (sort_by lt xs) = mset xs"
  by (induction xs) auto

lemma set_sort_by [simp]: "set (sort_by lt xs) = set xs"
  by (metis mset_sort_by set_mset_mset)

lemma length_sort_by [simp]: "length (sort_by lt xs) = length xs"
  by (metis mset_sort_by size_mset)

lemma insort_by_split:
  "insort_by lt x xs = takeWhile (\<lambda>y. lt y x) xs @ x # dropWhile (\<lambda>y. lt y x) xs"
  by (induction xs) auto

text \<open>
  The contract of a comparison function: a strict order whose incomparability is
  transitive. \<open>sort.Slice\<close> requires it, and every comparison of the program is shown
  to satisfy it by an interpretation of this locale.
\<close>

locale weak_order =
  fixes lt :: "'a \<Rightarrow> 'a \<Rightarrow> bool"
  assumes irrefl: "\<not> lt x x"
    and trans: "lt x y \<Longrightarrow> lt y z \<Longrightarrow> lt x z"
    and negtrans: "lt x z \<Longrightarrow> lt x y \<or> lt y z"
begin

lemma asym: "lt x y \<Longrightarrow> \<not> lt y x"
  using irrefl trans by blast

lemma ordered_insort: "ordered_by lt xs \<Longrightarrow> ordered_by lt (insort_by lt x xs)"
proof (induction xs)
  case Nil
  then show ?case by (simp add: ordered_by_def)
next
  case (Cons y ys)
  then show ?case
    using asym negtrans by (fastforce simp: ordered_by_def)
qed

lemma ordered_sort: "ordered_by lt (sort_by lt xs)"
proof (induction xs)
  case Nil
  then show ?case by (simp add: ordered_by_def)
next
  case (Cons x xs)
  then show ?case by (simp add: ordered_insort)
qed

lemma ordered_below:
  assumes "ordered_by lt xs" and "a \<le> b" and "b < length xs" and "lt (xs ! b) m"
  shows "lt (xs ! a) m"
proof (cases "a = b")
  case True
  with assms show ?thesis by simp
next
  case False
  with assms have "\<not> lt (xs ! b) (xs ! a)"
    by (auto simp: ordered_by_def sorted_wrt_iff_nth_less)
  with negtrans [OF assms(4), of "xs ! a"] show ?thesis by blast
qed

text \<open>The index \<open>sort.Search\<close> returns is where the sorted insertion inserts.\<close>

lemma search_index:
  assumes "ordered_by lt xs"
  shows "go_search (length xs) (\<lambda>i. \<not> lt (xs ! i) m) = length (takeWhile (\<lambda>y. lt y m) xs)"
proof -
  let ?k = "length (takeWhile (\<lambda>y. lt y m) xs)"
  let ?f = "\<lambda>i. \<not> lt (xs ! i) m \<or> length xs \<le> i"
  have k: "?k \<le> length xs" by (rule length_takeWhile_le)
  have eq: "search_loop (\<lambda>i. \<not> lt (xs ! i) m) 0 (length xs) = search_loop ?f 0 (length xs)"
    by (rule search_loop_cong) auto
  have "search_loop ?f 0 (length xs) = ?k"
  proof (rule search_loop_least)
    show "?f b" if "a \<le> b" "?f a" for a b
      using that ordered_below [OF assms, of a b m] by (meson le_trans linorder_not_less)
    show "\<not> ?f a" if "a < ?k" for a
      using that k by (metis (no_types, lifting) linorder_not_less nth_mem order_less_le_trans
          set_takeWhileD takeWhile_nth)
    show "?f ?k" if "?k < length xs"
      using nth_length_takeWhile [OF that] by blast
  qed (use k in auto)
  then show ?thesis by (simp add: go_search_def eq)
qed

text \<open>
  A sorted list is determined by its elements where the order is total on them: whatever
  sort the library uses, and in whatever order the map was walked, the result is the same.
\<close>

lemma ordered_unique:
  assumes "ordered_by lt xs" and "ordered_by lt ys" and "mset xs = mset ys"
    and "\<And>a b. a \<in> set xs \<Longrightarrow> b \<in> set xs \<Longrightarrow> \<not> lt a b \<Longrightarrow> \<not> lt b a \<Longrightarrow> a = b"
  shows "xs = ys"
  using assms
proof (induction xs arbitrary: ys)
  case Nil
  then show ?case by simp
next
  case (Cons x xs)
  from Cons.prems(3) obtain y ys' where ys: "ys = y # ys'"
    by (cases ys) auto
  from Cons.prems(3) have sets: "set (x # xs) = set (y # ys')"
    using ys by (metis set_mset_mset)
  then have "y \<in> set (x # xs)" and "x \<in> set (y # ys')"
    by (metis list.set_intros(1))+
  then have "\<not> lt y x" and "\<not> lt x y"
    using Cons.prems(1,2) irrefl by (auto simp: ordered_by_def ys)
  then have xy: "x = y"
    using Cons.prems(4) [of x y] \<open>y \<in> set (x # xs)\<close> by simp
  have "xs = ys'"
  proof (rule Cons.IH)
    show "mset xs = mset ys'"
      using Cons.prems(3) by (simp add: ys xy)
  qed (use Cons.prems in \<open>auto simp: ordered_by_def ys\<close>)
  with ys xy show ?case by simp
qed

end

text \<open>A comparison through a key into a linear order satisfies the contract.\<close>

lemma weak_order_key: "weak_order (\<lambda>a b. (k a :: 'b :: linorder) < k b)"
  by unfold_locales auto

lemma weak_order_lex:
  assumes "weak_order lt"
  shows "weak_order (\<lambda>a b. (k a :: 'b :: linorder) < k b \<or> k a = k b \<and> lt a b)"
proof
  show "\<not> (k x < k x \<or> k x = k x \<and> lt x x)" for x by (simp add: weak_order.irrefl [OF assms])
  show "k x < k z \<or> k x = k z \<and> lt x z"
    if "k x < k y \<or> k x = k y \<and> lt x y" "k y < k z \<or> k y = k z \<and> lt y z" for x y z
    using that weak_order.trans [OF assms, of x y z] by auto
  show "(k x < k y \<or> k x = k y \<and> lt x y) \<or> (k y < k z \<or> k y = k z \<and> lt y z)"
    if "k x < k z \<or> k x = k z \<and> lt x z" for x y z
    using that weak_order.negtrans [OF assms, of x z y] by (cases "k x" "k y" rule: linorder_cases) auto
qed

section \<open>Runs of steps\<close>

text \<open>
  The contract of a component that handles one input at a time: an invariant every step
  keeps. A run over a list of inputs then keeps it.
\<close>

locale stepper =
  fixes step :: "'s \<Rightarrow> 'e \<Rightarrow> 's" and inv :: "'s \<Rightarrow> bool"
  assumes inv_step: "inv s \<Longrightarrow> inv (step s e)"
begin

lemma inv_run: "inv s \<Longrightarrow> inv (foldl step s es)"
  by (induction es arbitrary: s) (auto intro: inv_step)

lemma inv_prefix: "inv s \<Longrightarrow> inv (foldl step s (take n es))"
  by (rule inv_run)

end

text \<open>
  The contract of a component whose steps spend a bounded resource, here the sequence numbers of a
  64-bit counter: a step keeps the invariant with one unit less. A run keeps what is left.
\<close>

locale budget_stepper =
  fixes step :: "'s \<Rightarrow> 'e \<Rightarrow> 's" and inv :: "nat \<Rightarrow> 's \<Rightarrow> bool"
  assumes inv_spend: "inv (Suc n) s \<Longrightarrow> inv n (step s e)"
begin

lemma inv_spend_run: "inv (length es + n) s \<Longrightarrow> inv n (foldl step s es)"
  by (induction es arbitrary: s) (auto intro: inv_spend)

end

text \<open>The same with a measure that only ever goes up while the budget lasts.\<close>

locale monotone_budget = budget_stepper step inv for step :: "'s \<Rightarrow> 'e \<Rightarrow> 's" and inv +
  fixes m :: "'s \<Rightarrow> 'm :: preorder"
  assumes mono_spend: "inv (Suc n) s \<Longrightarrow> m s \<le> m (step s e)"
begin

lemma mono_spend_run: "inv (length es + n) s \<Longrightarrow> m s \<le> m (foldl step s es)"
proof (induction es arbitrary: s)
  case Nil
  then show ?case by simp
next
  case (Cons e es)
  then have "m s \<le> m (step s e)" by (intro mono_spend) simp
  also have "\<dots> \<le> m (foldl step (step s e) es)"
    by (rule Cons.IH) (use Cons.prems in \<open>simp add: inv_spend\<close>)
  finally show ?case by simp
qed

end

text \<open>
  The contract of a step that only ever moves a measure up: a run does not move it down,
  whatever happens in between.
\<close>

locale monotone_stepper = stepper step inv for step :: "'s \<Rightarrow> 'e \<Rightarrow> 's" and inv +
  fixes m :: "'s \<Rightarrow> 'm :: preorder"
  assumes mono_step: "inv s \<Longrightarrow> m s \<le> m (step s e)"
begin

lemma mono_run: "inv s \<Longrightarrow> m s \<le> m (foldl step s es)"
proof (induction es arbitrary: s)
  case Nil
  then show ?case by simp
next
  case (Cons e es)
  from Cons.prems have "m s \<le> m (step s e)" by (rule mono_step)
  also have "\<dots> \<le> m (foldl step (step s e) es)"
    by (rule Cons.IH) (rule inv_step [OF Cons.prems])
  finally show ?case by simp
qed

end

end
