(* ===== verification/GoStrings.thy ===== *)
theory GoStrings
  imports Prelude
begin

text \<open>
  The part of Go's \<open>strings\<close>, \<open>unicode\<close>, \<open>utf8\<close>, \<open>hex\<close> and \<open>strconv\<close> packages the
  program uses, over byte strings: the UTF-8 decoder with Go's treatment of invalid
  bytes (one byte, \<open>U+FFFD\<close>), \<open>TrimSpace\<close>, \<open>ToLower\<close> with the simple case mapping
  of Unicode, prefixes, \<open>IndexByte\<close>, hexadecimal digits and decimal numbers.
  The lemmas show that decoding inverts encoding and that trimming and lower-casing are
  idempotent, which is what makes a room name canonical.
\<close>

section \<open>UTF-8\<close>

definition rune_error :: nat where
  "rune_error = 65533"

definition valid_rune :: "nat \<Rightarrow> bool" where
  "valid_rune r \<longleftrightarrow> r < 55296 \<or> (57344 \<le> r \<and> r < 1114112)"

definition cont_byte :: "nat \<Rightarrow> bool" where
  "cont_byte b \<longleftrightarrow> 128 \<le> b \<and> b < 192"

definition dec2 :: "nat \<Rightarrow> nat list \<Rightarrow> nat \<times> nat" where
  "dec2 a r = (case r of b # _ \<Rightarrow>
       if cont_byte b then ((a - 192) * 64 + (b - 128), 2) else (rune_error, 1)
     | _ \<Rightarrow> (rune_error, 1))"

definition dec3 :: "nat \<Rightarrow> nat list \<Rightarrow> nat \<times> nat" where
  "dec3 a r = (case r of b # c # _ \<Rightarrow>
       if cont_byte b \<and> cont_byte c \<and> (a = 224 \<longrightarrow> 160 \<le> b) \<and> (a = 237 \<longrightarrow> b < 160)
       then ((a - 224) * 4096 + (b - 128) * 64 + (c - 128), 3) else (rune_error, 1)
     | _ \<Rightarrow> (rune_error, 1))"

definition dec4 :: "nat \<Rightarrow> nat list \<Rightarrow> nat \<times> nat" where
  "dec4 a r = (case r of b # c # d # _ \<Rightarrow>
       if cont_byte b \<and> cont_byte c \<and> cont_byte d \<and> (a = 240 \<longrightarrow> 144 \<le> b) \<and> (a = 244 \<longrightarrow> b < 144)
       then ((a - 240) * 262144 + (b - 128) * 4096 + (c - 128) * 64 + (d - 128), 4)
       else (rune_error, 1)
     | _ \<Rightarrow> (rune_error, 1))"

text \<open>\<open>utf8.DecodeRune\<close>: the rune and how many bytes it took.\<close>

fun decode_rune :: "nat list \<Rightarrow> nat \<times> nat" where
  "decode_rune [] = (rune_error, 0)"
| "decode_rune (a # r) =
     (if a < 128 then (a, 1)
      else if a < 194 then (rune_error, 1)
      else if a < 224 then dec2 a r
      else if a < 240 then dec3 a r
      else if a < 245 then dec4 a r
      else (rune_error, 1))"

text \<open>\<open>utf8.AppendRune\<close>.\<close>

definition encode_valid :: "nat \<Rightarrow> nat list" where
  "encode_valid r =
    (if r < 128 then [r]
     else if r < 2048 then [192 + r div 64, 128 + r mod 64]
     else if r < 65536 then [224 + r div 4096, 128 + (r div 64) mod 64, 128 + r mod 64]
     else [240 + r div 262144, 128 + (r div 4096) mod 64, 128 + (r div 64) mod 64, 128 + r mod 64])"

definition encode_rune :: "nat \<Rightarrow> nat list" where
  "encode_rune r = encode_valid (if valid_rune r then r else rune_error)"

lemma valid_rune_error [simp]: "valid_rune rune_error"
  by (simp add: valid_rune_def rune_error_def)

lemma decode_rune_width: "bs \<noteq> [] \<Longrightarrow> 1 \<le> snd (decode_rune bs) \<and> snd (decode_rune bs) \<le> length bs"
  by (cases bs) (auto simp: dec2_def dec3_def dec4_def split: list.splits)

text \<open>A range over a string: each rune with the bytes it came from.\<close>

function rune_chunks :: "nat list \<Rightarrow> (nat \<times> nat list) list" where
  "rune_chunks bs = (if bs = [] then []
     else (fst (decode_rune bs), take (snd (decode_rune bs)) bs)
          # rune_chunks (drop (snd (decode_rune bs)) bs))"
  by pat_completeness auto
termination
proof (relation "measure length", goal_cases)
  case 1
  then show ?case by simp
next
  case (2 bs)
  then show ?case using decode_rune_width [of bs] by (cases bs) auto
qed

declare rune_chunks.simps [simp del]

definition bytes_of :: "string \<Rightarrow> nat list" where
  "bytes_of s = map of_char s"

definition string_of_bytes :: "nat list \<Rightarrow> string" where
  "string_of_bytes bs = map char_of bs"

text \<open>\<open>[]rune(s)\<close> and \<open>string(rs)\<close>.\<close>

definition runes :: "string \<Rightarrow> nat list" where
  "runes s = map fst (rune_chunks (bytes_of s))"

definition string_of_runes :: "nat list \<Rightarrow> string" where
  "string_of_runes rs = string_of_bytes (concat (map encode_rune rs))"

text \<open>
  \<open>ClipRunes\<close>-style truncation, \<open>TrimSpace\<close> and \<open>ToLower\<close> are built on these.
\<close>

definition is_space :: "nat \<Rightarrow> bool" where
  "is_space r \<longleftrightarrow> (9 \<le> r \<and> r \<le> 13) \<or> r = 32 \<or> r = 133 \<or> r = 160 \<or> r = 5760
     \<or> (8192 \<le> r \<and> r \<le> 8202) \<or> r = 8232 \<or> r = 8233 \<or> r = 8239 \<or> r = 8287 \<or> r = 12288"

definition strip_by :: "('a \<Rightarrow> bool) \<Rightarrow> 'a list \<Rightarrow> 'a list" where
  "strip_by P xs = rev (dropWhile P (rev (dropWhile P xs)))"

definition space_chunk :: "nat \<times> nat list \<Rightarrow> bool" where
  "space_chunk c \<longleftrightarrow> is_space (fst c)"

definition trim_space :: "string \<Rightarrow> string" where
  "trim_space s =
     string_of_bytes (concat (map snd (strip_by space_chunk (rune_chunks (bytes_of s)))))"

text \<open>
  The simple lower-case mapping of Unicode outside ASCII, in blocks of ranges: first
  rune, last rune, stride, and the rune the first one maps to (the others map in step).
\<close>

type_synonym case_range = "nat \<times> nat \<times> nat \<times> nat"

definition lower_table :: "(nat \<times> nat \<times> case_range list) list" where
  "lower_table = [
    (192, 390, [
     (192, 214, 1, 224), (216, 222, 1, 248), (256, 302, 2, 257), (304, 304, 1, 105),
     (306, 310, 2, 307), (313, 327, 2, 314), (330, 374, 2, 331), (376, 376, 1, 255),
     (377, 381, 2, 378), (385, 385, 1, 595), (386, 388, 2, 387), (390, 390, 1, 596)]),
    (391, 408, [
     (391, 391, 1, 392), (393, 394, 1, 598), (395, 395, 1, 396), (398, 398, 1, 477),
     (399, 399, 1, 601), (400, 400, 1, 603), (401, 401, 1, 402), (403, 403, 1, 608),
     (404, 404, 1, 611), (406, 406, 1, 617), (407, 407, 1, 616), (408, 408, 1, 409)]),
    (412, 437, [
     (412, 412, 1, 623), (413, 413, 1, 626), (415, 415, 1, 629), (416, 420, 2, 417),
     (422, 422, 1, 640), (423, 423, 1, 424), (425, 425, 1, 643), (428, 428, 1, 429),
     (430, 430, 1, 648), (431, 431, 1, 432), (433, 434, 1, 650), (435, 437, 2, 436)]),
    (439, 500, [
     (439, 439, 1, 658), (440, 440, 1, 441), (444, 444, 1, 445), (452, 452, 1, 454),
     (453, 453, 1, 454), (455, 455, 1, 457), (456, 456, 1, 457), (458, 458, 1, 460),
     (459, 475, 2, 460), (478, 494, 2, 479), (497, 497, 1, 499), (498, 500, 2, 499)]),
    (502, 580, [
     (502, 502, 1, 405), (503, 503, 1, 447), (504, 542, 2, 505), (544, 544, 1, 414),
     (546, 562, 2, 547), (570, 570, 1, 11365), (571, 571, 1, 572), (573, 573, 1, 410),
     (574, 574, 1, 11366), (577, 577, 1, 578), (579, 579, 1, 384), (580, 580, 1, 649)]),
    (581, 975, [
     (581, 581, 1, 652), (582, 590, 2, 583), (880, 882, 2, 881), (886, 886, 1, 887),
     (895, 895, 1, 1011), (902, 902, 1, 940), (904, 906, 1, 941), (908, 908, 1, 972),
     (910, 911, 1, 973), (913, 929, 1, 945), (931, 939, 1, 963), (975, 975, 1, 983)]),
    (984, 1229, [
     (984, 1006, 2, 985), (1012, 1012, 1, 952), (1015, 1015, 1, 1016), (1017, 1017, 1, 1010),
     (1018, 1018, 1, 1019), (1021, 1023, 1, 891), (1024, 1039, 1, 1104),
     (1040, 1071, 1, 1072), (1120, 1152, 2, 1121), (1162, 1214, 2, 1163),
     (1216, 1216, 1, 1231), (1217, 1229, 2, 1218)]),
    (1232, 7934, [
     (1232, 1326, 2, 1233), (1329, 1366, 1, 1377), (4256, 4293, 1, 11520),
     (4295, 4295, 1, 11559), (4301, 4301, 1, 11565), (5024, 5103, 1, 43888),
     (5104, 5109, 1, 5112), (7312, 7354, 1, 4304), (7357, 7359, 1, 4349),
     (7680, 7828, 2, 7681), (7838, 7838, 1, 223), (7840, 7934, 2, 7841)]),
    (7944, 8123, [
     (7944, 7951, 1, 7936), (7960, 7965, 1, 7952), (7976, 7983, 1, 7968),
     (7992, 7999, 1, 7984), (8008, 8013, 1, 8000), (8025, 8031, 2, 8017),
     (8040, 8047, 1, 8032), (8072, 8079, 1, 8064), (8088, 8095, 1, 8080),
     (8104, 8111, 1, 8096), (8120, 8121, 1, 8112), (8122, 8123, 1, 8048)]),
    (8124, 8486, [
     (8124, 8124, 1, 8115), (8136, 8139, 1, 8050), (8140, 8140, 1, 8131),
     (8152, 8153, 1, 8144), (8154, 8155, 1, 8054), (8168, 8169, 1, 8160),
     (8170, 8171, 1, 8058), (8172, 8172, 1, 8165), (8184, 8185, 1, 8056),
     (8186, 8187, 1, 8060), (8188, 8188, 1, 8179), (8486, 8486, 1, 969)]),
    (8490, 11371, [
     (8490, 8490, 1, 107), (8491, 8491, 1, 229), (8498, 8498, 1, 8526),
     (8544, 8559, 1, 8560), (8579, 8579, 1, 8580), (9398, 9423, 1, 9424),
     (11264, 11311, 1, 11312), (11360, 11360, 1, 11361), (11362, 11362, 1, 619),
     (11363, 11363, 1, 7549), (11364, 11364, 1, 637), (11367, 11371, 2, 11368)]),
    (11373, 42650, [
     (11373, 11373, 1, 593), (11374, 11374, 1, 625), (11375, 11375, 1, 592),
     (11376, 11376, 1, 594), (11378, 11378, 1, 11379), (11381, 11381, 1, 11382),
     (11390, 11391, 1, 575), (11392, 11490, 2, 11393), (11499, 11501, 2, 11500),
     (11506, 11506, 1, 11507), (42560, 42604, 2, 42561), (42624, 42650, 2, 42625)]),
    (42786, 42924, [
     (42786, 42798, 2, 42787), (42802, 42862, 2, 42803), (42873, 42875, 2, 42874),
     (42877, 42877, 1, 7545), (42878, 42886, 2, 42879), (42891, 42891, 1, 42892),
     (42893, 42893, 1, 613), (42896, 42898, 2, 42897), (42902, 42920, 2, 42903),
     (42922, 42922, 1, 614), (42923, 42923, 1, 604), (42924, 42924, 1, 609)]),
    (42925, 42960, [
     (42925, 42925, 1, 620), (42926, 42926, 1, 618), (42928, 42928, 1, 670),
     (42929, 42929, 1, 647), (42930, 42930, 1, 669), (42931, 42931, 1, 43859),
     (42932, 42946, 2, 42933), (42948, 42948, 1, 42900), (42949, 42949, 1, 642),
     (42950, 42950, 1, 7566), (42951, 42953, 2, 42952), (42960, 42960, 1, 42961)]),
    (42966, 93791, [
     (42966, 42968, 2, 42967), (42997, 42997, 1, 42998), (65313, 65338, 1, 65345),
     (66560, 66599, 1, 66600), (66736, 66771, 1, 66776), (66928, 66938, 1, 66967),
     (66940, 66954, 1, 66979), (66956, 66962, 1, 66995), (66964, 66965, 1, 67003),
     (68736, 68786, 1, 68800), (71840, 71871, 1, 71872), (93760, 93791, 1, 93792)]),
    (125184, 125217, [
     (125184, 125217, 1, 125218)])]"

fun range_hit :: "case_range \<Rightarrow> nat \<Rightarrow> bool" where
  "range_hit (lo, hi, st, t) r \<longleftrightarrow> lo \<le> r \<and> r \<le> hi \<and> st dvd (r - lo)"

fun range_image :: "case_range \<Rightarrow> nat \<Rightarrow> nat" where
  "range_image (lo, hi, st, t) r = t + (r - lo)"

fun lower_lookup :: "case_range list \<Rightarrow> nat \<Rightarrow> nat" where
  "lower_lookup [] r = r"
| "lower_lookup (e # es) r = (if range_hit e r then range_image e r else lower_lookup es r)"

fun block_lookup :: "(nat \<times> nat \<times> case_range list) list \<Rightarrow> nat \<Rightarrow> nat" where
  "block_lookup [] r = r"
| "block_lookup ((lo, hi, es) # bs) r = (if lo \<le> r \<and> r \<le> hi then lower_lookup es r else block_lookup bs r)"

definition lower_rune :: "nat \<Rightarrow> nat" where
  "lower_rune r = (if r < 128 then (if 65 \<le> r \<and> r \<le> 90 then r + 32 else r)
     else block_lookup lower_table r)"

definition to_lower :: "string \<Rightarrow> string" where
  "to_lower s = string_of_runes (map lower_rune (runes s))"

section \<open>Prefixes, indices, numbers\<close>

definition has_prefix :: "string \<Rightarrow> string \<Rightarrow> bool" where
  "has_prefix s p \<longleftrightarrow> take (length p) s = p"

definition trim_prefix :: "string \<Rightarrow> string \<Rightarrow> string" where
  "trim_prefix s p = (if has_prefix s p then drop (length p) s else s)"

text \<open>\<open>strings.IndexByte\<close>: \<open>None\<close> is -1.\<close>

fun index_byte :: "string \<Rightarrow> char \<Rightarrow> nat option" where
  "index_byte [] c = None"
| "index_byte (x # xs) c = (if x = c then Some 0 else map_option Suc (index_byte xs c))"

definition is_hex_byte :: "char \<Rightarrow> bool" where
  "is_hex_byte c = (let b = (of_char c :: nat) in
     (48 \<le> b \<and> b \<le> 57) \<or> (97 \<le> b \<and> b \<le> 102) \<or> (65 \<le> b \<and> b \<le> 70))"

definition hex_digit :: "nat \<Rightarrow> char" where
  "hex_digit n = ''0123456789abcdef'' ! (n mod 16)"

text \<open>\<open>hex.EncodeToString\<close>.\<close>

definition hex_byte :: "nat \<Rightarrow> string" where
  "hex_byte b = [hex_digit (b div 16), hex_digit b]"

definition hex_encode :: "nat list \<Rightarrow> string" where
  "hex_encode bs = concat (map hex_byte bs)"

fun decimal :: "nat \<Rightarrow> string" where
  "decimal n = (if n < 10 then [char_of (48 + n)] else decimal (n div 10) @ [char_of (48 + n mod 10)])"

declare decimal.simps [simp del]

definition decimal_int :: "int \<Rightarrow> string" where
  "decimal_int i = (if i < 0 then ''-'' @ decimal (nat (- i)) else decimal (nat i))"

lemma has_prefix_append [simp]: "has_prefix (p @ s) p"
  by (simp add: has_prefix_def)

lemma trim_prefix_append [simp]: "trim_prefix (p @ s) p = s"
  by (simp add: trim_prefix_def)

lemma index_byte_split:
  "index_byte s c = Some i \<Longrightarrow> s = take i s @ c # drop (Suc i) s \<and> c \<notin> set (take i s)"
  by (induction s arbitrary: i) (auto split: if_splits)

lemma index_byte_append: "c \<notin> set xs \<Longrightarrow> index_byte (xs @ c # ys) c = Some (length xs)"
  by (induction xs) auto

section \<open>Decoding inverts encoding\<close>

lemma div_steps: "r div 4096 = r div 64 div 64" "r div 262144 = r div 64 div 64 div 64" for r :: nat
  by (simp_all add: div_mult2_eq [symmetric])

lemma join2: "r div 64 * 64 + r mod 64 = r" for r :: nat
  by simp

lemma join3: "r div 4096 * 4096 + r div 64 mod 64 * 64 + r mod 64 = r" for r :: nat
proof -
  have "r div 64 div 64 * 64 + r div 64 mod 64 = r div 64" by simp
  moreover have "r div 64 * 64 + r mod 64 = r" by simp
  ultimately show ?thesis unfolding div_steps by linarith
qed

lemma join4: "r div 262144 * 262144 + r div 4096 mod 64 * 4096 + r div 64 mod 64 * 64 + r mod 64 = r" for r :: nat
proof -
  have scale: "a * 262144 + b * 4096 + c * 64 + d = r"
    if "a * 4096 + b * 64 + c = p" "p * 64 + d = r" for a b c d p :: nat
    using that by linarith
  show ?thesis
  proof (rule scale)
    show "r div 262144 * 4096 + r div 4096 mod 64 * 64 + r div 64 mod 64 = r div 64"
      using join3 [of "r div 64"] by (simp add: div_mult2_eq [symmetric])
    show "r div 64 * 64 + r mod 64 = r" by simp
  qed
qed

lemma decode_encode:
  assumes "valid_rune r"
  shows "decode_rune (encode_rune r @ rest) = (r, length (encode_rune r))"
proof -
  have m: "r mod 64 < 64" "r div 64 mod 64 < 64" by simp_all
  have surr: "r div 64 mod 64 < 32" if "r div 4096 = 13"
    using assms that join3 [of r] m by (auto simp: valid_rune_def)
  have low3: "32 \<le> r div 64 mod 64" if "r div 4096 = 0" "2048 \<le> r"
    using that join3 [of r] m by linarith
  have top: "r div 4096 mod 64 < 16" if "r div 262144 = 4"
    using assms that join4 [of r] m by (auto simp: valid_rune_def)
  have low4: "16 \<le> r div 4096 mod 64" if "r div 262144 = 0" "65536 \<le> r"
    using that join4 [of r] m by linarith
  consider "r < 128" | "128 \<le> r" "r < 2048" | "2048 \<le> r" "r < 65536" | "65536 \<le> r" by linarith
  then show ?thesis
  proof cases
    case 1
    then show ?thesis using assms by (simp add: encode_rune_def encode_valid_def)
  next
    case 2
    then show ?thesis using assms
      by (auto simp: encode_rune_def encode_valid_def dec2_def cont_byte_def)
  next
    case 3
    then show ?thesis using assms surr low3
      by (auto simp: encode_rune_def encode_valid_def dec3_def cont_byte_def join3)
  next
    case 4
    then have "r div 262144 < 5" using assms by (auto simp: valid_rune_def)
    with 4 show ?thesis using assms top low4
      by (auto simp: encode_rune_def encode_valid_def dec4_def cont_byte_def join4)
  qed
qed

lemma decode_valid: "valid_rune (fst (decode_rune bs))"
proof (cases bs)
  case Nil
  then show ?thesis by simp
next
  case (Cons a r)
  have e: "valid_rune rune_error" by simp
  have d2: "valid_rune (fst (dec2 a r))" if "194 \<le> a" "a < 224"
    using that e by (auto simp: dec2_def cont_byte_def valid_rune_def split: list.splits)
  have d3: "valid_rune (fst (dec3 a r))" if "224 \<le> a" "a < 240"
  proof -
    consider "a < 237" | "a = 237" | "237 < a" by linarith
    then show ?thesis
      by cases (use that e in \<open>auto simp: dec3_def cont_byte_def valid_rune_def split: list.splits\<close>)
  qed
  have d4: "valid_rune (fst (dec4 a r))" if "240 \<le> a" "a < 245"
    using that e by (auto simp: dec4_def cont_byte_def valid_rune_def split: list.splits)
  have "valid_rune a" if "a < 128" using that by (simp add: valid_rune_def)
  with Cons d2 d3 d4 show ?thesis by auto
qed

lemma encode_length: "encode_rune r \<noteq> []" "length (encode_rune r) \<ge> 1"
  by (auto simp: encode_rune_def encode_valid_def)

lemma encode_bytes: "\<forall>b \<in> set (encode_rune r). b < 256"
proof -
  have "\<forall>b \<in> set (encode_valid r). b < 256" if "r < 1114112" for r
    using that by (auto simp: encode_valid_def)
  moreover have "(if valid_rune r then r else rune_error) < 1114112"
    by (auto simp: valid_rune_def rune_error_def)
  ultimately show ?thesis unfolding encode_rune_def by blast
qed

lemma chunks_encode:
  assumes "\<forall>r \<in> set rs. valid_rune r"
  shows "rune_chunks (concat (map encode_rune rs)) = map (\<lambda>r. (r, encode_rune r)) rs"
  using assms
proof (induction rs)
  case Nil
  then show ?case by (simp add: rune_chunks.simps)
next
  case (Cons r rs)
  then show ?case
    using decode_encode [of r "concat (map encode_rune rs)"]
    by (simp add: rune_chunks.simps [of "encode_rune r @ _"] encode_length)
qed

lemma bytes_of_string_of_bytes: "\<forall>b \<in> set bs. b < 256 \<Longrightarrow> bytes_of (string_of_bytes bs) = bs"
  by (auto simp: bytes_of_def string_of_bytes_def intro!: map_idI)

lemma string_of_bytes_of [simp]: "string_of_bytes (bytes_of s) = s"
  by (simp add: bytes_of_def string_of_bytes_def)

lemma runes_string_of_runes:
  assumes "\<forall>r \<in> set rs. valid_rune r"
  shows "runes (string_of_runes rs) = rs"
proof -
  have "\<forall>b \<in> set (concat (map encode_rune rs)). b < 256"
    using encode_bytes by auto
  then show ?thesis
    using assms by (simp add: runes_def string_of_runes_def bytes_of_string_of_bytes chunks_encode comp_def)
qed

lemma runes_valid: "\<forall>r \<in> set (runes s). valid_rune r"
proof -
  have "\<forall>c \<in> set (rune_chunks bs). valid_rune (fst c)" for bs
    by (induction bs rule: rune_chunks.induct)
      (subst rune_chunks.simps, auto simp: decode_valid)
  then show ?thesis by (auto simp: runes_def)
qed


text \<open>Trimming keeps whole chunks, so the decoder sees the same runes in what is left.\<close>

lemma decode_rune_prefix:
  assumes "decode_rune (xs @ ys) = (r, w)" and "w \<le> length xs" and "xs \<noteq> []"
  shows "decode_rune xs = (r, w)"
proof -
  obtain a xs' where xs: "xs = a # xs'" using assms(3) by (cases xs) auto
  have d2: "dec2 a xs' = dec2 a (xs' @ ys)" if "snd (dec2 a (xs' @ ys)) \<le> Suc (length xs')"
    using that by (auto simp: dec2_def split: list.splits if_splits)
  have d3: "dec3 a xs' = dec3 a (xs' @ ys)" if "snd (dec3 a (xs' @ ys)) \<le> Suc (length xs')"
    using that by (auto simp: dec3_def append_eq_Cons_conv split: list.splits if_splits)
  have d4: "dec4 a xs' = dec4 a (xs' @ ys)" if "snd (dec4 a (xs' @ ys)) \<le> Suc (length xs')"
    using that by (auto simp: dec4_def append_eq_Cons_conv split: list.splits if_splits)
  from assms d2 d3 d4 show ?thesis by (auto simp: xs split: if_splits)
qed

lemma chunks_concat: "concat (map snd (rune_chunks bs)) = bs"
proof (induction bs rule: rune_chunks.induct)
  case (1 bs)
  then show ?case
    by (cases "bs = []") (simp_all add: rune_chunks.simps [of bs] rune_chunks.simps [of "[]"])
qed

lemma chunks_prefix:
  "rune_chunks bs = cs @ ds \<Longrightarrow> rune_chunks (concat (map snd cs)) = cs"
proof (induction cs arbitrary: bs)
  case Nil
  then show ?case by (simp add: rune_chunks.simps)
next
  case (Cons c cs)
  have ne: "bs \<noteq> []" using Cons.prems by (auto simp: rune_chunks.simps)
  let ?w = "snd (decode_rune bs)"
  from Cons.prems ne have c: "c = (fst (decode_rune bs), take ?w bs)"
    and rest: "rune_chunks (drop ?w bs) = cs @ ds"
    by (simp_all add: rune_chunks.simps [of bs])
  from Cons.IH [OF rest] have IH: "rune_chunks (concat (map snd cs)) = cs" .
  have w: "1 \<le> ?w" "?w \<le> length bs" using decode_rune_width [OF ne] by auto
  let ?xs = "take ?w bs @ concat (map snd cs)"
  have "bs = ?xs @ concat (map snd ds)"
    using chunks_concat [of "drop ?w bs"] rest by (metis append.assoc append_take_drop_id concat_append map_append)
  then have "decode_rune (?xs @ concat (map snd ds)) = (fst (decode_rune bs), ?w)" by simp
  then have d: "decode_rune ?xs = (fst (decode_rune bs), ?w)"
    by (rule decode_rune_prefix) (use w in auto)
  have ne': "?xs \<noteq> []" using w by auto
  show ?case
    using ne' w by (simp add: c rune_chunks.simps [of ?xs] d IH)
qed

lemma chunks_suffix: "rune_chunks bs = cs @ ds \<Longrightarrow> \<exists>bs'. rune_chunks bs' = ds"
proof (induction cs arbitrary: bs)
  case Nil
  then show ?case by auto
next
  case (Cons c cs)
  then have "bs \<noteq> []" by (auto simp: rune_chunks.simps)
  with Cons show ?case by (simp add: rune_chunks.simps [of bs]) blast
qed

lemma chunk_bytes: "b \<in> set (concat (map snd (rune_chunks bs))) \<Longrightarrow> b \<in> set bs"
  by (simp only: chunks_concat)

lemma strip_by_split: "\<exists>us vs. xs = us @ strip_by P xs @ vs"
proof -
  let ?ys = "dropWhile P xs"
  have "xs = takeWhile P xs @ ?ys" by simp
  also have "?ys = rev (rev ?ys)" by simp
  also have "rev ?ys = takeWhile P (rev ?ys) @ dropWhile P (rev ?ys)" by simp
  finally show ?thesis unfolding strip_by_def by (metis rev_append)
qed

lemma strip_by_map: "strip_by P (map f xs) = map f (strip_by (P \<circ> f) xs)"
  by (simp add: strip_by_def dropWhile_map rev_map)

lemma strip_by_idem [simp]: "strip_by P (strip_by P xs) = strip_by P xs"
proof -
  let ?ys = "rev (dropWhile P (rev (dropWhile P xs)))"
  have "dropWhile P ?ys = ?ys"
  proof (cases "?ys = []")
    case False
    have "?ys @ rev (takeWhile P (rev (dropWhile P xs))) = dropWhile P xs"
      by (metis rev_append rev_rev_ident takeWhile_dropWhile_id)
    then have "hd ?ys = hd (dropWhile P xs)" and "dropWhile P xs \<noteq> []"
      using False by (metis hd_append2, metis append_is_Nil_conv)
    then have "\<not> P (hd ?ys)" by (simp add: hd_dropWhile)
    with False show ?thesis by (cases ?ys) auto
  next
    case True
    then show ?thesis by (metis dropWhile.simps(1))
  qed
  then show ?thesis by (simp add: strip_by_def dropWhile_idem)
qed

lemma runes_trim_space: "runes (trim_space s) = strip_by is_space (runes s)"
proof -
  let ?cs = "rune_chunks (bytes_of s)"
  let ?m = "strip_by space_chunk ?cs"
  obtain us vs where split: "?cs = us @ ?m @ vs" using strip_by_split by blast
  obtain bs' where "rune_chunks bs' = ?m @ vs" using chunks_suffix [OF split] by auto
  then have m: "rune_chunks (concat (map snd ?m)) = ?m" by (rule chunks_prefix)
  have "set (concat (map snd ?m)) \<subseteq> set (concat (map snd ?cs))"
    by (subst (2) split) auto
  then have "\<forall>b \<in> set (concat (map snd ?m)). b < 256"
    unfolding chunks_concat by (auto simp: bytes_of_def)
  then have "runes (trim_space s) = map fst ?m"
    by (simp add: runes_def trim_space_def bytes_of_string_of_bytes m)
  also have "\<dots> = strip_by is_space (map fst ?cs)"
    by (simp add: strip_by_map space_chunk_def [abs_def] comp_def)
  finally show ?thesis by (simp add: runes_def)
qed

section \<open>Lower-casing and trimming are idempotent\<close>

text \<open>
  What the table has to satisfy, as a check the kernel runs over its entries: no entry
  maps into the source of another one, into a space or out of the valid runes.
\<close>

fun apart :: "case_range \<Rightarrow> case_range \<Rightarrow> bool" where
  "apart (lo, hi, st, t) (lo', hi', st', t') \<longleftrightarrow>
     t + (hi - lo) < lo' \<or> hi' < t \<or> (st' = 2 \<and> (st = 2 \<or> lo = hi) \<and> odd (t + lo'))"

fun apart_block :: "case_range \<Rightarrow> nat \<times> nat \<times> case_range list \<Rightarrow> bool" where
  "apart_block (lo, hi, st, t) (blo, bhi, es) \<longleftrightarrow>
     t + (hi - lo) < blo \<or> bhi < t \<or> list_all (apart (lo, hi, st, t)) es"

definition space_runes :: "nat list" where
  "space_runes = [9, 10, 11, 12, 13, 32, 133, 160, 5760, 8192, 8193, 8194, 8195, 8196, 8197, 8198,
     8199, 8200, 8201, 8202, 8232, 8233, 8239, 8287, 12288]"

fun space_clear :: "case_range \<Rightarrow> nat \<Rightarrow> bool" where
  "space_clear (lo, hi, st, t) z \<longleftrightarrow> (z < lo \<or> hi < z) \<and> (z < t \<or> t + (hi - lo) < z)"

fun entry_ok :: "case_range \<Rightarrow> bool" where
  "entry_ok (lo, hi, st, t) \<longleftrightarrow> 128 \<le> lo \<and> lo \<le> hi \<and> (st = 1 \<or> st = 2) \<and> (128 \<le> t \<or> (90 < t \<and> lo = hi))
     \<and> (t + (hi - lo) < 55296 \<or> (57344 \<le> t \<and> t + (hi - lo) < 1114112))"

definition table_entries :: "case_range list" where
  "table_entries = concat (map (snd \<circ> snd) lower_table)"

lemma table_entries_ok: "list_all entry_ok table_entries"
  by code_simp

lemma table_spaces_ok: "list_all (\<lambda>e. list_all (space_clear e) space_runes) table_entries"
  by code_simp

lemma table_apart_ok: "list_all (\<lambda>e. list_all (apart_block e) lower_table) table_entries"
  by code_simp

lemma is_space_iff: "is_space r \<longleftrightarrow> r \<in> set space_runes"
proof
  have "r = 9 \<or> r = 10 \<or> r = 11 \<or> r = 12 \<or> r = 13" if "9 \<le> r" "r \<le> 13"
    using that by presburger
  moreover have "r = 8192 \<or> r = 8193 \<or> r = 8194 \<or> r = 8195 \<or> r = 8196 \<or> r = 8197 \<or> r = 8198 \<or> r = 8199
      \<or> r = 8200 \<or> r = 8201 \<or> r = 8202" if "8192 \<le> r" "r \<le> 8202"
    using that by presburger
  moreover assume "is_space r"
  ultimately show "r \<in> set space_runes"
    unfolding is_space_def space_runes_def by auto
qed (auto simp: is_space_def space_runes_def)

lemma lookup_cases:
  "lower_lookup T r = r \<or> (\<exists>e \<in> set T. range_hit e r \<and> lower_lookup T r = range_image e r)"
  by (induction T r rule: lower_lookup.induct) auto

lemma lookup_fixed: "(\<And>e. e \<in> set T \<Longrightarrow> \<not> range_hit e r) \<Longrightarrow> lower_lookup T r = r"
  by (induction T r rule: lower_lookup.induct) auto

lemma block_cases:
  "block_lookup B r = r \<or> (\<exists>b \<in> set B. \<exists>e \<in> set (snd (snd b)). range_hit e r \<and> block_lookup B r = range_image e r)"
  by (induction B r rule: block_lookup.induct) (use lookup_cases in fastforce)+

lemma block_fixed:
  "(\<And>blo bhi es e. (blo, bhi, es) \<in> set B \<Longrightarrow> blo \<le> r \<Longrightarrow> r \<le> bhi \<Longrightarrow> e \<in> set es \<Longrightarrow> \<not> range_hit e r)
   \<Longrightarrow> block_lookup B r = r"
proof (induction B r rule: block_lookup.induct)
  case (2 lo hi es bs r)
  show ?case
  proof (cases "lo \<le> r \<and> r \<le> hi")
    case True
    have "lower_lookup es r = r"
      by (rule lookup_fixed, rule "2.prems" [of lo hi es]) (use True in simp_all)
    with True show ?thesis by simp
  next
    case False
    with "2.IH" [OF False] "2.prems" show ?thesis by auto
  qed
qed simp

lemma lower_rune_cases:
  obtains (same) "lower_rune r = r"
  | (ascii) "65 \<le> r" "r \<le> 90" "lower_rune r = r + 32"
  | (table) e where "e \<in> set table_entries" "128 \<le> r" "range_hit e r" "lower_rune r = range_image e r"
proof (cases "r < 128")
  case True
  then show thesis
    using same ascii by (cases "65 \<le> r \<and> r \<le> 90") (auto simp: lower_rune_def)
next
  case False
  then have eq: "lower_rune r = block_lookup lower_table r" by (simp add: lower_rune_def)
  show thesis
  proof (cases "block_lookup lower_table r = r")
    case True
    with eq show thesis by (intro same) simp
  next
    case no: False
    with block_cases [of lower_table r] obtain b e
      where be: "b \<in> set lower_table" "e \<in> set (snd (snd b))"
        and hit: "range_hit e r" "block_lookup lower_table r = range_image e r" by blast
    have "e \<in> set table_entries"
      using be unfolding table_entries_def by force
    with hit False eq show thesis by (intro table [of e]) simp_all
  qed
qed

lemma entry_okD: "e \<in> set table_entries \<Longrightarrow> entry_ok e"
  using table_entries_ok by (simp add: list_all_iff)

lemma lower_rune_idem [simp]: "lower_rune (lower_rune r) = lower_rune r"
proof (cases r rule: lower_rune_cases)
  case (table e)
  obtain lo hi st t where e: "e = (lo, hi, st, t)" by (cases e)
  have ok: "entry_ok (lo, hi, st, t)"
    using entry_okD [OF table(1)] by (simp only: e)
  let ?x = "t + (r - lo)"
  have "block_lookup lower_table ?x = ?x"
  proof (rule block_fixed)
    fix blo bhi es e'
    assume b: "(blo, bhi, es) \<in> set lower_table" "blo \<le> ?x" "?x \<le> bhi" "e' \<in> set es"
    obtain lo' hi' st' t' where e': "e' = (lo', hi', st', t')" by (cases e')
    have "apart_block (lo, hi, st, t) (blo, bhi, es)"
      using table_apart_ok table(1) b(1) unfolding list_all_iff e by blast
    with b table(3) have "apart (lo, hi, st, t) e'"
      by (auto simp: list_all_iff e)
    with ok table(3) show "\<not> range_hit e' ?x"
      by (auto simp: e e')
  qed
  then show ?thesis using table ok by (auto simp: lower_rune_def e)
qed (auto simp: lower_rune_def)

lemma lower_rune_valid: "valid_rune r \<Longrightarrow> valid_rune (lower_rune r)"
proof (cases r rule: lower_rune_cases)
  case (table e)
  obtain lo hi st t where e: "e = (lo, hi, st, t)" by (cases e)
  from table(2-4) entry_okD [OF table(1)] show ?thesis
    by (auto simp: e valid_rune_def)
qed (auto simp: valid_rune_def)

lemma lower_rune_space [simp]: "is_space (lower_rune r) \<longleftrightarrow> is_space r"
proof (cases r rule: lower_rune_cases)
  case ascii
  then show ?thesis by (auto simp: is_space_def)
next
  case (table e)
  have "\<forall>z \<in> set space_runes. space_clear e z"
    using table_spaces_ok table(1) by (auto simp: list_all_iff)
  with table(3,4) show ?thesis unfolding is_space_iff by (cases e) fastforce
qed simp

text \<open>Trimming and lower-casing a string: the two facts a canonical room name rests on.\<close>

lemma runes_to_lower: "runes (to_lower s) = map lower_rune (runes s)"
  using runes_valid [of s] by (simp add: to_lower_def runes_string_of_runes lower_rune_valid)

lemma to_lower_trim_idem [simp]:
  "to_lower (trim_space (to_lower (trim_space s))) = to_lower (trim_space s)"
proof -
  have "runes (trim_space (to_lower (trim_space s))) = map lower_rune (runes (trim_space s))"
    by (simp add: runes_to_lower runes_trim_space strip_by_map comp_def)
  then have "to_lower (trim_space (to_lower (trim_space s)))
      = string_of_runes (map lower_rune (map lower_rune (runes (trim_space s))))"
    by (simp only: to_lower_def [of "trim_space (to_lower (trim_space s))"])
  also have "map lower_rune (map lower_rune (runes (trim_space s))) = map lower_rune (runes (trim_space s))"
    by simp
  finally show ?thesis by (simp only: to_lower_def [of "trim_space s"])
qed

end
