(* ===== verification/Types.thy ===== *)
theory Types
  imports GoStrings
begin

text \<open>
  The model of \<open>chat/types.go\<close> and of the pure half of \<open>chat/paths.go\<close>: identifiers and
  conversation names, presence, messages, conversations, transfers, identity; the folding
  of room names, colours and nicknames. The lemmas show that conversation names are
  injective and invertible, that the server's name of a one-to-one conversation does not
  depend on who asks, and that a room list is canonical after one pass.
\<close>

section \<open>Identifiers and conversation names\<close>

type_synonym peer_id = string
type_synonym conv_id = string
type_synonym message_id = string
type_synonym transfer_id = string
type_synonym server_id = string

definition direct_conv :: "peer_id \<Rightarrow> conv_id" where
  "direct_conv p = ''peer:'' @ p"

definition direct_key :: "peer_id \<Rightarrow> peer_id \<Rightarrow> conv_id" where
  "direct_key a b = (if b < a then ''dm:'' @ b @ ''+'' @ a else ''dm:'' @ a @ ''+'' @ b)"

definition is_direct_key :: "conv_id \<Rightarrow> bool" where
  "is_direct_key c = has_prefix c ''dm:''"

definition direct_pair :: "conv_id \<Rightarrow> (peer_id \<times> peer_id) option" where
  "direct_pair c =
    (if \<not> is_direct_key c then None
     else (case index_byte (trim_prefix c ''dm:'') (CHR ''+'') of
             None \<Rightarrow> None
           | Some i \<Rightarrow> (if i = 0 then None
               else Some (take i (trim_prefix c ''dm:''), drop (Suc i) (trim_prefix c ''dm:'')))))"

definition conv_peer :: "conv_id \<Rightarrow> peer_id" where
  "conv_peer c = (if \<not> has_prefix c ''peer:'' then '''' else trim_prefix c ''peer:'')"

definition canon_room :: "string \<Rightarrow> string" where
  "canon_room s = to_lower (trim_space s)"

definition room_conv :: "string \<Rightarrow> conv_id" where
  "room_conv room = ''room:'' @ canon_room room"

definition is_room :: "conv_id \<Rightarrow> bool" where
  "is_room c = has_prefix c ''room:''"

definition conv_room :: "conv_id \<Rightarrow> string" where
  "conv_room c = trim_prefix c ''room:''"

definition clip_runes :: "string \<Rightarrow> nat \<Rightarrow> string" where
  "clip_runes s n = (if length (runes s) \<le> n then s else string_of_runes (take n (runes s)))"

section \<open>Presence\<close>

type_synonym presence = string

definition presence_online :: presence where "presence_online = ''online''"
definition presence_away :: presence where "presence_away = ''away''"
definition presence_busy :: presence where "presence_busy = ''busy''"
definition presence_offline :: presence where "presence_offline = ''offline''"

lemmas presence_defs = presence_online_def presence_away_def presence_busy_def presence_offline_def

definition presence_valid :: "presence \<Rightarrow> presence" where
  "presence_valid p =
     (if p = presence_online \<or> p = presence_away \<or> p = presence_busy then p else presence_offline)"

section \<open>Peers\<close>

text \<open>
  \<open>Rooms\<close> is a slice that may be nil, and \<open>PutPeer\<close> tells nil from empty: \<open>None\<close> is nil.
\<close>

record peer =
  pID :: peer_id
  pNick :: string
  pColor :: string
  pHost :: string
  pAddr :: string
  pRooms :: "string list option"
  pPresence :: presence
  pLastSeen :: gotime
  pBlocked :: bool

definition zero_peer :: peer where
  "zero_peer = \<lparr>pID = '''', pNick = '''', pColor = '''', pHost = '''', pAddr = '''', pRooms = None,
     pPresence = '''', pLastSeen = zero_time, pBlocked = False\<rparr>"

definition slice :: "'a list option \<Rightarrow> 'a list" where
  "slice r = (case r of None \<Rightarrow> [] | Some l \<Rightarrow> l)"

definition short_id :: "peer_id \<Rightarrow> string" where
  "short_id i = (if length i \<le> 8 then i else take 8 i)"

definition display_name :: "peer \<Rightarrow> string" where
  "display_name p = (if trim_space (pNick p) \<noteq> '''' then trim_space (pNick p) else short_id (pID p))"

section \<open>Messages\<close>

text \<open>Delivery states; the zero value is the one of a message somebody else sent.\<close>

datatype message_state = StateNone | StateQueued | StateSending | StateDelivered | StateFailed

record transfer_ref =
  rID :: transfer_id
  rName :: string
  rSize :: int

record message =
  mID :: message_id
  mConv :: conv_id
  mFrom :: peer_id
  mFromNick :: string
  mBody :: string
  mSent :: gotime
  mSeq :: uint64
  mReceived :: gotime
  mMine :: bool
  mState :: message_state
  mRead :: bool
  mTransfer :: "transfer_ref option"
  mSystem :: bool

definition zero_message :: message where
  "zero_message = \<lparr>mID = '''', mConv = '''', mFrom = '''', mFromNick = '''', mBody = '''',
     mSent = zero_time, mSeq = 0, mReceived = zero_time, mMine = False, mState = StateNone,
     mRead = False, mTransfer = None, mSystem = False\<rparr>"

record conversation =
  cID :: conv_id
  cTitle :: string
  cPeer :: peer_id
  cRoom :: string
  cUnread :: int
  cLast :: string
  cLastAt :: gotime
  cPresence :: presence
  cColor :: string
  cMembers :: int

definition zero_conversation :: conversation where
  "zero_conversation = \<lparr>cID = '''', cTitle = '''', cPeer = '''', cRoom = '''', cUnread = 0,
     cLast = '''', cLastAt = zero_time, cPresence = '''', cColor = '''', cMembers = 0\<rparr>"

section \<open>Transfers\<close>

datatype transfer_state =
  TransferOffered | TransferIncoming | TransferRunning | TransferDone
| TransferDeclined | TransferFailed | TransferCancelled

record transfer =
  tID :: transfer_id
  tConv :: conv_id
  tPeer :: peer_id
  tName :: string
  tSize :: int
  tMIME :: string
  tSHA256 :: string
  tIncoming :: bool
  tState :: transfer_state
  tDone :: int
  tPath :: string
  tError :: string
  tAt :: gotime

section \<open>Identity\<close>

record identity =
  iID :: peer_id
  iNick :: string
  iColor :: string
  iRooms :: "string list option"
  iAutoAccept :: int
  iPresence :: presence

definition zero_identity :: identity where
  "zero_identity = \<lparr>iID = '''', iNick = '''', iColor = '''', iRooms = None, iAutoAccept = 0, iPresence = ''''\<rparr>"

definition identity_peer :: "identity \<Rightarrow> peer" where
  "identity_peer i = zero_peer\<lparr>pID := iID i, pNick := iNick i, pColor := iColor i,
     pRooms := iRooms i, pPresence := presence_valid (iPresence i)\<rparr>"

record notify_prefs =
  nEnabled :: bool
  nDirectOnly :: bool
  nDesktop :: bool
  nMentions :: bool

definition default_notify_prefs :: notify_prefs where
  "default_notify_prefs = \<lparr>nEnabled = True, nDirectOnly = False, nDesktop = True, nMentions = True\<rparr>"

record daemon_status =
  dsVersion :: string
  dsSocket :: string
  dsSelf :: peer
  dsServer :: string
  dsConnected :: bool
  dsDiscovery :: string
  dsCursor :: uint64
  dsPeers :: nat
  dsOnline :: nat
  dsStarted :: gotime
  dsDataDir :: string
  dsClients :: nat

section \<open>Colours, room lists, identity folding (chat/paths.go)\<close>

text \<open>The process environment the code reads: the environment variables, the user, the host.\<close>

record env =
  eNick :: string
  eUser :: "string option"
  eHost :: "string option"

definition avatar_palette :: "string list" where
  "avatar_palette =
     [''#2f6fd0'', ''#0f8f6f'', ''#b5651d'', ''#8b4fbf'', ''#c0392b'',
      ''#1f8fa8'', ''#7a8b1f'', ''#d0507f'', ''#4f5f8f'', ''#a07000'']"

fun color_sum :: "32 word \<Rightarrow> string \<Rightarrow> 32 word" where
  "color_sum s [] = s"
| "color_sum s (c # cs) = color_sum (s * 31 + of_nat (of_char c)) cs"

definition color_for_id :: "peer_id \<Rightarrow> string" where
  "color_for_id i = avatar_palette ! (unat (color_sum 0 i) mod length avatar_palette)"

definition valid_color :: "string \<Rightarrow> bool" where
  "valid_color s = (case s of [] \<Rightarrow> False | c # r \<Rightarrow> length r = 6 \<and> c = CHR ''#'' \<and> list_all is_hex_byte r)"

fun canon_rooms_loop :: "string list \<Rightarrow> string list \<Rightarrow> string list" where
  "canon_rooms_loop seen [] = []"
| "canon_rooms_loop seen (r0 # rs) =
     (if canon_room r0 = '''' \<or> canon_room r0 \<in> set seen \<or> 48 < length (canon_room r0)
      then canon_rooms_loop seen rs
      else canon_room r0 # canon_rooms_loop (canon_room r0 # seen) rs)"

definition canon_rooms :: "string list \<Rightarrow> string list option" where
  "canon_rooms rs = (case canon_rooms_loop [] rs of [] \<Rightarrow> None | l \<Rightarrow> Some l)"

definition trim_suffix :: "string \<Rightarrow> string \<Rightarrow> string" where
  "trim_suffix s p = (if length p \<le> length s \<and> drop (length s - length p) s = p
     then take (length s - length p) s else s)"

definition default_nick :: "env \<Rightarrow> string" where
  "default_nick e = (case eUser e of
      None \<Rightarrow> ''someone''
    | Some u \<Rightarrow> (if trim_space u = '''' then ''someone''
        else (case eHost e of
            None \<Rightarrow> trim_space u
          | Some h \<Rightarrow> (if h = '''' then trim_space u
              else trim_space u @ ''@'' @ trim_suffix h ''.local''))))"

text \<open>\<open>fresh\<close> is the identifier \<open>NewPeerID\<close> draws, if it is asked for one.\<close>

definition normalize_identity :: "env \<Rightarrow> peer_id \<Rightarrow> identity \<Rightarrow> identity" where
  "normalize_identity e fresh i0 =
    (let i1 = (if iID i0 = '''' then i0\<lparr>iID := fresh\<rparr> else i0);
         i2 = (if trim_space (iNick i1) = '''' then i1\<lparr>iNick := default_nick e\<rparr> else i1);
         i3 = (if trim_space (eNick e) \<noteq> '''' then i2\<lparr>iNick := trim_space (eNick e)\<rparr> else i2);
         i4 = i3\<lparr>iNick := clip_runes (trim_space (iNick i3)) 32\<rparr>;
         i5 = (if \<not> valid_color (iColor i4) then i4\<lparr>iColor := color_for_id (iID i4)\<rparr> else i4);
         i6 = i5\<lparr>iPresence := presence_valid (iPresence i5)\<rparr>;
         i7 = (if iPresence i6 = presence_offline then i6\<lparr>iPresence := presence_online\<rparr> else i6)
     in i7\<lparr>iRooms := canon_rooms (slice (iRooms i7))\<rparr>)"

text \<open>\<open>NewPeerID\<close> and \<open>NewTransferID\<close>: the hexadecimal form of the random bytes drawn.\<close>

definition new_peer_id :: "nat list \<Rightarrow> peer_id" where
  "new_peer_id rnd = hex_encode (take 16 rnd)"

definition new_transfer_id :: "nat list \<Rightarrow> transfer_id" where
  "new_transfer_id rnd = hex_encode (take 12 rnd)"

section \<open>Facts about names\<close>

lemma canon_room_idem [simp]: "canon_room (canon_room s) = canon_room s"
  by (simp add: canon_room_def)

lemma slice_simps [simp]: "slice None = []" "slice (Some l) = l"
  by (simp_all add: slice_def)

lemma is_room_room_conv [simp]: "is_room (room_conv r)"
  by (simp only: is_room_def room_conv_def has_prefix_append)

lemma conv_room_room_conv [simp]: "conv_room (room_conv r) = canon_room r"
  by (simp only: conv_room_def room_conv_def trim_prefix_append)

lemma conv_peer_direct_conv [simp]: "conv_peer (direct_conv p) = p"
  by (simp only: conv_peer_def direct_conv_def has_prefix_append trim_prefix_append not_True_eq_False if_False)

lemma is_room_direct_conv [simp]: "\<not> is_room (direct_conv p)"
  by (simp add: is_room_def direct_conv_def has_prefix_def)

lemma direct_key_shape: "\<exists>a b. direct_key x y = ''dm:'' @ a @ ''+'' @ b \<and> {a, b} = {x, y}"
  by (auto simp: direct_key_def)

lemma is_room_direct_key [simp]: "\<not> is_room (direct_key a b)"
  by (simp add: is_room_def direct_key_def has_prefix_def)

lemma is_direct_key_direct_key [simp]: "is_direct_key (direct_key a b)"
  by (simp add: is_direct_key_def direct_key_def has_prefix_def)

lemma direct_key_sym: "direct_key a b = direct_key b a"
  by (auto simp: direct_key_def)

lemma direct_pair_key:
  assumes "a \<noteq> ''''" and "b \<noteq> ''''" and "CHR ''+'' \<notin> set a" and "CHR ''+'' \<notin> set b"
  shows "direct_pair (direct_key a b) = Some (if b < a then (b, a) else (a, b))"
proof -
  have pair: "direct_pair (''dm:'' @ x @ ''+'' @ y) = Some (x, y)"
    if "x \<noteq> ''''" "CHR ''+'' \<notin> set x" for x y
  proof -
    have "trim_prefix (''dm:'' @ x @ ''+'' @ y) ''dm:'' = x @ CHR ''+'' # y"
      using trim_prefix_append [of "''dm:''" "x @ ''+'' @ y"] by simp
    with that index_byte_append [OF that(2), of y] show ?thesis
      by (simp add: direct_pair_def is_direct_key_def has_prefix_def)
  qed
  show ?thesis using assms pair by (simp add: direct_key_def)
qed

lemma presence_valid_idem [simp]: "presence_valid (presence_valid p) = presence_valid p"
  by (simp add: presence_valid_def)

lemma presence_valid_nonempty [simp]: "presence_valid p \<noteq> ''''"
  by (auto simp: presence_valid_def presence_defs)

lemma presence_offline_nonempty [simp]: "presence_offline \<noteq> ''''"
  by (simp add: presence_defs)

lemma presence_valid_offline [simp]: "presence_valid presence_offline = presence_offline"
  by (simp add: presence_valid_def)

lemma room_conv_canon [simp]: "room_conv (canon_room r) = room_conv r"
  by (simp add: room_conv_def)

lemma room_conv_inj: "room_conv r = room_conv r' \<longleftrightarrow> canon_room r = canon_room r'"
  by (simp add: room_conv_def)

lemma direct_conv_inj [simp]: "direct_conv p = direct_conv q \<longleftrightarrow> p = q"
  by (simp add: direct_conv_def)

section \<open>Colours\<close>

text \<open>The sum in 32 bits is the sum modulo \<open>2\<^sup>3\<^sup>2\<close>, which evaluates faster.\<close>

fun color_sum_nat :: "nat \<Rightarrow> string \<Rightarrow> nat" where
  "color_sum_nat s [] = s"
| "color_sum_nat s (c # cs) = color_sum_nat ((s * 31 + of_char c) mod 4294967296) cs"

lemma unat_color_sum: "unat (color_sum s i) = color_sum_nat (unat s) i"
proof (induction i arbitrary: s)
  case (Cons c cs)
  have "unat (s * 31 + of_nat (of_char c)) = (unat s * 31 + of_char c) mod 4294967296"
    by (simp add: unat_word_ariths unat_of_nat mod_simps)
  with Cons show ?case by simp
qed simp

lemma color_for_id_nat [code]: "color_for_id i = avatar_palette ! (color_sum_nat 0 i mod 10)"
  by (simp add: color_for_id_def unat_color_sum avatar_palette_def)

section \<open>Canonical room lists\<close>

definition canonical_rooms :: "string list \<Rightarrow> bool" where
  "canonical_rooms rs \<longleftrightarrow> distinct rs
     \<and> (\<forall>r \<in> set rs. canon_room r = r \<and> r \<noteq> '''' \<and> length r \<le> 48)"

lemma canon_rooms_loop_set:
  "set (canon_rooms_loop seen rs)
     = {canon_room r | r. r \<in> set rs \<and> canon_room r \<noteq> '''' \<and> length (canon_room r) \<le> 48} - set seen"
  by (induction seen rs rule: canon_rooms_loop.induct) auto

lemma canon_rooms_loop_distinct: "distinct (canon_rooms_loop seen rs)"
  by (induction seen rs rule: canon_rooms_loop.induct) (auto simp: canon_rooms_loop_set)

lemma slice_canon_rooms: "slice (canon_rooms rs) = canon_rooms_loop [] rs"
  by (simp add: canon_rooms_def split: list.splits)

lemma canonical_canon_rooms: "canonical_rooms (slice (canon_rooms rs))"
  by (auto simp: canonical_rooms_def slice_canon_rooms canon_rooms_loop_distinct canon_rooms_loop_set)

lemma canon_rooms_loop_fixed:
  "canonical_rooms rs \<Longrightarrow> set rs \<inter> set seen = {} \<Longrightarrow> canon_rooms_loop seen rs = rs"
  by (induction seen rs rule: canon_rooms_loop.induct) (auto simp: canonical_rooms_def)

lemma canon_rooms_fixed: "canonical_rooms rs \<Longrightarrow> slice (canon_rooms rs) = rs"
  by (simp add: slice_canon_rooms canon_rooms_loop_fixed)

lemma set_canon_rooms:
  "set (slice (canon_rooms rs)) = {canon_room r | r. r \<in> set rs \<and> canon_room r \<noteq> '''' \<and> length (canon_room r) \<le> 48}"
  by (simp add: slice_canon_rooms canon_rooms_loop_set)

section \<open>Clipping\<close>

lemma clip_runes_length: "length (runes (clip_runes s n)) \<le> n"
proof (cases "length (runes s) \<le> n")
  case False
  have "\<forall>r \<in> set (take n (runes s)). valid_rune r"
    using runes_valid [of s] by (meson in_set_takeD)
  with False show ?thesis by (simp add: clip_runes_def runes_string_of_runes)
qed (simp add: clip_runes_def)

lemma clip_runes_idem [simp]: "clip_runes (clip_runes s n) n = clip_runes s n"
  using clip_runes_length [of s n] by (simp add: clip_runes_def [of "clip_runes s n"])

lemma clip_runes_id: "length (runes s) \<le> n \<Longrightarrow> clip_runes s n = s"
  by (simp add: clip_runes_def)

end
