(* ===== verification/FileNames.thy ===== *)
theory FileNames
  imports Types
begin

text \<open>
  The model of \<open>chat/transfer.go\<close>: the transfer limits, where an accepted file may land and
  what an incoming file name is allowed to become, over the lexical part of Go's
  \<open>path/filepath\<close> on Unix (\<open>Clean\<close>, \<open>Base\<close>, \<open>Ext\<close>, \<open>Join\<close>). The file system is the list of
  the paths that exist, and whether it accepts a new file. The lemmas show that a sanitised
  name is one path component with nothing dangerous in it and that a unique path names
  a file that did not exist.
\<close>

section \<open>Lexical paths\<close>

fun split_at_byte :: "char \<Rightarrow> string \<Rightarrow> string list" where
  "split_at_byte c [] = [[]]"
| "split_at_byte c (x # xs) =
     (if x = c then [] # split_at_byte c xs
      else (case split_at_byte c xs of [] \<Rightarrow> [[x]] | w # ws \<Rightarrow> (x # w) # ws))"

fun join_with :: "string \<Rightarrow> string list \<Rightarrow> string" where
  "join_with sep [] = ''''"
| "join_with sep [x] = x"
| "join_with sep (x # y # ys) = x @ sep @ join_with sep (y # ys)"

fun clean_components :: "bool \<Rightarrow> string list \<Rightarrow> string list \<Rightarrow> string list" where
  "clean_components rooted st [] = rev st"
| "clean_components rooted st (x # xs) =
     (if x = '''' \<or> x = ''.'' then clean_components rooted st xs
      else if x = ''..'' then
        (case st of
           [] \<Rightarrow> clean_components rooted (if rooted then [] else [''..'']) xs
         | t # ts \<Rightarrow> (if t = ''..'' then clean_components rooted (''..'' # st) xs
                    else clean_components rooted ts xs))
      else clean_components rooted (x # st) xs)"

definition is_rooted :: "string \<Rightarrow> bool" where
  "is_rooted p = has_prefix p ''/''"

definition path_clean :: "string \<Rightarrow> string" where
  "path_clean p =
    (let out = (if is_rooted p then ''/'' else '''')
         @ join_with ''/'' (clean_components (is_rooted p) [] (split_at_byte (CHR ''/'') p))
     in if out = '''' then ''.'' else out)"

definition is_slash :: "char \<Rightarrow> bool" where
  "is_slash c \<longleftrightarrow> c = CHR ''/''"

definition not_slash :: "char \<Rightarrow> bool" where
  "not_slash c \<longleftrightarrow> c \<noteq> CHR ''/''"

definition path_base :: "string \<Rightarrow> string" where
  "path_base p =
    (if p = '''' then ''.''
     else (let q = rev (dropWhile is_slash (rev p)) in
       if q = '''' then ''/'' else rev (takeWhile not_slash (rev q))))"

definition path_join :: "string \<Rightarrow> string \<Rightarrow> string" where
  "path_join d n =
    (if d \<noteq> '''' then path_clean (if n = '''' then d else d @ ''/'' @ n)
     else if n \<noteq> '''' then path_clean n else '''')"

text \<open>\<open>filepath.Ext\<close>: the suffix from the last dot of the last component, reading from the end.\<close>

fun ext_loop :: "string \<Rightarrow> string \<Rightarrow> string" where
  "ext_loop acc [] = ''''"
| "ext_loop acc (c # cs) =
     (if c = CHR ''/'' then '''' else if c = CHR ''.'' then c # acc else ext_loop (c # acc) cs)"

definition path_ext :: "string \<Rightarrow> string" where
  "path_ext n = ext_loop [] (rev n)"

section \<open>Limits\<close>

definition max_open_transfers :: nat where
  "max_open_transfers = 8"

definition max_transfer_bytes :: int where
  "max_transfer_bytes = 2147483648"

section \<open>SafeBaseName\<close>

definition slash_byte :: "char \<Rightarrow> char" where
  "slash_byte c = (if c = CHR 0x5C then CHR ''/'' else c)"

definition safe_rune :: "nat \<Rightarrow> nat list" where
  "safe_rune r = (if r < 32 \<or> r = 127 then []
     else if r = 47 \<or> r = 92 \<or> r = 58 then [95] else [r])"

definition is_dot :: "char \<Rightarrow> bool" where
  "is_dot c \<longleftrightarrow> c = CHR ''.''"

definition safe_chars :: "string \<Rightarrow> string" where
  "safe_chars name =
     dropWhile is_dot (trim_space (string_of_runes (concat (map safe_rune (runes name)))))"

definition safe_base_name :: "string \<Rightarrow> string" where
  "safe_base_name name0 =
    (let name = path_base (path_clean (''/'' @ map slash_byte name0)) in
     if name = ''/'' \<or> name = ''.'' then ''file''
     else (let out = safe_chars name in clip_runes (if out = '''' then ''file'' else out) 120))"

section \<open>UniquePath\<close>

text \<open>
  The file system as \<open>UniquePath\<close> sees it: \<open>O_CREATE|O_EXCL\<close> fails with "exists" on a path
  that exists, fails otherwise where the file system refuses, and creates the file
  where it does neither. \<open>fsDirs\<close> are its directories, \<open>fsNoRead\<close> and \<open>fsNoWrite\<close> the files it
  refuses to read and to write; no operation of this theory looks at those.
\<close>

record filesystem =
  fsFiles :: "(string \<times> nat list) list"
  fsDirs :: "string list"
  fsRefuses :: "string list"
  fsNoRead :: "string list"
  fsNoWrite :: "string list"
  fsMkdirFails :: bool

datatype open_result = OpenExists | OpenError | OpenOk filesystem

definition fs_exists :: "filesystem \<Rightarrow> string \<Rightarrow> bool" where
  "fs_exists fs p \<longleftrightarrow> map_of (fsFiles fs) p \<noteq> None"

definition open_excl :: "filesystem \<Rightarrow> string \<Rightarrow> open_result" where
  "open_excl fs p =
    (if fs_exists fs p then OpenExists
     else if p \<in> set (fsRefuses fs) then OpenError
     else OpenOk (fs\<lparr>fsFiles := AList.update p [] (fsFiles fs)\<rparr>))"

datatype path_error = MkdirFailed | CreateFailed | NoFreeName

definition unique_candidate :: "string \<Rightarrow> string \<Rightarrow> nat \<Rightarrow> string" where
  "unique_candidate d name i =
    (if i \<le> 1 then path_join d name
     else path_join d (trim_suffix name (path_ext name) @ '' ('' @ decimal i @ '')'' @ path_ext name))"

text \<open>The loop \<open>for i := 1; i < 1000; i++\<close>; the first argument counts the tries left.\<close>

fun unique_loop :: "nat \<Rightarrow> filesystem \<Rightarrow> string \<Rightarrow> string \<Rightarrow> nat \<Rightarrow> path_error + (string \<times> filesystem)" where
  "unique_loop 0 fs d name i = Inl NoFreeName"
| "unique_loop (Suc k) fs d name i =
     (case open_excl fs (unique_candidate d name i) of
        OpenOk fs' \<Rightarrow> Inr (unique_candidate d name i, fs')
      | OpenExists \<Rightarrow> unique_loop k fs d name (Suc i)
      | OpenError \<Rightarrow> Inl CreateFailed)"

definition unique_path :: "filesystem \<Rightarrow> string \<Rightarrow> string \<Rightarrow> path_error + (string \<times> filesystem)" where
  "unique_path fs d name = (if fsMkdirFails fs then Inl MkdirFailed else unique_loop 999 fs d name 1)"

section \<open>NewTransfer\<close>

text \<open>
  \<open>mime.TypeByExtension\<close> reads the tables of the host; \<open>types\<close> is that function, on
  the lower-cased extension. \<open>strings.SplitN(t, ";", 2)[0]\<close> is the part before the first semicolon.
\<close>

definition not_semicolon :: "char \<Rightarrow> bool" where
  "not_semicolon c \<longleftrightarrow> c \<noteq> CHR '';''"

definition guess_mime :: "(string \<Rightarrow> string) \<Rightarrow> string \<Rightarrow> string" where
  "guess_mime types name =
    (if types (to_lower (path_ext name)) \<noteq> '''' then takeWhile not_semicolon (types (to_lower (path_ext name)))
     else ''application/octet-stream'')"

definition new_transfer :: "(string \<Rightarrow> string) \<Rightarrow> gotime \<Rightarrow> transfer_id \<Rightarrow> conv_id \<Rightarrow> peer_id
    \<Rightarrow> string \<Rightarrow> int \<Rightarrow> bool \<Rightarrow> transfer_state \<Rightarrow> transfer" where
  "new_transfer types now i conv p name sz incoming st =
     \<lparr>tID = i, tConv = conv, tPeer = p, tName = name, tSize = sz, tMIME = guess_mime types name,
      tSHA256 = '''', tIncoming = incoming, tState = st, tDone = 0, tPath = '''', tError = '''', tAt = now\<rparr>"

section \<open>What a sanitised name can hold\<close>

lemma split_at_byte_no: "w \<in> set (split_at_byte c s) \<Longrightarrow> c \<notin> set w"
  by (induction s arbitrary: w) (auto split: if_splits list.splits)

lemma encode_ascii:
  assumes "b \<in> set (encode_rune r)" and "b < 128"
  shows "r = b"
proof -
  have "b = r" if "valid_rune r" "b \<in> set (encode_valid r)" "b < 128" for r
    using that by (auto simp: encode_valid_def split: if_splits)
  moreover have "valid_rune rune_error" by simp
  ultimately show ?thesis
    using assms by (auto simp: encode_rune_def rune_error_def encode_valid_def split: if_splits)
qed

text \<open>An ASCII byte of an encoded string is one of its runes, and a byte kept by trimming was there before.\<close>

lemma string_of_runes_ascii:
  assumes "c \<in> set (string_of_runes rs)" and "of_char c < (128::nat)"
  shows "of_char c \<in> set rs"
proof -
  from assms(1) obtain r b where r: "r \<in> set rs" "b \<in> set (encode_rune r)" "c = char_of b"
    by (auto simp: string_of_runes_def string_of_bytes_def)
  have "b < 256" using encode_bytes r(2) by blast
  then have "of_char c = b" using r(3) by simp
  with encode_ascii [of b r] r assms(2) show ?thesis by simp
qed

lemma set_trim_space: "set (trim_space s) \<subseteq> set s"
proof -
  let ?cs = "rune_chunks (bytes_of s)"
  obtain us vs where split: "?cs = us @ strip_by space_chunk ?cs @ vs" using strip_by_split by blast
  have "set (concat (map snd (strip_by space_chunk ?cs))) \<subseteq> set (concat (map snd ?cs))"
    by (subst (2) split) auto
  then have "set (concat (map snd (strip_by space_chunk ?cs))) \<subseteq> set (bytes_of s)"
    by (simp only: chunks_concat)
  then show ?thesis
    by (force simp: trim_space_def string_of_bytes_def bytes_of_def)
qed

definition safe_char :: "char \<Rightarrow> bool" where
  "safe_char c \<longleftrightarrow> 32 \<le> (of_char c :: nat) \<and> of_char c \<noteq> (127::nat)
     \<and> c \<noteq> CHR ''/'' \<and> c \<noteq> CHR 0x5C \<and> c \<noteq> CHR '':''"

lemma safe_char_ascii: "safe_char c" if "of_char c \<notin> {r. r < 32 \<or> r = 127 \<or> r = 47 \<or> r = 92 \<or> r = (58::nat)}"
  using that by (auto simp: safe_char_def)

lemma safe_rune_ok: "r' \<in> set (safe_rune r) \<Longrightarrow> r' \<notin> {r. r < 32 \<or> r = 127 \<or> r = 47 \<or> r = 92 \<or> r = 58}"
  by (auto simp: safe_rune_def split: if_splits)

lemma safe_string_of_runes:
  assumes "\<And>r. r \<in> set rs \<Longrightarrow> r \<notin> {r. r < 32 \<or> r = 127 \<or> r = 47 \<or> r = 92 \<or> r = 58}"
    and "c \<in> set (string_of_runes rs)"
  shows "safe_char c"
proof (rule safe_char_ascii)
  show "of_char c \<notin> {r. r < 32 \<or> r = 127 \<or> r = 47 \<or> r = 92 \<or> r = (58::nat)}"
    using string_of_runes_ascii [OF assms(2)] assms(1) [of "of_char c"] by fastforce
qed

lemma safe_chars_safe: "c \<in> set (safe_chars name) \<Longrightarrow> safe_char c"
proof -
  let ?rs = "concat (map safe_rune (runes name))"
  assume "c \<in> set (safe_chars name)"
  then have "c \<in> set (string_of_runes ?rs)"
    unfolding safe_chars_def using set_trim_space by (meson set_dropWhileD subsetD)
  then show ?thesis by (rule safe_string_of_runes [rotated]) (use safe_rune_ok in auto)
qed

text \<open>An ASCII rune of a string is one of its bytes; clipping therefore keeps a string safe.\<close>

lemma decode_ascii: "fst (decode_rune (a # bs)) < 128 \<Longrightarrow> a = fst (decode_rune (a # bs)) \<and> a < 128"
proof -
  have "128 \<le> fst (dec2 a bs)" if "194 \<le> a"
    using that by (auto simp: dec2_def rune_error_def split: list.splits)
  moreover have "128 \<le> fst (dec3 a bs)" if "224 \<le> a"
    using that by (cases "a = 224") (auto simp: dec3_def rune_error_def split: list.splits)
  moreover have "128 \<le> fst (dec4 a bs)" if "240 \<le> a"
    using that by (cases "a = 240") (auto simp: dec4_def rune_error_def split: list.splits)
  moreover assume "fst (decode_rune (a # bs)) < 128"
  ultimately show ?thesis by (auto simp: rune_error_def split: if_splits)
qed

lemma chunks_ascii: "(r, w) \<in> set (rune_chunks bs) \<Longrightarrow> r < 128 \<Longrightarrow> r \<in> set bs"
proof (induction bs rule: rune_chunks.induct)
  case (1 bs)
  show ?case
  proof (cases bs)
    case Nil
    with "1.prems" show ?thesis by (simp add: rune_chunks.simps)
  next
    case (Cons a bs')
    have "rune_chunks bs = (fst (decode_rune bs), take (snd (decode_rune bs)) bs)
        # rune_chunks (drop (snd (decode_rune bs)) bs)"
      using Cons by (subst rune_chunks.simps) (simp del: decode_rune.simps)
    with "1.prems"(1) consider "r = fst (decode_rune bs)"
      | "(r, w) \<in> set (rune_chunks (drop (snd (decode_rune bs)) bs))" by auto
    then show ?thesis
    proof cases
      case 1
      with Cons decode_ascii [of a bs'] "1.prems"(2) show ?thesis by (simp del: decode_rune.simps)
    next
      case 2
      with "1.IH" Cons "1.prems"(2) have "r \<in> set (drop (snd (decode_rune bs)) bs)" by blast
      then show ?thesis by (rule in_set_dropD)
    qed
  qed
qed

lemma runes_ascii: "r \<in> set (runes s) \<Longrightarrow> r < 128 \<Longrightarrow> char_of r \<in> set s"
  using chunks_ascii [of r _ "bytes_of s"] by (force simp: runes_def bytes_of_def)

lemma runes_Nil [simp]: "runes s = [] \<longleftrightarrow> s = ''''"
  by (cases s) (auto simp: runes_def bytes_of_def rune_chunks.simps)

lemma runes_hd: "s \<noteq> '''' \<Longrightarrow> hd (runes s) < 128 \<Longrightarrow> hd s = char_of (hd (runes s))"
proof (cases s)
  case (Cons c cs)
  assume "hd (runes s) < 128"
  with Cons decode_ascii [of "of_char c" "map of_char cs"] show ?thesis
    by (simp add: runes_def bytes_of_def rune_chunks.simps [of "of_char c # _"] del: decode_rune.simps)
qed simp

lemma string_of_runes_hd: "rs \<noteq> [] \<Longrightarrow> hd (string_of_runes rs) = char_of (hd (encode_rune (hd rs)))"
  using encode_length(1) by (cases rs) (auto simp: string_of_runes_def string_of_bytes_def hd_append hd_map)

lemma string_of_runes_Nil [simp]: "string_of_runes rs = '''' \<longleftrightarrow> rs = []"
  using encode_length(1) by (cases rs) (auto simp: string_of_runes_def string_of_bytes_def)

lemma safe_clip:
  assumes "\<And>c. c \<in> set s \<Longrightarrow> safe_char c" and "c \<in> set (clip_runes s n)"
  shows "safe_char c"
proof (cases "length (runes s) \<le> n")
  case True
  with assms show ?thesis by (simp add: clip_runes_def)
next
  case False
  with assms(2) have c: "c \<in> set (string_of_runes (take n (runes s)))" by (simp add: clip_runes_def)
  have "r \<notin> {r. r < 32 \<or> r = 127 \<or> r = 47 \<or> r = 92 \<or> r = 58}" if "r \<in> set (take n (runes s))" for r
  proof
    assume bad: "r \<in> {r. r < 32 \<or> r = 127 \<or> r = 47 \<or> r = 92 \<or> r = 58}"
    then have "char_of r \<in> set s"
      using runes_ascii [of r s] that by (auto dest: in_set_takeD)
    then have safe: "safe_char (char_of r)" by (rule assms(1))
    have "CHR ''/'' = char_of (47::nat)" "CHR 0x5C = char_of (92::nat)" "CHR '':'' = char_of (58::nat)"
      by code_simp+
    with safe bad show False
      by (auto simp: safe_char_def)
  qed
  from safe_string_of_runes [OF this c] show ?thesis .
qed

lemma clip_hd:
  assumes "s \<noteq> ''''" and "hd s \<noteq> CHR ''.''" and "0 < n"
  shows "clip_runes s n \<noteq> '''' \<and> hd (clip_runes s n) \<noteq> CHR ''.''"
proof (cases "length (runes s) \<le> n")
  case True
  with assms show ?thesis by (simp add: clip_runes_def)
next
  case False
  let ?rs = "take n (runes s)"
  have dot: "CHR ''.'' = char_of (46::nat)" by code_simp
  have ne: "?rs \<noteq> []" "hd ?rs = hd (runes s)" using assms by (auto simp: hd_take)
  have "hd (string_of_runes ?rs) \<noteq> CHR ''.''"
  proof
    assume hd: "hd (string_of_runes ?rs) = CHR ''.''"
    let ?b = "hd (encode_rune (hd (runes s)))"
    have b: "?b \<in> set (encode_rune (hd (runes s)))" using encode_length(1) by simp
    then have "?b < 256" using encode_bytes by blast
    moreover from hd ne dot have "char_of ?b = (char_of (46::nat) :: char)" by (simp add: string_of_runes_hd)
    then have "(of_char (char_of ?b :: char) :: nat) = of_char (char_of (46::nat) :: char)" by (rule arg_cong)
    ultimately have "?b = 46" by (simp add: of_char_of)
    with b encode_ascii [of 46] have "hd (runes s) = 46" by auto
    with runes_hd [OF assms(1)] assms(2) dot show False by simp
  qed
  with False ne show ?thesis by (simp add: clip_runes_def)
qed

text \<open>
  A sanitised name: not empty, one component, not hidden and not \<open>.\<close> or \<open>..\<close>, no control
  characters, at most 120 runes.
\<close>

definition safe_name :: "string \<Rightarrow> bool" where
  "safe_name s \<longleftrightarrow> s \<noteq> '''' \<and> hd s \<noteq> CHR ''.'' \<and> length (runes s) \<le> 120 \<and> list_all safe_char s"

lemma safe_name_file: "safe_name ''file''"
  by code_simp

lemma safe_name_clip:
  assumes "\<And>c. c \<in> set s \<Longrightarrow> safe_char c" and "s \<noteq> ''''" and "hd s \<noteq> CHR ''.''"
  shows "safe_name (clip_runes s 120)"
  using clip_hd [OF assms(2,3), of 120] clip_runes_length [of s 120] safe_clip [where n = 120, OF assms(1)]
  by (simp add: safe_name_def list_all_iff)

lemma safe_name_safe_base_name: "safe_name (safe_base_name name)"
proof -
  have "safe_name (clip_runes (if out = '''' then ''file'' else out) 120)"
    if "out = safe_chars n" for out n
  proof (cases "out = ''''")
    case True
    have "safe_name ''file''" by (rule safe_name_file)
    then show ?thesis using True by (simp add: safe_name_def clip_runes_id)
  next
    case False
    then have "hd out \<noteq> CHR ''.''"
      using hd_dropWhile [of is_dot] that by (auto simp: safe_chars_def is_dot_def)
    with False that safe_chars_safe show ?thesis by (simp add: safe_name_clip)
  qed
  then show ?thesis by (simp add: safe_base_name_def Let_def safe_name_file)
qed

section \<open>What a unique path is\<close>

lemma open_excl_OkD:
  "open_excl fs p = OpenOk fs' \<Longrightarrow> \<not> fs_exists fs p \<and> fs' = fs\<lparr>fsFiles := AList.update p [] (fsFiles fs)\<rparr>"
  by (auto simp: open_excl_def split: if_splits)

lemma unique_loop_fresh:
  "unique_loop k fs d name i = Inr (p, fs') \<Longrightarrow>
     \<not> fs_exists fs p \<and> fs' = fs\<lparr>fsFiles := AList.update p [] (fsFiles fs)\<rparr>
     \<and> (\<exists>j \<ge> i. j < i + k \<and> p = unique_candidate d name j)"
proof (induction k fs d name i rule: unique_loop.induct)
  case (2 k fs d name i)
  show ?case
  proof (cases "open_excl fs (unique_candidate d name i)")
    case OpenExists
    with 2 obtain j where "Suc i \<le> j" "j < Suc i + k" "p = unique_candidate d name j"
      and "\<not> fs_exists fs p" "fs' = fs\<lparr>fsFiles := AList.update p [] (fsFiles fs)\<rparr>" by auto
    then show ?thesis by (intro conjI exI [of _ j]) auto
  next
    case (OpenOk fs1)
    with 2 open_excl_OkD [OF OpenOk] show ?thesis by (auto intro!: exI [of _ i])
  qed (use 2 in simp)
qed simp

text \<open>The loop gives up only where it may: a refusal of the file system, or 999 names all taken.\<close>

lemma unique_loop_error:
  "unique_loop k fs d name i = Inl e \<Longrightarrow>
     (\<exists>j \<ge> i. j < i + k \<and> unique_candidate d name j \<in> set (fsRefuses fs)) \<or>
     (\<forall>j \<ge> i. j < i + k \<longrightarrow> fs_exists fs (unique_candidate d name j))"
proof (induction k fs d name i rule: unique_loop.induct)
  case (2 k fs d name i)
  show ?case
  proof (cases "open_excl fs (unique_candidate d name i)")
    case OpenExists
    then have ex: "fs_exists fs (unique_candidate d name i)"
      by (auto simp: open_excl_def split: if_splits)
    from 2 OpenExists consider
        (a) j where "Suc i \<le> j" "j < Suc i + k" "unique_candidate d name j \<in> set (fsRefuses fs)"
      | (b) "\<forall>j \<ge> Suc i. j < Suc i + k \<longrightarrow> fs_exists fs (unique_candidate d name j)" by auto
    then show ?thesis
    proof cases
      case a
      then have "\<exists>j \<ge> i. j < i + Suc k \<and> unique_candidate d name j \<in> set (fsRefuses fs)"
        by (intro exI [of _ j]) auto
      then show ?thesis ..
    next
      case b
      have "fs_exists fs (unique_candidate d name j)" if "i \<le> j" "j < i + Suc k" for j
        using ex b that by (cases "j = i") auto
      then show ?thesis by blast
    qed
  next
    case OpenError
    then have "unique_candidate d name i \<in> set (fsRefuses fs)"
      by (auto simp: open_excl_def split: if_splits)
    then show ?thesis by (intro disjI1 exI [of _ i]) auto
  qed (use 2 in simp)
qed auto

end
