(* ===== verification/Store.thy ===== *)
theory Store
  imports FileNames
begin

text \<open>
  The model of \<open>chat/store.go\<close>, the part in memory and what it writes: identity, roster,
  rooms, messages with their order, unread counts, the sequence counter, and the
  journal every change appends to. Reading the journal back is in \<open>StoreDisk\<close>.

  The files are values: a history file is the list of its lines, each the \<open>logLine\<close>
  it decodes to, or \<open>None\<close> where it decodes to nothing. \<open>dkRefuses\<close> lists the files the
  file system refuses to write, \<open>dkUnreadable\<close> the history files it refuses to open. The lemmas show that the binary search of \<open>insertOrdered\<close>
  is the sorted insertion, and that every operation keeps the invariant \<open>store_ok\<close>.
\<close>

section \<open>Files\<close>

record log_line =
  lKind :: string
  lMsg :: "message option"
  lID :: message_id
  lState :: message_state
  lSeq :: uint64

definition zero_line :: log_line where
  "zero_line = \<lparr>lKind = '''', lMsg = None, lID = '''', lState = StateNone, lSeq = 0\<rparr>"

datatype 'a file_content = Absent | Unreadable | Corrupt | Content 'a

record disk =
  dkIdentity :: "identity file_content"
  dkRoster :: "peer list file_content"
  dkPrefs :: "(string \<times> bool) list file_content"
  dkHistory :: "(string \<times> log_line option list) list"
  dkRefuses :: "string list"
  dkUnreadable :: "string list"

definition empty_disk :: disk where
  "empty_disk = \<lparr>dkIdentity = Absent, dkRoster = Absent, dkPrefs = Absent, dkHistory = [],
     dkRefuses = [], dkUnreadable = []\<rparr>"

definition safe_file_rune :: "nat \<Rightarrow> nat list" where
  "safe_file_rune r =
    (if 97 \<le> r \<and> r \<le> 122 \<or> 48 \<le> r \<and> r \<le> 57 \<or> r = 45 \<or> r = 95 then [r] else [95])"

definition safe_file_chars :: "string \<Rightarrow> string" where
  "safe_file_chars s = string_of_runes (concat (map safe_file_rune (runes (to_lower s))))"

definition safe_file_name :: "string \<Rightarrow> string" where
  "safe_file_name s =
    (if safe_file_chars s = '''' \<or> safe_file_chars s = ''_'' then ''unnamed''
     else clip_runes (safe_file_chars s) 120)"

definition history_path :: "conv_id \<Rightarrow> string" where
  "history_path c = safe_file_name c @ ''.ndjson''"

section \<open>The store\<close>

record store =
  stDir :: string
  stSelf :: identity
  stPeers :: "(peer_id \<times> peer) list"
  stMsgs :: "(conv_id \<times> message list) list"
  stSeen :: "(message_id \<times> bool) list"
  stUnread :: "(conv_id \<times> int) list"
  stNotify :: notify_prefs
  stNextSeq :: uint64
  stDisk :: disk

datatype store_error = NeedsIdAndConv | RoomNameLength | DiskError | CorruptFile

definition conv_msgs :: "store \<Rightarrow> conv_id \<Rightarrow> message list" where
  "conv_msgs s c = get_or [] (stMsgs s) c"

definition all_msgs :: "store \<Rightarrow> message list" where
  "all_msgs s = concat (map snd (stMsgs s))"

text \<open>\<open>NewStore("")\<close>, which is also \<open>NewMemoryStore\<close>.\<close>

definition new_memory_store :: "env \<Rightarrow> peer_id \<Rightarrow> store" where
  "new_memory_store e fresh =
     \<lparr>stDir = '''', stSelf = normalize_identity e fresh zero_identity, stPeers = [], stMsgs = [],
      stSeen = [], stUnread = [], stNotify = default_notify_prefs, stNextSeq = 0, stDisk = empty_disk\<rparr>"

section \<open>Writing\<close>

definition disk_err :: "store \<Rightarrow> string \<Rightarrow> store_error option" where
  "disk_err s name = (if name \<in> set (dkRefuses (stDisk s)) then Some DiskError else None)"

definition append_log :: "store \<Rightarrow> conv_id \<Rightarrow> log_line \<Rightarrow> store \<times> store_error option" where
  "append_log s c l =
    (if disk_err s (history_path c) \<noteq> None then (s, Some DiskError)
     else (s\<lparr>stDisk := (stDisk s)\<lparr>dkHistory :=
              AList.update (history_path c) (get_or [] (dkHistory (stDisk s)) (history_path c) @ [Some l])
                (dkHistory (stDisk s))\<rparr>\<rparr>, None))"

definition append_line :: "store \<Rightarrow> conv_id \<Rightarrow> message \<Rightarrow> store \<times> store_error option" where
  "append_line s c m = append_log s c (zero_line\<lparr>lKind := ''m'', lMsg := Some m\<rparr>)"

definition append_state :: "store \<Rightarrow> conv_id \<Rightarrow> message_id \<Rightarrow> message_state \<Rightarrow> store \<times> store_error option" where
  "append_state s c i st = append_log s c (zero_line\<lparr>lKind := ''s'', lID := i, lState := st\<rparr>)"

definition append_read :: "store \<Rightarrow> conv_id \<Rightarrow> store \<times> store_error option" where
  "append_read s c = append_log s c (zero_line\<lparr>lKind := ''r''\<rparr>)"

text \<open>\<open>saveRoster\<close>: presence and address are of the moment and are not kept.\<close>

definition roster_entry :: "peer \<Rightarrow> peer" where
  "roster_entry p = p\<lparr>pPresence := presence_offline, pAddr := ''''\<rparr>"

definition less_peer_id :: "peer \<Rightarrow> peer \<Rightarrow> bool" where
  "less_peer_id a b \<longleftrightarrow> pID a < pID b"

definition save_roster :: "store \<Rightarrow> store" where
  "save_roster s =
    (if disk_err s ''roster.json'' \<noteq> None then s
     else s\<lparr>stDisk := (stDisk s)\<lparr>dkRoster :=
        Content (sort_by less_peer_id (map roster_entry (map snd (stPeers s))))\<rparr>\<rparr>)"

text \<open>
  \<open>savePrefs\<close>: the object written, field by field. All fields but \<open>enabled\<close> are
  declared \<open>omitempty\<close>, so a false one is not written.
\<close>

definition prefs_fields :: "notify_prefs \<Rightarrow> (string \<times> bool) list" where
  "prefs_fields p = [(''enabled'', nEnabled p)]
     @ (if nDirectOnly p then [(''directOnly'', True)] else [])
     @ (if nDesktop p then [(''desktop'', True)] else [])
     @ (if nMentions p then [(''mentions'', True)] else [])"

definition save_prefs :: "store \<Rightarrow> store \<times> store_error option" where
  "save_prefs s =
    (if disk_err s ''prefs.json'' \<noteq> None then (s, Some DiskError)
     else (s\<lparr>stDisk := (stDisk s)\<lparr>dkPrefs := Content (prefs_fields (stNotify s))\<rparr>\<rparr>, None))"

definition save_identity :: "env \<Rightarrow> peer_id \<Rightarrow> store \<Rightarrow> identity \<Rightarrow> store \<times> store_error option" where
  "save_identity e fresh s i =
    (if disk_err s ''identity.json'' \<noteq> None then (s, Some DiskError)
     else (s\<lparr>stDisk := (stDisk s)\<lparr>dkIdentity := Content (normalize_identity e fresh i)\<rparr>\<rparr>, None))"

section \<open>Identity and preferences\<close>

definition set_self :: "env \<Rightarrow> peer_id \<Rightarrow> store \<Rightarrow> identity \<Rightarrow> store \<times> identity \<times> store_error option" where
  "set_self e fresh s i =
    (let out = normalize_identity e fresh (i\<lparr>iID := (if iID (stSelf s) = '''' then fresh else iID (stSelf s))\<rparr>);
         s1 = s\<lparr>stSelf := out\<rparr>
     in if stDir s = '''' then (s1, out, None)
        else (let (s2, err) = save_identity e fresh s1 out in (s2, out, err)))"

definition set_notify_prefs :: "store \<Rightarrow> notify_prefs \<Rightarrow> store \<times> notify_prefs \<times> store_error option" where
  "set_notify_prefs s p =
    (let s1 = s\<lparr>stNotify := p\<rparr>
     in if stDir s = '''' then (s1, p, None) else (let (s2, err) = save_prefs s1 in (s2, p, err)))"

section \<open>Peers\<close>

definition less_peer :: "peer \<Rightarrow> peer \<Rightarrow> bool" where
  "less_peer a b =
    (if (pPresence a \<noteq> presence_offline) \<noteq> (pPresence b \<noteq> presence_offline) then pPresence a \<noteq> presence_offline
     else if pLastSeen a \<noteq> pLastSeen b then pLastSeen b < pLastSeen a
     else display_name a < display_name b)"

definition peers :: "store \<Rightarrow> peer list" where
  "peers s = sort_by less_peer (map snd (stPeers s))"

definition peer_of :: "store \<Rightarrow> peer_id \<Rightarrow> peer option" where
  "peer_of s i = map_of (stPeers s) i"

definition same_peer :: "peer \<Rightarrow> peer \<Rightarrow> bool" where
  "same_peer a b \<longleftrightarrow> pNick a = pNick b \<and> pColor a = pColor b \<and> pHost a = pHost b \<and> pAddr a = pAddr b
     \<and> pPresence a = pPresence b \<and> pBlocked a = pBlocked b \<and> slice (pRooms a) = slice (pRooms b)"

definition merge_peer :: "peer \<Rightarrow> peer \<Rightarrow> peer" where
  "merge_peer old p =
    (let m0 = old\<lparr>pID := pID p\<rparr>;
         m1 = (if pNick p \<noteq> '''' then m0\<lparr>pNick := clip_runes (pNick p) 32\<rparr> else m0);
         m2 = (if pColor p \<noteq> '''' \<and> valid_color (pColor p) then m1\<lparr>pColor := pColor p\<rparr> else m1);
         m3 = (if pColor m2 = '''' then m2\<lparr>pColor := color_for_id (pID p)\<rparr> else m2);
         m4 = (if pHost p \<noteq> '''' then m3\<lparr>pHost := pHost p\<rparr> else m3);
         m5 = (if pAddr p \<noteq> '''' then m4\<lparr>pAddr := pAddr p\<rparr> else m4);
         m6 = (case pRooms p of None \<Rightarrow> m5 | Some r \<Rightarrow> m5\<lparr>pRooms := canon_rooms r\<rparr>);
         m7 = (if pPresence p \<noteq> '''' then m6\<lparr>pPresence := presence_valid (pPresence p)\<rparr> else m6);
         m8 = (if pLastSeen p \<noteq> zero_time then m7\<lparr>pLastSeen := pLastSeen p\<rparr> else m7)
     in m8\<lparr>pBlocked := pBlocked m8 \<or> pBlocked p\<rparr>)"

definition put_peer :: "store \<Rightarrow> peer \<Rightarrow> store \<times> bool" where
  "put_peer s p =
    (if pID p = '''' then (s, False)
     else (let old = get_or zero_peer (stPeers s) (pID p);
               merged = merge_peer old p;
               changed = (peer_of s (pID p) = None \<or> \<not> same_peer old merged);
               s1 = s\<lparr>stPeers := AList.update (pID p) merged (stPeers s)\<rparr>
           in (if changed \<and> stDir s \<noteq> '''' then save_roster s1 else s1, changed)))"

definition set_presence :: "gotime \<Rightarrow> store \<Rightarrow> peer_id \<Rightarrow> presence \<Rightarrow> store \<times> bool" where
  "set_presence now s i pr = put_peer s (zero_peer\<lparr>pID := i, pPresence := pr, pLastSeen := now\<rparr>)"

definition block_peer :: "store \<Rightarrow> peer_id \<Rightarrow> bool \<Rightarrow> store \<times> bool" where
  "block_peer s i b =
    (case peer_of s i of
       None \<Rightarrow> (s, False)
     | Some p \<Rightarrow> (let s1 = s\<lparr>stPeers := AList.update i (p\<lparr>pBlocked := b\<rparr>) (stPeers s)\<rparr>
                 in (if stDir s \<noteq> '''' then save_roster s1 else s1, True)))"

definition blocked :: "store \<Rightarrow> peer_id \<Rightarrow> bool" where
  "blocked s i = pBlocked (get_or zero_peer (stPeers s) i)"

section \<open>Rooms\<close>

definition counted :: "peer \<Rightarrow> bool" where
  "counted p \<longleftrightarrow> \<not> (pPresence p = presence_offline \<or> pBlocked p)"

definition room_count :: "(peer_id \<times> peer) list \<Rightarrow> string \<Rightarrow> nat" where
  "room_count ps r = sum_list (map (\<lambda>p. count_list (slice (pRooms p)) r) (filter counted (map snd ps)))"

definition unread :: "store \<Rightarrow> conv_id \<Rightarrow> int" where
  "unread s c = get_or 0 (stUnread s) c"

definition less_room :: "conversation \<Rightarrow> conversation \<Rightarrow> bool" where
  "less_room a b \<longleftrightarrow> cRoom a < cRoom b"

definition room_row :: "store \<Rightarrow> string \<Rightarrow> conversation" where
  "room_row s r = zero_conversation\<lparr>cID := room_conv r, cTitle := ''#'' @ r, cRoom := r,
     cMembers := int (room_count (stPeers s) r) + 1, cUnread := unread s (room_conv r)\<rparr>"

definition rooms :: "store \<Rightarrow> conversation list" where
  "rooms s = sort_by less_room (map (room_row s) (slice (iRooms (stSelf s))))"

definition less_string :: "string \<Rightarrow> string \<Rightarrow> bool" where
  "less_string a b \<longleftrightarrow> a < b"

definition join_room :: "env \<Rightarrow> peer_id \<Rightarrow> store \<Rightarrow> string \<Rightarrow> store \<times> string \<times> bool \<times> store_error option" where
  "join_room e fresh s name0 =
    (let name = canon_room name0 in
     if name = '''' \<or> 48 < length name then (s, '''', False, Some RoomNameLength)
     else if name \<in> set (slice (iRooms (stSelf s))) then (s, name, False, None)
     else (let s1 = s\<lparr>stSelf := (stSelf s)\<lparr>iRooms :=
                 Some (sort_by less_string (slice (iRooms (stSelf s)) @ [name]))\<rparr>\<rparr>
           in if stDir s = '''' then (s1, name, True, None)
              else (let (s2, err) = save_identity e fresh s1 (stSelf s1) in (s2, name, True, err))))"

definition leave_room :: "env \<Rightarrow> peer_id \<Rightarrow> store \<Rightarrow> string \<Rightarrow> store \<times> bool \<times> store_error option" where
  "leave_room e fresh s name0 =
    (let name = canon_room name0;
         out = filter (\<lambda>r. r \<noteq> name) (slice (iRooms (stSelf s)));
         found = (name \<in> set (slice (iRooms (stSelf s))));
         s1 = s\<lparr>stSelf := (stSelf s)\<lparr>iRooms := (if out = [] then None else Some out)\<rparr>\<rparr>
     in if \<not> found \<or> stDir s = '''' then (s1, found, None)
        else (let (s2, err) = save_identity e fresh s1 (stSelf s1) in (s2, found, err)))"

section \<open>Messages\<close>

definition next_seq :: "store \<Rightarrow> store \<times> uint64" where
  "next_seq s = (s\<lparr>stNextSeq := stNextSeq s + 1\<rparr>, stNextSeq s + 1)"

definition have_message :: "store \<Rightarrow> message_id \<Rightarrow> bool" where
  "have_message s i = get_or False (stSeen s) i"

definition max_body_runes :: nat where
  "max_body_runes = 8000"

definition less_message :: "message \<Rightarrow> message \<Rightarrow> bool" where
  "less_message a b =
    (if (mSeq a = 0) \<noteq> (mSeq b = 0) then mSeq b = 0
     else if mSeq a \<noteq> mSeq b then mSeq a < mSeq b
     else if mSent a \<noteq> mSent b then mSent a < mSent b
     else mID a < mID b)"

definition insert_ordered :: "message list \<Rightarrow> message \<Rightarrow> message list" where
  "insert_ordered list m =
    (if list = [] \<or> less_message (last list) m then list @ [m]
     else (let i = go_search (length list) (\<lambda>i. \<not> less_message (list ! i) m)
           in take i list @ m # drop i list))"

definition bump_seq :: "uint64 \<Rightarrow> uint64 \<Rightarrow> uint64" where
  "bump_seq old new = (if old < new then new else old)"

definition counts_unread :: "message \<Rightarrow> bool" where
  "counts_unread m \<longleftrightarrow> \<not> mMine m \<and> \<not> mRead m \<and> \<not> mSystem m"

definition filed_message :: "gotime \<Rightarrow> message \<Rightarrow> message" where
  "filed_message now m = m\<lparr>mSent := (if mSent m = zero_time then now else mSent m),
     mBody := clip_runes (mBody m) max_body_runes\<rparr>"

definition file_message :: "store \<Rightarrow> message \<Rightarrow> store" where
  "file_message s m = s\<lparr>stSeen := AList.update (mID m) True (stSeen s),
     stMsgs := AList.update (mConv m) (insert_ordered (conv_msgs s (mConv m)) m) (stMsgs s),
     stUnread := (if counts_unread m then AList.update (mConv m) (unread s (mConv m) + 1) (stUnread s)
        else stUnread s),
     stNextSeq := bump_seq (stNextSeq s) (mSeq m)\<rparr>"

definition append_message :: "gotime \<Rightarrow> store \<Rightarrow> message \<Rightarrow> store \<times> bool \<times> store_error option" where
  "append_message now s m0 =
    (if mID m0 = '''' \<or> mConv m0 = '''' then (s, False, Some NeedsIdAndConv)
     else if have_message s (mID m0) then (s, False, None)
     else (let m = filed_message now m0; s1 = file_message s m
           in if stDir s = '''' then (s1, True, None)
              else (let (s2, err) = append_line s1 (mConv m) m in (s2, True, err))))"

text \<open>\<open>list[len(list)-limit:]\<close>, the tail of a list, where the limit is positive and smaller.\<close>

definition tail :: "nat \<Rightarrow> 'a list \<Rightarrow> 'a list" where
  "tail n xs = (if 0 < n \<and> n < length xs then drop (length xs - n) xs else xs)"

definition messages :: "store \<Rightarrow> conv_id \<Rightarrow> nat \<Rightarrow> message list" where
  "messages s c limit = tail limit (conv_msgs s c)"

text \<open>The first message with an identifier: its conversation and its index.\<close>

fun index_of_id :: "message_id \<Rightarrow> message list \<Rightarrow> nat option" where
  "index_of_id i [] = None"
| "index_of_id i (m # ms) = (if mID m = i then Some 0 else map_option Suc (index_of_id i ms))"

fun locate :: "message_id \<Rightarrow> (conv_id \<times> message list) list \<Rightarrow> (conv_id \<times> nat) option" where
  "locate i [] = None"
| "locate i ((c, l) # r) =
     (case index_of_id i l of Some k \<Rightarrow> Some (c, k) | None \<Rightarrow> locate i r)"

definition message_of :: "store \<Rightarrow> message_id \<Rightarrow> message option" where
  "message_of s i = (case locate i (stMsgs s) of None \<Rightarrow> None | Some (c, k) \<Rightarrow> Some (conv_msgs s c ! k))"

definition set_state :: "store \<Rightarrow> message_id \<Rightarrow> message_state \<Rightarrow> store \<times> message option" where
  "set_state s i st =
    (case locate i (stMsgs s) of
       None \<Rightarrow> (s, None)
     | Some (c, k) \<Rightarrow>
         (let found = (conv_msgs s c ! k)\<lparr>mState := st\<rparr>;
              s1 = s\<lparr>stMsgs := AList.update c ((conv_msgs s c)[k := found]) (stMsgs s)\<rparr>
          in (if stDir s \<noteq> '''' then fst (append_state s1 (mConv found) i st) else s1, Some found)))"

definition is_queued :: "message \<Rightarrow> bool" where
  "is_queued m \<longleftrightarrow> mMine m \<and> (mState m = StateQueued \<or> mState m = StateSending)"

definition queued :: "store \<Rightarrow> conv_id \<Rightarrow> message list" where
  "queued s c = sort_by less_message
     (filter is_queued (if c \<noteq> '''' then conv_msgs s c else all_msgs s))"

definition since :: "store \<Rightarrow> uint64 \<Rightarrow> nat \<Rightarrow> message list" where
  "since s cursor limit = tail limit (sort_by less_message (filter (\<lambda>m. cursor < mSeq m) (all_msgs s)))"

definition convs :: "store \<Rightarrow> conv_id list" where
  "convs s = sort_by less_string (map fst (stMsgs s))"

definition confirm :: "store \<Rightarrow> message_id \<Rightarrow> uint64 \<Rightarrow> store \<times> message option" where
  "confirm s i seq =
    (case locate i (stMsgs s) of
       None \<Rightarrow> (s\<lparr>stNextSeq := bump_seq (stNextSeq s) seq\<rparr>, None)
     | Some (c, k) \<Rightarrow>
         (let found = (conv_msgs s c ! k)\<lparr>mSeq := seq, mState := StateDelivered\<rparr>;
              rest = take k (conv_msgs s c) @ drop (Suc k) (conv_msgs s c);
              s1 = s\<lparr>stMsgs := AList.update c (insert_ordered rest found) (stMsgs s),
                     stNextSeq := bump_seq (stNextSeq s) seq\<rparr>
          in (if stDir s \<noteq> ''''
              then fst (append_log s1 (mConv found)
                (zero_line\<lparr>lKind := ''q'', lID := i, lSeq := seq, lState := StateDelivered\<rparr>))
              else s1, Some found)))"

definition room_members :: "store \<Rightarrow> string \<Rightarrow> peer list" where
  "room_members s room0 = sort_by less_peer_id
     (filter (\<lambda>p. canon_room room0 \<in> set (slice (pRooms p))) (map snd (stPeers s)))"

definition mark_read :: "store \<Rightarrow> conv_id \<Rightarrow> store \<times> int" where
  "mark_read s c =
    (let n = unread s c;
         s1 = s\<lparr>stUnread := AList.delete c (stUnread s),
                stMsgs := (case map_of (stMsgs s) c of None \<Rightarrow> stMsgs s
                   | Some l \<Rightarrow> AList.update c (map (\<lambda>m. m\<lparr>mRead := True\<rparr>) l) (stMsgs s))\<rparr>
     in (if 0 < n \<and> stDir s \<noteq> '''' then fst (append_read s1 c) else s1, n))"

section \<open>The conversation list\<close>

definition with_last :: "store \<Rightarrow> conversation \<Rightarrow> conversation" where
  "with_last s c = (case conv_msgs s (cID c) of [] \<Rightarrow> c
     | l \<Rightarrow> c\<lparr>cLast := mBody (last l), cLastAt := mSent (last l)\<rparr>)"

definition peer_row :: "store \<Rightarrow> peer \<Rightarrow> conversation" where
  "peer_row s p = with_last s (zero_conversation\<lparr>cID := direct_conv (pID p), cTitle := display_name p,
     cPeer := pID p, cUnread := unread s (direct_conv (pID p)),
     cPresence := presence_valid (pPresence p), cColor := pColor p\<rparr>)"

definition keeps_row :: "store \<Rightarrow> peer \<Rightarrow> bool" where
  "keeps_row s p \<longleftrightarrow> \<not> (cLast (peer_row s p) = '''' \<and> pPresence p = presence_offline)"

definition less_conversation :: "conversation \<Rightarrow> conversation \<Rightarrow> bool" where
  "less_conversation a b =
    (if (0 < cUnread a) \<noteq> (0 < cUnread b) then 0 < cUnread a
     else if cLastAt a \<noteq> cLastAt b then cLastAt b < cLastAt a
     else if (cRoom a \<noteq> '''') \<noteq> (cRoom b \<noteq> '''') then cRoom a \<noteq> ''''
     else cTitle a < cTitle b)"

definition conversations :: "store \<Rightarrow> conversation list" where
  "conversations s = sort_by less_conversation
     (map (peer_row s) (filter (keeps_row s) (peers s)) @ map (with_last s) (rooms s))"

definition conversation_of :: "store \<Rightarrow> conv_id \<Rightarrow> conversation option" where
  "conversation_of s i =
    (case find (\<lambda>c. cID c = i) (conversations s) of
       Some c \<Rightarrow> Some c
     | None \<Rightarrow>
         if is_room i then
           (if conv_room i \<in> set (slice (iRooms (stSelf s)))
            then Some (zero_conversation\<lparr>cID := i, cTitle := ''#'' @ conv_room i, cRoom := conv_room i\<rparr>)
            else None)
         else (case peer_of s (trim_prefix i ''peer:'') of
             Some p \<Rightarrow> Some (zero_conversation\<lparr>cID := i, cTitle := display_name p,
                cPeer := trim_prefix i ''peer:'', cColor := pColor p, cPresence := pPresence p\<rparr>)
           | None \<Rightarrow> None))"

section \<open>The comparisons are orders\<close>

lemma less_message_lex:
  "less_message = (\<lambda>a b. (mSeq a = 0) < (mSeq b = 0) \<or> (mSeq a = 0) = (mSeq b = 0)
     \<and> (mSeq a < mSeq b \<or> mSeq a = mSeq b \<and> (mSent a < mSent b \<or> mSent a = mSent b \<and> mID a < mID b)))"
  by (intro ext) (auto simp: less_message_def)

interpretation message_order: weak_order less_message
  unfolding less_message_lex by (intro weak_order_lex weak_order_key)

interpretation peer_id_order: weak_order less_peer_id
  by unfold_locales (auto simp: less_peer_id_def)

lemma less_peer_lex:
  "less_peer = (\<lambda>a b. (pPresence a = presence_offline) < (pPresence b = presence_offline)
     \<or> (pPresence a = presence_offline) = (pPresence b = presence_offline)
     \<and> (- pLastSeen a < - pLastSeen b \<or> - pLastSeen a = - pLastSeen b \<and> display_name a < display_name b))"
  by (intro ext) (auto simp: less_peer_def)

interpretation peer_order: weak_order less_peer
  unfolding less_peer_lex by (intro weak_order_lex weak_order_key)

interpretation room_order: weak_order less_room
  by unfold_locales (auto simp: less_room_def)

interpretation string_order: weak_order less_string
  by unfold_locales (auto simp: less_string_def)

lemma less_conversation_lex:
  "less_conversation = (\<lambda>a b. (\<not> 0 < cUnread a) < (\<not> 0 < cUnread b) \<or> (\<not> 0 < cUnread a) = (\<not> 0 < cUnread b)
     \<and> (- cLastAt a < - cLastAt b \<or> - cLastAt a = - cLastAt b
       \<and> ((cRoom a = '''') < (cRoom b = '''') \<or> (cRoom a = '''') = (cRoom b = '''') \<and> cTitle a < cTitle b)))"
  by (intro ext) (auto simp: less_conversation_def)

interpretation conversation_order: weak_order less_conversation
  unfolding less_conversation_lex by (intro weak_order_lex weak_order_key)

lemma less_message_total:
  "\<not> less_message a b \<Longrightarrow> \<not> less_message b a \<Longrightarrow> mSeq a = mSeq b \<and> mSent a = mSent b \<and> mID a = mID b"
  by (auto simp: less_message_def split: if_splits)

section \<open>Insertion by binary search is sorted insertion\<close>

lemma insort_by_append: "(\<And>y. y \<in> set xs \<Longrightarrow> lt y x) \<Longrightarrow> insort_by lt x xs = xs @ [x]"
  by (induction xs) auto

lemma insert_ordered_insort:
  assumes "ordered_by less_message l"
  shows "insert_ordered l m = insort_by less_message m l"
proof (cases "l = [] \<or> less_message (last l) m")
  case True
  have "less_message y m" if "y \<in> set l" for y
  proof -
    from that obtain a where a: "a < length l" "y = l ! a" by (auto simp: in_set_conv_nth)
    then have "l \<noteq> []" by auto
    with True a message_order.ordered_below [OF assms, of a "length l - 1" m] show ?thesis
      by (simp add: last_conv_nth)
  qed
  then have "insort_by less_message m l = l @ [m]" by (rule insort_by_append)
  with True show ?thesis unfolding insert_ordered_def by (simp only: if_True)
next
  case False
  let ?i = "go_search (length l) (\<lambda>i. \<not> less_message (l ! i) m)"
  have i: "?i = length (takeWhile (\<lambda>y. less_message y m) l)"
    by (rule message_order.search_index [OF assms])
  have "insert_ordered l m = take ?i l @ m # drop ?i l"
    using False unfolding insert_ordered_def Let_def by (simp only: if_False)
  also have "\<dots> = takeWhile (\<lambda>y. less_message y m) l @ m # dropWhile (\<lambda>y. less_message y m) l"
    by (simp add: i takeWhile_eq_take [symmetric] dropWhile_eq_drop [symmetric])
  finally show ?thesis by (simp add: insort_by_split)
qed

lemma ordered_insert [simp, intro]: "ordered_by less_message l \<Longrightarrow> ordered_by less_message (insert_ordered l m)"
  by (simp add: insert_ordered_insort message_order.ordered_insort)

lemma mset_insert_ordered [simp]: "mset (insert_ordered l m) = add_mset m (mset l)"
proof -
  have "mset (take i l) + mset (drop i l) = mset l" for i
    by (metis append_take_drop_id mset_append)
  then show ?thesis by (simp add: insert_ordered_def Let_def)
qed

lemma set_insert_ordered [simp]: "set (insert_ordered l m) = insert m (set l)"
  by (metis mset_insert_ordered set_mset_add_mset_insert set_mset_mset)

lemma distinct_map_mset: "mset xs = mset ys \<Longrightarrow> distinct (map f xs) = distinct (map f ys)"
  by (metis mset_eq_imp_distinct_iff mset_map)

lemma distinct_insert_ordered [simp]:
  "distinct (map mID (insert_ordered l m)) \<longleftrightarrow> distinct (map mID (m # l))"
  by (rule distinct_map_mset) simp

lemma filter_insert_ordered [simp]:
  "length (filter P (insert_ordered l m)) = (if P m then 1 else 0) + length (filter P l)"
proof -
  have "size (mset (filter P (insert_ordered l m))) = size (filter_mset P (add_mset m (mset l)))"
    by (simp add: mset_filter)
  then show ?thesis by (simp flip: mset_filter split: if_splits)
qed

text \<open>The order looks at the sequence number, the time and the identifier only.\<close>

definition message_key :: "message \<Rightarrow> uint64 \<times> gotime \<times> message_id" where
  "message_key m = (mSeq m, mSent m, mID m)"

lemma ordered_keys:
  assumes "map message_key l = map message_key l'"
  shows "ordered_by less_message l = ordered_by less_message l'"
proof -
  have len: "length l = length l'" using assms by (rule map_eq_imp_length_eq)
  have "less_message (l ! a) (l ! b) = less_message (l' ! a) (l' ! b)" if "a < length l" "b < length l" for a b
  proof -
    have "message_key (l ! a) = message_key (l' ! a)" "message_key (l ! b) = message_key (l' ! b)"
      using that assms len by (metis nth_map)+
    then show ?thesis by (simp add: message_key_def less_message_def)
  qed
  with len show ?thesis by (simp add: ordered_by_def sorted_wrt_iff_nth_less)
qed

lemma ordered_remove: "ordered_by lt l \<Longrightarrow> ordered_by lt (take k l @ drop (Suc k) l)"
proof -
  assume ord: "ordered_by lt l"
  have "sorted_wrt R (take k l @ drop (Suc k) l)" if "sorted_wrt R l" for R
  proof -
    have "sorted_wrt R (take k l @ drop k l)" using that by simp
    then have "sorted_wrt R (take k l)" and "\<forall>x \<in> set (take k l). \<forall>y \<in> set (drop k l). R x y"
      unfolding sorted_wrt_append by auto
    moreover have "set (drop (Suc k) l) \<subseteq> set (drop k l)" by (rule set_drop_subset_set_drop) simp
    ultimately show ?thesis using that by (auto simp: sorted_wrt_append sorted_wrt_drop)
  qed
  with ord show ?thesis by (simp add: ordered_by_def)
qed

lemma mset_remove_nth: "k < length l \<Longrightarrow> add_mset (l ! k) (mset (take k l @ drop (Suc k) l)) = mset l"
  by (metis id_take_nth_drop mset_append mset.simps(2) union_mset_add_mset_right)


section \<open>The invariant of a store\<close>

text \<open>Every list is ordered, an identifier occurs once, and a message is in the list of its conversation.\<close>

definition msgs_ok :: "(conv_id \<times> message list) list \<Rightarrow> bool" where
  "msgs_ok ms \<longleftrightarrow> map_ok ms
     \<and> (\<forall>c. ordered_by less_message (get_or [] ms c) \<and> distinct (map mID (get_or [] ms c))
          \<and> (\<forall>m \<in> set (get_or [] ms c). mConv m = c \<and> c \<noteq> '''' \<and> mID m \<noteq> ''''))
     \<and> (\<forall>c c'. \<forall>m \<in> set (get_or [] ms c). \<forall>m' \<in> set (get_or [] ms c'). mID m = mID m' \<longrightarrow> c = c')"

definition peer_ok :: "peer_id \<Rightarrow> peer \<Rightarrow> bool" where
  "peer_ok i p \<longleftrightarrow> pID p = i \<and> i \<noteq> '''' \<and> canonical_rooms (slice (pRooms p)) \<and> valid_color (pColor p)
     \<and> length (runes (pNick p)) \<le> 32 \<and> (pPresence p = '''' \<or> presence_valid (pPresence p) = pPresence p)"

definition peers_ok :: "(peer_id \<times> peer) list \<Rightarrow> bool" where
  "peers_ok ps \<longleftrightarrow> map_ok ps \<and> (\<forall>i p. map_of ps i = Some p \<longrightarrow> peer_ok i p)"

definition seen_ok :: "store \<Rightarrow> bool" where
  "seen_ok s \<longleftrightarrow> (\<forall>i. have_message s i \<longleftrightarrow> (\<exists>c. \<exists>m \<in> set (conv_msgs s c). mID m = i))"

definition unread_ok :: "store \<Rightarrow> bool" where
  "unread_ok s \<longleftrightarrow> (\<forall>c. unread s c = int (length (filter counts_unread (conv_msgs s c))))"

definition seq_ok :: "store \<Rightarrow> bool" where
  "seq_ok s \<longleftrightarrow> (\<forall>c. \<forall>m \<in> set (conv_msgs s c). mSeq m \<le> stNextSeq s)"

definition store_ok :: "store \<Rightarrow> bool" where
  "store_ok s \<longleftrightarrow> msgs_ok (stMsgs s) \<and> peers_ok (stPeers s) \<and> seen_ok s \<and> unread_ok s \<and> seq_ok s"

lemmas store_ok_defs = store_ok_def msgs_ok_def seen_ok_def unread_ok_def seq_ok_def

lemma all_msgs_iff:
  assumes "map_ok (stMsgs s)"
  shows "m \<in> set (all_msgs s) \<longleftrightarrow> (\<exists>c. m \<in> set (conv_msgs s c))"
proof
  assume "m \<in> set (all_msgs s)"
  then obtain c l where "(c, l) \<in> set (stMsgs s)" "m \<in> set l" by (auto simp: all_msgs_def)
  with map_of_in_set [OF assms] have "map_of (stMsgs s) c = Some l" by simp
  with \<open>m \<in> set l\<close> show "\<exists>c. m \<in> set (conv_msgs s c)"
    by (intro exI [of _ c]) (simp add: conv_msgs_def get_or_def)
next
  assume "\<exists>c. m \<in> set (conv_msgs s c)"
  then obtain c where "m \<in> set (conv_msgs s c)" ..
  then obtain l where "map_of (stMsgs s) c = Some l" "m \<in> set l"
    by (cases "map_of (stMsgs s) c") (auto simp: conv_msgs_def get_or_def)
  then show "m \<in> set (all_msgs s)" by (force simp: all_msgs_def dest: map_of_SomeD)
qed

lemma new_memory_store_ok: "store_ok (new_memory_store e fresh)"
  by (simp add: store_ok_defs new_memory_store_def conv_msgs_def have_message_def unread_def peers_ok_def
      ordered_by_def)

section \<open>What an operation leaves alone\<close>

lemma append_log_frame [simp]:
  "stSelf (fst (append_log s c l)) = stSelf s" "stPeers (fst (append_log s c l)) = stPeers s"
  "stMsgs (fst (append_log s c l)) = stMsgs s" "stSeen (fst (append_log s c l)) = stSeen s"
  "stUnread (fst (append_log s c l)) = stUnread s" "stNextSeq (fst (append_log s c l)) = stNextSeq s"
  "stDir (fst (append_log s c l)) = stDir s" "stNotify (fst (append_log s c l)) = stNotify s"
  by (simp_all add: append_log_def)

lemma save_roster_frame [simp]:
  "stSelf (save_roster s) = stSelf s" "stPeers (save_roster s) = stPeers s"
  "stMsgs (save_roster s) = stMsgs s" "stSeen (save_roster s) = stSeen s"
  "stUnread (save_roster s) = stUnread s" "stNextSeq (save_roster s) = stNextSeq s"
  "stDir (save_roster s) = stDir s" "stNotify (save_roster s) = stNotify s"
  by (simp_all add: save_roster_def)

lemma put_peer_frame [simp]:
  "stSelf (fst (put_peer s p)) = stSelf s" "stMsgs (fst (put_peer s p)) = stMsgs s"
  "stSeen (fst (put_peer s p)) = stSeen s" "stUnread (fst (put_peer s p)) = stUnread s"
  "stNextSeq (fst (put_peer s p)) = stNextSeq s" "stDir (fst (put_peer s p)) = stDir s"
  "stNotify (fst (put_peer s p)) = stNotify s"
  by (simp_all add: put_peer_def Let_def)

lemma conv_msgs_cong: "stMsgs s = stMsgs s' \<Longrightarrow> conv_msgs s c = conv_msgs s' c"
  by (simp add: conv_msgs_def)

text \<open>The invariant looks at the peers, the messages, the seen set, the counts and the counter.\<close>

lemma store_ok_cong:
  assumes "stPeers s = stPeers s'" "stMsgs s = stMsgs s'" "stSeen s = stSeen s'"
    "stUnread s = stUnread s'" "stNextSeq s = stNextSeq s'"
  shows "store_ok s = store_ok s'"
  using assms by (simp add: store_ok_defs conv_msgs_def have_message_def unread_def)

lemma store_ok_append_log [simp]: "store_ok (fst (append_log s c l)) = store_ok s"
  by (rule store_ok_cong) simp_all

section \<open>Peers\<close>

lemma valid_color_for_id: "valid_color (color_for_id i)"
proof -
  have "list_all valid_color avatar_palette" by code_simp
  moreover have "color_for_id i \<in> set avatar_palette"
    unfolding color_for_id_def by (rule nth_mem) (simp add: avatar_palette_def)
  ultimately show ?thesis by (simp add: list_all_iff)
qed

lemma valid_color_nonempty: "valid_color c \<Longrightarrow> c \<noteq> ''''"
  by (auto simp: valid_color_def)

lemma merge_peer_id [simp]: "pID (merge_peer old p) = pID p"
  by (simp add: merge_peer_def Let_def split: option.splits)

lemma merge_peer_fields:
  "pNick (merge_peer old p) = (if pNick p \<noteq> '''' then clip_runes (pNick p) 32 else pNick old)"
  "pColor (merge_peer old p) = (if pColor p \<noteq> '''' \<and> valid_color (pColor p) then pColor p
     else if pColor old = '''' then color_for_id (pID p) else pColor old)"
  "pHost (merge_peer old p) = (if pHost p \<noteq> '''' then pHost p else pHost old)"
  "pAddr (merge_peer old p) = (if pAddr p \<noteq> '''' then pAddr p else pAddr old)"
  "pRooms (merge_peer old p) = (case pRooms p of None \<Rightarrow> pRooms old | Some r \<Rightarrow> canon_rooms r)"
  "pPresence (merge_peer old p) = (if pPresence p \<noteq> '''' then presence_valid (pPresence p) else pPresence old)"
  "pLastSeen (merge_peer old p) = (if pLastSeen p \<noteq> zero_time then pLastSeen p else pLastSeen old)"
  "pBlocked (merge_peer old p) = (pBlocked old \<or> pBlocked p)"
  by (simp_all add: merge_peer_def Let_def split: option.splits)

lemma merge_peer_ok:
  assumes "pID p \<noteq> ''''" and "old = zero_peer \<or> peer_ok i old"
  shows "peer_ok (pID p) (merge_peer old p)"
proof -
  have zero: "slice (pRooms zero_peer) = []" "pColor zero_peer = ''''" "runes (pNick zero_peer) = []"
      "pPresence zero_peer = ''''"
    by (simp_all add: zero_peer_def)
  from assms(2) have old: "canonical_rooms (slice (pRooms old))" "pColor old = '''' \<or> valid_color (pColor old)"
      "length (runes (pNick old)) \<le> 32" "pPresence old = '''' \<or> presence_valid (pPresence old) = pPresence old"
    by (auto simp: peer_ok_def zero canonical_rooms_def)
  have "canonical_rooms (slice (pRooms (merge_peer old p)))"
    using old by (simp add: merge_peer_fields canonical_canon_rooms split: option.splits)
  moreover have "valid_color (pColor (merge_peer old p))"
    using old by (auto simp: merge_peer_fields valid_color_for_id)
  moreover have "length (runes (pNick (merge_peer old p))) \<le> 32"
    using old by (simp add: merge_peer_fields clip_runes_length)
  moreover have "pPresence (merge_peer old p) = '''' \<or>
      presence_valid (pPresence (merge_peer old p)) = pPresence (merge_peer old p)"
    using old by (simp add: merge_peer_fields)
  ultimately show ?thesis using assms(1) by (simp add: peer_ok_def)
qed

lemma put_peer_peers:
  "stPeers (fst (put_peer s p)) = (if pID p = '''' then stPeers s
     else AList.update (pID p) (merge_peer (get_or zero_peer (stPeers s) (pID p)) p) (stPeers s))"
  by (simp add: put_peer_def Let_def)

lemma peer_of_put_peer:
  "peer_of (fst (put_peer s p)) i = (if pID p \<noteq> '''' \<and> i = pID p
     then Some (merge_peer (get_or zero_peer (stPeers s) i) p) else peer_of s i)"
  by (simp add: peer_of_def put_peer_peers)

lemma peers_ok_get:
  "peers_ok ps \<Longrightarrow> get_or zero_peer ps i = zero_peer \<or> peer_ok i (get_or zero_peer ps i)"
  by (auto simp: get_or_def peers_ok_def split: option.splits)

lemma peers_ok_update: "peers_ok ps \<Longrightarrow> peer_ok i p \<Longrightarrow> peers_ok (AList.update i p ps)"
  by (simp add: peers_ok_def)

lemma store_ok_put_peer [simp, intro]: "store_ok s \<Longrightarrow> store_ok (fst (put_peer s p))"
proof -
  assume ok: "store_ok s"
  then have "peers_ok (stPeers (fst (put_peer s p)))"
    by (auto simp: put_peer_peers store_ok_def intro: peers_ok_update merge_peer_ok [OF _ peers_ok_get])
  with ok show ?thesis
    by (simp add: store_ok_defs conv_msgs_def have_message_def unread_def)
qed

lemma store_ok_set_presence [simp, intro]: "store_ok s \<Longrightarrow> store_ok (fst (set_presence now s i pr))"
  by (simp add: set_presence_def)

lemma store_ok_block_peer [simp, intro]: "store_ok s \<Longrightarrow> store_ok (fst (block_peer s i b))"
proof -
  assume ok: "store_ok s"
  show ?thesis
  proof (cases "peer_of s i")
    case (Some p)
    with ok have "peer_ok i (p\<lparr>pBlocked := b\<rparr>)"
      by (simp add: store_ok_def peers_ok_def peer_of_def peer_ok_def)
    then have "peers_ok (stPeers (fst (block_peer s i b)))"
      using ok Some by (simp add: block_peer_def Let_def store_ok_def peers_ok_update)
    with ok Some show ?thesis
      by (simp add: store_ok_defs conv_msgs_def have_message_def unread_def block_peer_def Let_def)
  qed (use ok in \<open>simp add: block_peer_def\<close>)
qed


section \<open>Filing a message\<close>

lemma conv_msgs_update:
  "stMsgs s' = AList.update c l (stMsgs s) \<Longrightarrow> conv_msgs s' c' = (if c' = c then l else conv_msgs s c')"
  by (simp add: conv_msgs_def)

lemma msgs_ok_conv:
  "msgs_ok ms \<Longrightarrow> m \<in> set (get_or [] ms c) \<Longrightarrow> m' \<in> set (get_or [] ms c') \<Longrightarrow> mID m = mID m' \<Longrightarrow> c = c'"
  unfolding msgs_ok_def by blast

lemma msgs_ok_update:
  assumes ok: "msgs_ok ms" and ord: "ordered_by less_message l" and dist: "distinct (map mID l)"
    and conv: "\<And>m. m \<in> set l \<Longrightarrow> mConv m = c \<and> c \<noteq> '''' \<and> mID m \<noteq> ''''"
    and new: "\<And>m m' c'. m \<in> set l \<Longrightarrow> c' \<noteq> c \<Longrightarrow> m' \<in> set (get_or [] ms c') \<Longrightarrow> mID m \<noteq> mID m'"
  shows "msgs_ok (AList.update c l ms)"
proof -
  have "c1 = c2" if "m1 \<in> set (get_or [] (AList.update c l ms) c1)"
      "m2 \<in> set (get_or [] (AList.update c l ms) c2)" "mID m1 = mID m2" for m1 m2 c1 c2
    using that new [of m1 c2 m2] new [of m2 c1 m1] msgs_ok_conv [OF ok, of m1 c1 m2 c2]
    by (auto split: if_splits)
  then have "\<forall>c1 c2. \<forall>m1 \<in> set (get_or [] (AList.update c l ms) c1).
      \<forall>m2 \<in> set (get_or [] (AList.update c l ms) c2). mID m1 = mID m2 \<longrightarrow> c1 = c2" by blast
  moreover have "map_ok (AList.update c l ms)" using ok by (simp add: msgs_ok_def)
  moreover have "ordered_by less_message (get_or [] (AList.update c l ms) c')
      \<and> distinct (map mID (get_or [] (AList.update c l ms) c'))
      \<and> (\<forall>m \<in> set (get_or [] (AList.update c l ms) c'). mConv m = c' \<and> c' \<noteq> '''' \<and> mID m \<noteq> '''')" for c'
    using ok ord dist conv unfolding msgs_ok_def by simp
  ultimately show ?thesis unfolding msgs_ok_def by blast
qed

lemma file_message_stMsgs:
  "stMsgs (file_message s m) = AList.update (mConv m) (insert_ordered (conv_msgs s (mConv m)) m) (stMsgs s)"
  by (simp add: file_message_def)

lemma file_message_fields:
  "unread (file_message s m) c = unread s c + (if counts_unread m \<and> c = mConv m then 1 else 0)"
  "stNextSeq (file_message s m) = bump_seq (stNextSeq s) (mSeq m)"
  "stPeers (file_message s m) = stPeers s" "stSelf (file_message s m) = stSelf s"
  "stDir (file_message s m) = stDir s" "stNotify (file_message s m) = stNotify s"
  "stDisk (file_message s m) = stDisk s"
  by (simp_all add: file_message_def unread_def)

lemma file_message_msgs: "conv_msgs (file_message s m) c =
    (if c = mConv m then insert_ordered (conv_msgs s c) m else conv_msgs s c)"
  by (simp add: file_message_def conv_msgs_def)

lemma set_file_message:
  "m' \<in> set (conv_msgs (file_message s m) c) \<longleftrightarrow> (c = mConv m \<and> m' = m) \<or> m' \<in> set (conv_msgs s c)"
  by (auto simp: file_message_msgs)

lemma bump_seq_ge: "old \<le> bump_seq old new" "new \<le> bump_seq old new"
  by (auto simp: bump_seq_def)

lemma have_message_file: "have_message (file_message s m) i \<longleftrightarrow> i = mID m \<or> have_message s i"
  by (simp add: have_message_def file_message_def)

lemma have_message_iff:
  "store_ok s \<Longrightarrow> have_message s i \<longleftrightarrow> (\<exists>c. \<exists>m \<in> set (conv_msgs s c). mID m = i)"
  by (simp add: store_ok_def seen_ok_def)

lemma store_okD:
  assumes "store_ok s"
  shows "map_ok (stMsgs s)" "ordered_by less_message (conv_msgs s c)" "distinct (map mID (conv_msgs s c))"
    "m \<in> set (conv_msgs s c) \<Longrightarrow> mConv m = c" "m \<in> set (conv_msgs s c) \<Longrightarrow> c \<noteq> ''''"
    "m \<in> set (conv_msgs s c) \<Longrightarrow> mID m \<noteq> ''''" "m \<in> set (conv_msgs s c) \<Longrightarrow> mSeq m \<le> stNextSeq s"
    "unread s c = int (length (filter counts_unread (conv_msgs s c)))"
    "m \<in> set (conv_msgs s c) \<Longrightarrow> m' \<in> set (conv_msgs s c') \<Longrightarrow> mID m = mID m' \<Longrightarrow> c = c'"
  using assms unfolding store_ok_defs conv_msgs_def by (simp_all) (blast)

lemma store_ok_file_message:
  assumes ok: "store_ok s" and new: "\<not> have_message s (mID m)" and ne: "mID m \<noteq> ''''" "mConv m \<noteq> ''''"
  shows "store_ok (file_message s m)"
proof -
  from new have notin: "mID m' \<noteq> mID m" if "m' \<in> set (conv_msgs s c)" for m' c
    using that have_message_iff [OF ok] by blast
  have "msgs_ok (stMsgs (file_message s m))"
    unfolding file_message_stMsgs
  proof (rule msgs_ok_update)
    show "msgs_ok (stMsgs s)" using ok by (simp add: store_ok_def)
    show "ordered_by less_message (insert_ordered (conv_msgs s (mConv m)) m)"
      using store_okD(2) [OF ok] by simp
    show "distinct (map mID (insert_ordered (conv_msgs s (mConv m)) m))"
      using store_okD(3) [OF ok] notin by fastforce
    show "mConv m' = mConv m \<and> mConv m \<noteq> '''' \<and> mID m' \<noteq> ''''"
      if "m' \<in> set (insert_ordered (conv_msgs s (mConv m)) m)" for m'
      using that ne store_okD(4,6) [OF ok] by auto
    show "mID m1 \<noteq> mID m2" if "m1 \<in> set (insert_ordered (conv_msgs s (mConv m)) m)" "c' \<noteq> mConv m"
      "m2 \<in> set (get_or [] (stMsgs s) c')" for m1 m2 c'
    proof (cases "m1 = m")
      case True
      with that notin show ?thesis by (metis conv_msgs_def)
    next
      case False
      with that store_okD(9) [OF ok, of m1 "mConv m" m2 c'] show ?thesis by (auto simp: conv_msgs_def)
    qed
  qed
  moreover have "seen_ok (file_message s m)"
    unfolding seen_ok_def have_message_file have_message_iff [OF ok] Bex_def set_file_message by blast
  moreover have "unread_ok (file_message s m)"
    using store_okD(8) [OF ok] by (auto simp: unread_ok_def file_message_msgs file_message_fields)
  moreover have "seq_ok (file_message s m)"
    using order_trans [OF store_okD(7) [OF ok] bump_seq_ge(1)] bump_seq_ge(2)
    by (auto simp: seq_ok_def set_file_message file_message_fields)
  moreover have "peers_ok (stPeers (file_message s m))"
    using ok by (simp add: store_ok_def file_message_fields)
  ultimately show ?thesis by (simp add: store_ok_def)
qed

lemma filed_message_fields [simp]:
  "mID (filed_message now m) = mID m" "mConv (filed_message now m) = mConv m"
  "mSeq (filed_message now m) = mSeq m" "mFrom (filed_message now m) = mFrom m"
  "mFromNick (filed_message now m) = mFromNick m" "mMine (filed_message now m) = mMine m"
  "mState (filed_message now m) = mState m" "mRead (filed_message now m) = mRead m"
  "mSystem (filed_message now m) = mSystem m"
  by (simp_all add: filed_message_def)

lemma append_message_store:
  "stMsgs (fst (append_message now s m)) =
     (if mID m \<noteq> '''' \<and> mConv m \<noteq> '''' \<and> \<not> have_message s (mID m)
      then stMsgs (file_message s (filed_message now m)) else stMsgs s)"
  by (simp add: append_message_def append_line_def Let_def case_prod_beta)

lemma append_message_conv:
  assumes "mID m \<noteq> ''''" and "mConv m \<noteq> ''''" and "\<not> have_message st (mID m)"
  shows "conv_msgs (fst (append_message now st m)) c
    = (if c = mConv m then insert_ordered (conv_msgs st c) (filed_message now m) else conv_msgs st c)"
  using assms file_message_msgs [of st "filed_message now m" c]
  by (simp add: conv_msgs_def append_message_store)

lemma append_message_fields:
  "stPeers (fst (append_message now st m)) = stPeers st"
  "stSelf (fst (append_message now st m)) = stSelf st" "stDir (fst (append_message now st m)) = stDir st"
  by (simp_all add: append_message_def Let_def append_line_def case_prod_beta file_message_fields)

lemma append_message_next:
  "stNextSeq (fst (append_message now st m)) = (if mID m \<noteq> '''' \<and> mConv m \<noteq> '''' \<and> \<not> have_message st (mID m)
     then bump_seq (stNextSeq st) (mSeq m) else stNextSeq st)"
  by (simp add: append_message_def Let_def append_line_def case_prod_beta file_message_fields)

lemma store_ok_append_message [simp, intro]: "store_ok s \<Longrightarrow> store_ok (fst (append_message now s m))"
proof -
  assume ok: "store_ok s"
  have "store_ok (file_message s (filed_message now m))"
    if "mID m \<noteq> ''''" "mConv m \<noteq> ''''" "\<not> have_message s (mID m)"
    using ok that by (simp add: store_ok_file_message)
  with ok show ?thesis
    by (simp add: append_message_def Let_def append_line_def case_prod_beta)
qed


section \<open>Looking a message up, changing its state, confirming it\<close>

lemma index_of_id_Some:
  "index_of_id i l = Some k \<Longrightarrow> k < length l \<and> mID (l ! k) = i"
  by (induction l arbitrary: k) (auto split: if_splits)

lemma index_of_id_None: "index_of_id i l = None \<longleftrightarrow> i \<notin> mID ` set l"
  by (induction l) auto

lemma locate_Some:
  "map_ok ms \<Longrightarrow> locate i ms = Some (c, k) \<Longrightarrow>
     k < length (get_or [] ms c) \<and> mID (get_or [] ms c ! k) = i \<and> map_of ms c = Some (get_or [] ms c)"
proof (induction i ms rule: locate.induct)
  case (2 i c' l r)
  show ?case
  proof (cases "index_of_id i l")
    case None
    with 2 have IH: "k < length (get_or [] r c) \<and> mID (get_or [] r c ! k) = i \<and> map_of r c = Some (get_or [] r c)"
      by (simp add: map_ok_def)
    then have "c \<in> fst ` set r" by (metis map_of_eq_None_iff option.distinct(1))
    with "2.prems"(1) have "c \<noteq> c'" by (auto simp: map_ok_def)
    with IH show ?thesis by (simp add: get_or_def)
  next
    case (Some k')
    with 2 index_of_id_Some [OF Some] show ?thesis by (simp add: get_or_def)
  qed
qed simp

lemma locate_None: "map_ok ms \<Longrightarrow> locate i ms = None \<Longrightarrow> m \<in> set (get_or [] ms c) \<Longrightarrow> mID m \<noteq> i"
proof (induction i ms rule: locate.induct)
  case (2 i c' l r)
  from "2.prems"(2) have none: "index_of_id i l = None" "locate i r = None" by (auto split: option.splits)
  show ?case
  proof (cases "c = c'")
    case True
    with 2 none show ?thesis by (auto simp: get_or_def index_of_id_None)
  next
    case False
    with 2 none show ?thesis by (simp add: get_or_def map_ok_def)
  qed
qed simp

lemma message_of_Some: "store_ok s \<Longrightarrow> message_of s i = Some m \<longleftrightarrow> (m \<in> set (conv_msgs s (mConv m)) \<and> mID m = i)"
proof -
  assume ok: "store_ok s"
  show ?thesis
  proof (cases "locate i (stMsgs s)")
    case None
    with locate_None [OF store_okD(1) [OF ok] None, of m "mConv m"] show ?thesis
      by (auto simp: message_of_def conv_msgs_def)
  next
    case (Some a)
    obtain c k where ck: "locate i (stMsgs s) = Some (c, k)" using Some by (cases a) auto
    from locate_Some [OF store_okD(1) [OF ok] this]
    have k: "k < length (conv_msgs s c)" "mID (conv_msgs s c ! k) = i" by (auto simp: conv_msgs_def)
    then have mem: "conv_msgs s c ! k \<in> set (conv_msgs s c)" by simp
    have "m = conv_msgs s c ! k" if m: "m \<in> set (conv_msgs s (mConv m))" "mID m = i"
    proof -
      have "c = mConv m" by (rule store_okD(9) [OF ok mem m(1)]) (simp add: k m)
      with m mem k store_okD(3) [OF ok, of c] show ?thesis by (auto simp: distinct_map dest: inj_onD)
    qed
    with ck k mem store_okD(4) [OF ok mem] show ?thesis by (auto simp: message_of_def)
  qed
qed

lemma have_message_of: "store_ok s \<Longrightarrow> have_message s i \<longleftrightarrow> message_of s i \<noteq> None"
proof -
  assume ok: "store_ok s"
  have "(\<exists>c. \<exists>m \<in> set (conv_msgs s c). mID m = i) \<longleftrightarrow> (\<exists>m. message_of s i = Some m)"
    using store_okD(4) [OF ok] message_of_Some [OF ok] by blast
  then show ?thesis by (simp add: have_message_iff [OF ok])
qed

text \<open>Replacing the message at an index by one that differs only in what the invariant ignores.\<close>

lemma msgs_ok_replace:
  assumes ok: "msgs_ok ms" and k: "k < length (get_or [] ms c)"
    and l: "mset l = add_mset m (mset (take k (get_or [] ms c) @ drop (Suc k) (get_or [] ms c)))"
    and ord: "ordered_by less_message l"
    and m: "mID m = mID (get_or [] ms c ! k)" "mConv m = mConv (get_or [] ms c ! k)"
  shows "msgs_ok (AList.update c l ms)"
proof (rule msgs_ok_update [OF ok ord])
  let ?l = "get_or [] ms c"
  have old: "mset ?l = add_mset (?l ! k) (mset (take k ?l @ drop (Suc k) ?l))"
    by (rule mset_remove_nth [OF k, symmetric])
  have ids: "mset (map mID l) = mset (map mID ?l)"     unfolding mset_map l by (subst old) (simp add: m)
  then show "distinct (map mID l)"
    using ok mset_eq_imp_distinct_iff [OF ids] unfolding msgs_ok_def by simp
  have "set l \<subseteq> insert m (set ?l)"
    using arg_cong [OF l, of set_mset] by (auto dest: in_set_takeD in_set_dropD)
  moreover have "?l ! k \<in> set ?l" using k by simp
  moreover have all: "mConv m' = c \<and> c \<noteq> '''' \<and> mID m' \<noteq> ''''" if "m' \<in> set ?l" for m'
    using ok that unfolding msgs_ok_def by blast
  ultimately show "mConv m' = c \<and> c \<noteq> '''' \<and> mID m' \<noteq> ''''" if "m' \<in> set l" for m'
    using that m all [of "?l ! k"] all [of m'] by (metis insertE subsetD)
  show "mID m1 \<noteq> mID m2" if "m1 \<in> set l" "c' \<noteq> c" "m2 \<in> set (get_or [] ms c')" for m1 m2 c'
  proof -
    have "mID m1 \<in> mID ` set ?l"
      using arg_cong [OF ids, of set_mset] that(1) by auto
    then show ?thesis using msgs_ok_conv [OF ok] that(2,3) by auto
  qed
qed


lemma list_update_parts: "k < length l \<Longrightarrow> l[k := m] = take k l @ m # drop (Suc k) l"
  by (rule upd_conv_take_nth_drop)

lemma store_ok_replace:
  assumes ok: "store_ok s" and k: "k < length (conv_msgs s c)"
    and l: "mset l = add_mset m (mset (take k (conv_msgs s c) @ drop (Suc k) (conv_msgs s c)))"
    and ord: "ordered_by less_message l"
    and m: "mID m = mID (conv_msgs s c ! k)" "mConv m = mConv (conv_msgs s c ! k)"
      "counts_unread m = counts_unread (conv_msgs s c ! k)"
    and seq: "mSeq m \<le> n" "stNextSeq s \<le> n"
  shows "store_ok (s\<lparr>stMsgs := AList.update c l (stMsgs s), stNextSeq := n\<rparr>)" (is "store_ok ?t")
proof -
  have old: "mset (conv_msgs s c) =
      add_mset (conv_msgs s c ! k) (mset (take k (conv_msgs s c) @ drop (Suc k) (conv_msgs s c)))"
    by (rule mset_remove_nth [OF k, symmetric])
  have msgs: "conv_msgs ?t c' = (if c' = c then l else conv_msgs s c')" for c'
    by (simp add: conv_msgs_def)
  have ids: "mID ` set l = mID ` set (conv_msgs s c)"
    using arg_cong [OF l, of "\<lambda>M. mID ` set_mset M"] arg_cong [OF old, of "\<lambda>M. mID ` set_mset M"] m(1) by simp
  have "msgs_ok (stMsgs ?t)"
    using msgs_ok_replace [of "stMsgs s" k c l m] ok k l ord m by (simp add: conv_msgs_def store_ok_def)
  moreover have "seen_ok ?t"
  proof -
    have "(\<exists>c'. \<exists>m \<in> set (conv_msgs ?t c'). mID m = i) \<longleftrightarrow> (\<exists>c'. \<exists>m \<in> set (conv_msgs s c'). mID m = i)" for i
    proof -
      have "(\<exists>m \<in> set (conv_msgs ?t c'). mID m = i) \<longleftrightarrow> (\<exists>m \<in> set (conv_msgs s c'). mID m = i)" for c'
      proof -
        have "(\<exists>m \<in> set l. mID m = i) \<longleftrightarrow> (\<exists>m \<in> set (conv_msgs s c). mID m = i)"
          using arg_cong [OF ids, of "(\<in>) i"] unfolding image_iff by metis
        then show ?thesis by (simp add: msgs)
      qed
      then show ?thesis by blast
    qed
    moreover have "have_message ?t i = have_message s i" for i by (simp add: have_message_def)
    ultimately show ?thesis using ok by (simp add: store_ok_def seen_ok_def)
  qed
  moreover have "unread_ok ?t"
  proof -
    have "size (filter_mset counts_unread (mset l)) = size (filter_mset counts_unread (mset (conv_msgs s c)))"
      unfolding l by (subst old) (simp add: m)
    then have "length (filter counts_unread l) = length (filter counts_unread (conv_msgs s c))"
      by (simp flip: mset_filter)
    then show ?thesis using ok by (simp add: store_ok_def unread_ok_def msgs unread_def)
  qed
  moreover have "seq_ok ?t"
  proof -
    have "set l \<subseteq> insert m (set (conv_msgs s c))"
      using arg_cong [OF l, of set_mset] by (auto dest: in_set_takeD in_set_dropD)
    then show ?thesis
      using seq(1) order_trans [OF store_okD(7) [OF ok] seq(2)] by (auto simp: seq_ok_def msgs)
  qed
  moreover have "peers_ok (stPeers ?t)" using ok by (simp add: store_ok_def)
  ultimately show ?thesis by (simp add: store_ok_def)
qed

lemma locate_conv:
  assumes "store_ok s" and "locate i (stMsgs s) = Some (c, k)"
  shows "k < length (conv_msgs s c)" "mID (conv_msgs s c ! k) = i" "mConv (conv_msgs s c ! k) = c"
    "conv_msgs s c ! k \<in> set (conv_msgs s c)"
proof -
  from locate_Some [OF store_okD(1) [OF assms(1)] assms(2)]
  show "k < length (conv_msgs s c)" "mID (conv_msgs s c ! k) = i" by (auto simp: conv_msgs_def)
  then show "conv_msgs s c ! k \<in> set (conv_msgs s c)" by simp
  then show "mConv (conv_msgs s c ! k) = c" by (rule store_okD(4) [OF assms(1)])
qed

lemma store_ok_set_state [simp, intro]:
  assumes ok: "store_ok s"
  shows "store_ok (fst (set_state s i st))"
proof (cases "locate i (stMsgs s)")
  case (Some a)
  obtain c k where ck: "locate i (stMsgs s) = Some (c, k)" using Some by (cases a) auto
  note loc = locate_conv [OF ok ck]
  let ?m = "(conv_msgs s c ! k)\<lparr>mState := st\<rparr>"
  let ?l = "(conv_msgs s c)[k := ?m]"
  have "map message_key ?l = map message_key (conv_msgs s c)"
    by (simp add: map_update message_key_def) (metis list_update_id map_update message_key_def)
  then have ord: "ordered_by less_message ?l"
    using ordered_keys store_okD(2) [OF ok] by blast
  have "store_ok (s\<lparr>stMsgs := AList.update c ?l (stMsgs s), stNextSeq := stNextSeq s\<rparr>)"
    by (rule store_ok_replace [OF ok loc(1) _ ord, of ?m])
      (simp_all add: loc list_update_parts counts_unread_def store_okD(7) [OF ok loc(4)])
  with ck show ?thesis by (simp add: set_state_def Let_def append_state_def)
qed (simp add: set_state_def ok)

lemma store_ok_next_seq [simp, intro]:
  assumes "store_ok s" and "stNextSeq s < stNextSeq s + 1"
  shows "store_ok (fst (next_seq s))"
proof -
  have "seq_ok (fst (next_seq s))"
    using store_okD(7) [OF assms(1)] assms(2)
    by (auto simp: seq_ok_def next_seq_def conv_msgs_def intro: order_trans [OF _ order_less_imp_le])
  with assms(1) show ?thesis
    by (simp add: store_ok_defs next_seq_def conv_msgs_def have_message_def unread_def)
qed

lemma store_ok_confirm [simp, intro]:
  assumes ok: "store_ok s"
  shows "store_ok (fst (confirm s i seq))"
proof (cases "locate i (stMsgs s)")
  case None
  have "seq_ok (s\<lparr>stNextSeq := bump_seq (stNextSeq s) seq\<rparr>)"
    using order_trans [OF store_okD(7) [OF ok] bump_seq_ge(1)] by (simp add: seq_ok_def conv_msgs_def)
  with ok None show ?thesis
    by (simp add: confirm_def store_ok_defs conv_msgs_def have_message_def unread_def)
next
  case (Some a)
  obtain c k where ck: "locate i (stMsgs s) = Some (c, k)" using Some by (cases a) auto
  note loc = locate_conv [OF ok ck]
  let ?m = "(conv_msgs s c ! k)\<lparr>mSeq := seq, mState := StateDelivered\<rparr>"
  let ?l = "insert_ordered (take k (conv_msgs s c) @ drop (Suc k) (conv_msgs s c)) ?m"
  have ord: "ordered_by less_message ?l"
    by (intro ordered_insert ordered_remove store_okD(2) [OF ok])
  have "store_ok (s\<lparr>stMsgs := AList.update c ?l (stMsgs s), stNextSeq := bump_seq (stNextSeq s) seq\<rparr>)"
    by (rule store_ok_replace [OF ok loc(1) _ ord, of ?m])
      (simp_all add: loc counts_unread_def bump_seq_ge)
  with ck show ?thesis by (simp add: confirm_def Let_def)
qed

lemma store_ok_mark_read [simp, intro]:
  assumes ok: "store_ok s"
  shows "store_ok (fst (mark_read s c))"
proof -
  let ?f = "\<lambda>m :: message. m\<lparr>mRead := True\<rparr>"
  let ?ms = "case map_of (stMsgs s) c of None \<Rightarrow> stMsgs s | Some l \<Rightarrow> AList.update c (map ?f l) (stMsgs s)"
  let ?t = "s\<lparr>stUnread := AList.delete c (stUnread s), stMsgs := ?ms\<rparr>"
  have msgs: "conv_msgs ?t c' = (if c' = c then map ?f (conv_msgs s c) else conv_msgs s c')" for c'
    by (simp add: conv_msgs_def get_or_def split: option.splits)
  have keys: "map message_key (map ?f l) = map message_key l" for l by (simp add: message_key_def)
  have "msgs_ok ?ms"
  proof (cases "map_of (stMsgs s) c")
    case (Some l)
    then have l: "l = conv_msgs s c" by (simp add: conv_msgs_def get_or_def)
    have "msgs_ok (AList.update c (map ?f l) (stMsgs s))"
    proof (rule msgs_ok_update)
      show "ordered_by less_message (map ?f l)"
        using ordered_keys [OF keys, of l] store_okD(2) [OF ok] l by simp
      show "distinct (map mID (map ?f l))" using store_okD(3) [OF ok] l by (simp add: comp_def)
      show "mConv m = c \<and> c \<noteq> '''' \<and> mID m \<noteq> ''''" if "m \<in> set (map ?f l)" for m
        using that store_okD(4-6) [OF ok] l by auto
      show "mID m \<noteq> mID m'" if "m \<in> set (map ?f l)" "c' \<noteq> c" "m' \<in> set (get_or [] (stMsgs s) c')" for m m' c'
        using that store_okD(9) [OF ok, of _ c m' c'] l by (auto simp: conv_msgs_def)
    qed (use ok in \<open>simp add: store_ok_def\<close>)
    with Some show ?thesis by simp
  qed (use ok in \<open>simp add: store_ok_def\<close>)
  moreover have "seen_ok ?t"
  proof -
    have "(\<exists>m \<in> set (conv_msgs ?t c'). mID m = i) \<longleftrightarrow> (\<exists>m \<in> set (conv_msgs s c'). mID m = i)" for c' i
      by (simp add: msgs)
    with ok show ?thesis by (simp add: store_ok_def seen_ok_def have_message_def)
  qed
  moreover have "unread_ok ?t"
    using ok by (simp add: store_ok_def unread_ok_def msgs unread_def filter_map comp_def counts_unread_def)
  moreover have "seq_ok ?t" using store_okD(7) [OF ok] by (auto simp: seq_ok_def msgs)
  ultimately have "store_ok ?t" using ok by (simp add: store_ok_def)
  then show ?thesis by (simp add: mark_read_def Let_def append_read_def)
qed

lemma store_ok_set_self [simp, intro]: "store_ok s \<Longrightarrow> store_ok (fst (set_self e fresh s i))"
  by (rule iffD2 [OF store_ok_cong, of _ s])
    (simp_all add: set_self_def Let_def save_identity_def case_prod_beta)

lemma store_ok_join_room [simp, intro]: "store_ok s \<Longrightarrow> store_ok (fst (join_room e fresh s name))"
  by (rule iffD2 [OF store_ok_cong, of _ s])
    (simp_all add: join_room_def Let_def save_identity_def case_prod_beta)

lemma store_ok_leave_room [simp, intro]: "store_ok s \<Longrightarrow> store_ok (fst (leave_room e fresh s name))"
  by (rule iffD2 [OF store_ok_cong, of _ s])
    (simp_all add: leave_room_def Let_def save_identity_def case_prod_beta)

lemma store_ok_set_notify_prefs [simp, intro]: "store_ok s \<Longrightarrow> store_ok (fst (set_notify_prefs s p))"
  by (rule iffD2 [OF store_ok_cong, of _ s])
    (simp_all add: set_notify_prefs_def Let_def save_prefs_def case_prod_beta)


end
