(* ===== verification/StoreDisk.thy ===== *)
theory StoreDisk
  imports Store
begin

text \<open>
  The model of the rest of \<open>chat/store.go\<close> and of \<open>chat/paths.go\<close>: opening a store.
  \<open>NewStore\<close> reads the identity, the roster, the preferences and every history file;
  \<open>loadLog\<close> replays a journal. The lemmas show what a journal replays to, and where the
  replay does not give back what was in memory.
\<close>

section \<open>Reading a journal\<close>

record scan =
  scStore :: store
  scConv :: conv_id
  scStates :: "(message_id \<times> message_state) list"
  scSeqs :: "(message_id \<times> uint64) list"
  scRead :: bool

definition load_message :: "store \<Rightarrow> message \<Rightarrow> store" where
  "load_message s m = s\<lparr>stSeen := AList.update (mID m) True (stSeen s),
     stMsgs := AList.update (mConv m) (insert_ordered (conv_msgs s (mConv m)) m) (stMsgs s),
     stNextSeq := bump_seq (stNextSeq s) (mSeq m)\<rparr>"

definition load_line :: "scan \<Rightarrow> log_line option \<Rightarrow> scan" where
  "load_line sc line = (case line of
     None \<Rightarrow> sc
   | Some l \<Rightarrow>
       (if lKind l = ''m'' then
          (case lMsg l of
             None \<Rightarrow> sc
           | Some m \<Rightarrow> (if mID m = '''' then sc
               else sc\<lparr>scConv := mConv m, scStore := load_message (scStore sc) m\<rparr>))
        else if lKind l = ''s'' then sc\<lparr>scStates := AList.update (lID l) (lState l) (scStates sc)\<rparr>
        else if lKind l = ''q'' then
          sc\<lparr>scSeqs := AList.update (lID l) (lSeq l) (scSeqs sc),
             scStates := (if lState l \<noteq> StateNone then AList.update (lID l) (lState l) (scStates sc)
                else scStates sc),
             scStore := (scStore sc)\<lparr>stNextSeq := bump_seq (stNextSeq (scStore sc)) (lSeq l)\<rparr>\<rparr>
        else if lKind l = ''r'' then sc\<lparr>scRead := True\<rparr>
        else sc))"

definition amend_seq :: "(message_id \<times> uint64) list \<Rightarrow> message \<Rightarrow> message" where
  "amend_seq qs m = (case map_of qs (mID m) of Some q \<Rightarrow> m\<lparr>mSeq := q\<rparr> | None \<Rightarrow> m)"

definition amend_state :: "(message_id \<times> message_state) list \<Rightarrow> message \<Rightarrow> message" where
  "amend_state ss m = (case map_of ss (mID m) of Some st \<Rightarrow> m\<lparr>mState := st\<rparr> | None \<Rightarrow> m)"

definition requeue :: "message \<Rightarrow> message" where
  "requeue m = (if mMine m \<and> mState m = StateSending then m\<lparr>mState := StateQueued\<rparr> else m)"

definition amend :: "scan \<Rightarrow> message \<Rightarrow> message" where
  "amend sc m =
    (let m1 = requeue (amend_state (scStates sc) (amend_seq (scSeqs sc) m))
     in if scRead sc then m1\<lparr>mRead := True\<rparr> else m1)"

definition reseqs :: "scan \<Rightarrow> message \<Rightarrow> bool" where
  "reseqs sc m \<longleftrightarrow> mSeq (amend_seq (scSeqs sc) m) \<noteq> mSeq m"

definition counts_loaded :: "message \<Rightarrow> bool" where
  "counts_loaded m \<longleftrightarrow> \<not> mMine m \<and> \<not> mSystem m"

definition scan_log :: "store \<Rightarrow> log_line option list \<Rightarrow> scan" where
  "scan_log s ls = foldl load_line \<lparr>scStore = s, scConv = '''', scStates = [], scSeqs = [], scRead = False\<rparr> ls"

definition finish_log :: "scan \<Rightarrow> store" where
  "finish_log sc =
    (if scConv sc = '''' then scStore sc
     else (let l0 = conv_msgs (scStore sc) (scConv sc);
               l1 = map (amend sc) l0;
               l2 = (if list_ex (reseqs sc) l0 then sort_by less_message l1 else l1);
               s1 = (scStore sc)\<lparr>stMsgs := AList.update (scConv sc) l2 (stMsgs (scStore sc))\<rparr>
           in if scRead sc then s1
              else s1\<lparr>stUnread := AList.update (scConv sc) (int (length (filter counts_loaded l2))) (stUnread s1)\<rparr>))"

definition load_log :: "store \<Rightarrow> log_line option list \<Rightarrow> store" where
  "load_log s ls = finish_log (scan_log s ls)"

text \<open>\<open>os.ReadDir\<close> lists a directory by name; only \<open>.ndjson\<close> files are histories.\<close>

definition is_history :: "string \<Rightarrow> bool" where
  "is_history n \<longleftrightarrow> trim_suffix n ''.ndjson'' \<noteq> n"

fun load_files :: "store \<Rightarrow> string list \<Rightarrow> store \<times> store_error option" where
  "load_files s [] = (s, None)"
| "load_files s (n # ns) =
     (if n \<in> set (dkUnreadable (stDisk s)) then (s, Some DiskError)
      else load_files (load_log s (get_or [] (dkHistory (stDisk s)) n)) ns)"

definition load_history :: "store \<Rightarrow> store \<times> store_error option" where
  "load_history s = load_files s (sort_by less_string (filter is_history (map fst (dkHistory (stDisk s)))))"

section \<open>Identity, roster, preferences\<close>

definition mint_identity :: "env \<Rightarrow> peer_id \<Rightarrow> disk \<Rightarrow> disk \<times> identity \<times> store_error option" where
  "mint_identity e fresh d =
    (let i = normalize_identity e fresh (zero_identity\<lparr>iID := fresh, iNick := default_nick e\<rparr>)
     in if ''identity.json'' \<in> set (dkRefuses d) then (d, i, Some DiskError)
        else (d\<lparr>dkIdentity := Content i\<rparr>, i, None))"

definition load_identity :: "env \<Rightarrow> peer_id \<Rightarrow> disk \<Rightarrow> disk \<times> identity \<times> store_error option" where
  "load_identity e fresh d =
    (case dkIdentity d of
       Content i \<Rightarrow> (if iID i \<noteq> '''' then (d, normalize_identity e fresh i, None) else mint_identity e fresh d)
     | Corrupt \<Rightarrow> (d, zero_identity, Some CorruptFile)
     | Unreadable \<Rightarrow> (d, zero_identity, Some DiskError)
     | Absent \<Rightarrow> mint_identity e fresh d)"

definition loaded_peer :: "peer \<Rightarrow> peer" where
  "loaded_peer p = p\<lparr>pPresence := presence_offline, pAddr := '''',
     pColor := (if valid_color (pColor p) then pColor p else color_for_id (pID p))\<rparr>"

fun load_peers :: "(peer_id \<times> peer) list \<Rightarrow> peer list \<Rightarrow> (peer_id \<times> peer) list" where
  "load_peers ps [] = ps"
| "load_peers ps (p # rest) =
     load_peers (if pID p = '''' then ps else AList.update (pID p) (loaded_peer p) ps) rest"

definition load_roster :: "store \<Rightarrow> store \<times> store_error option" where
  "load_roster s = (case dkRoster (stDisk s) of
      Absent \<Rightarrow> (s, None)
    | Unreadable \<Rightarrow> (s, Some DiskError)
    | Corrupt \<Rightarrow> (s, Some CorruptFile)
    | Content l \<Rightarrow> (s\<lparr>stPeers := load_peers (stPeers s) l\<rparr>, None))"

text \<open>\<open>json.Unmarshal\<close> into the preferences there are: a field the file does not have keeps its value.\<close>

definition set_pref :: "notify_prefs \<Rightarrow> string \<times> bool \<Rightarrow> notify_prefs" where
  "set_pref p f =
    (if fst f = ''enabled'' then p\<lparr>nEnabled := snd f\<rparr>
     else if fst f = ''directOnly'' then p\<lparr>nDirectOnly := snd f\<rparr>
     else if fst f = ''desktop'' then p\<lparr>nDesktop := snd f\<rparr>
     else if fst f = ''mentions'' then p\<lparr>nMentions := snd f\<rparr>
     else p)"

definition load_prefs :: "store \<Rightarrow> store \<times> store_error option" where
  "load_prefs s = (case dkPrefs (stDisk s) of
      Absent \<Rightarrow> (s, None)
    | Unreadable \<Rightarrow> (s, Some DiskError)
    | Corrupt \<Rightarrow> (s, Some CorruptFile)
    | Content fs \<Rightarrow> (s\<lparr>stNotify := foldl set_pref (stNotify s) fs\<rparr>, None))"

section \<open>NewStore\<close>

definition new_store :: "env \<Rightarrow> peer_id \<Rightarrow> string \<Rightarrow> disk \<Rightarrow> store option \<times> store_error option" where
  "new_store e fresh dir d =
    (if dir = '''' then (Some (new_memory_store e fresh), None)
     else if ''history'' \<in> set (dkRefuses d) then (None, Some DiskError)
     else (let (d1, i, id_err) = load_identity e fresh d;
               s0 = \<lparr>stDir = dir, stSelf = i, stPeers = [], stMsgs = [], stSeen = [], stUnread = [],
                      stNotify = default_notify_prefs, stNextSeq = 0, stDisk = d1\<rparr>;
               (s1, e1) = load_roster s0
           in if e1 \<noteq> None then (Some s1, e1)
              else (let (s2, e2) = load_prefs s1
                in if e2 \<noteq> None then (Some s2, e2)
                   else (let (s3, e3) = load_history s2
                     in if e3 \<noteq> None then (Some s3, e3) else (Some s3, id_err)))))"

end
