(* ===== verification/Wire.thy ===== *)
theory Wire
  imports FileNames
begin

text \<open>
  The model of \<open>chatwire/wire.go\<close>: the frame, the frames either side builds, the checks of
  an enrolment and of its answer, the stored form of a message frame, and the
  length-prefixed framing of the stream. Encoding a frame as JSON is a parameter of the
  framing, a pair of functions of which the round trip uses that decoding inverts encoding.
  The lemmas show that a stream of frames is read back frame by frame, and
  that nothing over the limit is ever allocated or sent.
\<close>

section \<open>Constants\<close>

definition protocol_version :: int where "protocol_version = 2"
definition default_server_port :: int where "default_server_port = 47772"
definition max_frame :: nat where "max_frame = 1048576"
definition chunk_size :: nat where "chunk_size = 65536"

definition frame_hello :: string where "frame_hello = ''hello''"
definition frame_welcome :: string where "frame_welcome = ''welcome''"
definition frame_synced :: string where "frame_synced = ''synced''"
definition frame_msg :: string where "frame_msg = ''msg''"
definition frame_seq :: string where "frame_seq = ''seq''"
definition frame_roster :: string where "frame_roster = ''roster''"
definition frame_presence :: string where "frame_presence = ''presence''"
definition frame_typing :: string where "frame_typing = ''typing''"
definition frame_join :: string where "frame_join = ''join''"
definition frame_leave :: string where "frame_leave = ''leave''"
definition frame_offer :: string where "frame_offer = ''offer''"
definition frame_accept :: string where "frame_accept = ''accept''"
definition frame_decline :: string where "frame_decline = ''decline''"
definition frame_chunk :: string where "frame_chunk = ''chunk''"
definition frame_done :: string where "frame_done = ''done''"
definition frame_ping :: string where "frame_ping = ''ping''"
definition frame_pong :: string where "frame_pong = ''pong''"
definition frame_error :: string where "frame_error = ''error''"
definition frame_bye :: string where "frame_bye = ''bye''"

lemmas frame_type_defs = frame_hello_def frame_welcome_def frame_synced_def frame_msg_def frame_seq_def
  frame_roster_def frame_presence_def frame_typing_def frame_join_def frame_leave_def frame_offer_def
  frame_accept_def frame_decline_def frame_chunk_def frame_done_def frame_ping_def frame_pong_def
  frame_error_def frame_bye_def

definition err_bad_frame :: int where "err_bad_frame = 1"
definition err_not_enrolled :: int where "err_not_enrolled = 2"
definition err_no_such_peer :: int where "err_no_such_peer = 3"
definition err_not_in_room :: int where "err_not_in_room = 4"
definition err_refused :: int where "err_refused = 5"

section \<open>The frame\<close>

record frame =
  fType :: string
  fVersion :: int
  fHost :: string
  fCursor :: uint64
  fServer :: server_id
  fServerName :: string
  fReset :: bool
  fNow :: gotime
  fFrom :: peer_id
  fNick :: string
  fColor :: string
  fRooms :: "string list option"
  fID :: message_id
  fConv :: conv_id
  fBody :: string
  fSent :: gotime
  fSeq :: uint64
  fSystem :: bool
  fPeers :: "peer list"
  fPeer :: "peer option"
  fPresence :: presence
  fTyping :: bool
  fRoom :: string
  fTransfer :: transfer_id
  fTo :: peer_id
  fName :: string
  fSize :: int
  fMIME :: string
  fSHA256 :: string
  fOffset :: int
  fData :: "nat list"
  fReason :: string
  fCode :: int

definition zero_frame :: frame where
  "zero_frame = \<lparr>fType = '''', fVersion = 0, fHost = '''', fCursor = 0, fServer = '''', fServerName = '''',
     fReset = False, fNow = zero_time, fFrom = '''', fNick = '''', fColor = '''', fRooms = None, fID = '''',
     fConv = '''', fBody = '''', fSent = zero_time, fSeq = 0, fSystem = False, fPeers = [], fPeer = None,
     fPresence = '''', fTyping = False, fRoom = '''', fTransfer = '''', fTo = '''', fName = '''', fSize = 0,
     fMIME = '''', fSHA256 = '''', fOffset = 0, fData = [], fReason = '''', fCode = 0\<rparr>"

text \<open>A frame of a type, all its other fields zero.\<close>

abbreviation frame_of :: "string \<Rightarrow> frame" where
  "frame_of t \<equiv> zero_frame\<lparr>fType := t\<rparr>"

section \<open>Framing\<close>

datatype wire_error = MarshalFailed | FrameTooLong | EmptyFrame | ShortRead | BadFrame

text \<open>\<open>binary.BigEndian.PutUint32\<close> and \<open>Uint32\<close>, over bytes as numbers.\<close>

definition be32_bytes :: "nat \<Rightarrow> nat list" where
  "be32_bytes n = [n div 16777216 mod 256, n div 65536 mod 256, n div 256 mod 256, n mod 256]"

fun be32_value :: "nat list \<Rightarrow> nat" where
  "be32_value [a, b, c, d] = a * 16777216 + b * 65536 + c * 256 + d"
| "be32_value bs = 0"

definition write_frame :: "(frame \<Rightarrow> nat list option) \<Rightarrow> frame \<Rightarrow> wire_error + nat list" where
  "write_frame enc f = (case enc f of
      None \<Rightarrow> Inl MarshalFailed
    | Some body \<Rightarrow> (if max_frame < length body then Inl FrameTooLong
        else Inr (be32_bytes (length body) @ body)))"

text \<open>
  \<open>ReadFrame\<close> over the bytes the peer sent and will ever send: the frame and what is left
  in the stream, or the error. \<open>io.ReadFull\<close> fails where the stream ends early.
\<close>

definition read_frame :: "(nat list \<Rightarrow> frame option) \<Rightarrow> nat list \<Rightarrow> wire_error + (frame \<times> nat list)" where
  "read_frame dec inp =
    (if length inp < 4 then Inl ShortRead
     else if be32_value (take 4 inp) = 0 then Inl EmptyFrame
     else if max_frame < be32_value (take 4 inp) then Inl FrameTooLong
     else if length (drop 4 inp) < be32_value (take 4 inp) then Inl ShortRead
     else (case dec (take (be32_value (take 4 inp)) (drop 4 inp)) of
         None \<Rightarrow> Inl BadFrame
       | Some f \<Rightarrow> Inr (f, drop (be32_value (take 4 inp)) (drop 4 inp))))"

text \<open>What a read loop sees: the frames up to the first error, and that error.\<close>

function read_frames :: "(nat list \<Rightarrow> frame option) \<Rightarrow> nat list \<Rightarrow> frame list \<times> wire_error" where
  "read_frames dec inp = (case read_frame dec inp of
      Inl e \<Rightarrow> ([], e)
    | Inr (f, rest) \<Rightarrow> (f # fst (read_frames dec rest), snd (read_frames dec rest)))"
  by pat_completeness auto
termination
  by (relation "measure (\<lambda>(_, inp). length inp)") (auto simp: read_frame_def split: if_splits option.splits)

declare read_frames.simps [simp del]

section \<open>Enrolment\<close>

definition is_hex :: "string \<Rightarrow> bool" where
  "is_hex s \<longleftrightarrow> list_all is_hex_byte s \<and> s \<noteq> ''''"

definition hello_frame :: "identity \<Rightarrow> string \<Rightarrow> uint64 \<Rightarrow> server_id \<Rightarrow> frame" where
  "hello_frame self host cursor srv = zero_frame\<lparr>fType := frame_hello, fVersion := protocol_version,
     fFrom := iID self, fNick := iNick self, fColor := iColor self, fHost := host, fRooms := iRooms self,
     fCursor := cursor, fServer := srv, fPresence := presence_valid (iPresence self)\<rparr>"

datatype hello_error = NotAHello string | WrongVersion int | MalformedId | EnrolmentRefused string

definition valid_hello :: "frame \<Rightarrow> hello_error option" where
  "valid_hello f =
    (if fType f \<noteq> frame_hello then Some (NotAHello (fType f))
     else if fVersion f \<noteq> protocol_version then Some (WrongVersion (fVersion f))
     else if length (fFrom f) \<noteq> 32 \<or> \<not> is_hex (fFrom f) then Some MalformedId
     else None)"

definition valid_welcome :: "frame \<Rightarrow> hello_error option" where
  "valid_welcome f =
    (if fType f = frame_error then Some (EnrolmentRefused (fReason f))
     else if fType f \<noteq> frame_welcome then Some (NotAHello (fType f))
     else if fVersion f \<noteq> protocol_version then Some (WrongVersion (fVersion f))
     else if length (fServer f) \<noteq> 32 \<or> \<not> is_hex (fServer f) then Some MalformedId
     else None)"

text \<open>
  The text of the errors of \<open>ValidHello\<close>, which the server sends back. \<open>%q\<close> is
  \<open>strconv.Quote\<close>; \<open>printable\<close> is \<open>unicode.IsPrint\<close> on the runes that are not ASCII.
\<close>

definition hex_pad :: "nat \<Rightarrow> nat \<Rightarrow> string" where
  "hex_pad k n = map (\<lambda>i. hex_digit (n div 16 ^ (k - 1 - i) mod 16)) [0..<k]"

definition quote_chunk :: "(nat \<Rightarrow> bool) \<Rightarrow> nat \<times> nat list \<Rightarrow> string" where
  "quote_chunk printable c =
    (if fst c = 65533 \<and> length (snd c) = 1 then [CHR 0x5C, CHR ''x''] @ hex_pad 2 (hd (snd c))
     else if fst c = 34 \<or> fst c = 92 then [CHR 0x5C, char_of (fst c)]
     else if 32 \<le> fst c \<and> fst c < 127 \<or> 128 \<le> fst c \<and> printable (fst c) then string_of_bytes (snd c)
     else if fst c = 7 then [CHR 0x5C, CHR ''a''] else if fst c = 8 then [CHR 0x5C, CHR ''b'']
     else if fst c = 12 then [CHR 0x5C, CHR ''f''] else if fst c = 10 then [CHR 0x5C, CHR ''n'']
     else if fst c = 13 then [CHR 0x5C, CHR ''r''] else if fst c = 9 then [CHR 0x5C, CHR ''t'']
     else if fst c = 11 then [CHR 0x5C, CHR ''v'']
     else if fst c < 32 \<or> fst c = 127 then [CHR 0x5C, CHR ''x''] @ hex_pad 2 (fst c)
     else if fst c < 65536 then [CHR 0x5C, CHR ''u''] @ hex_pad 4 (fst c)
     else [CHR 0x5C, CHR ''U''] @ hex_pad 8 (fst c))"

definition go_quote :: "(nat \<Rightarrow> bool) \<Rightarrow> string \<Rightarrow> string" where
  "go_quote printable s =
     [CHR 0x22] @ concat (map (quote_chunk printable) (rune_chunks (bytes_of s))) @ [CHR 0x22]"

definition hello_error_text :: "(nat \<Rightarrow> bool) \<Rightarrow> hello_error \<Rightarrow> string" where
  "hello_error_text printable e = (case e of
      NotAHello t \<Rightarrow> ''chat: expected a hello frame, got '' @ go_quote printable t
    | WrongVersion v \<Rightarrow> ''chat: client speaks protocol version '' @ decimal_int v @ '', this build speaks 2''
    | MalformedId \<Rightarrow> ''chat: client sent a malformed id''
    | EnrolmentRefused r \<Rightarrow> ''chat: the server refused the enrolment: '' @ r)"

definition peer_from_hello :: "gotime \<Rightarrow> frame \<Rightarrow> string \<Rightarrow> peer" where
  "peer_from_hello now f addr =
    \<lparr>pID = fFrom f, pNick = clip_runes (fNick f) 32,
     pColor = (if valid_color (fColor f) then fColor f else color_for_id (fFrom f)),
     pHost = clip_runes (fHost f) 48, pAddr = addr, pRooms = canon_rooms (slice (fRooms f)),
     pPresence = (if presence_valid (fPresence f) = presence_offline then presence_online
        else presence_valid (fPresence f)),
     pLastSeen = now, pBlocked = False\<rparr>"

section \<open>Messages and errors\<close>

definition msg_frame :: "message \<Rightarrow> frame" where
  "msg_frame m =
    (let f = zero_frame\<lparr>fType := frame_msg, fID := mID m, fConv := mConv m, fFrom := mFrom m,
           fNick := mFromNick m, fBody := mBody m, fSent := mSent m, fSeq := mSeq m, fSystem := mSystem m\<rparr>
     in case mTransfer m of
          None \<Rightarrow> f
        | Some r \<Rightarrow> f\<lparr>fTransfer := rID r, fName := rName r, fSize := rSize r\<rparr>)"

definition message_from_frame :: "gotime \<Rightarrow> frame \<Rightarrow> peer_id \<Rightarrow> message option" where
  "message_from_frame now f from =
    (if fID f = '''' \<or> 8000 < length (runes (fBody f)) then None
     else Some \<lparr>mID = fID f, mConv = fConv f, mFrom = from, mFromNick = clip_runes (fNick f) 32,
       mBody = fBody f, mSent = (if fSent f = zero_time then now else fSent f), mSeq = fSeq f,
       mReceived = now, mMine = False, mState = StateNone, mRead = False,
       mTransfer = (if fTransfer f \<noteq> ''''
         then Some \<lparr>rID = fTransfer f, rName = safe_base_name (fName f), rSize = fSize f\<rparr> else None),
       mSystem = fSystem f\<rparr>)"

definition frame_refusal :: "int \<Rightarrow> string \<Rightarrow> frame" where
  "frame_refusal code reason = zero_frame\<lparr>fType := frame_error, fCode := code, fReason := clip_runes reason 200\<rparr>"

section \<open>Facts\<close>

lemma be32_value_bytes: "n < 2 ^ 32 \<Longrightarrow> be32_value (be32_bytes n) = n"
proof -
  assume n: "n < 2 ^ 32"
  have "n div 256 = n div 65536 * 256 + n div 256 mod 256" "n div 65536 = n div 16777216 * 256 + n div 65536 mod 256"
    using div_mult_mod_eq [of "n div 256" 256] div_mult_mod_eq [of "n div 65536" 256]
    by (simp_all add: div_mult2_eq [symmetric])
  moreover have "n div 16777216 mod 256 = n div 16777216" using n by simp
  moreover have "n = n div 256 * 256 + n mod 256" by (rule div_mult_mod_eq [symmetric])
  ultimately show ?thesis unfolding be32_bytes_def be32_value.simps by linarith
qed

lemma be32_bytes_length [simp]: "length (be32_bytes n) = 4"
  by (simp add: be32_bytes_def)

lemma write_frame_length:
  "write_frame enc f = Inr bs \<Longrightarrow> length bs \<le> 4 + max_frame"
  by (auto simp: write_frame_def split: option.splits if_splits)

lemma read_write_frame:
  assumes "write_frame enc f = Inr bs" and "\<And>b. enc f = Some b \<Longrightarrow> b \<noteq> [] \<and> dec b = Some f"
  shows "read_frame dec (bs @ rest) = Inr (f, rest)"
proof -
  from assms(1) obtain b where b: "enc f = Some b" "length b \<le> max_frame" "bs = be32_bytes (length b) @ b"
    by (auto simp: write_frame_def split: option.splits if_splits)
  have "be32_value (be32_bytes (length b)) = length b"
    by (rule be32_value_bytes) (use b(2) in \<open>simp add: max_frame_def\<close>)
  with b assms(2) [OF b(1)] show ?thesis by (simp add: read_frame_def)
qed

lemma read_frames_write:
  assumes "\<And>f. f \<in> set fs \<Longrightarrow> write_frame enc f = Inr (w f)"
    and "\<And>f b. f \<in> set fs \<Longrightarrow> enc f = Some b \<Longrightarrow> b \<noteq> [] \<and> dec b = Some f"
  shows "read_frames dec (concat (map w fs) @ rest) = (fs @ fst (read_frames dec rest), snd (read_frames dec rest))"
  using assms
proof (induction fs)
  case (Cons f fs)
  have "read_frame dec (w f @ concat (map w fs) @ rest) = Inr (f, concat (map w fs) @ rest)"
    by (rule read_write_frame) (use Cons.prems in auto)
  then have "read_frames dec (concat (map w (f # fs)) @ rest)
      = (f # fst (read_frames dec (concat (map w fs) @ rest)), snd (read_frames dec (concat (map w fs) @ rest)))"
    by (subst read_frames.simps) simp
  moreover have "read_frames dec (concat (map w fs) @ rest)
      = (fs @ fst (read_frames dec rest), snd (read_frames dec rest))"
    by (rule Cons.IH) (use Cons.prems in auto)
  ultimately show ?case by simp
qed simp

lemma read_frame_bounds:
  "read_frame dec inp = Inr (f, rest) \<Longrightarrow>
     0 < be32_value (take 4 inp) \<and> be32_value (take 4 inp) \<le> max_frame
     \<and> length inp = 4 + be32_value (take 4 inp) + length rest"
  by (auto simp: read_frame_def split: if_splits option.splits)

lemma valid_hello_hello_frame:
  "valid_hello (hello_frame self host cursor srv) = (if length (iID self) = 32 \<and> is_hex (iID self) then None else Some MalformedId)"
  by (simp add: valid_hello_def hello_frame_def)

lemma peer_from_hello_fields [simp]:
  "pID (peer_from_hello now f addr) = fFrom f" "pRooms (peer_from_hello now f addr) = canon_rooms (slice (fRooms f))"
  by (simp_all add: peer_from_hello_def)

lemma peer_from_hello_online: "pPresence (peer_from_hello now f addr) \<noteq> presence_offline"
  by (simp add: peer_from_hello_def presence_defs)

lemma msg_frame_fields [simp]:
  "fType (msg_frame m) = frame_msg" "fID (msg_frame m) = mID m" "fConv (msg_frame m) = mConv m"
  "fFrom (msg_frame m) = mFrom m" "fNick (msg_frame m) = mFromNick m" "fBody (msg_frame m) = mBody m"
  "fSent (msg_frame m) = mSent m" "fSeq (msg_frame m) = mSeq m" "fSystem (msg_frame m) = mSystem m"
  by (simp_all add: msg_frame_def Let_def zero_frame_def split: option.splits)

lemma message_from_frame_fields:
  assumes "message_from_frame now f from = Some m"
  shows "mID m = fID f" "mConv m = fConv f" "mFrom m = from" "mBody m = fBody f" "mSeq m = fSeq f"
    "mID m \<noteq> ''''" "mMine m = False" "mState m = StateNone" "mRead m = False" "mSystem m = fSystem f"
    "length (runes (mBody m)) \<le> 8000"
  using assms by (auto simp: message_from_frame_def split: if_splits)

end
