(* ===== verification/Server.thy ===== *)
theory Server
  imports StoreDisk Wire
begin

text \<open>
  The model of \<open>chatserver/server.go\<close>: the server's state, sending to connections, enrolment,
  the backlog a client is sent, and the end of a connection. A handler maps the server to the
  server after it; what it queues for each connection is appended to \<open>svOut\<close>, the
  log of all frames queued, in order. One handler runs at a time and reads the clock once.

  A connection may be closed, and may be stuck: its queue is full and nobody reads it. Sending to
  a closed one does nothing, sending to a stuck one closes it, as the timeout in \<open>send\<close> does.
\<close>

section \<open>State\<close>

record client_conn =
  ccPeer :: peer_id
  ccId :: nat

datatype relay_state = RelayOffered | RelayRunning

record relay =
  rlID :: transfer_id
  rlFrom :: peer_id
  rlTo :: peer_id
  rlName :: string
  rlSize :: int
  rlSent :: int
  rlState :: relay_state
  rlAt :: gotime

record server =
  svStore :: store
  svName :: string
  svHost :: string
  svConns :: "(peer_id \<times> client_conn list) list"
  svXfers :: "(transfer_id \<times> relay) list"
  svClosed :: "nat list"
  svStuck :: "nat list"
  svOut :: "(nat \<times> frame) list"
  svErrText :: string

definition backlog_window :: nat where "backlog_window = 200"
definition max_backlog :: nat where "max_backlog = 2000"
definition offer_timeout :: int where "offer_timeout = 120 * second_ns"
definition idle_timeout :: int where "idle_timeout = 3 * (40 * second_ns)"

text \<open>\<open>New\<close>, over a store: no connections and no transfers. \<open>host\<close> is what \<open>os.Hostname\<close> says.\<close>

definition new_server :: "store \<Rightarrow> string \<Rightarrow> server" where
  "new_server st host = \<lparr>svStore = st, svName = '''', svHost = trim_suffix host ''.local'', svConns = [],
     svXfers = [], svClosed = [], svStuck = [], svOut = [], svErrText = ''''\<rparr>"

definition server_ident :: "server \<Rightarrow> server_id" where
  "server_ident s = iID (stSelf (svStore s))"

definition server_display_name :: "server \<Rightarrow> string" where
  "server_display_name s = (if trim_space (svName s) \<noteq> '''' then clip_runes (trim_space (svName s)) 48
     else clip_runes (iNick (stSelf (svStore s))) 48)"

section \<open>Connections\<close>

definition close_conn :: "server \<Rightarrow> client_conn \<Rightarrow> server" where
  "close_conn s c = (if ccId c \<in> set (svClosed s) then s else s\<lparr>svClosed := ccId c # svClosed s\<rparr>)"

definition send :: "frame \<Rightarrow> server \<Rightarrow> client_conn \<Rightarrow> server" where
  "send f s c =
    (if ccId c \<in> set (svClosed s) then s
     else if ccId c \<in> set (svStuck s) then close_conn s c
     else s\<lparr>svOut := svOut s @ [(ccId c, f)]\<rparr>)"

definition conns_to :: "server \<Rightarrow> peer_id \<Rightarrow> client_conn list" where
  "conns_to s i = get_or [] (svConns s) i"

definition conns_of :: "server \<Rightarrow> peer_id \<Rightarrow> nat" where
  "conns_of s i = length (conns_to s i)"

definition every_conn :: "server \<Rightarrow> client_conn list" where
  "every_conn s = concat (map snd (svConns s))"

definition server_clients :: "server \<Rightarrow> nat" where
  "server_clients s = sum_list (map (\<lambda>e. length (snd e)) (svConns s))"

definition send_all :: "frame \<Rightarrow> server \<Rightarrow> client_conn list \<Rightarrow> server" where
  "send_all f s cs = foldl (send f) s cs"

definition send_to :: "server \<Rightarrow> peer_id \<Rightarrow> frame \<Rightarrow> server" where
  "send_to s i f = send_all f s (conns_to s i)"

definition ping_all :: "server \<Rightarrow> server" where
  "ping_all s = send_all (frame_of frame_ping) s (every_conn s)"

definition with_store :: "server \<Rightarrow> store \<Rightarrow> server" where
  "with_store s st = s\<lparr>svStore := st\<rparr>"

definition broadcast_peer :: "server \<Rightarrow> peer_id \<Rightarrow> server" where
  "broadcast_peer s i = (case peer_of (svStore s) i of
      None \<Rightarrow> s
    | Some p \<Rightarrow> send_all (zero_frame\<lparr>fType := frame_roster,
        fPeer := Some (if conns_of s i = 0 then p\<lparr>pPresence := presence_offline\<rparr> else p)\<rparr>) s (every_conn s))"

definition register :: "server \<Rightarrow> client_conn \<Rightarrow> server" where
  "register s c = broadcast_peer
     (s\<lparr>svConns := AList.update (ccPeer c) (conns_to s (ccPeer c) @ [c]) (svConns s)\<rparr>) (ccPeer c)"

definition other_conns :: "server \<Rightarrow> client_conn \<Rightarrow> client_conn list" where
  "other_conns s c = filter (\<lambda>x. x \<noteq> c) (conns_to s (ccPeer c))"

definition unregister :: "server \<Rightarrow> client_conn \<Rightarrow> server" where
  "unregister s c = s\<lparr>svConns :=
     (if other_conns s c = [] then AList.delete (ccPeer c) (svConns s)
      else AList.update (ccPeer c) (other_conns s c) (svConns s))\<rparr>"

section \<open>Who may see a message\<close>

definition rooms_of :: "server \<Rightarrow> peer_id \<Rightarrow> string list" where
  "rooms_of s i = slice (pRooms (get_or zero_peer (stPeers (svStore s)) i))"

definition set_rooms :: "server \<Rightarrow> peer_id \<Rightarrow> string list \<Rightarrow> server" where
  "set_rooms s i rs = with_store s (fst (put_peer (svStore s) (zero_peer\<lparr>pID := i, pRooms := Some rs\<rparr>)))"

definition has_room :: "string list \<Rightarrow> string \<Rightarrow> bool" where
  "has_room rs r \<longleftrightarrow> canon_room r \<in> set rs"

definition conv_for :: "message \<Rightarrow> peer_id \<Rightarrow> string list \<Rightarrow> conv_id option" where
  "conv_for m i rs =
    (if is_room (mConv m) then (if has_room rs (conv_room (mConv m)) then Some (mConv m) else None)
     else (case direct_pair (mConv m) of
         None \<Rightarrow> None
       | Some (a, b) \<Rightarrow> (if i = a then Some (direct_conv b)
           else if i = b then Some (direct_conv a) else None)))"

definition conv_visible :: "conv_id \<Rightarrow> peer_id \<Rightarrow> string list \<Rightarrow> bool" where
  "conv_visible c i rs =
    (if is_room c then has_room rs (conv_room c)
     else (case direct_pair c of None \<Rightarrow> False | Some (a, b) \<Rightarrow> a = i \<or> b = i))"

section \<open>The backlog\<close>

definition visible_since :: "server \<Rightarrow> peer_id \<Rightarrow> uint64 \<Rightarrow> message list" where
  "visible_since s i cursor =
     filter (\<lambda>m. conv_for m i (rooms_of s i) \<noteq> None) (since (svStore s) cursor 0)"

text \<open>\<open>sortBySeq\<close>: the insertion sort as it is written, each element moved left past larger ones.\<close>

fun move_left :: "message \<Rightarrow> message list \<Rightarrow> message list" where
  "move_left m [] = [m]"
| "move_left m (x # xs) = (if mSeq m < mSeq x then x # move_left m xs else m # x # xs)"

definition sort_by_seq :: "message list \<Rightarrow> message list" where
  "sort_by_seq l = rev (foldl (\<lambda>done m. move_left m done) [] l)"

definition recent_window :: "server \<Rightarrow> peer_id \<Rightarrow> message list" where
  "recent_window s i = sort_by_seq (concat (map (\<lambda>c. messages (svStore s) c backlog_window)
     (filter (\<lambda>c. conv_visible c i (rooms_of s i)) (convs (svStore s)))))"

definition roster_peer :: "server \<Rightarrow> peer \<Rightarrow> peer" where
  "roster_peer s p = (if conns_of s (pID p) = 0 then p\<lparr>pPresence := presence_offline\<rparr> else p)"

definition roster :: "server \<Rightarrow> peer list" where
  "roster s = map (roster_peer s) (peers (svStore s))"

definition send_visible :: "client_conn \<Rightarrow> server \<Rightarrow> message \<Rightarrow> server" where
  "send_visible c s m = (case conv_for m (ccPeer c) (rooms_of s (ccPeer c)) of
      None \<Rightarrow> s
    | Some conv \<Rightarrow> send ((msg_frame m)\<lparr>fConv := conv\<rparr>) s c)"

definition backfill_reset :: "server \<Rightarrow> peer_id \<Rightarrow> uint64 \<Rightarrow> bool \<Rightarrow> bool" where
  "backfill_reset s i from reset \<longleftrightarrow> reset \<or> max_backlog < length (visible_since s i from)"

definition missed :: "server \<Rightarrow> peer_id \<Rightarrow> uint64 \<Rightarrow> bool \<Rightarrow> message list" where
  "missed s i from reset = (if backfill_reset s i from reset then recent_window s i else visible_since s i from)"

definition synced_frame :: "uint64 \<Rightarrow> frame" where
  "synced_frame cursor = zero_frame\<lparr>fType := frame_synced, fCursor := cursor\<rparr>"

definition backfill :: "server \<Rightarrow> client_conn \<Rightarrow> uint64 \<Rightarrow> bool \<Rightarrow> uint64 \<Rightarrow> server" where
  "backfill s c from reset cursor =
    (let s1 = send (zero_frame\<lparr>fType := frame_roster, fPeers := roster s\<rparr>) s c;
         s2 = foldl (send_visible c) s1 (missed s (ccPeer c) from reset)
     in send (synced_frame cursor) s2 c)"

section \<open>Enrolment\<close>

definition hello_resets :: "server \<Rightarrow> frame \<Rightarrow> uint64 \<Rightarrow> bool" where
  "hello_resets s hello cursor \<longleftrightarrow>
     cursor < fCursor hello \<or> (fServer hello \<noteq> '''' \<and> fServer hello \<noteq> server_ident s)"

definition welcome_frame :: "gotime \<Rightarrow> server \<Rightarrow> frame \<Rightarrow> frame" where
  "welcome_frame now s hello = zero_frame\<lparr>fType := frame_welcome, fVersion := protocol_version,
     fServer := server_ident s, fServerName := server_display_name s, fHost := svHost s,
     fCursor := stNextSeq (svStore s), fReset := hello_resets s hello (stNextSeq (svStore s)), fNow := now,
     fPeer := Some (get_or zero_peer (stPeers (svStore s)) (fFrom hello))\<rparr>"

text \<open>What enrolling records: who they say they are, and the rooms they say they are in.\<close>

definition record_hello :: "gotime \<Rightarrow> server \<Rightarrow> frame \<Rightarrow> string \<Rightarrow> server" where
  "record_hello now s hello addr =
    (let s1 = with_store s (fst (put_peer (svStore s) (peer_from_hello now hello addr)))
     in set_rooms s1 (fFrom hello) (slice (canon_rooms (slice (fRooms hello)))))"

text \<open>
  \<open>handleConn\<close> up to its read loop. The first frame read, or the error of reading it, and whether
  writing the welcome succeeds come from the socket. The result says whether the connection lives.
\<close>

definition handle_conn :: "(nat \<Rightarrow> bool) \<Rightarrow> gotime \<Rightarrow> server \<Rightarrow> nat \<Rightarrow> string
    \<Rightarrow> wire_error + frame \<Rightarrow> bool \<Rightarrow> server \<times> client_conn option" where
  "handle_conn printable now s k addr first write_ok =
    (case first of
       Inl _ \<Rightarrow> (s, None)
     | Inr hello \<Rightarrow>
        (case valid_hello hello of
           Some e \<Rightarrow> (s\<lparr>svOut := svOut s @
               (if write_ok then [(k, frame_refusal err_bad_frame (hello_error_text printable e))] else [])\<rparr>, None)
         | None \<Rightarrow>
            (let s1 = record_hello now s hello addr;
                 cursor = stNextSeq (svStore s1);
                 reset = hello_resets s1 hello cursor;
                 c = \<lparr>ccPeer = fFrom hello, ccId = k\<rparr>
             in if \<not> write_ok then (s1, None)
                else (let s2 = s1\<lparr>svOut := svOut s1 @ [(k, welcome_frame now s1 hello)]\<rparr>;
                          s3 = register s2 c
                      in (backfill s3 c (fCursor hello) reset cursor, Some c)))))"

section \<open>What sending leaves alone\<close>

text \<open>
  An operation that only sends changes what is queued and which connections are closed.
  \<open>sends_only\<close> says so, and every sending operation is shown to.
\<close>

definition sends_only :: "server \<Rightarrow> server \<Rightarrow> bool" where
  "sends_only s s' \<longleftrightarrow> svStore s' = svStore s \<and> svConns s' = svConns s \<and> svXfers s' = svXfers s
     \<and> svName s' = svName s \<and> svHost s' = svHost s \<and> svErrText s' = svErrText s \<and> svStuck s' = svStuck s
     \<and> set (svClosed s) \<subseteq> set (svClosed s') \<and> (\<exists>fs. svOut s' = svOut s @ fs)"

lemma sends_only_refl [simp, intro]: "sends_only s s"
  by (simp add: sends_only_def)

lemma sends_only_trans [trans]: "sends_only s t \<Longrightarrow> sends_only t u \<Longrightarrow> sends_only s u"
  by (fastforce simp: sends_only_def)

lemma sends_only_fields:
  assumes "sends_only s s'"
  shows "svStore s' = svStore s" "svConns s' = svConns s" "svXfers s' = svXfers s"
    "conns_to s' = conns_to s" "conns_of s' = conns_of s" "every_conn s' = every_conn s"
    "rooms_of s' = rooms_of s" "server_ident s' = server_ident s"
  using assms by (auto simp: sends_only_def conns_to_def conns_of_def every_conn_def rooms_of_def server_ident_def)

lemma sends_only_foldl: "(\<And>s x. sends_only s (f s x)) \<Longrightarrow> sends_only s (foldl f s xs)"
proof (induction xs arbitrary: s)
  case (Cons x xs)
  then show ?case by (auto intro: sends_only_trans)
qed simp

lemma sends_only_close [simp, intro]: "sends_only s (close_conn s c)"
  by (auto simp: sends_only_def close_conn_def)

lemma sends_only_send [simp, intro]: "sends_only s (send f s c)"
  by (auto simp: sends_only_def send_def close_conn_def)

lemma sends_only_send_all [simp, intro]: "sends_only s (send_all f s cs)"
  unfolding send_all_def by (rule sends_only_foldl) simp

lemma sends_only_send_to [simp, intro]: "sends_only s (send_to s i f)"
  by (simp add: send_to_def)

lemma sends_only_broadcast [simp, intro]: "sends_only s (broadcast_peer s i)"
  by (simp add: broadcast_peer_def split: option.splits)

lemma sends_only_ping_all [simp, intro]: "sends_only s (ping_all s)"
  by (simp add: ping_all_def)

lemma sends_only_send_visible [simp, intro]: "sends_only s (send_visible c s m)"
  by (simp add: send_visible_def split: option.splits)

lemma sends_only_backfill [simp, intro]: "sends_only s (backfill s c from reset cursor)"
proof -
  let ?s1 = "send (zero_frame\<lparr>fType := frame_roster, fPeers := roster s\<rparr>) s c"
  have "sends_only s ?s1" by simp
  also have "sends_only \<dots> (foldl (send_visible c) ?s1 (missed s (ccPeer c) from reset))"
    by (rule sends_only_foldl) simp
  finally show ?thesis by (auto simp: backfill_def Let_def intro: sends_only_trans)
qed

text \<open>What a connection that is open and read is sent.\<close>

definition reading :: "server \<Rightarrow> nat \<Rightarrow> bool" where
  "reading s k \<longleftrightarrow> k \<notin> set (svClosed s) \<and> k \<notin> set (svStuck s)"

definition out_of :: "server \<Rightarrow> nat \<Rightarrow> frame list" where
  "out_of s k = map snd (filter (\<lambda>e. fst e = k) (svOut s))"

lemma send_reading: "reading (send f s c) k = reading s k"
  by (auto simp: reading_def send_def close_conn_def)

lemma send_all_reading: "reading (send_all f s cs) k = reading s k"
  unfolding send_all_def by (induction cs arbitrary: s) (simp_all add: send_reading)

lemma out_of_send:
  "out_of (send f s c) k = out_of s k @ (if ccId c = k \<and> reading s k then [f] else [])"
  by (auto simp: out_of_def send_def reading_def close_conn_def)

lemma out_of_send_all:
  "out_of (send_all f s cs) k
     = out_of s k @ (if reading s k then replicate (count_list (map ccId cs) k) f else [])"
  unfolding send_all_def
  by (induction cs arbitrary: s) (auto simp: out_of_send send_reading replicate_append_same)

lemma svOut_send: "svOut (send f s c) = svOut s @ (if reading s (ccId c) then [(ccId c, f)] else [])"
  by (auto simp: send_def reading_def close_conn_def)

lemma svOut_send_visible:
  "svOut (send_visible c s m) = svOut s @
     (case conv_for m (ccPeer c) (rooms_of s (ccPeer c)) of
        None \<Rightarrow> []
      | Some conv \<Rightarrow> if reading s (ccId c) then [(ccId c, (msg_frame m)\<lparr>fConv := conv\<rparr>)] else [])"
  by (simp add: send_visible_def svOut_send split: option.splits)

lemma send_visible_reading: "reading (send_visible c s m) k = reading s k"
  by (simp add: send_visible_def send_reading split: option.splits)

definition visible_frame :: "peer_id \<Rightarrow> string list \<Rightarrow> message \<Rightarrow> frame" where
  "visible_frame i rs m = (msg_frame m)\<lparr>fConv := the (conv_for m i rs)\<rparr>"

lemma svOut_send_visible_all:
  assumes "reading s (ccId c)" and "rs = rooms_of s (ccPeer c)"
  shows "svOut (foldl (send_visible c) s ms) = svOut s @
    map (\<lambda>m. (ccId c, visible_frame (ccPeer c) rs m))
      (filter (\<lambda>m. conv_for m (ccPeer c) rs \<noteq> None) ms)"
  using assms
proof (induction ms arbitrary: s)
  case (Cons m ms)
  have "rooms_of (send_visible c s m) = rooms_of s"
    by (rule sends_only_fields(7)) simp
  with Cons show ?case
    by (auto simp: svOut_send_visible send_visible_reading visible_frame_def)
qed simp

lemma send_visible_all_reading: "reading (foldl (send_visible c) s ms) k = reading s k"
  by (induction ms arbitrary: s) (simp_all add: send_visible_reading)

section \<open>The order of the backlog\<close>

lemma tail_zero [simp]: "tail 0 xs = xs"
  by (simp add: tail_def)

lemma set_since: "map_ok (stMsgs s) \<Longrightarrow> set (since s cursor 0) = {m. cursor < mSeq m \<and> (\<exists>c. m \<in> set (conv_msgs s c))}"
  by (auto simp: since_def all_msgs_iff)

lemma ordered_since: "ordered_by less_message (since s cursor 0)"
  by (simp add: since_def message_order.ordered_sort)

lemma set_move_left [simp]: "set (move_left m l) = insert m (set l)"
  by (induction l) auto

lemma mset_sort_by_seq_acc: "mset (foldl (\<lambda>d m. move_left m d) acc l) = mset acc + mset l"
proof (induction l arbitrary: acc)
  case (Cons m l)
  have "mset (move_left m acc) = add_mset m (mset acc)" by (induction acc) auto
  with Cons show ?case by simp
qed simp

lemma mset_sort_by_seq [simp]: "mset (sort_by_seq l) = mset l"
  by (simp add: sort_by_seq_def mset_sort_by_seq_acc)

lemma set_sort_by_seq [simp]: "set (sort_by_seq l) = set l"
  by (metis mset_sort_by_seq set_mset_mset)

lemma sorted_move_left:
  "sorted_wrt (\<lambda>a b. mSeq b \<le> mSeq a) l \<Longrightarrow> sorted_wrt (\<lambda>a b. mSeq b \<le> mSeq a) (move_left m l)"
proof (induction l)
  case (Cons x l)
  then show ?case by (cases "mSeq m < mSeq x") (auto dest: order_trans intro: order_less_imp_le)
qed simp

lemma sorted_sort_by_seq: "sorted_wrt (\<lambda>a b. mSeq a \<le> mSeq b) (sort_by_seq l)"
proof -
  have "sorted_wrt (\<lambda>a b. mSeq b \<le> mSeq a) (foldl (\<lambda>d m. move_left m d) acc l)"
    if "sorted_wrt (\<lambda>a b. mSeq b \<le> mSeq a) acc" for acc
    using that by (induction l arbitrary: acc) (auto intro: sorted_move_left)
  from this [of "[]"] show ?thesis by (simp add: sort_by_seq_def sorted_wrt_rev)
qed


end
