(* ===== verification/Relay.thy ===== *)
theory Relay
  imports Server
begin

text \<open>
  The model of \<open>chatserver/relay.go\<close>: files passing through the server. A transfer is offered,
  accepted, its chunks are passed on in order up to the size that was offered, and it ends with
  a done, a decline, a disconnection, a protocol violation or a timeout.
\<close>

definition decline_offer :: "frame \<Rightarrow> peer_id \<Rightarrow> string \<Rightarrow> frame" where
  "decline_offer f dest reason = zero_frame\<lparr>fType := frame_decline, fTransfer := fTransfer f,
     fConv := direct_conv dest, fFrom := dest, fReason := reason\<rparr>"

definition offer_to :: "frame \<Rightarrow> peer_id" where
  "offer_to f = (if fTo f = '''' then conv_peer (fConv f) else fTo f)"

definition involves :: "peer_id \<Rightarrow> relay \<Rightarrow> bool" where
  "involves i r \<longleftrightarrow> rlFrom r = i \<or> rlTo r = i"

definition open_relays :: "server \<Rightarrow> peer_id \<Rightarrow> nat" where
  "open_relays s i = length (filter (\<lambda>e. involves i (snd e)) (svXfers s))"

text \<open>The checks of an offer, in their order: the reason it is declined for, if it is.\<close>

definition offer_refusal :: "server \<Rightarrow> client_conn \<Rightarrow> frame \<Rightarrow> string option" where
  "offer_refusal s c f =
    (if fTransfer f = '''' \<or> fSize f < 0 \<or> max_transfer_bytes < fSize f
       then Some ''that offer is not one the server will carry''
     else if offer_to f = '''' \<or> offer_to f = ccPeer c then Some ''a file goes to one person, not to a room''
     else if peer_of (svStore s) (offer_to f) = None then Some ''nobody with that id has ever enrolled here''
     else if conns_of s (offer_to f) = 0
       then Some ''they are not connected, so a file cannot be sent right now''
     else None)"

definition new_relay :: "gotime \<Rightarrow> client_conn \<Rightarrow> frame \<Rightarrow> relay" where
  "new_relay now c f = \<lparr>rlID = fTransfer f, rlFrom = ccPeer c, rlTo = offer_to f,
     rlName = safe_base_name (fName f), rlSize = fSize f, rlSent = 0, rlState = RelayOffered, rlAt = now\<rparr>"

definition on_offer :: "gotime \<Rightarrow> server \<Rightarrow> client_conn \<Rightarrow> frame \<Rightarrow> server" where
  "on_offer now s c f =
    (case offer_refusal s c f of
       Some reason \<Rightarrow> send (decline_offer f (offer_to f) reason) s c
     | None \<Rightarrow>
        (if map_of (svXfers s) (fTransfer f) \<noteq> None then s
         else if max_open_transfers \<le> open_relays s (ccPeer c)
           then send (decline_offer f (offer_to f) ''too many transfers are already open'') s c
         else send_to (s\<lparr>svXfers := AList.update (fTransfer f) (new_relay now c f) (svXfers s)\<rparr>) (offer_to f)
           (f\<lparr>fFrom := ccPeer c, fTo := offer_to f, fConv := direct_conv (ccPeer c)\<rparr>)))"

definition on_accept :: "server \<Rightarrow> client_conn \<Rightarrow> frame \<Rightarrow> server" where
  "on_accept s c f =
    (case map_of (svXfers s) (fTransfer f) of
       None \<Rightarrow> s
     | Some r \<Rightarrow>
        (if rlTo r \<noteq> ccPeer c \<or> rlState r \<noteq> RelayOffered then s
         else send_to (s\<lparr>svXfers := AList.update (fTransfer f) (r\<lparr>rlState := RelayRunning\<rparr>) (svXfers s)\<rparr>) (rlFrom r)
           (zero_frame\<lparr>fType := frame_accept, fTransfer := fTransfer f, fFrom := ccPeer c,
              fConv := direct_conv (ccPeer c)\<rparr>)))"

definition other_end :: "peer_id \<Rightarrow> relay \<Rightarrow> peer_id" where
  "other_end i r = (if rlFrom r = i then rlTo r else rlFrom r)"

definition drop_xfer :: "server \<Rightarrow> transfer_id \<Rightarrow> server" where
  "drop_xfer s t = s\<lparr>svXfers := AList.delete t (svXfers s)\<rparr>"

definition on_decline :: "server \<Rightarrow> client_conn \<Rightarrow> frame \<Rightarrow> server" where
  "on_decline s c f =
    (case map_of (svXfers s) (fTransfer f) of
       None \<Rightarrow> s
     | Some r \<Rightarrow>
        (if \<not> involves (ccPeer c) r then s
         else send_to (drop_xfer s (fTransfer f)) (other_end (ccPeer c) r)
           (zero_frame\<lparr>fType := frame_decline, fTransfer := fTransfer f, fFrom := ccPeer c,
              fConv := direct_conv (ccPeer c), fReason := clip_runes (fReason f) 120\<rparr>)))"

definition protocol_reason :: string where
  "protocol_reason = ''the sender did not follow the transfer protocol''"

definition on_chunk :: "server \<Rightarrow> client_conn \<Rightarrow> frame \<Rightarrow> server" where
  "on_chunk s c f =
    (case map_of (svXfers s) (fTransfer f) of
       None \<Rightarrow> s
     | Some r \<Rightarrow>
        (if rlFrom r \<noteq> ccPeer c \<or> rlState r \<noteq> RelayRunning then s
         else if fOffset f \<noteq> rlSent r \<or> rlSize r < rlSent r + int (length (fData f)) then
           send_to
             (send (zero_frame\<lparr>fType := frame_decline, fTransfer := fTransfer f, fReason := protocol_reason\<rparr>)
                (drop_xfer s (fTransfer f)) c)
             (rlTo r)
             (zero_frame\<lparr>fType := frame_decline, fTransfer := fTransfer f, fFrom := ccPeer c,
                fReason := protocol_reason\<rparr>)
         else send_to
           (s\<lparr>svXfers := AList.update (fTransfer f) (r\<lparr>rlSent := rlSent r + int (length (fData f))\<rparr>) (svXfers s)\<rparr>)
           (rlTo r) (f\<lparr>fFrom := ccPeer c\<rparr>)))"

definition on_done :: "server \<Rightarrow> client_conn \<Rightarrow> frame \<Rightarrow> server" where
  "on_done s c f =
    (case map_of (svXfers s) (fTransfer f) of
       None \<Rightarrow> s
     | Some r \<Rightarrow>
        (if rlFrom r \<noteq> ccPeer c then s
         else send_to (drop_xfer s (fTransfer f)) (rlTo r) (f\<lparr>fFrom := ccPeer c\<rparr>)))"

definition is_expired :: "gotime \<Rightarrow> transfer_id \<times> relay \<Rightarrow> bool" where
  "is_expired now e \<longleftrightarrow> rlState (snd e) = RelayOffered \<and> rlAt (snd e) < now - offer_timeout"

definition is_live :: "gotime \<Rightarrow> transfer_id \<times> relay \<Rightarrow> bool" where
  "is_live now e \<longleftrightarrow> \<not> is_expired now e"

definition decline_from :: "relay \<Rightarrow> peer_id \<Rightarrow> string \<Rightarrow> frame" where
  "decline_from r i reason = zero_frame\<lparr>fType := frame_decline, fTransfer := rlID r, fFrom := i, fReason := reason\<rparr>"

definition expire_one :: "server \<Rightarrow> relay \<Rightarrow> server" where
  "expire_one s r = send_to (send_to s (rlFrom r) (decline_from r (rlTo r) ''the offer was not answered''))
     (rlTo r) (decline_from r (rlFrom r) ''the offer was not answered'')"

definition expire_offers :: "gotime \<Rightarrow> server \<Rightarrow> server" where
  "expire_offers now s = foldl expire_one (s\<lparr>svXfers := filter (is_live now) (svXfers s)\<rparr>)
     (map snd (filter (is_expired now) (svXfers s)))"

definition entry_involves :: "peer_id \<Rightarrow> transfer_id \<times> relay \<Rightarrow> bool" where
  "entry_involves i e \<longleftrightarrow> involves i (snd e)"

definition entry_spares :: "peer_id \<Rightarrow> transfer_id \<times> relay \<Rightarrow> bool" where
  "entry_spares i e \<longleftrightarrow> \<not> involves i (snd e)"

definition fail_one :: "peer_id \<Rightarrow> string \<Rightarrow> server \<Rightarrow> relay \<Rightarrow> server" where
  "fail_one i reason s r = send_to s (other_end i r) (decline_from r i reason)"

definition fail_transfers_of :: "server \<Rightarrow> peer_id \<Rightarrow> string \<Rightarrow> server" where
  "fail_transfers_of s i reason = foldl (fail_one i reason) (s\<lparr>svXfers := filter (entry_spares i) (svXfers s)\<rparr>)
     (map snd (filter (entry_involves i) (svXfers s)))"

section \<open>The invariant of the transfers\<close>

definition relay_ok :: "server \<Rightarrow> transfer_id \<Rightarrow> relay \<Rightarrow> bool" where
  "relay_ok s t r \<longleftrightarrow> rlID r = t \<and> t \<noteq> '''' \<and> rlFrom r \<noteq> rlTo r
     \<and> 0 \<le> rlSent r \<and> rlSent r \<le> rlSize r \<and> rlSize r \<le> max_transfer_bytes
     \<and> (rlState r = RelayOffered \<longrightarrow> rlSent r = 0)
     \<and> 0 < conns_of s (rlFrom r) \<and> 0 < conns_of s (rlTo r)"

definition is_from :: "peer_id \<Rightarrow> transfer_id \<times> relay \<Rightarrow> bool" where
  "is_from i e \<longleftrightarrow> rlFrom (snd e) = i"

definition xfers_ok :: "server \<Rightarrow> bool" where
  "xfers_ok s \<longleftrightarrow> map_ok (svXfers s) \<and> (\<forall>t r. map_of (svXfers s) t = Some r \<longrightarrow> relay_ok s t r)
     \<and> (\<forall>i. length (filter (is_from i) (svXfers s)) \<le> max_open_transfers)"

lemma xfers_okD:
  assumes "xfers_ok s" and "map_of (svXfers s) t = Some r"
  shows "relay_ok s t r"
  using assms by (simp add: xfers_ok_def)

lemma relay_ok_cong: "conns_of s = conns_of s' \<Longrightarrow> relay_ok s = relay_ok s'"
  by (intro ext) (simp add: relay_ok_def)

lemma xfers_ok_cong: "svXfers s = svXfers s' \<Longrightarrow> conns_of s = conns_of s' \<Longrightarrow> xfers_ok s = xfers_ok s'"
  by (simp add: xfers_ok_def relay_ok_cong [of s s'])

lemma sends_only_xfers_ok: "sends_only s s' \<Longrightarrow> xfers_ok s' = xfers_ok s"
  by (rule xfers_ok_cong) (simp_all add: sends_only_fields)

lemma length_filter_update_new:
  "map_of m k = None \<Longrightarrow> length (filter P (AList.update k v m)) = length (filter P m) + (if P (k, v) then 1 else 0)"
  by (induction m) (auto split: if_splits)

lemma length_filter_update_old:
  "map_ok m \<Longrightarrow> map_of m k = Some w \<Longrightarrow> P (k, v) = P (k, w)
     \<Longrightarrow> length (filter P (AList.update k v m)) = length (filter P m)"
  by (induction m) (auto simp: map_ok_def split: if_splits)

lemma length_filter_delete: "length (filter P (AList.delete k m)) \<le> length (filter P m)"
  by (induction m) (auto simp: AList.delete_eq)

lemma from_involves: "length (filter (is_from i) m) \<le> length (filter (\<lambda>e. involves i (snd e)) m)"
  by (induction m) (auto simp: is_from_def involves_def)

text \<open>A new relay, a relay that moves on, and fewer relays keep the invariant.\<close>

lemma xfers_ok_new:
  assumes ok: "xfers_ok s" and t: "map_of (svXfers s) t = None" and r: "relay_ok s t r"
    and free: "open_relays s (rlFrom r) < max_open_transfers"
  shows "xfers_ok (s\<lparr>svXfers := AList.update t r (svXfers s)\<rparr>)"
proof -
  let ?s = "s\<lparr>svXfers := AList.update t r (svXfers s)\<rparr>"
  have "conns_of ?s = conns_of s" by (rule ext) (simp add: conns_of_def conns_to_def)
  then have rok: "relay_ok ?s = relay_ok s" by (rule relay_ok_cong)
  have "length (filter (is_from i) (svXfers ?s)) \<le> max_open_transfers" for i
    using ok free from_involves [of i "svXfers s"]
    by (cases "i = rlFrom r") (auto simp: length_filter_update_new [OF t] is_from_def open_relays_def xfers_ok_def)
  with ok r show ?thesis by (simp add: xfers_ok_def rok)
qed

lemma xfers_ok_move:
  assumes ok: "xfers_ok s" and t: "map_of (svXfers s) t = Some r" and r': "relay_ok s t r'"
    and "rlFrom r' = rlFrom r"
  shows "xfers_ok (s\<lparr>svXfers := AList.update t r' (svXfers s)\<rparr>)"
proof -
  let ?s = "s\<lparr>svXfers := AList.update t r' (svXfers s)\<rparr>"
  have "conns_of ?s = conns_of s" by (rule ext) (simp add: conns_of_def conns_to_def)
  then have rok: "relay_ok ?s = relay_ok s" by (rule relay_ok_cong)
  have "map_ok (svXfers s)" using ok by (simp add: xfers_ok_def)
  note len = length_filter_update_old [OF this t]
  have "length (filter (is_from i) (svXfers ?s)) = length (filter (is_from i) (svXfers s))" for i
    by (simp add: len [of "is_from i"] is_from_def assms(4))
  with ok r' show ?thesis by (simp add: xfers_ok_def rok)
qed

lemma xfers_ok_filter: "xfers_ok s \<Longrightarrow> xfers_ok (s\<lparr>svXfers := filter P (svXfers s)\<rparr>)"
proof -
  let ?s = "s\<lparr>svXfers := filter P (svXfers s)\<rparr>"
  assume ok: "xfers_ok s"
  have "conns_of ?s = conns_of s" by (rule ext) (simp add: conns_of_def conns_to_def)
  then have rok: "relay_ok ?s = relay_ok s" by (rule relay_ok_cong)
  have "length (filter (is_from i) (filter P xs)) \<le> length (filter (is_from i) xs)" for i xs
    by (induction xs) auto
  then have "length (filter (is_from i) (filter P (svXfers s))) \<le> max_open_transfers" for i
    using ok order_trans unfolding xfers_ok_def by blast
  with ok show ?thesis
    by (auto simp: xfers_ok_def rok map_of_filter simp del: filter_filter split: option.splits if_splits)
qed

lemma drop_xfer_filter: "drop_xfer s t = s\<lparr>svXfers := filter (\<lambda>e. fst e \<noteq> t) (svXfers s)\<rparr>"
proof -
  have "AList.delete t (svXfers s) = filter (\<lambda>e. fst e \<noteq> t) (svXfers s)"
    unfolding AList.delete_eq by (rule filter_cong) auto
  then show ?thesis by (simp add: drop_xfer_def)
qed

lemma xfers_ok_drop [simp, intro]: "xfers_ok s \<Longrightarrow> xfers_ok (drop_xfer s t)"
  by (simp add: drop_xfer_filter xfers_ok_filter)

lemma xfers_ok_send_to [simp]: "xfers_ok (send_to s i f) = xfers_ok s"
  by (rule sends_only_xfers_ok) simp

lemma xfers_ok_send [simp]: "xfers_ok (send f s c) = xfers_ok s"
  by (rule sends_only_xfers_ok) simp

lemma offer_refusal_None:
  assumes "offer_refusal s c f = None"
  shows "fTransfer f \<noteq> ''''" "0 \<le> fSize f" "fSize f \<le> max_transfer_bytes" "offer_to f \<noteq> ''''"
    "offer_to f \<noteq> ccPeer c" "peer_of (svStore s) (offer_to f) \<noteq> None" "0 < conns_of s (offer_to f)"
  using assms by (auto simp: offer_refusal_def split: if_splits)

lemma xfers_ok_on_offer:
  assumes ok: "xfers_ok s" and c: "0 < conns_of s (ccPeer c)"
  shows "xfers_ok (on_offer now s c f)"
proof (cases "offer_refusal s c f")
  case None
  have "relay_ok s (fTransfer f) (new_relay now c f)"
    using offer_refusal_None [OF None] c by (auto simp: relay_ok_def new_relay_def)
  moreover have "rlFrom (new_relay now c f) = ccPeer c" by (simp add: new_relay_def)
  ultimately show ?thesis
    using ok None xfers_ok_new [OF ok, of "fTransfer f" "new_relay now c f"]
    by (auto simp: on_offer_def not_le)
qed (use ok in \<open>simp add: on_offer_def\<close>)

lemma xfers_ok_on_accept: "xfers_ok s \<Longrightarrow> xfers_ok (on_accept s c f)"
proof -
  assume ok: "xfers_ok s"
  have "xfers_ok (s\<lparr>svXfers := AList.update (fTransfer f) (r\<lparr>rlState := RelayRunning\<rparr>) (svXfers s)\<rparr>)"
    if "map_of (svXfers s) (fTransfer f) = Some r" for r
    by (rule xfers_ok_move [OF ok that]) (use xfers_okD [OF ok that] in \<open>simp_all add: relay_ok_def\<close>)
  with ok show ?thesis by (simp add: on_accept_def split: option.splits)
qed

lemma xfers_ok_on_decline: "xfers_ok s \<Longrightarrow> xfers_ok (on_decline s c f)"
  by (simp add: on_decline_def split: option.splits)

lemma xfers_ok_on_done: "xfers_ok s \<Longrightarrow> xfers_ok (on_done s c f)"
  by (simp add: on_done_def split: option.splits)

lemma xfers_ok_on_chunk: "xfers_ok s \<Longrightarrow> xfers_ok (on_chunk s c f)"
proof -
  assume ok: "xfers_ok s"
  have "xfers_ok (s\<lparr>svXfers := AList.update (fTransfer f) (r\<lparr>rlSent := rlSent r + int (length (fData f))\<rparr>) (svXfers s)\<rparr>)"
    if "map_of (svXfers s) (fTransfer f) = Some r" "rlState r = RelayRunning"
      "rlSent r + int (length (fData f)) \<le> rlSize r" for r
    by (rule xfers_ok_move [OF ok that(1)]) (use xfers_okD [OF ok that(1)] that in \<open>auto simp: relay_ok_def\<close>)
  with ok show ?thesis by (auto simp: on_chunk_def split: option.splits)
qed

lemma sends_only_expire_one [simp, intro]: "sends_only s (expire_one s r)"
  unfolding expire_one_def by (blast intro: sends_only_trans sends_only_send_to)

lemma sends_only_fail_one [simp, intro]: "sends_only s (fail_one i reason s r)"
  by (simp add: fail_one_def)

lemma expire_offers_sends: "sends_only (s\<lparr>svXfers := filter (is_live now) (svXfers s)\<rparr>) (expire_offers now s)"
  unfolding expire_offers_def by (rule sends_only_foldl) simp

lemma fail_transfers_sends:
  "sends_only (s\<lparr>svXfers := filter (entry_spares i) (svXfers s)\<rparr>) (fail_transfers_of s i reason)"
  unfolding fail_transfers_of_def by (rule sends_only_foldl) simp

lemma xfers_ok_expire [simp, intro]: "xfers_ok s \<Longrightarrow> xfers_ok (expire_offers now s)"
  by (simp add: sends_only_xfers_ok [OF expire_offers_sends] xfers_ok_filter)

text \<open>Every relay operation changes the transfers and what is queued, and nothing else.\<close>

definition relays_only :: "server \<Rightarrow> server \<Rightarrow> bool" where
  "relays_only s s' \<longleftrightarrow> (\<exists>x. sends_only (s\<lparr>svXfers := x\<rparr>) s')"

lemma relays_only_fields:
  assumes "relays_only s s'"
  shows "svStore s' = svStore s" "svConns s' = svConns s" "conns_to s' = conns_to s" "conns_of s' = conns_of s"
    "every_conn s' = every_conn s" "svStuck s' = svStuck s" "set (svClosed s) \<subseteq> set (svClosed s')"
    "\<exists>fs. svOut s' = svOut s @ fs"
  using assms by (auto simp: relays_only_def sends_only_def conns_to_def conns_of_def every_conn_def)

lemma relays_only_I: "sends_only (s\<lparr>svXfers := x\<rparr>) s' \<Longrightarrow> relays_only s s'"
  by (auto simp: relays_only_def)

lemma relays_only_sends: "sends_only s s' \<Longrightarrow> relays_only s s'"
  by (rule relays_only_I [where x = "svXfers s"]) simp

lemma relays_only_drop: "sends_only (drop_xfer s t) s' \<Longrightarrow> relays_only s s'"
  unfolding drop_xfer_def by (rule relays_only_I)

lemma relays_only_ops [simp, intro]:
  "relays_only s (on_offer now s c f)" "relays_only s (on_accept s c f)" "relays_only s (on_decline s c f)"
  "relays_only s (on_chunk s c f)" "relays_only s (on_done s c f)" "relays_only s (expire_offers now s)"
  "relays_only s (fail_transfers_of s i reason)"
  by (auto simp: on_offer_def on_accept_def on_decline_def on_chunk_def on_done_def
      intro: relays_only_sends relays_only_drop relays_only_I [OF sends_only_send_to]
        relays_only_I [OF expire_offers_sends] relays_only_I [OF fail_transfers_sends]
        relays_only_drop [OF sends_only_trans [OF sends_only_send sends_only_send_to]]
      split: option.splits)


end
