(* ===== verification/Handle.thy ===== *)
theory Handle
  imports Relay
begin

text \<open>
  The model of \<open>chatserver/handle.go\<close> and of the loops of \<open>chatserver/server.go\<close>: the one switch that
  runs a client's frame, routing and fan-out, rooms, the end of a connection, the housekeeping
  tick, and the server as a machine over what its sockets and its clock do.
\<close>

section \<open>Routing\<close>

definition direct_route :: "server \<Rightarrow> peer_id \<Rightarrow> peer_id \<Rightarrow> frame + conv_id \<times> peer_id list" where
  "direct_route s sender other =
    (if other = '''' \<or> other = sender
       then Inl (frame_refusal err_bad_frame ''that is not a conversation you can send to'')
     else if peer_of (svStore s) other = None
       then Inl (frame_refusal err_no_such_peer ''nobody with that id has ever enrolled here'')
     else Inr (direct_key sender other, [sender, other]))"

definition room_route :: "server \<Rightarrow> peer_id \<Rightarrow> string \<Rightarrow> frame + conv_id \<times> peer_id list" where
  "room_route s sender room =
    (if room = '''' \<or> \<not> has_room (rooms_of s sender) room
       then Inl (frame_refusal err_not_in_room (''you are not in #'' @ room))
     else Inr (room_conv room, map pID (room_members (svStore s) room)))"

definition route :: "server \<Rightarrow> peer_id \<Rightarrow> conv_id \<Rightarrow> frame + conv_id \<times> peer_id list" where
  "route s sender conv =
    (if is_room conv then room_route s sender (canon_room (conv_room conv))
     else direct_route s sender (conv_peer conv))"

definition fan_one :: "message \<Rightarrow> server \<Rightarrow> peer_id \<Rightarrow> server" where
  "fan_one m s i = (case conv_for m i (rooms_of s i) of
      None \<Rightarrow> s
    | Some conv \<Rightarrow> send_to s i ((msg_frame m)\<lparr>fConv := conv\<rparr>))"

definition fan_out :: "message \<Rightarrow> server \<Rightarrow> peer_id list \<Rightarrow> server" where
  "fan_out m s is = foldl (fan_one m) s is"

section \<open>Messages\<close>

definition seq_frame :: "message_id \<Rightarrow> uint64 \<Rightarrow> frame" where
  "seq_frame i q = zero_frame\<lparr>fType := frame_seq, fID := i, fSeq := q\<rparr>"

definition store_error_text :: "server \<Rightarrow> store_error \<Rightarrow> string" where
  "store_error_text s e = (if e = NeedsIdAndConv then ''chat: message needs an id and a conversation'' else svErrText s)"

definition accept_message :: "gotime \<Rightarrow> server \<Rightarrow> client_conn \<Rightarrow> message \<Rightarrow> peer_id list \<Rightarrow> server" where
  "accept_message now s c m rcpts =
    (let m1 = m\<lparr>mSeq := snd (next_seq (svStore s))\<rparr>;
         r = append_message now (fst (next_seq (svStore s))) m1;
         s1 = with_store s (fst r)
     in case snd (snd r) of
          Some e \<Rightarrow> send (frame_refusal err_refused (store_error_text s e)) s1 c
        | None \<Rightarrow> send_to (fan_out m1 s1 rcpts) (ccPeer c) (seq_frame (mID m1) (mSeq m1)))"

definition resend_seq :: "server \<Rightarrow> client_conn \<Rightarrow> message_id \<Rightarrow> server" where
  "resend_seq s c i = (case message_of (svStore s) i of
      None \<Rightarrow> s
    | Some had \<Rightarrow> send (seq_frame i (mSeq had)) s c)"

definition on_message :: "gotime \<Rightarrow> server \<Rightarrow> client_conn \<Rightarrow> frame \<Rightarrow> server" where
  "on_message now s c f =
    (case message_from_frame now f (ccPeer c) of
       None \<Rightarrow> send (frame_refusal err_bad_frame ''malformed message'') s c
     | Some m \<Rightarrow>
        (case route s (ccPeer c) (fConv f) of
           Inl e \<Rightarrow> send e s c
         | Inr (conv, rcpts) \<Rightarrow>
            (if have_message (svStore s) (mID m) then resend_seq s c (mID m)
             else accept_message now s c
               (m\<lparr>mConv := conv, mFromNick := pNick (get_or zero_peer (stPeers (svStore s)) (ccPeer c))\<rparr>) rcpts)))"

section \<open>Typing, rooms, presence\<close>

definition typing_frame :: "client_conn \<Rightarrow> frame \<Rightarrow> frame" where
  "typing_frame c f = zero_frame\<lparr>fType := frame_typing, fFrom := ccPeer c, fTyping := fTyping f,
     fConv := (if is_room (fConv f) then room_conv (conv_room (fConv f)) else direct_conv (ccPeer c))\<rparr>"

definition typing_one :: "client_conn \<Rightarrow> frame \<Rightarrow> server \<Rightarrow> peer_id \<Rightarrow> server" where
  "typing_one c f s i = (if i = ccPeer c then s else send_to s i (typing_frame c f))"

definition on_typing :: "server \<Rightarrow> client_conn \<Rightarrow> frame \<Rightarrow> server" where
  "on_typing s c f = (case route s (ccPeer c) (fConv f) of
      Inl _ \<Rightarrow> s
    | Inr (_, rcpts) \<Rightarrow> foldl (typing_one c f) s rcpts)"

definition send_plain :: "client_conn \<Rightarrow> server \<Rightarrow> message \<Rightarrow> server" where
  "send_plain c s m = send (msg_frame m) s c"

definition join_member :: "server \<Rightarrow> peer_id \<Rightarrow> string \<Rightarrow> server" where
  "join_member s i room = (if has_room (rooms_of s i) room then s
     else broadcast_peer (set_rooms s i (rooms_of s i @ [room])) i)"

definition on_join :: "server \<Rightarrow> client_conn \<Rightarrow> frame \<Rightarrow> server" where
  "on_join s c f =
    (let room = canon_room (fRoom f) in
     if room = '''' \<or> 48 < length room
       then send (frame_refusal err_bad_frame ''a room name is 1-48 characters'') s c
     else (let s1 = join_member s (ccPeer c) room;
               s2 = foldl (send_plain c) s1 (messages (svStore s1) (room_conv room) backlog_window)
           in send (zero_frame\<lparr>fType := frame_synced, fCursor := stNextSeq (svStore s2), fRoom := room\<rparr>) s2 c))"

definition on_leave :: "server \<Rightarrow> client_conn \<Rightarrow> frame \<Rightarrow> server" where
  "on_leave s c f = broadcast_peer
     (set_rooms s (ccPeer c) (filter (\<lambda>r. r \<noteq> canon_room (fRoom f)) (rooms_of s (ccPeer c)))) (ccPeer c)"

definition on_presence :: "gotime \<Rightarrow> server \<Rightarrow> client_conn \<Rightarrow> frame \<Rightarrow> server" where
  "on_presence now s c f =
    (let r = put_peer (svStore s) (zero_peer\<lparr>pID := ccPeer c, pPresence := presence_valid (fPresence f), pLastSeen := now\<rparr>);
         s1 = with_store s (fst r)
     in if snd r then broadcast_peer s1 (ccPeer c) else s1)"

section \<open>The switch\<close>

definition handle :: "gotime \<Rightarrow> server \<Rightarrow> client_conn \<Rightarrow> frame \<Rightarrow> server" where
  "handle now s c f =
    (if fType f = frame_msg then on_message now s c f
     else if fType f = frame_presence then on_presence now s c f
     else if fType f = frame_typing then on_typing s c f
     else if fType f = frame_join then on_join s c f
     else if fType f = frame_leave then on_leave s c f
     else if fType f = frame_offer then on_offer now s c f
     else if fType f = frame_accept then on_accept s c f
     else if fType f = frame_decline then on_decline s c f
     else if fType f = frame_chunk then on_chunk s c f
     else if fType f = frame_done then on_done s c f
     else if fType f = frame_ping then send (frame_of frame_pong) s c
     else s)"

section \<open>The end of a connection, and the tick\<close>

definition disconnect :: "gotime \<Rightarrow> server \<Rightarrow> client_conn \<Rightarrow> server" where
  "disconnect now s c =
    (let s1 = fail_transfers_of (close_conn (unregister s c) c) (ccPeer c) ''the other end disconnected''
     in if conns_of s1 (ccPeer c) = 0
        then broadcast_peer (with_store s1 (fst (set_presence now (svStore s1) (ccPeer c) presence_offline))) (ccPeer c)
        else s1)"

definition server_tick :: "gotime \<Rightarrow> server \<Rightarrow> server" where
  "server_tick now s = ping_all (expire_offers now s)"

text \<open>
  What the sockets and the clock do: a connection is accepted and its first frame read; an
  enrolled connection delivers a frame; one ends, by an error, a timeout or after a bye; the ticker fires;
  a queue fills up.
\<close>

datatype server_event =
  Accepted gotime nat string "wire_error + frame" bool
| Received gotime client_conn frame
| Ended gotime client_conn
| Ticked gotime
| Stuck nat

definition is_conn :: "server \<Rightarrow> client_conn \<Rightarrow> bool" where
  "is_conn s c \<longleftrightarrow> c \<in> set (conns_to s (ccPeer c))"

definition conn_ids :: "server \<Rightarrow> nat list" where
  "conn_ids s = map ccId (every_conn s)"

definition server_step :: "(nat \<Rightarrow> bool) \<Rightarrow> server \<Rightarrow> server_event \<Rightarrow> server" where
  "server_step printable s e = (case e of
      Accepted now k addr first ok \<Rightarrow>
        (if k \<in> set (conn_ids s) \<or> k \<in> set (svClosed s) then s else fst (handle_conn printable now s k addr first ok))
    | Received now c f \<Rightarrow>
        (if \<not> is_conn s c then s else if fType f = frame_bye then disconnect now s c else handle now s c f)
    | Ended now c \<Rightarrow> (if is_conn s c then disconnect now s c else s)
    | Ticked now \<Rightarrow> server_tick now s
    | Stuck k \<Rightarrow> s\<lparr>svStuck := k # svStuck s\<rparr>)"

definition server_run :: "(nat \<Rightarrow> bool) \<Rightarrow> server \<Rightarrow> server_event list \<Rightarrow> server" where
  "server_run printable s es = foldl (server_step printable) s es"

section \<open>The invariant of the server\<close>

text \<open>
  A connection is listed under the identity that enrolled on it, once; an identity with a
  connection is in the roster; two messages never share a sequence number.
\<close>

definition conns_ok :: "server \<Rightarrow> bool" where
  "conns_ok s \<longleftrightarrow> map_ok (svConns s)
     \<and> (\<forall>i. \<forall>c \<in> set (conns_to s i). ccPeer c = i \<and> peer_of (svStore s) i \<noteq> None)
     \<and> (\<forall>i. distinct (conns_to s i))
     \<and> (\<forall>i j. \<forall>c \<in> set (conns_to s i). \<forall>d \<in> set (conns_to s j). ccId c = ccId d \<longrightarrow> c = d)"

definition seqs_ok :: "store \<Rightarrow> bool" where
  "seqs_ok st \<longleftrightarrow> (\<forall>c c'. \<forall>m \<in> set (conv_msgs st c). \<forall>m' \<in> set (conv_msgs st c').
     mSeq m \<noteq> 0 \<and> (mSeq m = mSeq m' \<longrightarrow> m = m'))"

definition id_ok :: "peer_id \<Rightarrow> bool" where
  "id_ok i \<longleftrightarrow> length i = 32 \<and> is_hex i"

definition ids_ok :: "store \<Rightarrow> bool" where
  "ids_ok st \<longleftrightarrow> (\<forall>i. peer_of st i \<noteq> None \<longrightarrow> id_ok i)"

definition server_ok :: "server \<Rightarrow> bool" where
  "server_ok s \<longleftrightarrow> store_ok (svStore s) \<and> seqs_ok (svStore s) \<and> ids_ok (svStore s) \<and> conns_ok s \<and> xfers_ok s"

text \<open>With sequence numbers left for \<open>n\<close> more messages.\<close>

definition server_fit :: "nat \<Rightarrow> server \<Rightarrow> bool" where
  "server_fit n s \<longleftrightarrow> server_ok s \<and> unat (stNextSeq (svStore s)) + n < 2 ^ 64"

lemma conns_ok_cong:
  assumes "svConns s' = svConns s" and "\<And>i. peer_of (svStore s) i \<noteq> None \<Longrightarrow> peer_of (svStore s') i \<noteq> None"
    and ok: "conns_ok s"
  shows "conns_ok s'"
proof -
  have eq: "conns_to s' = conns_to s" using assms(1) by (simp add: conns_to_def fun_eq_iff)
  have peers: "\<forall>i. \<forall>c \<in> set (conns_to s i). ccPeer c = i \<and> peer_of (svStore s') i \<noteq> None"
    using ok assms(2) unfolding conns_ok_def by blast
  show ?thesis using ok peers unfolding conns_ok_def eq assms(1) by blast
qed

lemma sends_only_conns_ok: "sends_only s s' \<Longrightarrow> conns_ok s \<Longrightarrow> conns_ok s'"
  by (rule conns_ok_cong) (simp_all add: sends_only_fields)

lemma sends_only_server_ok: "sends_only s s' \<Longrightarrow> server_ok s \<Longrightarrow> server_ok s'"
  by (simp add: server_ok_def sends_only_fields(1) sends_only_conns_ok sends_only_xfers_ok)

lemma sends_only_fit: "sends_only s s' \<Longrightarrow> server_fit n s \<Longrightarrow> server_fit n s'"
  by (simp add: server_fit_def sends_only_fields(1) sends_only_server_ok)

lemma server_fit_le: "server_fit n s \<Longrightarrow> k \<le> n \<Longrightarrow> server_fit k s"
  by (simp add: server_fit_def)

lemma with_store_frame [simp]:
  "svStore (with_store s st) = st" "svConns (with_store s st) = svConns s" "svXfers (with_store s st) = svXfers s"
  "svOut (with_store s st) = svOut s" "svClosed (with_store s st) = svClosed s"
  "svStuck (with_store s st) = svStuck s" "conns_to (with_store s st) = conns_to s"
  "conns_of (with_store s st) = conns_of s" "every_conn (with_store s st) = every_conn s"
  "reading (with_store s st) = reading s"
  by (simp_all add: with_store_def conns_to_def conns_of_def every_conn_def reading_def fun_eq_iff)

lemma peer_of_put_peer_mono: "peer_of st i \<noteq> None \<Longrightarrow> peer_of (fst (put_peer st p)) i \<noteq> None"
  by (simp add: peer_of_put_peer)

lemma seqs_ok_cong: "stMsgs st' = stMsgs st \<Longrightarrow> seqs_ok st' = seqs_ok st"
  by (simp add: seqs_ok_def conv_msgs_def)

lemma ids_ok_put_peer: "ids_ok st \<Longrightarrow> id_ok (pID p) \<Longrightarrow> ids_ok (fst (put_peer st p))"
  by (auto simp: ids_ok_def peer_of_put_peer)

lemma server_fit_put_peer:
  assumes "server_fit n s" and "id_ok (pID p)"
  shows "server_fit n (with_store s (fst (put_peer (svStore s) p)))"
proof -
  let ?s = "with_store s (fst (put_peer (svStore s) p))"
  have "conns_ok ?s"
    by (rule conns_ok_cong [of _ s])
      (use assms in \<open>auto simp: server_fit_def server_ok_def peer_of_put_peer\<close>)
  moreover have "xfers_ok ?s = xfers_ok s" by (rule xfers_ok_cong) simp_all
  moreover have "seqs_ok (fst (put_peer (svStore s) p)) = seqs_ok (svStore s)" by (rule seqs_ok_cong) simp
  ultimately show ?thesis
    using assms by (simp add: server_fit_def server_ok_def ids_ok_put_peer)
qed

lemma server_fit_set_rooms: "server_fit n s \<Longrightarrow> id_ok i \<Longrightarrow> server_fit n (set_rooms s i rs)"
  unfolding set_rooms_def by (rule server_fit_put_peer) simp_all

lemma server_fit_relays_only:
  assumes "server_fit n s" and "relays_only s s'" and "xfers_ok s'"
  shows "server_fit n s'"
proof -
  have "conns_ok s'"
    by (rule conns_ok_cong [of _ s]) (use assms in \<open>simp_all add: relays_only_fields server_fit_def server_ok_def\<close>)
  with assms show ?thesis by (simp add: server_fit_def server_ok_def relays_only_fields(1))
qed

lemma server_fit_ok: "server_fit n s \<Longrightarrow> server_ok s"
  by (simp add: server_fit_def)

lemma server_okD:
  assumes "server_ok s"
  shows "store_ok (svStore s)" "seqs_ok (svStore s)" "conns_ok s" "xfers_ok s" "ids_ok (svStore s)"
  using assms by (simp_all add: server_ok_def)

lemma is_conn_peer: "server_ok s \<Longrightarrow> is_conn s c \<Longrightarrow> peer_of (svStore s) (ccPeer c) \<noteq> None"
  unfolding server_ok_def conns_ok_def is_conn_def by blast

lemma is_conn_id: "server_ok s \<Longrightarrow> is_conn s c \<Longrightarrow> id_ok (ccPeer c)"
  using is_conn_peer server_okD(5) unfolding ids_ok_def by blast

section \<open>A message accepted\<close>

lemma next_seq_fields [simp]:
  "stMsgs (fst (next_seq st)) = stMsgs st" "stSeen (fst (next_seq st)) = stSeen st"
  "stPeers (fst (next_seq st)) = stPeers st" "stNextSeq (fst (next_seq st)) = stNextSeq st + 1"
  "snd (next_seq st) = stNextSeq st + 1" "conv_msgs (fst (next_seq st)) = conv_msgs st"
  "have_message (fst (next_seq st)) = have_message st" "stDir (fst (next_seq st)) = stDir st"
  by (simp_all add: next_seq_def conv_msgs_def have_message_def fun_eq_iff)

lemma word_succ_less: "unat (x :: uint64) + 1 < 2 ^ 64 \<Longrightarrow> x < x + 1 \<and> unat (x + 1) = unat x + 1"
proof -
  assume x: "unat x + 1 < 2 ^ 64"
  then have "unat (x + 1) = unat x + 1" by (subst unat_add_lem [THEN iffD1]) simp_all
  then show ?thesis by (simp add: word_less_nat_alt)
qed

lemma server_fit_store_message:
  assumes fit: "server_fit (Suc n) s" and new: "\<not> have_message (svStore s) (mID m)"
    and ne: "mID m \<noteq> ''''" "mConv m \<noteq> ''''"
  shows "server_fit n (with_store s (fst (append_message now (fst (next_seq (svStore s)))
           (m\<lparr>mSeq := stNextSeq (svStore s) + 1\<rparr>))))" (is "server_fit n (with_store s ?st)")
proof -
  let ?old = "svStore s" and ?q = "stNextSeq (svStore s) + 1"
  let ?m = "m\<lparr>mSeq := ?q\<rparr>"
  have ok: "store_ok ?old" "seqs_ok ?old" "conns_ok s" "xfers_ok s" "ids_ok ?old"
    using server_okD server_fit_ok [OF fit] by auto
  have q: "stNextSeq ?old < ?q" "unat ?q = unat (stNextSeq ?old) + 1"
    using fit word_succ_less [of "stNextSeq ?old"] by (auto simp: server_fit_def)
  have store: "store_ok ?st"
    by (rule store_ok_append_message, rule store_ok_next_seq) (use ok q in simp_all)
  have msgs: "conv_msgs ?st c = (if c = mConv m then insert_ordered (conv_msgs ?old c) (filed_message now ?m)
      else conv_msgs ?old c)" for c
    using append_message_conv [of ?m "fst (next_seq ?old)" now c] new ne by simp
  have old: "mSeq m' \<noteq> ?q" if "m' \<in> set (conv_msgs ?old c)" for m' c
    using store_okD(7) [OF ok(1) that] q(1) by auto
  have q0: "?q \<noteq> 0" using q(2) by (metis unat_0 Suc_eq_plus1 nat.distinct(1))
  have mem: "m' = filed_message now ?m \<or> m' \<in> set (conv_msgs ?old c)" if "m' \<in> set (conv_msgs ?st c)" for m' c
    using that by (auto simp: msgs split: if_splits)
  have seqs: "seqs_ok ?st"
    unfolding seqs_ok_def
  proof (intro allI ballI)
    fix c c' m1 m2 assume "m1 \<in> set (conv_msgs ?st c)" and "m2 \<in> set (conv_msgs ?st c')"
    then consider (a) "m1 = filed_message now ?m" "m2 = filed_message now ?m"
      | (b) "m1 = filed_message now ?m" "m2 \<in> set (conv_msgs ?old c')"
      | (c) "m1 \<in> set (conv_msgs ?old c)" "m2 = filed_message now ?m"
      | (d) "m1 \<in> set (conv_msgs ?old c)" "m2 \<in> set (conv_msgs ?old c')"
      using mem by blast
    then show "mSeq m1 \<noteq> 0 \<and> (mSeq m1 = mSeq m2 \<longrightarrow> m1 = m2)"
      using q0 old ok(2) unfolding seqs_ok_def by cases (auto, metis)
  qed
  have conns: "conns_ok (with_store s ?st)"
    by (rule conns_ok_cong [of _ s]) (use ok(3) in \<open>simp_all add: peer_of_def append_message_fields\<close>)
  have xfers: "xfers_ok (with_store s ?st)"
    using xfers_ok_cong [of "with_store s ?st" s] ok(4) by simp
  have ids: "ids_ok ?st"
    using ok(5) by (simp add: ids_ok_def peer_of_def append_message_fields)
  have next_is: "stNextSeq ?st = ?q"
    using new ne by (simp add: append_message_next bump_seq_def)
  show ?thesis
    unfolding server_fit_def server_ok_def with_store_frame next_is
    using store seqs conns xfers ids q fit by (simp add: server_fit_def)
qed


section \<open>Every step keeps the invariant\<close>

lemma route_conv: "route s i c = Inr (conv, rs) \<Longrightarrow> conv \<noteq> ''''"
  by (auto simp: route_def room_route_def direct_route_def room_conv_def direct_key_def split: if_splits)

lemma sends_only_fan_out [simp, intro]: "sends_only s (fan_out m s is)"
  unfolding fan_out_def by (rule sends_only_foldl) (simp add: fan_one_def split: option.splits)

lemma sends_only_resend [simp, intro]: "sends_only s (resend_seq s c i)"
  by (simp add: resend_seq_def split: option.splits)

lemma sends_only_on_typing [simp, intro]: "sends_only s (on_typing s c f)"
  by (auto simp: on_typing_def typing_one_def split: sum.splits intro: sends_only_foldl)

lemma sends_only_plain_all [simp, intro]: "sends_only s (foldl (send_plain c) s ms)"
  by (rule sends_only_foldl) (simp add: send_plain_def)

lemma accept_message_sends:
  "sends_only (with_store s (fst (append_message now (fst (next_seq (svStore s))) (m\<lparr>mSeq := stNextSeq (svStore s) + 1\<rparr>))))
     (accept_message now s c m rcpts)"
  by (auto simp: accept_message_def Let_def split: option.splits
      intro: sends_only_trans [OF sends_only_fan_out sends_only_send_to])

lemma server_fit_on_message: "server_fit (Suc n) s \<Longrightarrow> server_fit n (on_message now s c f)"
proof -
  assume fit: "server_fit (Suc n) s"
  then have n: "server_fit n s" by (rule server_fit_le) simp
  have "server_fit n (accept_message now s c (m\<lparr>mConv := conv, mFromNick := nk\<rparr>) rcpts)"
    if "message_from_frame now f (ccPeer c) = Some m" "route s (ccPeer c) (fConv f) = Inr (conv, rcpts)"
      "\<not> have_message (svStore s) (mID m)" for m conv rcpts nk
    using that fit message_from_frame_fields(6) [OF that(1)] route_conv [OF that(2)]
    by (intro sends_only_fit [OF accept_message_sends] server_fit_store_message) simp_all
  with n sends_only_fit [OF sends_only_send n] sends_only_fit [OF sends_only_resend n] show ?thesis
    by (auto simp: on_message_def split: option.splits sum.splits)
qed

lemma server_fit_join_member: "server_fit n s \<Longrightarrow> id_ok i \<Longrightarrow> server_fit n (join_member s i room)"
  by (auto simp: join_member_def intro: sends_only_fit [OF sends_only_broadcast] server_fit_set_rooms)

lemma server_fit_on_join: "server_fit n s \<Longrightarrow> id_ok (ccPeer c) \<Longrightarrow> server_fit n (on_join s c f)"
  by (auto simp: on_join_def Let_def intro!: sends_only_fit [OF sends_only_send]
      sends_only_fit [OF sends_only_plain_all] server_fit_join_member)

lemma server_fit_on_leave: "server_fit n s \<Longrightarrow> id_ok (ccPeer c) \<Longrightarrow> server_fit n (on_leave s c f)"
  unfolding on_leave_def by (intro sends_only_fit [OF sends_only_broadcast] server_fit_set_rooms)

lemma server_fit_on_presence: "server_fit n s \<Longrightarrow> id_ok (ccPeer c) \<Longrightarrow> server_fit n (on_presence now s c f)"
  unfolding on_presence_def Let_def
  by (simp add: server_fit_put_peer sends_only_fit [OF sends_only_broadcast])

lemma is_conn_conns_of: "is_conn s c \<Longrightarrow> 0 < conns_of s (ccPeer c)"
  by (auto simp: is_conn_def conns_of_def)

lemma server_fit_handle:
  assumes fit: "server_fit (Suc n) s" and c: "is_conn s c"
  shows "server_fit n (handle now s c f)"
proof -
  have n: "server_fit n s" by (rule server_fit_le [OF fit]) simp
  then have x: "xfers_ok s" by (simp add: server_fit_def server_ok_def)
  have i: "id_ok (ccPeer c)" by (rule is_conn_id [OF server_fit_ok [OF n] c])
  note relay = server_fit_relays_only [OF n]
  have "server_fit n (on_offer now s c f)" by (rule relay) (use x c is_conn_conns_of xfers_ok_on_offer in auto)
  moreover have "server_fit n (on_accept s c f)" by (rule relay) (use x xfers_ok_on_accept in auto)
  moreover have "server_fit n (on_decline s c f)" by (rule relay) (use x xfers_ok_on_decline in auto)
  moreover have "server_fit n (on_chunk s c f)" by (rule relay) (use x xfers_ok_on_chunk in auto)
  moreover have "server_fit n (on_done s c f)" by (rule relay) (use x xfers_ok_on_done in auto)
  ultimately show ?thesis
    using n server_fit_on_message [OF fit] server_fit_on_join [OF n i] server_fit_on_leave [OF n i]
      server_fit_on_presence [OF n i] sends_only_fit [OF sends_only_on_typing n] sends_only_fit [OF sends_only_send n]
    by (simp add: handle_def)
qed

lemma conns_to_unregister:
  "conns_to (unregister s c) i = (if i = ccPeer c then other_conns s c else conns_to s i)"
  by (auto simp: unregister_def conns_to_def)

lemma unregister_fields [simp]:
  "svStore (unregister s c) = svStore s" "svXfers (unregister s c) = svXfers s" "svOut (unregister s c) = svOut s"
  "svStuck (unregister s c) = svStuck s" "svClosed (unregister s c) = svClosed s"
  by (simp_all add: unregister_def)

lemma conns_ok_unregister: "conns_ok s \<Longrightarrow> conns_ok (unregister s c)"
proof -
  assume ok: "conns_ok s"
  have sub: "set (conns_to (unregister s c) i) \<subseteq> set (conns_to s i)" for i
    by (auto simp: conns_to_unregister other_conns_def)
  have dist: "distinct (conns_to (unregister s c) i)" for i
    using ok by (auto simp: conns_to_unregister other_conns_def conns_ok_def)
  have "map_ok (svConns (unregister s c))" using ok by (simp add: unregister_def conns_ok_def)
  with ok sub dist show ?thesis unfolding conns_ok_def unregister_fields by (meson subsetD)
qed

lemma server_fit_disconnect:
  assumes fit: "server_fit n s" and c: "is_conn s c"
  shows "server_fit n (disconnect now s c)"
proof -
  let ?s0 = "close_conn (unregister s c) c"
  let ?s1 = "fail_transfers_of ?s0 (ccPeer c) ''the other end disconnected''"
  let ?f = "?s0\<lparr>svXfers := filter (entry_spares (ccPeer c)) (svXfers ?s0)\<rparr>"
  have ok: "store_ok (svStore s)" "seqs_ok (svStore s)" "conns_ok s" "xfers_ok s" "ids_ok (svStore s)"
    using server_okD server_fit_ok [OF fit] by auto
  have i: "id_ok (ccPeer c)" by (rule is_conn_id [OF server_fit_ok [OF fit] c])
  have s0: "svStore ?s0 = svStore s" "conns_to ?s0 = conns_to (unregister s c)" "svXfers ?s0 = svXfers s"
    by (simp_all add: sends_only_fields [OF sends_only_close])
  have "conns_ok ?s0" by (rule sends_only_conns_ok [OF sends_only_close conns_ok_unregister [OF ok(3)]])
  then have "conns_ok ?s1"
    by (rule conns_ok_cong [rotated 2]) (simp_all add: relays_only_fields [OF relays_only_ops(7)])
  moreover have "xfers_ok ?f"
  proof -
    have conns: "conns_of ?f i = conns_of s i" if "i \<noteq> ccPeer c" for i
      using that by (simp add: conns_of_def conns_to_def s0 [unfolded conns_to_def]
          conns_to_unregister [unfolded conns_to_def] del: relays_only_ops)
    have "xfers_ok (s\<lparr>svXfers := filter (entry_spares (ccPeer c)) (svXfers s)\<rparr>)" (is "xfers_ok ?g")
      by (rule xfers_ok_filter [OF ok(4)])
    then have g: "map_ok (svXfers ?g)" "\<And>t r. map_of (svXfers ?g) t = Some r \<Longrightarrow> relay_ok ?g t r"
        "\<And>i. length (filter (is_from i) (svXfers ?g)) \<le> max_open_transfers"
      by (simp_all add: xfers_ok_def)
    have same: "svXfers ?f = svXfers ?g" by (simp add: s0)
    have "relay_ok ?f t r" if "map_of (svXfers ?f) t = Some r" for t r
    proof -
      have "(t, r) \<in> set (svXfers ?f)" using that by (rule map_of_SomeD)
      then have "rlFrom r \<noteq> ccPeer c" "rlTo r \<noteq> ccPeer c" by (auto simp: entry_spares_def involves_def)
      moreover have "conns_of ?g = conns_of s" by (rule ext) (simp add: conns_of_def conns_to_def)
      ultimately show ?thesis using g(2) [of t r] that same conns by (simp add: relay_ok_def)
    qed
    with g same show ?thesis by (simp add: xfers_ok_def)
  qed
  then have "xfers_ok ?s1" by (simp add: sends_only_xfers_ok [OF fail_transfers_sends])
  ultimately have s1: "server_fit n ?s1"
    using ok fit by (simp add: server_fit_def server_ok_def relays_only_fields [OF relays_only_ops(7)] s0)
  then show ?thesis
    using i by (auto simp: disconnect_def Let_def set_presence_def
        intro!: sends_only_fit [OF sends_only_broadcast] server_fit_put_peer)
qed

lemma relays_only_tick: "relays_only s (server_tick now s)"
  unfolding server_tick_def relays_only_def
  by (blast intro: sends_only_trans [OF expire_offers_sends sends_only_ping_all])

lemma server_fit_tick: "server_fit n s \<Longrightarrow> server_fit n (server_tick now s)"
  by (rule server_fit_relays_only [OF _ relays_only_tick])
    (simp_all add: server_tick_def sends_only_xfers_ok [OF sends_only_ping_all] server_fit_def server_ok_def
      xfers_ok_expire)


lemma peer_of_record_hello:
  "fFrom h \<noteq> '''' \<Longrightarrow> peer_of (svStore (record_hello now s h addr)) (fFrom h) \<noteq> None"
  by (simp add: record_hello_def set_rooms_def peer_of_put_peer Let_def)

lemma record_hello_frame [simp]:
  "svConns (record_hello now s h addr) = svConns s" "svXfers (record_hello now s h addr) = svXfers s"
  "svOut (record_hello now s h addr) = svOut s" "svClosed (record_hello now s h addr) = svClosed s"
  "svStuck (record_hello now s h addr) = svStuck s" "stMsgs (svStore (record_hello now s h addr)) = stMsgs (svStore s)"
  "stNextSeq (svStore (record_hello now s h addr)) = stNextSeq (svStore s)"
  "stSelf (svStore (record_hello now s h addr)) = stSelf (svStore s)"
  by (simp_all add: record_hello_def set_rooms_def Let_def)

lemma server_fit_record_hello: "server_fit n s \<Longrightarrow> id_ok (fFrom h) \<Longrightarrow> server_fit n (record_hello now s h addr)"
  by (simp add: record_hello_def Let_def server_fit_set_rooms server_fit_put_peer)

lemma valid_hello_id: "valid_hello h = None \<Longrightarrow> fFrom h \<noteq> ''''"
  by (auto simp: valid_hello_def split: if_splits)

lemma valid_hello_id_ok: "valid_hello h = None \<Longrightarrow> id_ok (fFrom h)"
  by (auto simp: valid_hello_def id_ok_def split: if_splits)

lemma xfers_ok_more_conns:
  assumes "xfers_ok s" and "svXfers s' = svXfers s" and "\<And>i. conns_of s i \<le> conns_of s' i"
  shows "xfers_ok s'"
proof -
  have "relay_ok s' t r" if "relay_ok s t r" for t r
    using that less_le_trans [OF _ assms(3)] by (simp add: relay_ok_def)
  with assms(1,2) show ?thesis by (simp add: xfers_ok_def)
qed

lemma conns_to_add:
  "conns_to (s\<lparr>svConns := AList.update j cs (svConns s)\<rparr>) i = (if i = j then cs else conns_to s i)"
  by (simp add: conns_to_def)

lemma set_every_conn: "map_ok (svConns s) \<Longrightarrow> c \<in> set (every_conn s) \<longleftrightarrow> (\<exists>i. c \<in> set (conns_to s i))"
proof
  assume ok: "map_ok (svConns s)" and "c \<in> set (every_conn s)"
  then obtain i cs where "(i, cs) \<in> set (svConns s)" "c \<in> set cs" by (auto simp: every_conn_def)
  with map_of_in_set [OF ok] show "\<exists>i. c \<in> set (conns_to s i)"
    by (metis conns_to_def get_or_def option.simps(5))
next
  assume "\<exists>i. c \<in> set (conns_to s i)"
  then obtain i where "c \<in> set (conns_to s i)" ..
  then obtain cs where "map_of (svConns s) i = Some cs" "c \<in> set cs"
    by (cases "map_of (svConns s) i") (auto simp: conns_to_def get_or_def)
  then show "c \<in> set (every_conn s)" by (force simp: every_conn_def dest: map_of_SomeD)
qed

lemma server_fit_register:
  assumes fit: "server_fit n s" and new: "ccId c \<notin> set (conn_ids s)" and p: "peer_of (svStore s) (ccPeer c) \<noteq> None"
  shows "server_fit n (register s c)"
proof -
  let ?s = "s\<lparr>svConns := AList.update (ccPeer c) (conns_to s (ccPeer c) @ [c]) (svConns s)\<rparr>"
  have ok: "store_ok (svStore s)" "seqs_ok (svStore s)" "conns_ok s" "xfers_ok s"
    using server_okD server_fit_ok [OF fit] by auto
  have to: "conns_to ?s i = (if i = ccPeer c then conns_to s i @ [c] else conns_to s i)" for i
    by (simp add: conns_to_add)
  have fresh: "ccId d \<noteq> ccId c" if "d \<in> set (conns_to s i)" for d i
  proof -
    have "map_ok (svConns s)" using ok(3) by (simp add: conns_ok_def)
    with that have "d \<in> set (every_conn s)" using set_every_conn by blast
    with new show ?thesis unfolding conn_ids_def set_map by (metis image_eqI)
  qed
  have mem: "d = c \<and> i = ccPeer c \<or> d \<in> set (conns_to s i)" if "d \<in> set (conns_to ?s i)" for d i
    using that by (auto simp: to split: if_splits)
  have "conns_ok ?s"
    unfolding conns_ok_def
  proof (intro conjI allI ballI impI)
    show "map_ok (svConns ?s)" using ok(3) by (simp add: conns_ok_def)
    show "ccPeer d = i" "peer_of (svStore ?s) i \<noteq> None" if "d \<in> set (conns_to ?s i)" for i d
      using mem [OF that] ok(3) p by (auto simp: conns_ok_def)
    show "distinct (conns_to ?s i)" for i
      using ok(3) fresh [of c i] by (auto simp: to conns_ok_def)
    show "d = e" if "d \<in> set (conns_to ?s i)" "e \<in> set (conns_to ?s j)" "ccId d = ccId e" for i j d e
      using mem [OF that(1)] mem [OF that(2)] that(3) fresh ok(3) unfolding conns_ok_def by metis
  qed
  moreover have "xfers_ok ?s" by (rule xfers_ok_more_conns [OF ok(4)]) (simp_all add: conns_of_def to)
  ultimately have "server_fit n ?s" using fit by (simp add: server_fit_def server_ok_def)
  then show ?thesis unfolding register_def by (rule sends_only_fit [OF sends_only_broadcast])
qed

lemma server_fit_out: "server_fit n s \<Longrightarrow> server_fit n (s\<lparr>svOut := out\<rparr>)"
proof -
  assume fit: "server_fit n s"
  have "conns_ok (s\<lparr>svOut := out\<rparr>)" by (rule conns_ok_cong [of _ s]) (use fit in \<open>simp_all add: server_fit_def server_ok_def\<close>)
  moreover have "xfers_ok (s\<lparr>svOut := out\<rparr>) = xfers_ok s"
    by (rule xfers_ok_cong) (simp_all add: conns_of_def conns_to_def fun_eq_iff)
  ultimately show ?thesis using fit by (simp add: server_fit_def server_ok_def)
qed

lemma server_fit_handle_conn:
  assumes fit: "server_fit n s" and new: "k \<notin> set (conn_ids s)"
  shows "server_fit n (fst (handle_conn printable now s k addr first ok))"
proof (cases first)
  case (Inr h)
  show ?thesis
  proof (cases "valid_hello h")
    case None
    let ?s1 = "record_hello now s h addr"
    let ?s2 = "?s1\<lparr>svOut := svOut ?s1 @ [(k, welcome_frame now ?s1 h)]\<rparr>"
    let ?c = "\<lparr>ccPeer = fFrom h, ccId = k\<rparr>"
    have s1: "server_fit n ?s1" by (rule server_fit_record_hello [OF fit valid_hello_id_ok [OF None]])
    then have s2: "server_fit n ?s2" by (rule server_fit_out)
    have "conn_ids ?s2 = conn_ids s" by (simp add: conn_ids_def every_conn_def)
    moreover have "peer_of (svStore ?s2) (fFrom h) \<noteq> None"
      using peer_of_record_hello [OF valid_hello_id [OF None]] by simp
    ultimately have "server_fit n (register ?s2 ?c)"
      using new by (intro server_fit_register [OF s2]) simp_all
    then have "server_fit n (backfill (register ?s2 ?c) ?c from reset cursor)" for "from" reset cursor
      by (rule sends_only_fit [OF sends_only_backfill])
    with s1 Inr None show ?thesis by (simp add: handle_conn_def Let_def)
  qed (use Inr fit in \<open>simp add: handle_conn_def server_fit_out\<close>)
qed (use fit in \<open>simp add: handle_conn_def\<close>)

lemma server_fit_step: "server_fit (Suc n) s \<Longrightarrow> server_fit n (server_step printable s e)"
proof -
  assume fit: "server_fit (Suc n) s"
  then have n: "server_fit n s" by (rule server_fit_le) simp
  show ?thesis
  proof (cases e)
    case (Accepted now k addr first ok)
    with n server_fit_handle_conn [OF n, of k] show ?thesis by (simp add: server_step_def)
  next
    case (Received now c f)
    with n server_fit_handle [OF fit, of c] server_fit_disconnect [OF n, of c] show ?thesis
      by (simp add: server_step_def)
  next
    case (Ended now c)
    with n server_fit_disconnect [OF n, of c] show ?thesis by (simp add: server_step_def)
  next
    case (Ticked now)
    with server_fit_tick [OF n] show ?thesis by (simp add: server_step_def)
  next
    case (Stuck k)
    have "conns_ok (s\<lparr>svStuck := k # svStuck s\<rparr>)"
      by (rule conns_ok_cong [of _ s]) (use n in \<open>simp_all add: server_fit_def server_ok_def\<close>)
    moreover have "xfers_ok (s\<lparr>svStuck := k # svStuck s\<rparr>) = xfers_ok s"
      by (rule xfers_ok_cong) (simp_all add: conns_of_def conns_to_def fun_eq_iff)
    ultimately show ?thesis using n Stuck by (simp add: server_step_def server_fit_def server_ok_def)
  qed
qed

interpretation server_budget: budget_stepper "server_step printable" server_fit
  by unfold_locales (rule server_fit_step)


end
