(* ===== verification/ServerFacts.thy ===== *)
theory ServerFacts
  imports Handle
begin

text \<open>
  What the server guarantees: every stored message has its own place in one order and is never lost or
  changed; a message carries the identity of the connection it came from; it is sent to nobody who
  may not see it and to everybody connected who may; a resend is free; a resume sends what was missed;
  a connection changes no other identity's entry; a transfer carries what was accepted, in order.
\<close>

section \<open>History only grows\<close>

definition history :: "server \<Rightarrow> message set" where
  "history s = {m. \<exists>c. m \<in> set (conv_msgs (svStore s) c)}"

lemma history_cong: "stMsgs (svStore s') = stMsgs (svStore s) \<Longrightarrow> history s' = history s"
  by (simp add: history_def conv_msgs_def)

lemma history_sends: "sends_only s s' \<Longrightarrow> history s' = history s"
  by (rule history_cong) (simp add: sends_only_fields)

lemma history_relays: "relays_only s s' \<Longrightarrow> history s' = history s"
  by (rule history_cong) (simp add: relays_only_fields)

lemma history_put_peer [simp]: "history (with_store s (fst (put_peer (svStore s) p))) = history s"
  by (rule history_cong) simp

lemma history_fields [simp]:
  "history (s\<lparr>svOut := out\<rparr>) = history s" "history (s\<lparr>svStuck := ks\<rparr>) = history s"
  "history (s\<lparr>svConns := cs\<rparr>) = history s" "history (unregister s c) = history s"
  "history (record_hello now s h addr) = history s"
  by (rule history_cong, simp)+

lemma history_sending [simp]:
  "history (send f s c) = history s" "history (close_conn s c) = history s" "history (broadcast_peer s i) = history s"
  "history (on_typing s c f) = history s" "history (resend_seq s c i) = history s"
  "history (foldl (send_plain c) s ms) = history s" "history (backfill s c from reset cursor) = history s"
  by (rule history_sends, simp)+

lemma history_relaying [simp]:
  "history (on_offer now s c f) = history s" "history (on_accept s c f) = history s"
  "history (on_decline s c f) = history s" "history (on_chunk s c f) = history s"
  "history (on_done s c f) = history s" "history (fail_transfers_of s i reason) = history s"
  by (rule history_relays, simp)+

lemma history_tick [simp]: "history (server_tick now s) = history s"
  by (rule history_relays [OF relays_only_tick])

lemma history_set_rooms [simp]: "history (set_rooms s i rs) = history s"
  by (simp add: set_rooms_def)

lemma history_accept:
  assumes "\<not> have_message (svStore s) (mID m)" and "mID m \<noteq> ''''" and "mConv m \<noteq> ''''"
  shows "history (accept_message now s c m rcpts)
    = insert (filed_message now (m\<lparr>mSeq := stNextSeq (svStore s) + 1\<rparr>)) (history s)"
proof -
  let ?m = "m\<lparr>mSeq := stNextSeq (svStore s) + 1\<rparr>"
  let ?st = "fst (append_message now (fst (next_seq (svStore s))) ?m)"
  have "conv_msgs ?st c = (if c = mConv m then insert_ordered (conv_msgs (svStore s) c) (filed_message now ?m)
      else conv_msgs (svStore s) c)" for c
    using append_message_conv [of ?m "fst (next_seq (svStore s))" now c] assms by simp
  then have "x \<in> set (conv_msgs ?st c) \<longleftrightarrow> (c = mConv m \<and> x = filed_message now ?m) \<or> x \<in> set (conv_msgs (svStore s) c)"
    for x c by auto
  then have "history (with_store s ?st) = insert (filed_message now ?m) (history s)"
    unfolding history_def with_store_frame by blast
  then show ?thesis by (simp add: history_sends [OF accept_message_sends])
qed

text \<open>What one frame does to the history: nothing, or exactly one message.\<close>

lemma history_on_message:
  "history (on_message now s c f) = history s \<or>
   (\<exists>m conv rcpts. message_from_frame now f (ccPeer c) = Some m \<and> route s (ccPeer c) (fConv f) = Inr (conv, rcpts)
      \<and> \<not> have_message (svStore s) (mID m)
      \<and> history (on_message now s c f) = insert (filed_message now
           (m\<lparr>mConv := conv, mFromNick := pNick (get_or zero_peer (stPeers (svStore s)) (ccPeer c)),
              mSeq := stNextSeq (svStore s) + 1\<rparr>)) (history s))"
proof (cases "message_from_frame now f (ccPeer c)")
  case None
  then show ?thesis by (simp add: on_message_def)
next
  case (Some m)
  note ne = message_from_frame_fields(6) [OF Some]
  show ?thesis
  proof (cases "route s (ccPeer c) (fConv f)")
    case (Inr a)
    obtain conv rcpts where a: "a = (conv, rcpts)" by (cases a)
    with Inr have r: "route s (ccPeer c) (fConv f) = Inr (conv, rcpts)" by simp
    show ?thesis
    proof (cases "have_message (svStore s) (mID m)")
      case False
      let ?m = "m\<lparr>mConv := conv, mFromNick := pNick (get_or zero_peer (stPeers (svStore s)) (ccPeer c))\<rparr>"
      have "history (accept_message now s c ?m rcpts)
          = insert (filed_message now (?m\<lparr>mSeq := stNextSeq (svStore s) + 1\<rparr>)) (history s)"
        by (rule history_accept) (use False ne route_conv [OF r] in simp_all)
      with Some r False show ?thesis by (simp add: on_message_def)
    qed (use Some r in \<open>simp add: on_message_def\<close>)
  qed (use Some in \<open>simp add: on_message_def\<close>)
qed

lemma history_join_member [simp]: "history (join_member s i room) = history s"
  by (simp add: join_member_def)

lemma history_on_join [simp]: "history (on_join s c f) = history s"
  by (simp add: on_join_def Let_def)

lemma history_on_leave [simp]: "history (on_leave s c f) = history s"
  by (simp add: on_leave_def)

lemma history_on_presence [simp]: "history (on_presence now s c f) = history s"
  by (simp add: on_presence_def Let_def)

lemma history_handle:
  "history (handle now s c f) = (if fType f = frame_msg then history (on_message now s c f) else history s)"
  by (simp add: handle_def)

lemma history_disconnect [simp]: "history (disconnect now s c) = history s"
  by (simp add: disconnect_def Let_def set_presence_def)

lemma history_handle_conn [simp]: "history (fst (handle_conn printable now s k addr first ok)) = history s"
  by (simp add: handle_conn_def Let_def register_def split: sum.splits option.splits)

lemma history_step: "history s \<subseteq> history (server_step printable s e)"
proof (cases e)
  case (Received now c f)
  have "history s \<subseteq> history (on_message now s c f)" using history_on_message [of now s c f] by auto
  with Received show ?thesis by (simp add: server_step_def history_handle)
qed (simp_all add: server_step_def)

interpretation server_history: monotone_budget "server_step printable" server_fit history
  by unfold_locales (rule history_step)

section \<open>Nobody is sent what they may not see\<close>

definition adds :: "(nat \<times> frame \<Rightarrow> bool) \<Rightarrow> (nat \<times> frame) list \<Rightarrow> (nat \<times> frame) list \<Rightarrow> bool" where
  "adds P out out' \<longleftrightarrow> (\<exists>fs. out' = out @ fs \<and> list_all P fs)"

lemma adds_refl [simp, intro]: "adds P out out"
  by (simp add: adds_def)

lemma adds_trans [trans]: "adds P a b \<Longrightarrow> adds P b c \<Longrightarrow> adds P a c"
  by (auto simp: adds_def)

lemma adds_mono: "adds P a b \<Longrightarrow> (\<And>e. P e \<Longrightarrow> Q e) \<Longrightarrow> adds Q a b"
  by (auto simp: adds_def list_all_iff)

lemma adds_send: "P (ccId c, f) \<Longrightarrow> adds P (svOut s) (svOut (send f s c))"
  by (simp add: adds_def svOut_send)

lemma adds_foldl:
  "(\<And>s x. x \<in> set xs \<Longrightarrow> adds P (svOut s) (svOut (g s x))) \<Longrightarrow> adds P (svOut s) (svOut (foldl g s xs))"
proof (induction xs arbitrary: s)
  case (Cons x xs)
  have "adds P (svOut s) (svOut (g s x))" by (rule Cons.prems) simp
  also have "adds P \<dots> (svOut (foldl g (g s x) xs))" by (rule Cons.IH) (use Cons.prems in simp)
  finally show ?case by simp
qed simp

lemma adds_send_all: "(\<And>c. c \<in> set cs \<Longrightarrow> P (ccId c, f)) \<Longrightarrow> adds P (svOut s) (svOut (send_all f s cs))"
  unfolding send_all_def by (rule adds_foldl) (rule adds_send)

text \<open>A frame that carries no message.\<close>

definition quiet :: "nat \<times> frame \<Rightarrow> bool" where
  "quiet e \<longleftrightarrow> fType (snd e) \<noteq> frame_msg"

lemma quiet_type: "fType f \<noteq> frame_msg \<Longrightarrow> quiet (k, f)"
  by (simp add: quiet_def)

lemma adds_quiet_send: "fType f \<noteq> frame_msg \<Longrightarrow> adds quiet (svOut s) (svOut (send f s c))"
  by (rule adds_send) (rule quiet_type)

lemma adds_quiet_send_to: "fType f \<noteq> frame_msg \<Longrightarrow> adds quiet (svOut s) (svOut (send_to s i f))"
  unfolding send_to_def by (rule adds_send_all) (rule quiet_type)

lemma adds_quiet_send_all: "fType f \<noteq> frame_msg \<Longrightarrow> adds quiet (svOut s) (svOut (send_all f s cs))"
  by (rule adds_send_all) (rule quiet_type)

lemma frame_types_not_msg [simp]:
  "frame_roster \<noteq> frame_msg" "frame_error \<noteq> frame_msg" "frame_seq \<noteq> frame_msg" "frame_synced \<noteq> frame_msg"
  "frame_decline \<noteq> frame_msg" "frame_accept \<noteq> frame_msg" "frame_typing \<noteq> frame_msg" "frame_pong \<noteq> frame_msg"
  "frame_ping \<noteq> frame_msg" "frame_welcome \<noteq> frame_msg" "frame_offer \<noteq> frame_msg" "frame_chunk \<noteq> frame_msg"
  "frame_done \<noteq> frame_msg"
  by (simp_all add: frame_type_defs)

lemma adds_quiet_broadcast [simp, intro]: "adds quiet (svOut s) (svOut (broadcast_peer s i))"
  by (simp add: broadcast_peer_def adds_quiet_send_all split: option.splits)

lemma adds_xfers: "adds P (svOut (s\<lparr>svXfers := x\<rparr>)) out \<Longrightarrow> adds P (svOut s) out"
  by simp

lemma adds_quiet_drop: "fType f \<noteq> frame_msg \<Longrightarrow> adds quiet (svOut s) (svOut (send_to (drop_xfer s t) i f))"
  using adds_quiet_send_to [of f "drop_xfer s t" i] by (simp add: drop_xfer_def)

lemma adds_quiet_relay:
  assumes "fType f \<noteq> frame_msg"
  shows "adds quiet (svOut s) (svOut (on_offer now s c f))" "adds quiet (svOut s) (svOut (on_accept s c f))"
    "adds quiet (svOut s) (svOut (on_decline s c f))" "adds quiet (svOut s) (svOut (on_chunk s c f))"
    "adds quiet (svOut s) (svOut (on_done s c f))"
proof -
  have d: "fType (decline_offer f i r) = frame_decline" for i r by (simp add: decline_offer_def)
  show "adds quiet (svOut s) (svOut (on_offer now s c f))"
    using assms by (auto simp: on_offer_def d intro: adds_quiet_send adds_xfers [OF adds_quiet_send_to]
        split: option.splits)
  show "adds quiet (svOut s) (svOut (on_accept s c f))"
    by (auto simp: on_accept_def intro: adds_xfers [OF adds_quiet_send_to] split: option.splits)
  show "adds quiet (svOut s) (svOut (on_decline s c f))"
    by (auto simp: on_decline_def intro: adds_quiet_drop split: option.splits)
  show "adds quiet (svOut s) (svOut (on_done s c f))"
    using assms by (auto simp: on_done_def intro: adds_quiet_drop split: option.splits)
  have "adds quiet (svOut s) (svOut (send_to (send g (drop_xfer s t) c) i h))"
    if "fType g \<noteq> frame_msg" "fType h \<noteq> frame_msg" for g h t i
  proof -
    have "adds quiet (svOut s) (svOut (send g (drop_xfer s t) c))"
      using adds_quiet_send [OF that(1), of "drop_xfer s t" c] by (simp add: drop_xfer_def)
    also have "adds quiet \<dots> (svOut (send_to (send g (drop_xfer s t) c) i h))" by (rule adds_quiet_send_to [OF that(2)])
    finally show ?thesis .
  qed
  then show "adds quiet (svOut s) (svOut (on_chunk s c f))"
    using assms by (auto simp: on_chunk_def intro: adds_xfers [OF adds_quiet_send_to] split: option.splits)
qed

lemma adds_quiet_fail: "adds quiet (svOut s) (svOut (fail_transfers_of s i reason))"
proof -
  have "adds quiet (svOut (s\<lparr>svXfers := x\<rparr>)) (svOut (foldl (fail_one i reason) (s\<lparr>svXfers := x\<rparr>) rs))" for x rs
    by (rule adds_foldl) (simp add: fail_one_def decline_from_def adds_quiet_send_to)
  then show ?thesis by (simp add: fail_transfers_of_def)
qed

lemma adds_quiet_tick: "adds quiet (svOut s) (svOut (server_tick now s))"
proof -
  have "adds quiet (svOut s) (svOut (expire_one s r))" for s r
    unfolding expire_one_def
    by (rule adds_trans [OF adds_quiet_send_to adds_quiet_send_to]) (simp_all add: decline_from_def)
  then have "adds quiet (svOut (s\<lparr>svXfers := x\<rparr>)) (svOut (foldl expire_one (s\<lparr>svXfers := x\<rparr>) rs))" for x rs
    by (rule adds_foldl)
  then have "adds quiet (svOut s) (svOut (expire_offers now s))" by (simp add: expire_offers_def)
  also have "adds quiet \<dots> (svOut (server_tick now s))"
    by (simp add: server_tick_def ping_all_def adds_quiet_send_all)
  finally show ?thesis .
qed

lemma adds_quiet_disconnect: "adds quiet (svOut s) (svOut (disconnect now s c))"
proof -
  let ?s1 = "fail_transfers_of (close_conn (unregister s c) c) (ccPeer c) ''the other end disconnected''"
  have "svOut (close_conn (unregister s c) c) = svOut s" by (simp add: close_conn_def)
  then have "adds quiet (svOut s) (svOut ?s1)" using adds_quiet_fail by metis
  moreover have "adds quiet (svOut ?s1) (svOut (broadcast_peer (with_store ?s1 st) i))" for st i
    using adds_quiet_broadcast [of "with_store ?s1 st" i] by simp
  ultimately show ?thesis by (auto simp: disconnect_def Let_def intro: adds_trans)
qed

text \<open>
  A message frame queued for a connection carries a stored message, under the name the identity
  enrolled on that connection calls its conversation by, and that identity may see it.
\<close>

definition may_receive :: "server \<Rightarrow> nat \<times> frame \<Rightarrow> bool" where
  "may_receive s e \<longleftrightarrow> (fType (snd e) = frame_msg \<longrightarrow>
     (\<exists>c m. is_conn s c \<and> ccId c = fst e \<and> m \<in> history s
        \<and> conv_for m (ccPeer c) (rooms_of s (ccPeer c)) = Some (fConv (snd e))
        \<and> snd e = (msg_frame m)\<lparr>fConv := fConv (snd e)\<rparr>))"

lemma quiet_may_receive: "quiet e \<Longrightarrow> may_receive s e"
  by (simp add: quiet_def may_receive_def)

lemma may_receive_cong:
  "svStore s = svStore s' \<Longrightarrow> svConns s = svConns s' \<Longrightarrow> may_receive s = may_receive s'"
  by (intro ext) (simp add: may_receive_def is_conn_def conns_to_def history_def rooms_of_def)

lemma sends_only_may_receive: "sends_only s s' \<Longrightarrow> may_receive s' = may_receive s"
  by (rule may_receive_cong) (simp_all add: sends_only_fields)

lemma may_receive_I:
  assumes "is_conn s c" and "m \<in> history s" and "conv_for m (ccPeer c) (rooms_of s (ccPeer c)) = Some conv"
  shows "may_receive s (ccId c, (msg_frame m)\<lparr>fConv := conv\<rparr>)"
  unfolding may_receive_def using assms by (intro impI exI [of _ c] exI [of _ m]) simp

lemma conns_ok_peer: "conns_ok s \<Longrightarrow> c \<in> set (conns_to s i) \<Longrightarrow> ccPeer c = i \<and> is_conn s c"
  by (auto simp: conns_ok_def is_conn_def)

lemma adds_fan_out:
  assumes "conns_ok s" and "m \<in> history s"
  shows "adds (may_receive s) (svOut s) (svOut (fan_out m s is))"
proof -
  have "adds (may_receive s) (svOut t) (svOut (foldl (fan_one m) t is))" if "sends_only s t" for t
    using that
  proof (induction "is" arbitrary: t)
    case (Cons i "is")
    have eq: "conns_to t = conns_to s" "rooms_of t = rooms_of s" using sends_only_fields [OF Cons.prems] by simp_all
    have "adds (may_receive s) (svOut t) (svOut (fan_one m t i))"
    proof (cases "conv_for m i (rooms_of s i)")
      case (Some conv)
      have "may_receive s (ccId c, (msg_frame m)\<lparr>fConv := conv\<rparr>)" if "c \<in> set (conns_to s i)" for c
        using may_receive_I [of s c m conv] conns_ok_peer [OF assms(1) that] assms(2) Some by simp
      with Some show ?thesis by (simp add: fan_one_def eq send_to_def adds_send_all)
    qed (simp add: fan_one_def eq)
    moreover have "sends_only s (fan_one m t i)"
      using Cons.prems by (auto simp: fan_one_def split: option.splits intro: sends_only_trans)
    ultimately show ?case using Cons.IH by (auto intro: adds_trans)
  qed simp
  then show ?thesis by (simp add: fan_out_def)
qed


lemma filed_from_frame:
  assumes "message_from_frame now f i = Some m"
  shows "filed_message now (m\<lparr>mConv := conv, mFromNick := nk, mSeq := q\<rparr>) = m\<lparr>mConv := conv, mFromNick := nk, mSeq := q\<rparr>"
proof -
  have "clip_runes (mBody m) max_body_runes = mBody m"
    by (rule clip_runes_id) (use message_from_frame_fields(11) [OF assms] in \<open>simp add: max_body_runes_def\<close>)
  moreover have "(if mSent m = zero_time then now else mSent m) = mSent m"
    using assms by (auto simp: message_from_frame_def split: if_splits)
  ultimately show ?thesis
    unfolding filed_message_def by (intro message.equality) (simp_all split: if_splits)
qed

lemma rooms_of_set_rooms:
  "rooms_of (set_rooms s i rs) j = (if j = i \<and> i \<noteq> '''' then slice (canon_rooms rs) else rooms_of s j)"
  by (simp add: rooms_of_def set_rooms_def put_peer_peers merge_peer_fields)

lemma rooms_of_canonical: "store_ok (svStore s) \<Longrightarrow> canonical_rooms (rooms_of s i)"
  using peers_ok_get [of "stPeers (svStore s)" i]
  by (auto simp: store_ok_def rooms_of_def peer_ok_def zero_peer_def canonical_rooms_def)

lemma joined_room:
  assumes "i \<noteq> ''''" and "canon_room room = room" and "room \<noteq> ''''" and "length room \<le> 48"
  shows "has_room (rooms_of (join_member s i room) i) room"
proof (cases "has_room (rooms_of s i) room")
  case False
  have "rooms_of (broadcast_peer t i) = rooms_of t" for t by (rule sends_only_fields(7)) simp
  then have "rooms_of (join_member s i room) i = slice (canon_rooms (rooms_of s i @ [room]))"
    using False assms(1) by (simp add: join_member_def rooms_of_set_rooms)
  then show ?thesis using assms by (auto simp: has_room_def set_canon_rooms intro!: exI [of _ room])
qed (simp add: join_member_def)

lemma messages_history: "m \<in> set (messages (svStore s) c n) \<Longrightarrow> m \<in> history s \<and> m \<in> set (conv_msgs (svStore s) c)"
  by (auto simp: messages_def tail_def history_def split: if_splits dest: in_set_dropD)

lemma adds_on_join:
  assumes fit: "server_fit n s" and c: "is_conn s c"
  shows "adds (may_receive (on_join s c f)) (svOut s) (svOut (on_join s c f))"
proof -
  let ?room = "canon_room (fRoom f)"
  let ?s1 = "join_member s (ccPeer c) ?room"
  let ?s2 = "foldl (send_plain c) ?s1 (messages (svStore ?s1) (room_conv ?room) backlog_window)"
  show ?thesis
  proof (cases "?room = '''' \<or> 48 < length ?room")
    case True
    then show ?thesis
      by (auto simp: on_join_def Let_def frame_refusal_def intro: adds_mono [OF adds_quiet_send] quiet_may_receive)
  next
    case False
    let ?s3 = "send (zero_frame\<lparr>fType := frame_synced, fCursor := stNextSeq (svStore ?s2), fRoom := ?room\<rparr>) ?s2 c"
    have eq: "on_join s c f = ?s3" using False unfolding on_join_def Let_def by (simp only: if_False)
    have sends: "sends_only ?s1 ?s3" by (rule sends_only_trans [OF sends_only_plain_all sends_only_send])
    then have same: "may_receive ?s3 = may_receive ?s1" by (rule sends_only_may_receive)
    have i: "ccPeer c \<noteq> ''''" using is_conn_id [OF server_fit_ok [OF fit] c] by (auto simp: id_ok_def)
    have ok: "store_ok (svStore ?s1)"
      using server_fit_join_member [OF fit is_conn_id [OF server_fit_ok [OF fit] c]] by (simp add: server_fit_def server_ok_def)
    have conn: "is_conn ?s1 c"
      using c sends_only_fields(4) [OF sends_only_broadcast]
      by (simp add: is_conn_def join_member_def set_rooms_def)
    have "may_receive ?s1 (ccId c, msg_frame m)" if m: "m \<in> set (messages (svStore ?s1) (room_conv ?room) backlog_window)" for m
    proof -
      have h: "m \<in> history ?s1" "mConv m = room_conv ?room"
        using messages_history [OF m] store_okD(4) [OF ok] by auto
      have "has_room (rooms_of ?s1 (ccPeer c)) ?room"
        by (rule joined_room) (use False i in simp_all)
      then have "conv_for m (ccPeer c) (rooms_of ?s1 (ccPeer c)) = Some (room_conv ?room)"
        by (simp add: conv_for_def h has_room_def)
      from may_receive_I [OF conn h(1) this] have "may_receive ?s1 (ccId c, (msg_frame m)\<lparr>fConv := mConv m\<rparr>)"
        by (simp add: h)
      moreover have "(msg_frame m)\<lparr>fConv := mConv m\<rparr> = msg_frame m"
        by (simp add: msg_frame_def Let_def split: option.splits)
      ultimately show ?thesis by simp
    qed
    then have plain: "adds (may_receive ?s1) (svOut ?s1) (svOut ?s2)"
      by (intro adds_foldl) (simp add: send_plain_def adds_send)
    have "adds quiet (svOut s) (svOut ?s1)"
      using adds_quiet_broadcast [of "set_rooms s (ccPeer c) (rooms_of s (ccPeer c) @ [?room])" "ccPeer c"]
      by (simp add: join_member_def set_rooms_def)
    then have "adds (may_receive ?s1) (svOut s) (svOut ?s1)" by (rule adds_mono) (rule quiet_may_receive)
    also note plain
    also have "adds (may_receive ?s1) (svOut ?s2) (svOut ?s3)"
      by (rule adds_mono [OF adds_quiet_send]) (simp_all add: quiet_may_receive)
    finally show ?thesis by (simp only: eq same)
  qed
qed

lemma adds_on_message:
  assumes fit: "server_fit (Suc n) s" and c: "is_conn s c"
  shows "adds (may_receive (on_message now s c f)) (svOut s) (svOut (on_message now s c f))"
proof -
  have quiet_send: "adds (may_receive t) (svOut s) (svOut (send g s c))" if "fType g \<noteq> frame_msg" for g t
    by (rule adds_mono [OF adds_quiet_send [OF that]]) (rule quiet_may_receive)
  show ?thesis
  proof (cases "message_from_frame now f (ccPeer c)")
    case None
    then show ?thesis by (simp add: on_message_def quiet_send frame_refusal_def)
  next
    case (Some m)
    show ?thesis
    proof (cases "route s (ccPeer c) (fConv f)")
      case (Inl e)
      then have "fType e \<noteq> frame_msg"
        by (auto simp: route_def room_route_def direct_route_def frame_refusal_def split: if_splits)
      with Some Inl show ?thesis by (simp add: on_message_def quiet_send)
    next
      case (Inr a)
      obtain conv rcpts where a: "a = (conv, rcpts)" by (cases a)
      show ?thesis
      proof (cases "have_message (svStore s) (mID m)")
        case True
        have "adds (may_receive t) (svOut s) (svOut (resend_seq s c i))" for t i
          by (auto simp: resend_seq_def seq_frame_def quiet_send split: option.splits)
        with Some Inr a True show ?thesis by (simp add: on_message_def)
      next
        case False
        let ?m = "m\<lparr>mConv := conv, mFromNick := pNick (get_or zero_peer (stPeers (svStore s)) (ccPeer c))\<rparr>"
        let ?m1 = "?m\<lparr>mSeq := stNextSeq (svStore s) + 1\<rparr>"
        let ?r = "append_message now (fst (next_seq (svStore s))) ?m1"
        let ?s1 = "with_store s (fst ?r)"
        let ?s' = "accept_message now s c ?m rcpts"
        have eq: "on_message now s c f = ?s'" using Some Inr a False by (simp add: on_message_def)
        have same: "may_receive ?s' = may_receive ?s1"
          by (rule sends_only_may_receive) (rule accept_message_sends)
        have "server_fit n ?s1"
          by (rule server_fit_store_message [OF fit])
            (use False message_from_frame_fields(6) [OF Some] route_conv Inr a in auto)
        then have ok: "conns_ok ?s1" by (simp add: server_fit_def server_ok_def)
        have "history ?s' = insert (filed_message now ?m1) (history s)"
          by (rule history_accept) (use False message_from_frame_fields(6) [OF Some] route_conv Inr a in auto)
        then have "?m1 \<in> history ?s1"
          using filed_from_frame [OF Some] history_sends [OF accept_message_sends] by simp
        then have fan: "adds (may_receive ?s1) (svOut s) (svOut (fan_out ?m1 ?s1 rcpts))"
          using adds_fan_out [OF ok] by simp
        have "adds (may_receive ?s1) (svOut t) (svOut (send_to t i (seq_frame j q)))" for t i j q
          by (rule adds_mono [OF adds_quiet_send_to]) (simp_all add: seq_frame_def quiet_may_receive)
        then have seq: "adds (may_receive ?s1) (svOut s) (svOut (send_to (fan_out ?m1 ?s1 rcpts) i (seq_frame j q)))" for i j q
          using fan adds_trans by blast
        have refuse: "adds (may_receive ?s1) (svOut s) (svOut (send (frame_refusal code why) ?s1 c))" for code why
          using adds_mono [OF adds_quiet_send [of "frame_refusal code why" ?s1 c] quiet_may_receive]
          by (simp add: frame_refusal_def)
        have "adds (may_receive ?s1) (svOut s) (svOut ?s')"
          using seq refuse by (simp add: accept_message_def Let_def split: option.splits)
        then show ?thesis by (simp only: eq same)
      qed
    qed
  qed
qed


lemma adds_backfill:
  assumes "is_conn s c" and "store_ok (svStore s)"
  shows "adds (may_receive s) (svOut s) (svOut (backfill s c from reset cursor))"
proof -
  let ?s1 = "send (zero_frame\<lparr>fType := frame_roster, fPeers := roster s\<rparr>) s c"
  have hist: "m \<in> history s" if "m \<in> set (missed s (ccPeer c) from reset)" for m
    using that set_since [OF store_okD(1) [OF assms(2)], of "from"] messages_history
    by (auto simp: missed_def visible_since_def recent_window_def history_def split: if_splits)
  have one: "adds (may_receive s) (svOut t) (svOut (send_visible c t m))" if "sends_only s t" "m \<in> history s" for t m
    using may_receive_I [OF assms(1) that(2)] sends_only_fields(7) [OF that(1)]
    by (auto simp: send_visible_def intro: adds_send split: option.splits)
  have all: "adds (may_receive s) (svOut t) (svOut (foldl (send_visible c) t ms))"
    if "sends_only s t" "set ms \<subseteq> history s" for t ms
    using that
  proof (induction ms arbitrary: t)
    case (Cons m ms)
    have "adds (may_receive s) (svOut t) (svOut (send_visible c t m))" using Cons.prems one by simp
    also have "adds (may_receive s) \<dots> (svOut (foldl (send_visible c) (send_visible c t m) ms))"
      by (rule Cons.IH) (use Cons.prems in \<open>auto intro: sends_only_trans\<close>)
    finally show ?case by simp
  qed simp
  have quiet_send: "adds (may_receive s) (svOut t) (svOut (send g t c))" if "fType g \<noteq> frame_msg" for g t
    by (rule adds_mono [OF adds_quiet_send [OF that]]) (rule quiet_may_receive)
  have "adds (may_receive s) (svOut s) (svOut ?s1)" by (rule quiet_send) simp
  also have "adds (may_receive s) \<dots> (svOut (foldl (send_visible c) ?s1 (missed s (ccPeer c) from reset)))"
    by (rule all) (use hist in auto)
  finally show ?thesis
    unfolding backfill_def Let_def by (rule adds_trans [OF _ quiet_send]) (simp add: synced_frame_def)
qed

lemma is_conn_register: "is_conn (register s c) c"
  by (simp add: is_conn_def register_def sends_only_fields(4) [OF sends_only_broadcast] conns_to_add)

lemma adds_handle_conn:
  assumes fit: "server_fit n s" and new: "k \<notin> set (conn_ids s)"
  shows "adds (may_receive (fst (handle_conn printable now s k addr first ok))) (svOut s)
           (svOut (fst (handle_conn printable now s k addr first ok)))"
proof (cases first)
  case (Inr h)
  show ?thesis
  proof (cases "valid_hello h")
    case None
    let ?s1 = "record_hello now s h addr"
    let ?s2 = "?s1\<lparr>svOut := svOut ?s1 @ [(k, welcome_frame now ?s1 h)]\<rparr>"
    let ?c = "\<lparr>ccPeer = fFrom h, ccId = k\<rparr>"
    let ?b = "backfill (register ?s2 ?c) ?c (fCursor h) (hello_resets ?s1 h (stNextSeq (svStore ?s1))) (stNextSeq (svStore ?s1))"
    have "server_fit n ?s2" by (rule server_fit_out [OF server_fit_record_hello [OF fit valid_hello_id_ok [OF None]]])
    moreover have "conn_ids ?s2 = conn_ids s" by (simp add: conn_ids_def every_conn_def)
    moreover have "peer_of (svStore ?s2) (fFrom h) \<noteq> None"
      using peer_of_record_hello [OF valid_hello_id [OF None]] by simp
    ultimately have "server_fit n (register ?s2 ?c)" using new by (intro server_fit_register) simp_all
    then have ok: "store_ok (svStore (register ?s2 ?c))" by (simp add: server_fit_def server_ok_def)
    have conn: "is_conn (register ?s2 ?c) ?c"
      by (rule is_conn_register)
    have "adds quiet (svOut ?s2) (svOut (register ?s2 ?c))"
      using adds_quiet_broadcast [of "?s2\<lparr>svConns := AList.update (fFrom h) (conns_to ?s2 (fFrom h) @ [?c]) (svConns ?s2)\<rparr>" "fFrom h"]
      by (simp add: register_def)
    moreover have "adds quiet (svOut s) (svOut ?s2)"
      by (auto simp: adds_def quiet_def welcome_frame_def)
    ultimately have "adds quiet (svOut s) (svOut (register ?s2 ?c))" by (blast intro: adds_trans)
    then have "adds (may_receive (register ?s2 ?c)) (svOut s) (svOut (register ?s2 ?c))"
      by (rule adds_mono) (rule quiet_may_receive)
    also have "adds (may_receive (register ?s2 ?c)) \<dots> (svOut ?b)" by (rule adds_backfill [OF conn ok])
    finally have b: "adds (may_receive ?b) (svOut s) (svOut ?b)"
      by (simp only: sends_only_may_receive [OF sends_only_backfill])
    show ?thesis
    proof (cases ok)
      case True
      then show ?thesis using b Inr None unfolding handle_conn_def Let_def by simp
    next
      case False
      then show ?thesis using Inr None unfolding handle_conn_def Let_def by simp
    qed
  next
    case (Some e)
    then show ?thesis using Inr by (simp add: handle_conn_def adds_def may_receive_def frame_refusal_def)
  qed
qed (simp add: handle_conn_def)

lemma adds_handle:
  assumes fit: "server_fit (Suc n) s" and c: "is_conn s c"
  shows "adds (may_receive (handle now s c f)) (svOut s) (svOut (handle now s c f))"
proof -
  have quiet: "adds (may_receive t) (svOut s) (svOut t)" if "adds quiet (svOut s) (svOut t)" for t
    by (rule adds_mono [OF that]) (rule quiet_may_receive)
  have typing: "adds quiet (svOut s) (svOut (on_typing s c f))"
    by (auto simp: on_typing_def typing_one_def typing_frame_def split: sum.splits
        intro!: adds_foldl adds_quiet_send_to)
  have leave: "adds quiet (svOut s) (svOut (on_leave s c f))"
    using adds_quiet_broadcast [of "set_rooms s i rs" "ccPeer c" for i rs]
    by (simp add: on_leave_def set_rooms_def with_store_frame)
  have presence: "adds quiet (svOut s) (svOut (on_presence now s c f))"
    using adds_quiet_broadcast [of "with_store s st" "ccPeer c" for st]
    by (simp add: on_presence_def Let_def)
  have pong: "adds quiet (svOut s) (svOut (send (frame_of frame_pong) s c))"
    by (rule adds_quiet_send) simp
  have join: "adds (may_receive (on_join s c f)) (svOut s) (svOut (on_join s c f))" by (rule adds_on_join [OF fit c])
  note relay = adds_quiet_relay [of f s]
  show ?thesis
    using adds_on_message [OF fit c] join quiet [OF typing] quiet [OF leave] quiet [OF presence] quiet [OF pong]
      quiet [OF relay(1)] quiet [OF relay(2)] quiet [OF relay(3)] quiet [OF relay(4)] quiet [OF relay(5)]
    by (simp add: handle_def)
qed

lemma step_adds_may_receive:
  assumes fit: "server_fit (Suc n) s"
  shows "adds (may_receive (server_step printable s e)) (svOut s) (svOut (server_step printable s e))"
proof -
  have quiet: "adds (may_receive t) (svOut s) (svOut t)" if "adds quiet (svOut s) (svOut t)" for t
    by (rule adds_mono [OF that]) (rule quiet_may_receive)
  show ?thesis
  proof (cases e)
    case (Accepted now k addr first ok)
    then show ?thesis using adds_handle_conn [OF fit] by (simp add: server_step_def)
  next
    case (Received now c f)
    then show ?thesis using adds_handle [OF fit, of c] quiet [OF adds_quiet_disconnect] by (simp add: server_step_def)
  next
    case (Ended now c)
    then show ?thesis using quiet [OF adds_quiet_disconnect] by (simp add: server_step_def)
  next
    case (Ticked now)
    then show ?thesis using quiet [OF adds_quiet_tick] by (simp add: server_step_def)
  qed (simp add: server_step_def)
qed


section \<open>Routing is exact\<close>

lemma id_ok_no_plus: "id_ok i \<Longrightarrow> CHR ''+'' \<notin> set i \<and> i \<noteq> ''''"
proof -
  assume i: "id_ok i"
  have "\<not> is_hex_byte (CHR ''+'')" by code_simp
  with i show ?thesis by (auto simp: id_ok_def is_hex_def list_all_iff)
qed

lemma direct_pair_ids:
  "id_ok a \<Longrightarrow> id_ok b \<Longrightarrow> direct_pair (direct_key a b) = Some (if b < a then (b, a) else (a, b))"
  by (rule direct_pair_key) (simp_all add: id_ok_no_plus)

lemma conv_for_direct:
  assumes "id_ok a" and "id_ok b" and "mConv m = direct_key a b"
  shows "conv_for m i rs = (if i = a then Some (direct_conv b) else if i = b then Some (direct_conv a) else None)"
  using assms by (auto simp: conv_for_def direct_pair_ids)

lemma conv_for_room:
  assumes "canon_room room = room" and "mConv m = room_conv room"
  shows "conv_for m i rs = (if room \<in> set rs then Some (room_conv room) else None)"
  using assms by (simp add: conv_for_def has_room_def)

text \<open>The sender may see what it sends, and the recipients are exactly those who may see it.\<close>

lemma route_cases:
  assumes ok: "server_ok s" and i: "id_ok i" and r: "route s i c = Inr (conv, rcpts)"
  obtains (room) room where "canon_room room = room" "room \<in> set (rooms_of s i)" "conv = room_conv room"
      "rcpts = map pID (room_members (svStore s) room)"
  | (direct) other where "id_ok other" "other \<noteq> i" "peer_of (svStore s) other \<noteq> None"
      "conv = direct_key i other" "rcpts = [i, other]"
proof (cases "is_room c")
  case True
  with r show ?thesis
    by (intro room [of "canon_room (conv_room c)"]) (auto simp: route_def room_route_def has_room_def split: if_splits)
next
  case False
  with r server_okD(5) [OF ok] show ?thesis
    by (intro direct [of "conv_peer c"]) (auto simp: route_def direct_route_def ids_ok_def split: if_splits)
qed

lemma room_members_iff:
  assumes "store_ok st" and "canon_room room = room"
  shows "i \<in> set (map pID (room_members st room)) \<longleftrightarrow> room \<in> set (slice (pRooms (get_or zero_peer (stPeers st) i)))"
proof -
  have ok: "peers_ok (stPeers st)" using assms(1) by (simp add: store_ok_def)
  then have m: "map_ok (stPeers st)" by (simp add: peers_ok_def)
  have "i \<in> set (map pID (room_members st room)) \<longleftrightarrow>
      (\<exists>j p. map_of (stPeers st) j = Some p \<and> pID p = i \<and> room \<in> set (slice (pRooms p)))"
    using assms(2) by (auto simp: room_members_def map_of_in_set [OF m] image_iff) force
  also have "\<dots> \<longleftrightarrow> (\<exists>p. map_of (stPeers st) i = Some p \<and> room \<in> set (slice (pRooms p)))"
    using ok by (auto simp: peers_ok_def peer_ok_def)
  also have "\<dots> \<longleftrightarrow> room \<in> set (slice (pRooms (get_or zero_peer (stPeers st) i)))"
    by (simp add: get_or_def zero_peer_def split: option.splits)
  finally show ?thesis .
qed

lemma route_exact:
  assumes ok: "server_ok s" and i: "id_ok i" and r: "route s i c = Inr (conv, rcpts)" and m: "mConv m = conv"
  shows "conv_for m i (rooms_of s i) \<noteq> None" and "j \<in> set rcpts \<longleftrightarrow> conv_for m j (rooms_of s j) \<noteq> None"
proof -
  have "conv_for m i (rooms_of s i) \<noteq> None \<and> (j \<in> set rcpts \<longleftrightarrow> conv_for m j (rooms_of s j) \<noteq> None)"
    using ok i r
  proof (cases rule: route_cases)
    case (room rm)
    have st: "store_ok (svStore s)" by (rule server_okD(1) [OF ok])
    have "j \<in> set rcpts \<longleftrightarrow> rm \<in> set (rooms_of s j)"
      using room_members_iff [OF st room(1), of j] by (simp add: room(4) rooms_of_def)
    then show ?thesis using room m by (simp add: conv_for_room)
  next
    case (direct other)
    then show ?thesis using i m by (simp add: conv_for_direct)
  qed
  then show "conv_for m i (rooms_of s i) \<noteq> None" "j \<in> set rcpts \<longleftrightarrow> conv_for m j (rooms_of s j) \<noteq> None"
    by blast+
qed

section \<open>A message accepted is relayed\<close>

lemma out_of_sends: "sends_only s s' \<Longrightarrow> set (out_of s k) \<subseteq> set (out_of s' k)"
  by (auto simp: sends_only_def out_of_def)

lemma reading_fan_one: "reading (fan_one m s i) k = reading s k"
  by (simp add: fan_one_def send_to_def send_all_reading split: option.splits)

lemma out_of_send_to:
  "c \<in> set (conns_to s i) \<Longrightarrow> reading s (ccId c) \<Longrightarrow> f \<in> set (out_of (send_to s i f) (ccId c))"
  by (force simp: send_to_def out_of_send_all count_list_0_iff)

lemma out_of_fan_out:
  assumes "i \<in> set is" and "conv_for m i (rooms_of s i) = Some conv" and "c \<in> set (conns_to s i)"
    and "reading s (ccId c)"
  shows "(msg_frame m)\<lparr>fConv := conv\<rparr> \<in> set (out_of (fan_out m s is) (ccId c))"
  using assms
proof (induction "is" arbitrary: s)
  case (Cons j js)
  have one: "sends_only s (fan_one m s j)" by (simp add: fan_one_def split: option.splits)
  note same = sends_only_fields [OF one]
  have rest: "sends_only (fan_one m s j) (fan_out m (fan_one m s j) js)" by simp
  show ?case
  proof (cases "j = i")
    case True
    then have "(msg_frame m)\<lparr>fConv := conv\<rparr> \<in> set (out_of (fan_one m s j) (ccId c))"
      using Cons.prems by (simp add: fan_one_def out_of_send_to)
    with out_of_sends [OF rest, of "ccId c"] show ?thesis by (auto simp: fan_out_def)
  next
    case False
    with Cons.prems have "(msg_frame m)\<lparr>fConv := conv\<rparr> \<in> set (out_of (fan_out m (fan_one m s j) js) (ccId c))"
      by (intro Cons.IH) (simp_all add: same reading_fan_one)
    then show ?thesis by (simp add: fan_out_def)
  qed
qed simp

text \<open>The message the server files for a frame.\<close>

definition accepted_message :: "gotime \<Rightarrow> server \<Rightarrow> client_conn \<Rightarrow> frame \<Rightarrow> conv_id \<Rightarrow> message \<Rightarrow> message" where
  "accepted_message now s c f conv m = m\<lparr>mConv := conv,
     mFromNick := pNick (get_or zero_peer (stPeers (svStore s)) (ccPeer c)), mSeq := stNextSeq (svStore s) + 1\<rparr>"

definition disk_accepts :: "server \<Rightarrow> conv_id \<Rightarrow> bool" where
  "disk_accepts s conv \<longleftrightarrow> stDir (svStore s) = '''' \<or> history_path conv \<notin> set (dkRefuses (stDisk (svStore s)))"

lemma append_message_no_error:
  assumes "mID m \<noteq> ''''" and "mConv m \<noteq> ''''" and "\<not> have_message st (mID m)"
    and "stDir st = '''' \<or> history_path (mConv m) \<notin> set (dkRefuses (stDisk st))"
  shows "snd (snd (append_message now st m)) = None"
  using assms by (auto simp: append_message_def Let_def append_line_def append_log_def disk_err_def
      file_message_fields case_prod_beta)

lemma on_message_accepts:
  assumes "message_from_frame now f (ccPeer c) = Some m" and "route s (ccPeer c) (fConv f) = Inr (conv, rcpts)"
    and "\<not> have_message (svStore s) (fID f)" and "disk_accepts s conv"
  shows "on_message now s c f
    = send_to (fan_out (accepted_message now s c f conv m)
        (with_store s (fst (append_message now (fst (next_seq (svStore s))) (accepted_message now s c f conv m)))) rcpts)
        (ccPeer c) (seq_frame (fID f) (stNextSeq (svStore s) + 1))"
proof -
  have m: "mID m = fID f" "mID m \<noteq> ''''" using message_from_frame_fields [OF assms(1)] by auto
  have "snd (snd (append_message now (fst (next_seq (svStore s))) (accepted_message now s c f conv m))) = None"
    by (rule append_message_no_error)
      (use assms m route_conv [OF assms(2)] in \<open>simp_all add: accepted_message_def disk_accepts_def next_seq_def have_message_def\<close>)
  with assms m show ?thesis
    by (simp add: on_message_def accept_message_def Let_def accepted_message_def)
qed

lemma on_message_delivers:
  assumes fit: "server_fit (Suc n) s" and c: "is_conn s c"
    and m: "message_from_frame now f (ccPeer c) = Some m" and r: "route s (ccPeer c) (fConv f) = Inr (conv, rcpts)"
    and new: "\<not> have_message (svStore s) (fID f)" and disk: "disk_accepts s conv"
    and d: "is_conn s d" "reading s (ccId d)"
    and sees: "conv_for (accepted_message now s c f conv m) (ccPeer d) (rooms_of s (ccPeer d)) = Some name"
  shows "(msg_frame (accepted_message now s c f conv m))\<lparr>fConv := name\<rparr> \<in> set (out_of (on_message now s c f) (ccId d))"
proof -
  let ?m = "accepted_message now s c f conv m"
  let ?s1 = "with_store s (fst (append_message now (fst (next_seq (svStore s))) ?m))"
  have ok: "server_ok s" by (rule server_fit_ok [OF fit])
  have "mConv ?m = conv" by (simp add: accepted_message_def)
  then have "ccPeer d \<in> set rcpts"
    using route_exact(2) [OF ok is_conn_id [OF ok c] r] sees by simp
  moreover have "rooms_of ?s1 = rooms_of s"
    by (intro ext) (simp add: rooms_of_def append_message_fields)
  ultimately have "(msg_frame ?m)\<lparr>fConv := name\<rparr> \<in> set (out_of (fan_out ?m ?s1 rcpts) (ccId d))"
    using sees d by (intro out_of_fan_out) (simp_all add: is_conn_def)
  then show ?thesis
    unfolding on_message_accepts [OF m r new disk] using subsetD [OF out_of_sends [OF sends_only_send_to]] by blast
qed


section \<open>What was missed\<close>

definition roster_frame :: "server \<Rightarrow> frame" where
  "roster_frame s = zero_frame\<lparr>fType := frame_roster, fPeers := roster s\<rparr>"

lemma svOut_backfill:
  assumes "reading s (ccId c)"
  shows "svOut (backfill s c from reset cursor) = svOut s @ (ccId c, roster_frame s)
    # map (\<lambda>m. (ccId c, visible_frame (ccPeer c) (rooms_of s (ccPeer c)) m))
        (filter (\<lambda>m. conv_for m (ccPeer c) (rooms_of s (ccPeer c)) \<noteq> None) (missed s (ccPeer c) from reset))
    @ [(ccId c, synced_frame cursor)]"
proof -
  let ?s1 = "send (roster_frame s) s c"
  have "reading ?s1 (ccId c)" using assms by (simp add: send_reading)
  moreover have "rooms_of ?s1 (ccPeer c) = rooms_of s (ccPeer c)"
    by (simp add: sends_only_fields(7) [OF sends_only_send])
  ultimately show ?thesis
    using assms svOut_send_visible_all [of ?s1 c "rooms_of s (ccPeer c)" "missed s (ccPeer c) from reset"]
    by (simp add: backfill_def Let_def roster_frame_def [symmetric] svOut_send send_visible_all_reading send_reading)
qed

lemma set_visible_since:
  "server_ok s \<Longrightarrow> set (visible_since s i from)
     = {m \<in> history s. from < mSeq m \<and> conv_for m i (rooms_of s i) \<noteq> None}"
  using set_since [OF store_okD(1) [OF server_okD(1)], of s "from"]
  by (auto simp: visible_since_def history_def)

lemma sorted_distinct_strict:
  assumes "sorted_wrt (\<lambda>a b. \<not> less_message b a) l" and "distinct l"
    and "\<And>a b. a \<in> set l \<Longrightarrow> b \<in> set l \<Longrightarrow> mSeq a \<noteq> 0 \<and> (mSeq a = mSeq b \<longrightarrow> a = b)"
  shows "sorted_wrt (\<lambda>a b. mSeq a < mSeq b) l"
  using assms
proof (induction l)
  case (Cons a l)
  have "mSeq a < mSeq b" if b: "b \<in> set l" for b
  proof -
    have "\<not> less_message b a" "a \<noteq> b" using Cons.prems(1,2) b by auto
    moreover have "mSeq a \<noteq> 0" "mSeq b \<noteq> 0" "mSeq a \<noteq> mSeq b"
      using Cons.prems(3) [of a b] Cons.prems(3) [of b a] b \<open>a \<noteq> b\<close> by auto
    ultimately show ?thesis by (auto simp: less_message_def)
  qed
  with Cons show ?case by auto
qed simp

lemma distinct_all_msgs:
  assumes "store_ok st"
  shows "distinct (all_msgs st)"
proof -
  have ok: "msgs_ok (stMsgs st)" "map_ok (stMsgs st)" using assms by (auto simp: store_ok_def msgs_ok_def)
  have lists: "l = conv_msgs st c" if "(c, l) \<in> set (stMsgs st)" for c l
    using that map_of_in_set [OF ok(2), of c l] by (simp add: conv_msgs_def get_or_def)
  have "distinct (concat (map snd ms))" if "set ms \<subseteq> set (stMsgs st)" "map_ok ms" for ms
    using that
  proof (induction ms)
    case (Cons e ms)
    obtain c l where e: "e = (c, l)" by (cases e)
    have l: "l = conv_msgs st c" using lists Cons.prems(1) e by auto
    have "distinct l" using store_okD(3) [OF assms, of c] l by (simp add: distinct_map)
    moreover have "set l \<inter> set l' = {}" if "(c', l') \<in> set ms" for c' l'
    proof -
      have "c' \<noteq> c" using Cons.prems(2) that e by (force simp: map_ok_def)
      moreover have "l' = conv_msgs st c'" using lists that Cons.prems(1) by auto
      ultimately show ?thesis unfolding l disjoint_iff using store_okD(4) [OF assms] by metis
    qed
    ultimately show ?case using Cons e by (fastforce simp: map_ok_def)
  qed simp
  from this [of "stMsgs st"] ok show ?thesis by (simp add: all_msgs_def)
qed

lemma sorted_visible_since:
  assumes "server_ok s"
  shows "sorted_wrt (\<lambda>a b. mSeq a < mSeq b) (visible_since s i from)"
proof (rule sorted_distinct_strict)
  show "sorted_wrt (\<lambda>a b. \<not> less_message b a) (visible_since s i from)"
    using ordered_since [of "svStore s" "from"] by (simp add: visible_since_def ordered_by_def sorted_wrt_filter)
  have "mset (since (svStore s) from 0) = mset (filter (\<lambda>m. from < mSeq m) (all_msgs (svStore s)))"
    by (simp add: since_def)
  then have "distinct (since (svStore s) from 0)"
    using distinct_all_msgs [OF server_okD(1) [OF assms]] by (metis distinct_filter mset_eq_imp_distinct_iff)
  then show "distinct (visible_since s i from)" by (simp add: visible_since_def)
  show "mSeq a \<noteq> 0 \<and> (mSeq a = mSeq b \<longrightarrow> a = b)"
    if "a \<in> set (visible_since s i from)" "b \<in> set (visible_since s i from)" for a b
    using that server_okD(2) [OF assms] unfolding set_visible_since [OF assms] history_def seqs_ok_def by blast
qed

lemma conv_visible_for: "conv_visible c i rs \<longleftrightarrow> (\<forall>m. mConv m = c \<longrightarrow> conv_for m i rs \<noteq> None)"
proof
  assume "conv_visible c i rs"
  then show "\<forall>m. mConv m = c \<longrightarrow> conv_for m i rs \<noteq> None"
    by (auto simp: conv_visible_def conv_for_def split: if_splits option.splits)
next
  assume "\<forall>m. mConv m = c \<longrightarrow> conv_for m i rs \<noteq> None"
  then have "conv_for (zero_message\<lparr>mConv := c\<rparr>) i rs \<noteq> None" by simp
  then show "conv_visible c i rs" by (auto simp: conv_visible_def conv_for_def split: if_splits option.splits)
qed

lemma set_recent_window:
  assumes "server_ok s"
  shows "set (recent_window s i)
    = {m. conv_visible (mConv m) i (rooms_of s i) \<and> m \<in> set (tail backlog_window (conv_msgs (svStore s) (mConv m)))}"
proof -
  have st: "store_ok (svStore s)" by (rule server_okD(1) [OF assms])
  have keys: "c \<in> set (convs (svStore s))" if "m \<in> set (conv_msgs (svStore s) c)" for m c
    using that by (cases "map_of (stMsgs (svStore s)) c")
      (auto simp: convs_def conv_msgs_def get_or_def dest: map_of_SomeD intro: rev_image_eqI)
  have sub: "m \<in> set (conv_msgs (svStore s) c)" if "m \<in> set (tail n (conv_msgs (svStore s) c))" for m n c
    using that by (auto simp: tail_def split: if_splits dest: in_set_dropD)
  show ?thesis
    using keys sub store_okD(4) [OF st] by (fastforce simp: recent_window_def messages_def)
qed

section \<open>A connection speaks for its own identity only\<close>

lemma peer_of_set_rooms: "i \<noteq> j \<Longrightarrow> peer_of (svStore (set_rooms s j rs)) i = peer_of (svStore s) i"
  by (simp add: set_rooms_def peer_of_put_peer)

lemma peer_of_handle:
  assumes "i \<noteq> ccPeer c"
  shows "peer_of (svStore (handle now s c f)) i = peer_of (svStore s) i"
proof -
  have relay: "svStore (on_offer now s c f) = svStore s" "svStore (on_accept s c f) = svStore s"
    "svStore (on_decline s c f) = svStore s" "svStore (on_chunk s c f) = svStore s" "svStore (on_done s c f) = svStore s"
    by (simp_all add: relays_only_fields(1))
  have accept: "peer_of (svStore (accept_message now s c m rcpts)) i = peer_of (svStore s) i" for m rcpts
    by (simp add: sends_only_fields(1) [OF accept_message_sends] peer_of_def append_message_fields)
  note sent = sends_only_fields(1)
  have msg: "peer_of (svStore (on_message now s c f)) i = peer_of (svStore s) i"
    by (simp add: on_message_def accept sent [OF sends_only_send] sent [OF sends_only_resend]
        split: option.splits sum.splits)
  have join: "peer_of (svStore (on_join s c f)) i = peer_of (svStore s) i"
    using assms by (simp add: on_join_def Let_def join_member_def sent [OF sends_only_send]
        sent [OF sends_only_plain_all] sent [OF sends_only_broadcast] peer_of_set_rooms)
  have leave: "peer_of (svStore (on_leave s c f)) i = peer_of (svStore s) i"
    using assms by (simp add: on_leave_def sent [OF sends_only_broadcast] peer_of_set_rooms)
  have presence: "peer_of (svStore (on_presence now s c f)) i = peer_of (svStore s) i"
    using assms by (simp add: on_presence_def Let_def sent [OF sends_only_broadcast] peer_of_put_peer)
  show ?thesis
    by (simp add: handle_def relay msg join leave presence sent [OF sends_only_on_typing] sent [OF sends_only_send])
qed


section \<open>The end of a connection\<close>

lemma conns_of_disconnect: "conns_to (disconnect now s c) i = (if i = ccPeer c then other_conns s c else conns_to s i)"
proof -
  let ?s1 = "fail_transfers_of (close_conn (unregister s c) c) (ccPeer c) ''the other end disconnected''"
  have "conns_to ?s1 = conns_to (unregister s c)"
    by (simp add: relays_only_fields(3) [OF relays_only_ops(7)] sends_only_fields(4) [OF sends_only_close])
  then show ?thesis
    by (simp add: disconnect_def Let_def sends_only_fields(4) [OF sends_only_broadcast] conns_to_unregister)
qed

lemma xfers_disconnect: "svXfers (disconnect now s c) = filter (entry_spares (ccPeer c)) (svXfers s)"
proof -
  let ?s0 = "close_conn (unregister s c) c"
  have "svXfers (fail_transfers_of ?s0 (ccPeer c) r) = filter (entry_spares (ccPeer c)) (svXfers ?s0)" for r
    using sends_only_fields(3) [OF fail_transfers_sends, of ?s0] by simp
  then show ?thesis
    by (simp add: disconnect_def Let_def sends_only_fields(3) [OF sends_only_broadcast] sends_only_fields(3) [OF sends_only_close])
qed

lemma out_of_send_all_mem: "c \<in> set cs \<Longrightarrow> reading s (ccId c) \<Longrightarrow> f \<in> set (out_of (send_all f s cs) (ccId c))"
  by (force simp: out_of_send_all count_list_0_iff)

lemma reading_send_to: "reading (send_to s i f) k = reading s k"
  by (simp add: send_to_def send_all_reading)

lemma reading_fail: "reading (fail_transfers_of s i reason) k = reading s k"
proof -
  have "reading (foldl (fail_one i reason) s rs) k = reading s k" for s rs
    by (induction rs arbitrary: s) (simp_all add: fail_one_def reading_send_to)
  then show ?thesis by (simp add: fail_transfers_of_def reading_def)
qed

lemma last_connection_offline:
  assumes ok: "server_ok s" and c: "is_conn s c" and last: "other_conns s c = []"
  shows "\<exists>p. peer_of (svStore (disconnect now s c)) (ccPeer c) = Some p \<and> pPresence p = presence_offline
    \<and> (\<forall>d. is_conn s d \<and> ccPeer d \<noteq> ccPeer c \<and> reading s (ccId d)
         \<longrightarrow> zero_frame\<lparr>fType := frame_roster, fPeer := Some p\<rparr> \<in> set (out_of (disconnect now s c) (ccId d)))"
proof -
  let ?s0 = "close_conn (unregister s c) c"
  let ?s1 = "fail_transfers_of ?s0 (ccPeer c) ''the other end disconnected''"
  let ?s2 = "with_store ?s1 (fst (set_presence now (svStore ?s1) (ccPeer c) presence_offline))"
  have i: "ccPeer c \<noteq> ''''" using is_conn_id [OF ok c] by (auto simp: id_ok_def)
  have to1: "conns_to ?s1 = conns_to (unregister s c)"
    by (simp add: relays_only_fields(3) [OF relays_only_ops(7)] sends_only_fields(4) [OF sends_only_close])
  then have none: "conns_of ?s1 (ccPeer c) = 0" by (simp add: conns_of_def conns_to_unregister last)
  then have eq: "disconnect now s c = broadcast_peer ?s2 (ccPeer c)" by (simp add: disconnect_def Let_def)
  obtain p where p: "peer_of (svStore ?s2) (ccPeer c) = Some p" "pPresence p = presence_offline"
    using i by (auto simp: set_presence_def peer_of_put_peer merge_peer_fields)
  have "zero_frame\<lparr>fType := frame_roster, fPeer := Some p\<rparr> \<in> set (out_of (broadcast_peer ?s2 (ccPeer c)) (ccId d))"
    if d: "is_conn s d" "ccPeer d \<noteq> ccPeer c" "reading s (ccId d)" for d
  proof -
    have upd: "p\<lparr>pPresence := presence_offline\<rparr> = p" by (rule peer.equality) (simp_all add: p)
    have bc: "broadcast_peer ?s2 (ccPeer c) = send_all (zero_frame\<lparr>fType := frame_roster, fPeer := Some p\<rparr>) ?s2 (every_conn ?s2)"
      unfolding broadcast_peer_def p(1) option.case upd if_cancel ..
    have "map_ok (svConns (unregister s c))"
      using conns_ok_unregister [OF server_okD(3) [OF ok]] by (simp add: conns_ok_def)
    then have "d \<in> set (every_conn (unregister s c))"
      using set_every_conn [of "unregister s c" d] d by (auto simp: conns_to_unregister is_conn_def)
    then have "d \<in> set (every_conn ?s2)"
      by (simp add: relays_only_fields(5) [OF relays_only_ops(7)] sends_only_fields(6) [OF sends_only_close])
    moreover have "reading ?s2 (ccId d)"
    proof -
      have "ccId d \<noteq> ccId c"
        using d c ok unfolding server_ok_def conns_ok_def is_conn_def by metis
      with d(3) show ?thesis by (simp add: reading_fail) (simp add: reading_def close_conn_def)
    qed
    ultimately show ?thesis unfolding bc by (rule out_of_send_all_mem)
  qed
  moreover have "peer_of (svStore (broadcast_peer ?s2 (ccPeer c))) (ccPeer c) = Some p"
    using p(1) by (simp add: sends_only_fields(1) [OF sends_only_broadcast])
  ultimately show ?thesis unfolding eq using p(2) by blast
qed

section \<open>What a chunk does\<close>

text \<open>The sender's chunk at the right place within the size is passed on unchanged; any other ends the transfer.\<close>

lemma on_chunk_cases:
  assumes "map_of (svXfers s) (fTransfer f) = Some r" and "rlFrom r = ccPeer c" and "rlState r = RelayRunning"
  shows "svXfers (on_chunk s c f) = (if fOffset f = rlSent r \<and> rlSent r + int (length (fData f)) \<le> rlSize r
      then AList.update (fTransfer f) (r\<lparr>rlSent := rlSent r + int (length (fData f))\<rparr>) (svXfers s)
      else AList.delete (fTransfer f) (svXfers s))"
    and "d \<in> set (conns_to s (rlTo r)) \<Longrightarrow> reading s (ccId d) \<Longrightarrow>
      (if fOffset f = rlSent r \<and> rlSent r + int (length (fData f)) \<le> rlSize r then f\<lparr>fFrom := ccPeer c\<rparr>
       else zero_frame\<lparr>fType := frame_decline, fTransfer := fTransfer f, fFrom := ccPeer c, fReason := protocol_reason\<rparr>)
      \<in> set (out_of (on_chunk s c f) (ccId d))"
proof -
  show "svXfers (on_chunk s c f) = (if fOffset f = rlSent r \<and> rlSent r + int (length (fData f)) \<le> rlSize r
      then AList.update (fTransfer f) (r\<lparr>rlSent := rlSent r + int (length (fData f))\<rparr>) (svXfers s)
      else AList.delete (fTransfer f) (svXfers s))"
    using assms by (auto simp: on_chunk_def sends_only_fields(3) [OF sends_only_send_to]
        sends_only_fields(3) [OF sends_only_send] drop_xfer_def not_le)
  assume d: "d \<in> set (conns_to s (rlTo r))" "reading s (ccId d)"
  have same: "conns_to (drop_xfer s t) = conns_to s" "reading (drop_xfer s t) = reading s"
    "conns_to (s\<lparr>svXfers := x\<rparr>) = conns_to s" "reading (s\<lparr>svXfers := x\<rparr>) = reading s" for t x
    by (simp_all add: drop_xfer_def conns_to_def reading_def fun_eq_iff)
  show "(if fOffset f = rlSent r \<and> rlSent r + int (length (fData f)) \<le> rlSize r then f\<lparr>fFrom := ccPeer c\<rparr>
       else zero_frame\<lparr>fType := frame_decline, fTransfer := fTransfer f, fFrom := ccPeer c, fReason := protocol_reason\<rparr>)
      \<in> set (out_of (on_chunk s c f) (ccId d))"
    using assms d by (auto simp: on_chunk_def not_le same sends_only_fields(4) [OF sends_only_send] send_reading
        intro!: out_of_send_to)
qed

lemma expire_offers_xfers: "svXfers (expire_offers now s) = filter (is_live now) (svXfers s)"
  using sends_only_fields(3) [OF expire_offers_sends] by simp


end
