(* ===== verification/Daemon.thy ===== *)
theory Daemon
  imports StoreDisk Wire
begin

text \<open>
  The model of \<open>chatclientd/daemon.go\<close> and \<open>chatclientd/cursor.go\<close>, and of the state the
  rest of \<open>chatclientd\<close> works on: the client daemon, what it emits to its front ends and what
  it writes to the server. A handler maps the daemon to the daemon after it. Emitted events
  are appended to \<open>dmEvents\<close>, frames written to the connection to \<open>dmWire\<close>. One handler runs
  at a time and reads the clock once; what it reads of the machine is the record \<open>world\<close>.
  The log lines of \<open>logf\<close> are not modelled.
\<close>

section \<open>The machine\<close>

text \<open>
  The clock, the random bytes the handler draws, the environment, the download directory, and
  functions: the MIME table of the host, the hexadecimal SHA-256 of a file's content, and
  \<open>unicode.IsPrint\<close> on runes that are not ASCII. \<open>wErr\<close> is
  the text of the error the operating system gives, where it gives one.
\<close>

record world =
  wNow :: gotime
  wRnd :: "nat list"
  wEnv :: env
  wFresh :: peer_id
  wServerEnv :: string
  wDownload :: string
  wMime :: "string \<Rightarrow> string"
  wSha :: "nat list \<Rightarrow> string"
  wErr :: string
  wPrint :: "nat \<Rightarrow> bool"

section \<open>Events (chat/proto.go)\<close>

definition event_message :: string where "event_message = ''chat.message''"
definition event_state :: string where "event_state = ''chat.state''"
definition event_peers :: string where "event_peers = ''chat.peers''"
definition event_typing :: string where "event_typing = ''chat.typing''"
definition event_transfer :: string where "event_transfer = ''chat.transfer''"
definition event_notify :: string where "event_notify = ''chat.notify''"
definition event_status :: string where "event_status = ''chat.status''"

lemmas event_kind_defs = event_message_def event_state_def event_peers_def event_typing_def
  event_transfer_def event_notify_def event_status_def

record event =
  evKind :: string
  evConv :: conv_id
  evPeer :: peer_id
  evMsg :: "message option"
  evTransfer :: "transfer option"
  evTyping :: bool
  evTitle :: string
  evBody :: string
  evText :: string

definition zero_event :: event where
  "zero_event = \<lparr>evKind = '''', evConv = '''', evPeer = '''', evMsg = None, evTransfer = None,
     evTyping = False, evTitle = '''', evBody = '''', evText = ''''\<rparr>"

abbreviation event_of :: "string \<Rightarrow> event" where
  "event_of k \<equiv> zero_event\<lparr>evKind := k\<rparr>"

section \<open>State\<close>

text \<open>
  \<open>dmOpen\<close> is the table of receiving file handles: the path each writes. \<open>dmPush\<close> holds the
  running \<open>pushFile\<close> goroutines, each with its transfer and how far it has read, and \<open>dmAccept\<close>
  the started automatic accepts. \<open>dmConn\<close> tells whether there is a connection and \<open>dmTakes\<close> how many
  more frames it takes before writing to it fails, as it then does for good.
\<close>

record push =
  puTransfer :: transfer
  puOff :: nat
  puLast :: gotime

record daemon =
  dmStore :: store
  dmDiscName :: string
  dmAddr :: string
  dmSink :: bool
  dmTyping :: "(peer_id \<times> (conv_id \<times> gotime) list) list"
  dmConn :: bool
  dmTakes :: nat
  dmServer :: string
  dmServerID :: server_id
  dmSrvName :: string
  dmHeard :: string
  dmDiscNote :: string
  dmConnected :: bool
  dmCursor :: uint64
  dmStarted :: gotime
  dmHost :: string
  dmXfers :: "(transfer_id \<times> transfer) list"
  dmOpen :: "(transfer_id \<times> string) list"
  dmProgress :: "(transfer_id \<times> gotime) list"
  dmPush :: "push list"
  dmAccept :: "transfer_id list"
  dmWake :: bool
  dmFS :: filesystem
  dmCursorFile :: "(server_id \<times> uint64) file_content"
  dmEvents :: "event list"
  dmWire :: "frame list"

text \<open>\<open>New\<close>, over a store and the name of a discovery; the files are those of the machine.\<close>

definition new_daemon :: "store \<Rightarrow> string \<Rightarrow> string \<Rightarrow> filesystem \<Rightarrow> (server_id \<times> uint64) file_content \<Rightarrow> daemon" where
  "new_daemon st disc host fs cf = \<lparr>dmStore = st, dmDiscName = disc, dmAddr = '''', dmSink = False, dmTyping = [],
     dmConn = False, dmTakes = 0, dmServer = '''', dmServerID = '''', dmSrvName = '''', dmHeard = '''',
     dmDiscNote = '''', dmConnected = False, dmCursor = 0, dmStarted = zero_time,
     dmHost = trim_suffix host ''.local'', dmXfers = [], dmOpen = [], dmProgress = [], dmPush = [], dmAccept = [],
     dmWake = False, dmFS = fs, dmCursorFile = cf, dmEvents = [], dmWire = []\<rparr>"

definition on_event :: "daemon \<Rightarrow> daemon" where
  "on_event d = d\<lparr>dmSink := True\<rparr>"

definition emit :: "daemon \<Rightarrow> event \<Rightarrow> daemon" where
  "emit d ev = (if dmSink d then d\<lparr>dmEvents := dmEvents d @ [ev]\<rparr> else d)"

definition emit_all :: "daemon \<Rightarrow> event list \<Rightarrow> daemon" where
  "emit_all d evs = foldl emit d evs"

definition with_dstore :: "daemon \<Rightarrow> store \<Rightarrow> daemon" where
  "with_dstore d st = d\<lparr>dmStore := st\<rparr>"

definition server_addr :: "daemon \<Rightarrow> string" where
  "server_addr d = (if dmServer d \<noteq> '''' then dmServer d else dmHeard d)"

definition discovery_text :: "daemon \<Rightarrow> string" where
  "discovery_text d =
    (if dmAddr d \<noteq> '''' then ''told ('' @ dmAddr d @ '')''
     else if dmDiscNote d \<noteq> '''' then dmDiscName d @ '' ('' @ dmDiscNote d @ '')''
     else dmDiscName d)"

section \<open>The cursor file (chatclientd/cursor.go)\<close>

definition load_cursor :: "string \<Rightarrow> (server_id \<times> uint64) file_content \<Rightarrow> uint64 \<times> server_id" where
  "load_cursor dir cf = (if dir = '''' then (0, '''')
     else (case cf of Content (srv, q) \<Rightarrow> (q, srv) | _ \<Rightarrow> (0, '''')))"

definition save_cursor :: "daemon \<Rightarrow> daemon" where
  "save_cursor d =
    (if stDir (dmStore d) = '''' \<or> dmServerID d = '''' \<or> ''cursor.json'' \<in> set (dkRefuses (stDisk (dmStore d))) then d
     else d\<lparr>dmCursorFile := Content (dmServerID d, dmCursor d)\<rparr>)"

text \<open>The start of \<open>Run\<close>.\<close>

definition start_daemon :: "world \<Rightarrow> daemon \<Rightarrow> daemon" where
  "start_daemon w d = d\<lparr>dmStarted := wNow w, dmCursor := fst (load_cursor (stDir (dmStore d)) (dmCursorFile d)),
     dmServerID := snd (load_cursor (stDir (dmStore d)) (dmCursorFile d))\<rparr>"

text \<open>The end of \<open>Run\<close>, once the link loop has stopped.\<close>

definition stop_daemon :: "daemon \<Rightarrow> daemon" where
  "stop_daemon d = save_cursor (d\<lparr>dmOpen := []\<rparr>)"

section \<open>Writing to the server (link.go)\<close>

definition wire_write :: "daemon \<Rightarrow> frame \<Rightarrow> daemon \<times> bool" where
  "wire_write d f =
    (if \<not> dmConn d then (d, False)
     else if dmTakes d = 0 then (d, False)
     else (d\<lparr>dmWire := dmWire d @ [f], dmTakes := dmTakes d - 1\<rparr>, True))"

section \<open>Being told of a server\<close>

definition nudge :: "daemon \<Rightarrow> daemon" where
  "nudge d = d\<lparr>dmWake := True\<rparr>"

definition server_appeared :: "daemon \<Rightarrow> string \<Rightarrow> string \<Rightarrow> bool \<Rightarrow> daemon" where
  "server_appeared d addr name bye =
    (if bye \<or> addr = '''' then d
     else (let d1 = d\<lparr>dmHeard := addr, dmSrvName := name\<rparr>
           in if dmHeard d \<noteq> addr then nudge d1 else d1))"

definition disc_note :: "daemon \<Rightarrow> string \<Rightarrow> daemon" where
  "disc_note d msg = d\<lparr>dmDiscNote := msg\<rparr>"

definition disc_stopped :: "daemon \<Rightarrow> string \<Rightarrow> daemon" where
  "disc_stopped d err = emit (d\<lparr>dmDiscNote := err\<rparr>) ((event_of event_status)\<lparr>evText := ''discovery: '' @ err\<rparr>)"

section \<open>Outbound\<close>

definition new_message_id :: "gotime \<Rightarrow> nat list \<Rightarrow> peer_id \<Rightarrow> message_id" where
  "new_message_id now rnd self = short_id self @ ''-'' @ decimal_int now @ ''-'' @ hex_encode (take 6 rnd)"

definition set_msg_state :: "daemon \<Rightarrow> message_id \<Rightarrow> message_state \<Rightarrow> daemon" where
  "set_msg_state d i st =
    (case set_state (dmStore d) i st of
       (s', None) \<Rightarrow> with_dstore d s'
     | (s', Some m) \<Rightarrow> emit (with_dstore d s') ((event_of event_state)\<lparr>evConv := mConv m, evMsg := Some m\<rparr>))"

definition send_message :: "daemon \<Rightarrow> message \<Rightarrow> daemon" where
  "send_message d m =
    (case wire_write d (msg_frame m) of
       (d', False) \<Rightarrow> d'
     | (d', True) \<Rightarrow> set_msg_state d' (mID m) StateSending)"

datatype send_error = NothingToSend | NoConversation | StoreFailed store_error

definition is_right_space :: "char \<Rightarrow> bool" where
  "is_right_space c \<longleftrightarrow> c = CHR '' '' \<or> c = CHR 0x09 \<or> c = CHR 0x0D \<or> c = CHR 0x0A"

definition trim_right_space :: "string \<Rightarrow> string" where
  "trim_right_space s = rev (dropWhile is_right_space (rev s))"

definition composed :: "world \<Rightarrow> daemon \<Rightarrow> conv_id \<Rightarrow> string \<Rightarrow> message" where
  "composed w d conv body =
    zero_message\<lparr>mID := new_message_id (wNow w) (wRnd w) (iID (stSelf (dmStore d))), mConv := conv,
      mFrom := iID (stSelf (dmStore d)), mFromNick := iNick (stSelf (dmStore d)),
      mBody := clip_runes body max_body_runes, mSent := wNow w, mMine := True, mRead := True, mState := StateQueued\<rparr>"

text \<open>\<open>Send\<close>: what it answers, and the daemon after it.\<close>

definition daemon_send :: "world \<Rightarrow> daemon \<Rightarrow> conv_id \<Rightarrow> string \<Rightarrow> daemon \<times> (send_error + message)" where
  "daemon_send w d conv body0 =
    (let body = trim_right_space body0 in
     if trim_space body = '''' then (d, Inl NothingToSend)
     else if conv = '''' then (d, Inl NoConversation)
     else (let m = composed w d conv body in
       (case append_message (wNow w) (dmStore d) m of
          (s', _, Some e) \<Rightarrow> (with_dstore d s', Inl (StoreFailed e))
        | (s', _, None) \<Rightarrow>
            (let d1 = emit (with_dstore d s') ((event_of event_message)\<lparr>evConv := conv, evMsg := Some m\<rparr>)
             in (send_message d1 m, Inr m)))))"

text \<open>\<open>flushQueue\<close>: stops at the first message the wire does not take.\<close>

fun flush_list :: "daemon \<Rightarrow> message list \<Rightarrow> daemon" where
  "flush_list d [] = d"
| "flush_list d (m # ms) =
     (case wire_write d (msg_frame m) of
        (d', False) \<Rightarrow> d'
      | (d', True) \<Rightarrow> flush_list (set_msg_state d' (mID m) StateSending) ms)"

definition flush_queue :: "daemon \<Rightarrow> daemon" where
  "flush_queue d = flush_list d (queued (dmStore d) '''')"

definition daemon_set_presence :: "world \<Rightarrow> daemon \<Rightarrow> presence \<Rightarrow> daemon \<times> identity \<times> store_error option" where
  "daemon_set_presence w d p =
    (case set_self (wEnv w) (wFresh w) (dmStore d) ((stSelf (dmStore d))\<lparr>iPresence := presence_valid p\<rparr>) of
       (s', out, Some e) \<Rightarrow> (with_dstore d s', out, Some e)
     | (s', out, None) \<Rightarrow>
         (fst (wire_write (with_dstore d s') (zero_frame\<lparr>fType := frame_presence, fPresence := iPresence out\<rparr>)), out, None))"

definition readvertise :: "daemon \<Rightarrow> daemon" where
  "readvertise d = fst (wire_write d (zero_frame\<lparr>fType := frame_presence, fNick := iNick (stSelf (dmStore d)),
     fColor := iColor (stSelf (dmStore d)), fPresence := presence_valid (iPresence (stSelf (dmStore d)))\<rparr>))"

definition daemon_join :: "world \<Rightarrow> daemon \<Rightarrow> string \<Rightarrow> daemon \<times> string \<times> bool \<times> store_error option" where
  "daemon_join w d name =
    (case join_room (wEnv w) (wFresh w) (dmStore d) name of
       (s', room, changed, Some e) \<Rightarrow> (with_dstore d s', room, False, Some e)
     | (s', room, changed, None) \<Rightarrow>
         (fst (wire_write (with_dstore d s') (zero_frame\<lparr>fType := frame_join, fRoom := room\<rparr>)), room, changed, None))"

definition daemon_leave :: "world \<Rightarrow> daemon \<Rightarrow> string \<Rightarrow> daemon \<times> bool \<times> store_error option" where
  "daemon_leave w d name =
    (case leave_room (wEnv w) (wFresh w) (dmStore d) name of
       (s', left, err) \<Rightarrow>
         (if err \<noteq> None \<or> \<not> left then (with_dstore d s', left, err)
          else (fst (wire_write (with_dstore d s') (zero_frame\<lparr>fType := frame_leave, fRoom := canon_room name\<rparr>)), left, None)))"

definition daemon_typing :: "daemon \<Rightarrow> conv_id \<Rightarrow> bool \<Rightarrow> daemon" where
  "daemon_typing d conv on =
     fst (wire_write d (zero_frame\<lparr>fType := frame_typing, fConv := conv, fTyping := on\<rparr>))"

section \<open>Typing indicators\<close>

definition typing_timeout :: int where
  "typing_timeout = 6 * second_ns"

definition typing_convs :: "daemon \<Rightarrow> peer_id \<Rightarrow> (conv_id \<times> gotime) list" where
  "typing_convs d i = get_or [] (dmTyping d) i"

definition typing_event :: "conv_id \<Rightarrow> peer_id \<Rightarrow> bool \<Rightarrow> event" where
  "typing_event conv i on = (event_of event_typing)\<lparr>evConv := conv, evPeer := i, evTyping := on\<rparr>"

definition types_in :: "gotime \<Rightarrow> conv_id \<Rightarrow> peer_id \<times> (conv_id \<times> gotime) list \<Rightarrow> bool" where
  "types_in now conv e = (case map_of (snd e) conv of None \<Rightarrow> False | Some t \<Rightarrow> now - typing_timeout < t)"

definition who_types :: "world \<Rightarrow> daemon \<Rightarrow> conv_id \<Rightarrow> peer_id list" where
  "who_types w d conv = sort_by less_string (map fst (filter (types_in (wNow w) conv) (dmTyping d)))"

definition got_typing :: "world \<Rightarrow> daemon \<Rightarrow> peer_id \<Rightarrow> conv_id \<Rightarrow> bool \<Rightarrow> daemon" where
  "got_typing w d i conv0 on =
    (let conv = (if conv0 = '''' then direct_conv i else conv0);
         cs = typing_convs d i;
         cs' = (if on then AList.update conv (wNow w) cs else AList.delete conv cs)
     in emit (d\<lparr>dmTyping := AList.update i cs' (dmTyping d)\<rparr>) (typing_event conv i on))"

text \<open>The indicators that have expired, and what is left of the map.\<close>

definition stale :: "gotime \<Rightarrow> conv_id \<times> gotime \<Rightarrow> bool" where
  "stale now e \<longleftrightarrow> snd e < now - typing_timeout"

definition fresh_entry :: "gotime \<Rightarrow> conv_id \<times> gotime \<Rightarrow> bool" where
  "fresh_entry now e \<longleftrightarrow> \<not> stale now e"

definition stale_events :: "gotime \<Rightarrow> peer_id \<times> (conv_id \<times> gotime) list \<Rightarrow> event list" where
  "stale_events now e = map (\<lambda>c. typing_event (fst c) (fst e) False) (filter (stale now) (snd e))"

definition expire_typing :: "world \<Rightarrow> daemon \<Rightarrow> daemon" where
  "expire_typing w d =
     emit_all (d\<lparr>dmTyping := map (\<lambda>e. (fst e, filter (fresh_entry (wNow w)) (snd e))) (dmTyping d)\<rparr>)
       (concat (map (stale_events (wNow w)) (dmTyping d)))"

definition clear_typing :: "daemon \<Rightarrow> peer_id \<Rightarrow> conv_id \<Rightarrow> daemon" where
  "clear_typing d i conv =
    (case map_of (dmTyping d) i of
       None \<Rightarrow> d
     | Some cs \<Rightarrow>
         (let d1 = d\<lparr>dmTyping := AList.update i (AList.delete conv cs) (dmTyping d)\<rparr>
          in if map_of cs conv \<noteq> None then emit d1 (typing_event conv i False) else d1))"

definition typing_off :: "peer_id \<times> (conv_id \<times> gotime) list \<Rightarrow> event list" where
  "typing_off e = map (\<lambda>c. typing_event (fst c) (fst e) False) (snd e)"

definition clear_all_typing :: "daemon \<Rightarrow> daemon" where
  "clear_all_typing d = emit_all (d\<lparr>dmTyping := []\<rparr>) (concat (map typing_off (dmTyping d)))"

section \<open>Notification\<close>

definition is_word_byte :: "char \<Rightarrow> bool" where
  "is_word_byte c \<longleftrightarrow> CHR ''a'' \<le> c \<and> c \<le> CHR ''z'' \<or> CHR ''0'' \<le> c \<and> c \<le> CHR ''9'' \<or> c = CHR ''_''"

text \<open>\<open>strings.Index\<close>.\<close>

fun str_index :: "string \<Rightarrow> string \<Rightarrow> nat option" where
  "str_index s p =
    (if has_prefix s p then Some 0
     else (case s of [] \<Rightarrow> None | c # cs \<Rightarrow> map_option Suc (str_index cs p)))"

declare str_index.simps [simp del]

definition whole_word :: "string \<Rightarrow> string \<Rightarrow> nat \<Rightarrow> bool" where
  "whole_word low name j \<longleftrightarrow> (j = 0 \<or> \<not> is_word_byte (low ! (j - 1)))
     \<and> (length low \<le> j + length name \<or> \<not> is_word_byte (low ! (j + length name)))"

text \<open>
  The search loop from index \<open>i\<close> on. Slicing past the end panics in Go; for a name that is not
  empty, and it never is, the index stays within the body and the first test is never true.
\<close>

function mentioned_from :: "string \<Rightarrow> string \<Rightarrow> nat \<Rightarrow> bool" where
  "mentioned_from low name i =
    (if length low < i then False
     else (case str_index (drop i low) name of
             None \<Rightarrow> False
           | Some j \<Rightarrow> (if whole_word low name (i + j) then True else mentioned_from low name (Suc (i + j)))))"
  by pat_completeness auto
termination
  by (relation "measure (\<lambda>(low, name, i). Suc (length low) - i)") auto

declare mentioned_from.simps [simp del]

definition nick_names :: "string \<Rightarrow> string list" where
  "nick_names nick = (case index_byte nick (CHR ''@'') of
      None \<Rightarrow> [nick] | Some i \<Rightarrow> (if 0 < i then [nick, take i nick] else [nick]))"

definition mentions :: "string \<Rightarrow> string \<Rightarrow> bool" where
  "mentions body nick0 =
    (let nick = to_lower (trim_space nick0)
     in nick \<noteq> '''' \<and> list_ex (\<lambda>name. mentioned_from (to_lower body) name 0) (nick_names nick))"

definition notify_title :: "message \<Rightarrow> peer \<Rightarrow> string" where
  "notify_title m from = (if is_room (mConv m) then display_name from @ '' in #'' @ conv_room (mConv m)
     else display_name from)"

definition notifies :: "daemon \<Rightarrow> message \<Rightarrow> bool" where
  "notifies d m \<longleftrightarrow>
    (let prefs = stNotify (dmStore d);
         mention = (nMentions prefs \<and> mentions (mBody m) (iNick (stSelf (dmStore d))))
     in nEnabled prefs \<and> \<not> mMine m \<and> \<not> mSystem m \<and> \<not> (is_room (mConv m) \<and> nDirectOnly prefs \<and> \<not> mention))"

text \<open>\<open>maybeNotify\<close>; the desktop toast of \<open>NotifyDesktop\<close> is a function nobody sets in a daemon.\<close>

definition maybe_notify :: "daemon \<Rightarrow> message \<Rightarrow> peer \<Rightarrow> daemon" where
  "maybe_notify d m from =
    (if \<not> notifies d m then d
     else emit d ((event_of event_notify)\<lparr>evConv := mConv m, evPeer := mFrom m,
        evTitle := notify_title m from, evBody := clip_runes (trim_space (mBody m)) 160\<rparr>))"

section \<open>System messages\<close>

definition system_note :: "world \<Rightarrow> daemon \<Rightarrow> conv_id \<Rightarrow> string \<Rightarrow> message" where
  "system_note w d conv txt =
    zero_message\<lparr>mID := new_message_id (wNow w) (wRnd w) (iID (stSelf (dmStore d))), mConv := conv,
      mFrom := iID (stSelf (dmStore d)), mBody := txt, mSent := wNow w, mSeq := dmCursor d,
      mSystem := True, mRead := True, mMine := True, mState := StateDelivered\<rparr>"

definition system_message :: "world \<Rightarrow> daemon \<Rightarrow> conv_id \<Rightarrow> string \<Rightarrow> daemon" where
  "system_message w d conv txt =
    (if conv = '''' then d
     else (let m = system_note w d conv txt in
       (case append_message (wNow w) (dmStore d) m of
          (s', added, err) \<Rightarrow>
            (if err = None \<and> added
             then emit (with_dstore d s') ((event_of event_message)\<lparr>evConv := conv, evMsg := Some m\<rparr>)
             else with_dstore d s'))))"


end
