(* ===== verification/Transfers.thy ===== *)
theory Transfers
  imports Daemon
begin

text \<open>
  The model of \<open>chatclientd/transfers.go\<close> and \<open>chatclientd/files.go\<close>: the client's table of
  transfers and its half of a file transfer, over the model file system. A receiving file handle is
  the path it writes; \<open>pushFile\<close> is one step per loop iteration, because other handlers
  run between them. The lemmas show that a pushed file arrives whole at a receiver that accepted it,
  that the receiver never writes more than was offered, and which states an operation starts from.
\<close>

section \<open>The table (transfers.go)\<close>

definition xfer_put :: "daemon \<Rightarrow> transfer \<Rightarrow> daemon" where
  "xfer_put d t = d\<lparr>dmXfers := AList.update (tID t) t (dmXfers d)\<rparr>"

definition xfer_get :: "daemon \<Rightarrow> transfer_id \<Rightarrow> transfer option" where
  "xfer_get d i = map_of (dmXfers d) i"

definition xfer_update :: "daemon \<Rightarrow> transfer_id \<Rightarrow> (transfer \<Rightarrow> transfer) \<Rightarrow> daemon \<times> transfer option" where
  "xfer_update d i fn = (case map_of (dmXfers d) i of
      None \<Rightarrow> (d, None)
    | Some t \<Rightarrow> (d\<lparr>dmXfers := AList.update i (fn t) (dmXfers d)\<rparr>, Some (fn t)))"

definition less_transfer :: "transfer \<Rightarrow> transfer \<Rightarrow> bool" where
  "less_transfer a b = (if tAt a \<noteq> tAt b then tAt b < tAt a else tID a < tID b)"

definition xfer_list :: "daemon \<Rightarrow> transfer list" where
  "xfer_list d = sort_by less_transfer (map snd (dmXfers d))"

definition is_moving :: "transfer \<Rightarrow> bool" where
  "is_moving t \<longleftrightarrow> tState t = TransferOffered \<or> tState t = TransferIncoming \<or> tState t = TransferRunning"

definition live_with :: "peer_id \<Rightarrow> transfer \<Rightarrow> bool" where
  "live_with p t \<longleftrightarrow> tPeer t = p \<and> is_moving t"

definition xfer_active :: "daemon \<Rightarrow> peer_id \<Rightarrow> nat" where
  "xfer_active d p = length (filter (live_with p) (map snd (dmXfers d)))"

definition open_file :: "daemon \<Rightarrow> transfer_id \<Rightarrow> string \<Rightarrow> daemon" where
  "open_file d i path = d\<lparr>dmOpen := AList.update i path (dmOpen d)\<rparr>"

definition take_file :: "daemon \<Rightarrow> transfer_id \<Rightarrow> daemon \<times> string option" where
  "take_file d i = (d\<lparr>dmOpen := AList.delete i (dmOpen d)\<rparr>, map_of (dmOpen d) i)"

definition file_handle :: "daemon \<Rightarrow> transfer_id \<Rightarrow> string option" where
  "file_handle d i = map_of (dmOpen d) i"

definition close_handles :: "daemon \<Rightarrow> daemon" where
  "close_handles d = d\<lparr>dmOpen := []\<rparr>"

section \<open>Files\<close>

definition file_content :: "filesystem \<Rightarrow> string \<Rightarrow> nat list option" where
  "file_content fs p = (if p \<in> set (fsNoRead fs) then None else map_of (fsFiles fs) p)"

definition remove_file :: "daemon \<Rightarrow> string \<Rightarrow> daemon" where
  "remove_file d p = d\<lparr>dmFS := (dmFS d)\<lparr>fsFiles := AList.delete p (fsFiles (dmFS d))\<rparr>\<rparr>"

definition append_file :: "daemon \<Rightarrow> string \<Rightarrow> nat list \<Rightarrow> daemon" where
  "append_file d p bs = (case map_of (fsFiles (dmFS d)) p of
      None \<Rightarrow> d
    | Some old \<Rightarrow> d\<lparr>dmFS := (dmFS d)\<lparr>fsFiles := AList.update p (old @ bs) (fsFiles (dmFS d))\<rparr>\<rparr>)"

definition file_sha256 :: "world \<Rightarrow> daemon \<Rightarrow> string \<Rightarrow> string option" where
  "file_sha256 w d p = map_option (wSha w) (file_content (dmFS d) p)"

section \<open>Events\<close>

definition transfer_event :: "transfer \<Rightarrow> event" where
  "transfer_event t = (event_of event_transfer)\<lparr>evConv := tConv t, evPeer := tPeer t, evTransfer := Some t\<rparr>"

definition emit_transfer :: "daemon \<Rightarrow> transfer \<Rightarrow> daemon" where
  "emit_transfer d t = emit d (transfer_event t)"

definition progress_interval :: int where
  "progress_interval = 150000000"

definition emit_throttled :: "world \<Rightarrow> daemon \<Rightarrow> transfer \<Rightarrow> daemon" where
  "emit_throttled w d t =
    (if progress_interval < wNow w - get_or zero_time (dmProgress d) (tID t) \<or> tSize t \<le> tDone t
     then emit_transfer (d\<lparr>dmProgress := AList.update (tID t) (wNow w) (dmProgress d)\<rparr>) t
     else d)"

definition announces :: "transfer_id \<Rightarrow> message \<Rightarrow> bool" where
  "announces i m \<longleftrightarrow> mMine m \<and> (case mTransfer m of None \<Rightarrow> False | Some r \<Rightarrow> rID r = i)"

definition set_state_for_transfer :: "daemon \<Rightarrow> transfer_id \<Rightarrow> message_state \<Rightarrow> daemon" where
  "set_state_for_transfer d i st =
    (case xfer_get d i of
       None \<Rightarrow> d
     | Some t \<Rightarrow> (case find (announces i) (messages (dmStore d) (tConv t) 200) of
         None \<Rightarrow> d
       | Some m \<Rightarrow> set_msg_state d (mID m) st))"

datatype transfer_error =
  ToARoom | NotAPerson | Unreachable | StatFailed | IsDirectory | TooBig int
| TooManyOpen | DigestFailed | OfferNotStored store_error | NoSuchTransfer
| NotAcceptable transfer_state | NoPath path_error | OpenFailed | TransferFailedWith string

definition fail_update :: "string \<Rightarrow> transfer \<Rightarrow> transfer" where
  "fail_update why t = t\<lparr>tState := TransferFailed, tError := why\<rparr>"

definition fail_transfer :: "daemon \<Rightarrow> transfer_id \<Rightarrow> string \<Rightarrow> daemon \<times> transfer option \<times> transfer_error" where
  "fail_transfer d i why =
    (case xfer_update (fst (take_file d i)) i (fail_update why) of
       (d1, None) \<Rightarrow> (d1, None, NoSuchTransfer)
     | (d1, Some t) \<Rightarrow>
         (set_state_for_transfer (emit_transfer d1 t) i StateFailed, Some t, TransferFailedWith why))"

definition fail_live :: "string \<Rightarrow> daemon \<Rightarrow> transfer \<Rightarrow> daemon" where
  "fail_live why d t = (if is_moving t then fst (fail_transfer d (tID t) why) else d)"

definition fail_live_transfers :: "daemon \<Rightarrow> string \<Rightarrow> daemon" where
  "fail_live_transfers d why = foldl (fail_live why) d (xfer_list d)"

section \<open>Offering a file\<close>

definition offered :: "world \<Rightarrow> conv_id \<Rightarrow> peer_id \<Rightarrow> string \<Rightarrow> int \<Rightarrow> string \<Rightarrow> transfer" where
  "offered w conv peer path sz dig =
     (new_transfer (wMime w) (wNow w) (new_transfer_id (wRnd w)) conv peer (path_base path) sz False TransferOffered)
       \<lparr>tSHA256 := dig, tPath := path\<rparr>"

definition offer_message :: "world \<Rightarrow> daemon \<Rightarrow> transfer \<Rightarrow> message" where
  "offer_message w d t =
    zero_message\<lparr>mID := new_message_id (wNow w) (drop 12 (wRnd w)) (iID (stSelf (dmStore d))), mConv := tConv t,
      mFrom := iID (stSelf (dmStore d)), mFromNick := iNick (stSelf (dmStore d)),
      mBody := ''sent a file: '' @ tName t, mSent := wNow w, mMine := True, mRead := True, mState := StateQueued,
      mTransfer := Some \<lparr>rID = tID t, rName = tName t, rSize = tSize t\<rparr>\<rparr>"

definition offer_frame :: "transfer \<Rightarrow> frame" where
  "offer_frame t = zero_frame\<lparr>fType := frame_offer, fTransfer := tID t, fConv := tConv t, fTo := tPeer t,
     fName := tName t, fSize := tSize t, fMIME := tMIME t, fSHA256 := tSHA256 t\<rparr>"

text \<open>The checks before anything is recorded, in their order: the size and digest, or the error.\<close>

definition offer_checks :: "world \<Rightarrow> daemon \<Rightarrow> conv_id \<Rightarrow> string \<Rightarrow> transfer_error + (int \<times> string)" where
  "offer_checks w d conv path =
    (if is_room conv then Inl ToARoom
     else if conv_peer conv = '''' then Inl NotAPerson
     else if \<not> dmConnected d then Inl Unreachable
     else if path \<in> set (fsDirs (dmFS d)) then Inl IsDirectory
     else (case map_of (fsFiles (dmFS d)) path of
         None \<Rightarrow> Inl StatFailed
       | Some bs \<Rightarrow>
           (if max_transfer_bytes < int (length bs) then Inl (TooBig (int (length bs)))
            else if max_open_transfers \<le> xfer_active d (conv_peer conv) then Inl TooManyOpen
            else (case file_sha256 w d path of
                None \<Rightarrow> Inl DigestFailed
              | Some dig \<Rightarrow> Inr (int (length bs), dig)))))"

definition send_offer :: "daemon \<Rightarrow> transfer \<Rightarrow> daemon \<times> (transfer_error + transfer)" where
  "send_offer d t =
    (case wire_write d (offer_frame t) of
       (d', True) \<Rightarrow> (d', Inr t)
     | (d', False) \<Rightarrow> (case fail_transfer d' (tID t) ''the server connection dropped'' of
         (d'', _, e) \<Rightarrow> (d'', Inl e)))"

definition daemon_offer :: "world \<Rightarrow> daemon \<Rightarrow> conv_id \<Rightarrow> string \<Rightarrow> daemon \<times> (transfer_error + transfer)" where
  "daemon_offer w d conv path =
    (case offer_checks w d conv path of
       Inl e \<Rightarrow> (d, Inl e)
     | Inr (sz, dig) \<Rightarrow>
        (let t = offered w conv (conv_peer conv) path sz dig;
             d1 = xfer_put d t;
             m = offer_message w d1 t
         in (case append_message (wNow w) (dmStore d1) m of
               (s', _, Some e) \<Rightarrow> (with_dstore d1 s', Inl (OfferNotStored e))
             | (s', _, None) \<Rightarrow>
                 (let d2 = emit (with_dstore d1 s') ((event_of event_message)\<lparr>evConv := conv, evMsg := Some m\<rparr>);
                      d3 = send_message d2 m;
                      d4 = emit_transfer d3 t
                  in send_offer d4 t))))"

section \<open>Being offered a file\<close>

definition decline_reply :: "transfer_id \<Rightarrow> string \<Rightarrow> frame" where
  "decline_reply i reason = zero_frame\<lparr>fType := frame_decline, fTransfer := i, fReason := reason\<rparr>"

definition incoming :: "world \<Rightarrow> frame \<Rightarrow> transfer" where
  "incoming w f =
    (let t = (new_transfer (wMime w) (wNow w) (fTransfer f) (direct_conv (fFrom f)) (fFrom f)
                (safe_base_name (fName f)) (fSize f) True TransferIncoming)\<lparr>tSHA256 := fSHA256 f\<rparr>
     in if fMIME f \<noteq> '''' then t\<lparr>tMIME := clip_runes (fMIME f) 96\<rparr> else t)"

definition auto_accepts :: "daemon \<Rightarrow> frame \<Rightarrow> bool" where
  "auto_accepts d f \<longleftrightarrow> 0 < iAutoAccept (stSelf (dmStore d)) \<and> fSize f \<le> iAutoAccept (stSelf (dmStore d))"

definition got_offer :: "world \<Rightarrow> daemon \<Rightarrow> frame \<Rightarrow> daemon" where
  "got_offer w d f =
    (if fTransfer f = '''' \<or> fFrom f = '''' \<or> fSize f < 0 \<or> max_transfer_bytes < fSize f then d
     else if blocked (dmStore d) (fFrom f) then fst (wire_write d (decline_reply (fTransfer f) ''blocked''))
     else if max_open_transfers \<le> xfer_active d (fFrom f)
       then fst (wire_write d (decline_reply (fTransfer f) ''too many transfers open''))
     else (let t = incoming w f;
               d1 = emit_transfer (xfer_put d t) t
           in if auto_accepts d f then d1\<lparr>dmAccept := dmAccept d1 @ [tID t]\<rparr>
              else maybe_notify d1 (zero_message\<lparr>mConv := direct_conv (fFrom f), mFrom := fFrom f,
                mBody := ''offered a file: '' @ tName t\<rparr>) (get_or zero_peer (stPeers (dmStore d1)) (fFrom f))))"

definition run_update :: "string \<Rightarrow> transfer \<Rightarrow> transfer" where
  "run_update path t = t\<lparr>tState := TransferRunning, tPath := path, tDone := 0\<rparr>"

definition accept_frame :: "transfer \<Rightarrow> frame" where
  "accept_frame t = zero_frame\<lparr>fType := frame_accept, fTransfer := tID t, fTo := tPeer t\<rparr>"

text \<open>\<open>Accept\<close>: the error it returns, if any. Opening the file just created fails where writing it does.\<close>

definition daemon_accept :: "world \<Rightarrow> daemon \<Rightarrow> transfer_id \<Rightarrow> daemon \<times> transfer_error option" where
  "daemon_accept w d i =
    (case xfer_get d i of
       None \<Rightarrow> (d, Some NoSuchTransfer)
     | Some t \<Rightarrow>
        (if \<not> tIncoming t \<or> tState t \<noteq> TransferIncoming then (d, Some (NotAcceptable (tState t)))
         else (case unique_path (dmFS d) (wDownload w) (safe_base_name (tName t)) of
             Inl e \<Rightarrow> (d, Some (NoPath e))
           | Inr (path, fs') \<Rightarrow>
              (let d1 = d\<lparr>dmFS := fs'\<rparr> in
               if path \<in> set (fsNoWrite fs') then (d1, Some OpenFailed)
               else (case xfer_update (open_file d1 i path) i (run_update path) of
                   (d2, None) \<Rightarrow> (d2, Some NoSuchTransfer)
                 | (d2, Some t') \<Rightarrow>
                     (case wire_write (emit_transfer d2 t') (accept_frame (t'\<lparr>tID := i\<rparr>)) of
                        (d3, True) \<Rightarrow> (d3, None)
                      | (d3, False) \<Rightarrow> (case fail_transfer d3 i ''the server connection dropped'' of
                          (d4, _, e) \<Rightarrow> (d4, Some e))))))))"

section \<open>Declining, and being declined\<close>

definition cancel_update :: "transfer_state \<Rightarrow> string \<Rightarrow> transfer \<Rightarrow> transfer" where
  "cancel_update st reason t =
    (let t1 = t\<lparr>tState := st, tError := reason\<rparr>
     in if tIncoming t1 \<and> tPath t1 \<noteq> '''' then t1\<lparr>tPath := ''''\<rparr> else t1)"

text \<open>The update of \<open>Decline\<close> and \<open>onDeclined\<close>, which removes the file of an incoming transfer.\<close>

definition cancel_transfer :: "daemon \<Rightarrow> transfer_id \<Rightarrow> transfer_state \<Rightarrow> string \<Rightarrow> daemon" where
  "cancel_transfer d i st reason =
    (case xfer_get d i of
       None \<Rightarrow> d
     | Some t \<Rightarrow>
        (let d1 = fst (take_file d i);
             d2 = (if tIncoming t \<and> tPath t \<noteq> '''' then remove_file d1 (tPath t) else d1);
             (d3, t') = xfer_update d2 i (cancel_update st reason)
         in emit_transfer d3 (the t')))"

definition decline_frame :: "transfer \<Rightarrow> transfer_id \<Rightarrow> string \<Rightarrow> frame" where
  "decline_frame t i reason = zero_frame\<lparr>fType := frame_decline, fTransfer := i, fTo := tPeer t,
     fReason := clip_runes reason 120\<rparr>"

definition daemon_decline :: "world \<Rightarrow> daemon \<Rightarrow> transfer_id \<Rightarrow> string \<Rightarrow> daemon \<times> transfer_error option" where
  "daemon_decline w d i reason =
    (case xfer_get d i of
       None \<Rightarrow> (d, Some NoSuchTransfer)
     | Some t \<Rightarrow>
        (let d1 = cancel_transfer d i TransferCancelled reason;
             d2 = fst (wire_write d1 (decline_frame t i reason))
         in (system_message w d2 (tConv t) (''declined '' @ tName t), None)))"

definition decline_text :: "transfer \<Rightarrow> frame \<Rightarrow> string" where
  "decline_text t f = (if fReason f \<noteq> '''' then tName t @ '': '' @ clip_runes (fReason f) 120
     else tName t @ '' was declined'')"

definition got_decline :: "world \<Rightarrow> daemon \<Rightarrow> frame \<Rightarrow> daemon" where
  "got_decline w d f =
    (case xfer_get d (fTransfer f) of
       None \<Rightarrow> d
     | Some t \<Rightarrow>
        (let d1 = cancel_transfer d (fTransfer f) TransferDeclined (clip_runes (fReason f) 120);
             d2 = system_message w d1 (tConv t) (decline_text t f)
         in set_state_for_transfer d2 (fTransfer f) StateFailed))"

section \<open>Pushing the file\<close>

definition set_xfer_state :: "transfer_state \<Rightarrow> transfer \<Rightarrow> transfer" where
  "set_xfer_state st t = t\<lparr>tState := st\<rparr>"

text \<open>\<open>onAccepted\<close> starts \<open>pushFile\<close>, which first opens the file.\<close>

definition start_push :: "world \<Rightarrow> daemon \<Rightarrow> transfer \<Rightarrow> daemon" where
  "start_push w d t =
    (case file_content (dmFS d) (tPath t) of
       None \<Rightarrow> fst (fail_transfer d (tID t) (wErr w))
     | Some _ \<Rightarrow> d\<lparr>dmPush := dmPush d @ [\<lparr>puTransfer = t, puOff = 0, puLast = wNow w\<rparr>]\<rparr>)"

definition got_accept :: "world \<Rightarrow> daemon \<Rightarrow> frame \<Rightarrow> daemon" where
  "got_accept w d f =
    (case xfer_get d (fTransfer f) of
       None \<Rightarrow> d
     | Some t \<Rightarrow>
        (if tIncoming t \<or> tState t \<noteq> TransferOffered then d
         else (case xfer_update d (fTransfer f) (set_xfer_state TransferRunning) of
             (d1, None) \<Rightarrow> d1
           | (d1, Some t') \<Rightarrow> start_push w (emit_transfer d1 t') t')))"

definition chunk_frame :: "transfer \<Rightarrow> nat \<Rightarrow> nat list \<Rightarrow> frame" where
  "chunk_frame t off bs = zero_frame\<lparr>fType := frame_chunk, fTransfer := tID t, fTo := tPeer t,
     fOffset := int off, fData := bs\<rparr>"

definition done_frame :: "transfer \<Rightarrow> nat \<Rightarrow> frame" where
  "done_frame t off = zero_frame\<lparr>fType := frame_done, fTransfer := tID t, fTo := tPeer t,
     fSHA256 := tSHA256 t, fSize := int off\<rparr>"

definition set_done :: "nat \<Rightarrow> transfer \<Rightarrow> transfer" where
  "set_done off t = t\<lparr>tDone := int off\<rparr>"

definition finish_push :: "nat \<Rightarrow> transfer \<Rightarrow> transfer" where
  "finish_push off t = t\<lparr>tState := TransferDone, tDone := int off\<rparr>"

text \<open>One iteration of the loop of \<open>pushFile\<close>: the goroutine goes on, or it has returned.\<close>

definition push_step :: "world \<Rightarrow> daemon \<Rightarrow> push \<Rightarrow> daemon \<times> push option" where
  "push_step w d p =
    (let t = puTransfer p; off = puOff p in
     case xfer_get d (tID t) of
       None \<Rightarrow> (d, None)
     | Some cur \<Rightarrow>
        (if tState cur \<noteq> TransferRunning then (d, None)
         else (case file_content (dmFS d) (tPath t) of
             None \<Rightarrow> (fst (fail_transfer d (tID t) (wErr w)), None)
           | Some content \<Rightarrow>
              (let chunk = take chunk_size (drop off content) in
               if chunk = [] then
                 (let d1 = fst (wire_write d (done_frame t off));
                      (d2, t') = xfer_update d1 (tID t) (finish_push off)
                  in (emit_transfer d2 (the t'), None))
               else (case wire_write d (chunk_frame t off chunk) of
                   (d1, False) \<Rightarrow> (fst (fail_transfer d1 (tID t) ''the server connection dropped mid-transfer''), None)
                 | (d1, True) \<Rightarrow>
                    (let (d2, t') = xfer_update d1 (tID t) (set_done (off + length chunk))
                     in if progress_interval < wNow w - puLast p
                        then (emit_transfer d2 (the t'), Some (p\<lparr>puOff := off + length chunk, puLast := wNow w\<rparr>))
                        else (d2, Some (p\<lparr>puOff := off + length chunk\<rparr>))))))))"

section \<open>Receiving the file\<close>

definition add_done :: "nat \<Rightarrow> transfer \<Rightarrow> transfer" where
  "add_done n t = t\<lparr>tDone := tDone t + int n\<rparr>"

definition chunk_place_text :: "int \<Rightarrow> int \<Rightarrow> string" where
  "chunk_place_text off expected =
     ''a chunk arrived at '' @ decimal_int off @ '', expected '' @ decimal_int expected"

definition got_chunk :: "world \<Rightarrow> daemon \<Rightarrow> frame \<Rightarrow> daemon" where
  "got_chunk w d f =
    (case xfer_get d (fTransfer f) of
       None \<Rightarrow> d
     | Some t \<Rightarrow>
        (if \<not> tIncoming t \<or> tState t \<noteq> TransferRunning then d
         else (case file_handle d (fTransfer f) of
             None \<Rightarrow> fst (fail_transfer d (fTransfer f) ''no open file for this transfer'')
           | Some path \<Rightarrow>
              (if fOffset f \<noteq> tDone t then fst (fail_transfer d (fTransfer f) (chunk_place_text (fOffset f) (tDone t)))
               else if tSize t < tDone t + int (length (fData f))
                 then fst (fail_transfer d (fTransfer f) ''more bytes arrived than were offered'')
               else if path \<in> set (fsNoWrite (dmFS d)) then fst (fail_transfer d (fTransfer f) (wErr w))
               else (case xfer_update (append_file d path (fData f)) (fTransfer f) (add_done (length (fData f))) of
                   (d1, None) \<Rightarrow> d1
                 | (d1, Some t') \<Rightarrow> emit_throttled w d1 t')))))"

definition finish_receive :: "transfer \<Rightarrow> transfer" where
  "finish_receive t = t\<lparr>tState := TransferDone, tDone := tSize t\<rparr>"

definition digest_ok :: "world \<Rightarrow> daemon \<Rightarrow> transfer \<Rightarrow> bool" where
  "digest_ok w d t \<longleftrightarrow> tSHA256 t = '''' \<or> tPath t = '''' \<or> file_sha256 w d (tPath t) = Some (tSHA256 t)"

definition got_done :: "world \<Rightarrow> daemon \<Rightarrow> frame \<Rightarrow> daemon" where
  "got_done w d f =
    (case xfer_get d (fTransfer f) of
       None \<Rightarrow> d
     | Some t \<Rightarrow>
        (if \<not> tIncoming t then d
         else (let d1 = fst (take_file d (fTransfer f)) in
           if \<not> digest_ok w d1 t
           then fst (fail_transfer (remove_file d1 (tPath t)) (fTransfer f) (''the file did not match the sender'' @ [CHR 0x27] @ ''s checksum''))
           else (case xfer_update d1 (fTransfer f) finish_receive of
               (d2, None) \<Rightarrow> d2
             | (d2, Some t') \<Rightarrow> system_message w (emit_transfer d2 t') (tConv t)
                 (''saved '' @ tName t @ '' to '' @ tPath t')))))"

end
