(* ===== verification/Beacon.thy ===== *)
theory Beacon
  imports Wire
begin

text \<open>
  The model of \<open>chatwire/discovery.go\<close> and \<open>chatwire/beacon.go\<close>: announcements and their checks,
  the beacon packet, the interfaces a beacon announces on, and its loop as a machine over the packets
  heard, its two tickers and cancellation. \<open>discovery_contract\<close> is the interface \<open>Discovery\<close> as
  its users see it: the calls it makes. Both implementations, the beacon and \<open>noDiscovery\<close>, are
  shown to satisfy it. Encoding an announcement as JSON is a parameter, a pair of functions; opening
  sockets is not modelled.
\<close>

section \<open>Announcements\<close>

record announcement =
  aVersion :: int
  aID :: server_id
  aName :: string
  aHost :: string
  aPort :: int
  aBye :: bool
  aAddr :: string
  aHeard :: gotime

definition zero_announcement :: announcement where
  "zero_announcement = \<lparr>aVersion = 0, aID = '''', aName = '''', aHost = '''', aPort = 0, aBye = False,
     aAddr = '''', aHeard = zero_time\<rparr>"

definition ann_valid :: "announcement \<Rightarrow> bool" where
  "ann_valid a \<longleftrightarrow> aVersion a = protocol_version \<and> length (aID a) = 32 \<and> is_hex (aID a)
     \<and> 0 < aPort a \<and> aPort a \<le> 65535 \<and> length (runes (aName a)) \<le> 64 \<and> length (runes (aHost a)) \<le> 64"

definition ann_clean :: "announcement \<Rightarrow> announcement" where
  "ann_clean a = a\<lparr>aName := clip_runes (aName a) 48, aHost := clip_runes (aHost a) 48\<rparr>"

text \<open>What JSON carries of an announcement: the address and the time are tagged \<open>json:"-"\<close>.\<close>

definition on_wire :: "announcement \<Rightarrow> announcement" where
  "on_wire a = a\<lparr>aAddr := '''', aHeard := zero_time\<rparr>"

section \<open>The packet\<close>

definition beacon_magic :: string where "beacon_magic = ''CHATLAN/2 ''"
definition beacon_max_packet :: nat where "beacon_max_packet = 1200"

definition encode_beacon :: "(announcement \<Rightarrow> nat list option) \<Rightarrow> announcement \<Rightarrow> nat list option" where
  "encode_beacon enc a = (case enc (on_wire a) of
      None \<Rightarrow> None
    | Some body \<Rightarrow> (let pkt = bytes_of beacon_magic @ body
        in if beacon_max_packet < length pkt then None else Some pkt))"

text \<open>\<open>net.JoinHostPort\<close>.\<close>

definition join_host_port :: "string \<Rightarrow> int \<Rightarrow> string" where
  "join_host_port host port = (if CHR '':'' \<in> set host then ''['' @ host @ '']:'' @ decimal_int port
     else host @ '':'' @ decimal_int port)"

text \<open>\<open>src\<close> is the text of the source address, if the packet has a UDP source with one.\<close>

definition parse_beacon :: "(nat list \<Rightarrow> announcement option) \<Rightarrow> gotime \<Rightarrow> nat list \<Rightarrow> string option
    \<Rightarrow> announcement option" where
  "parse_beacon dec now pkt src =
    (if beacon_max_packet + 64 < length pkt \<or> length pkt < length beacon_magic then None
     else if take (length beacon_magic) pkt \<noteq> bytes_of beacon_magic then None
     else (case dec (drop (length beacon_magic) pkt) of
         None \<Rightarrow> None
       | Some a0 \<Rightarrow>
          (if \<not> ann_valid (on_wire a0) then None
           else (let a1 = (ann_clean (on_wire a0))\<lparr>aHeard := now\<rparr>;
                     a2 = (case src of None \<Rightarrow> a1 | Some ip \<Rightarrow> a1\<lparr>aAddr := join_host_port ip (aPort a1)\<rparr>)
                 in if aAddr a2 = '''' \<and> \<not> aBye a2 then None else Some a2))))"

section \<open>Configuration\<close>

record beacon =
  bcGroup :: string
  bcPort :: int
  bcInterval :: int
  bcExpiry :: int
  bcIface :: string
  bcLoopback :: bool
  bcAnn :: announcement

definition new_beacon :: "string \<Rightarrow> beacon" where
  "new_beacon iface = \<lparr>bcGroup = '''', bcPort = 0, bcInterval = 0, bcExpiry = 0, bcIface = trim_space iface,
     bcLoopback = True, bcAnn = zero_announcement\<rparr>"

definition beacon_update :: "beacon \<Rightarrow> announcement \<Rightarrow> beacon" where
  "beacon_update b a = b\<lparr>bcAnn := a\<lparr>aVersion := protocol_version\<rparr>\<rparr>"

definition beacon_group :: "beacon \<Rightarrow> string" where
  "beacon_group b = (if bcGroup b \<noteq> '''' then bcGroup b else ''239.192.77.77'')"

definition beacon_port :: "beacon \<Rightarrow> int" where
  "beacon_port b = (if 0 < bcPort b then bcPort b else 47771)"

definition beacon_interval :: "beacon \<Rightarrow> int" where
  "beacon_interval b = (if 0 < bcInterval b then bcInterval b else 12 * second_ns)"

definition beacon_expiry :: "beacon \<Rightarrow> int" where
  "beacon_expiry b = (if 0 < bcExpiry b then bcExpiry b else 40 * second_ns)"

section \<open>Interfaces\<close>

text \<open>An interface, and for each of its addresses whether it is an IPv4 one; \<open>None\<close> where listing them fails.\<close>

record iface =
  ifName :: string
  ifUp :: bool
  ifMulticast :: bool
  ifAddrs :: "bool list option"

definition has_ipv4 :: "iface \<Rightarrow> bool" where
  "has_ipv4 i = (case ifAddrs i of None \<Rightarrow> False | Some l \<Rightarrow> list_ex id l)"

definition announces_on :: "beacon \<Rightarrow> iface \<Rightarrow> bool" where
  "announces_on b i \<longleftrightarrow> (bcIface b = '''' \<or> ifName i = bcIface b) \<and> ifUp i \<and> ifMulticast i \<and> has_ipv4 i"

text \<open>The interfaces and the notes; \<open>Inl\<close> is the text of the error of listing them.\<close>

definition multicast_interfaces :: "beacon \<Rightarrow> string + iface list \<Rightarrow> iface list \<times> string list" where
  "multicast_interfaces b all = (case all of
      Inl e \<Rightarrow> ([], [''beacon: cannot list interfaces: '' @ e])
    | Inr l \<Rightarrow> (filter (announces_on b) l,
        if filter (announces_on b) l = [] \<and> bcIface b \<noteq> ''''
        then [''beacon: UITK_CHAT_IFACE='' @ bcIface b @ '' matches no up multicast interface''] else []))"

text \<open>Joining the group on each interface, with the error each join gives; the last is joining on none.\<close>

fun join_note :: "string \<Rightarrow> iface \<times> string option \<Rightarrow> string list" where
  "join_note ip (i, None) = []"
| "join_note ip (i, Some e) = [''beacon: '' @ ifName i @ '': join '' @ ip @ '': '' @ e]"

definition joined :: "iface \<times> string option \<Rightarrow> bool" where
  "joined p \<longleftrightarrow> snd p = None"

definition join_groups :: "string \<Rightarrow> (iface \<times> string option) list \<Rightarrow> string option \<Rightarrow> string list" where
  "join_groups ip results fallback =
     concat (map (join_note ip) results)
     @ (if filter joined results \<noteq> [] then []
        else (case fallback of None \<Rightarrow> [] | Some e \<Rightarrow> [''beacon: no interface joined '' @ ip @ '': '' @ e]))"

section \<open>The loop of Run\<close>

datatype disc_call = Appeared announcement | Left server_id | Note string

text \<open>
  \<open>brIfaces\<close> says of each joined interface whether announcing on it can be set up, \<open>brHeard\<close> is the
  channel from the reader, \<open>brLast\<close> the map \<open>last\<close>. \<open>brCalls\<close> is the log of callbacks made,
  \<open>brSent\<close> that of packets sent.
\<close>

record beacon_run =
  brBeacon :: beacon
  brIfaces :: "bool list"
  brSelf :: server_id
  brHeard :: "announcement list"
  brLast :: "(server_id \<times> gotime) list"
  brCalls :: "disc_call list"
  brSent :: "nat list list"
  brStopped :: bool

definition call :: "beacon_run \<Rightarrow> disc_call \<Rightarrow> beacon_run" where
  "call s c = s\<lparr>brCalls := brCalls s @ [c]\<rparr>"

definition announce :: "(announcement \<Rightarrow> nat list option) \<Rightarrow> bool \<Rightarrow> beacon_run \<Rightarrow> beacon_run" where
  "announce enc bye s =
    (let a = bcAnn (brBeacon s) in
     if aID a = '''' then s
     else (case encode_beacon enc (a\<lparr>aVersion := protocol_version, aBye := bye\<rparr>) of
         None \<Rightarrow> s
       | Some pkt \<Rightarrow> s\<lparr>brSent := brSent s @
            (if brIfaces s = [] then [pkt] else map (\<lambda>_. pkt) (filter id (brIfaces s)))\<rparr>))"

definition start_beacon :: "(announcement \<Rightarrow> nat list option) \<Rightarrow> beacon \<Rightarrow> bool list \<Rightarrow> string list \<Rightarrow> beacon_run" where
  "start_beacon enc b ifs notes = announce enc False
     \<lparr>brBeacon = b, brIfaces = ifs, brSelf = aID (bcAnn b), brHeard = [], brLast = [],
      brCalls = map Note notes, brSent = [], brStopped = False\<rparr>"

text \<open>One packet read: our own are skipped, and a full channel drops what is heard.\<close>

definition reader_step :: "(nat list \<Rightarrow> announcement option) \<Rightarrow> gotime \<Rightarrow> nat list \<Rightarrow> string option \<Rightarrow> beacon_run \<Rightarrow> beacon_run" where
  "reader_step dec now pkt src s =
    (case parse_beacon dec now pkt src of
       None \<Rightarrow> s
     | Some a \<Rightarrow>
        (if aID a = '''' then s
         else (let self = (if brSelf s = '''' then aID (bcAnn (brBeacon s)) else brSelf s);
                   s1 = s\<lparr>brSelf := self\<rparr>
               in if aID a = self then s1
                  else if length (brHeard s1) < 64 then s1\<lparr>brHeard := brHeard s1 @ [a]\<rparr> else s1)))"

definition hear :: "announcement \<Rightarrow> beacon_run \<Rightarrow> beacon_run" where
  "hear a s =
    (if aBye a then
       (if map_of (brLast s) (aID a) \<noteq> None
        then call (s\<lparr>brLast := AList.delete (aID a) (brLast s)\<rparr>) (Left (aID a)) else s)
     else call (s\<lparr>brLast := AList.update (aID a) (aHeard a) (brLast s)\<rparr>) (Appeared a))"

definition quiet_entry :: "int \<Rightarrow> gotime \<Rightarrow> server_id \<times> gotime \<Rightarrow> bool" where
  "quiet_entry expiry now e \<longleftrightarrow> expiry < now - snd e"

definition heard_lately :: "int \<Rightarrow> gotime \<Rightarrow> server_id \<times> gotime \<Rightarrow> bool" where
  "heard_lately expiry now e \<longleftrightarrow> \<not> quiet_entry expiry now e"

definition sweep :: "gotime \<Rightarrow> beacon_run \<Rightarrow> beacon_run" where
  "sweep now s =
    (let ex = beacon_expiry (brBeacon s) in
     s\<lparr>brLast := filter (heard_lately ex now) (brLast s),
       brCalls := brCalls s @ map (\<lambda>e. Left (fst e)) (filter (quiet_entry ex now) (brLast s))\<rparr>)"

datatype beacon_event =
  Packet gotime "nat list" "string option" | TakeHeard | AnnounceTick | SweepTick gotime
| UpdateAnn announcement | CancelRun

definition beacon_step :: "(announcement \<Rightarrow> nat list option) \<Rightarrow> (nat list \<Rightarrow> announcement option)
    \<Rightarrow> beacon_run \<Rightarrow> beacon_event \<Rightarrow> beacon_run" where
  "beacon_step enc dec s e =
    (if brStopped s then s
     else (case e of
         Packet now pkt src \<Rightarrow> reader_step dec now pkt src s
       | TakeHeard \<Rightarrow> (case brHeard s of [] \<Rightarrow> s | a # as \<Rightarrow> hear a (s\<lparr>brHeard := as\<rparr>))
       | AnnounceTick \<Rightarrow> announce enc False s
       | SweepTick now \<Rightarrow> sweep now s
       | UpdateAnn a \<Rightarrow> s\<lparr>brBeacon := beacon_update (brBeacon s) a\<rparr>
       | CancelRun \<Rightarrow> (announce enc True s)\<lparr>brStopped := True\<rparr>))"

text \<open>\<open>noDiscovery\<close>: it waits, and makes no calls.\<close>

definition no_discovery_step :: "disc_call list \<Rightarrow> beacon_event \<Rightarrow> disc_call list" where
  "no_discovery_step s e = s"

section \<open>The contract of Discovery\<close>

text \<open>
  What a caller knows of a server from the calls so far: \<open>track\<close> follows one server through a list of
  calls and fails where a server leaves that is not there.
\<close>

fun track :: "server_id \<Rightarrow> bool \<Rightarrow> disc_call list \<Rightarrow> bool option" where
  "track i here [] = Some here"
| "track i here (Appeared a # cs) = track i (here \<or> aID a = i) cs"
| "track i here (Left j # cs) = (if j = i then (if here then track i False cs else None) else track i here cs)"
| "track i here (Note n # cs) = track i here cs"

lemma track_append: "track i here (xs @ ys) = (case track i here xs of None \<Rightarrow> None | Some h \<Rightarrow> track i h ys)"
  by (induction i here xs rule: track.induct) auto

lemma track_absent:
  "track i False cs = Some h \<Longrightarrow> (\<forall>a. Appeared a \<in> set cs \<longrightarrow> aID a \<noteq> i) \<Longrightarrow> Left i \<notin> set cs \<and> \<not> h"
proof (induction cs)
  case (Cons c cs)
  then show ?case by (cases c) (auto split: if_splits)
qed simp

locale discovery_contract =
  fixes step :: "'s \<Rightarrow> 'e \<Rightarrow> 's" and calls :: "'s \<Rightarrow> disc_call list"
    and known :: "'s \<Rightarrow> server_id \<Rightarrow> bool" and inv :: "'s \<Rightarrow> bool"
  assumes inv_step: "inv s \<Longrightarrow> inv (step s e)"
    and calls_step: "inv s \<Longrightarrow> \<exists>new. calls (step s e) = calls s @ new
       \<and> (\<forall>i. track i (known s i) new = Some (known (step s e) i))"
begin

lemma calls_run:
  "inv s \<Longrightarrow> \<exists>new. calls (foldl step s es) = calls s @ new
     \<and> (\<forall>i. track i (known s i) new = Some (known (foldl step s es) i))"
proof (induction es arbitrary: s)
  case Nil
  then show ?case by (intro exI [of _ "[]"]) simp
next
  case (Cons e es)
  from calls_step [OF Cons.prems, of e] obtain n1 where n1: "calls (step s e) = calls s @ n1"
    and t1: "\<And>i. track i (known s i) n1 = Some (known (step s e) i)" by blast
  from Cons.IH [OF inv_step [OF Cons.prems, of e]] obtain n2 where
    n2: "calls (foldl step (step s e) es) = calls (step s e) @ n2"
    and t2: "\<And>i. track i (known (step s e) i) n2 = Some (known (foldl step (step s e) es) i)" by blast
  show ?case
    by (intro exI [of _ "n1 @ n2"]) (simp add: n1 n2 t1 t2 track_append)
qed

text \<open>A server that leaves had appeared, and between two departures it appeared again.\<close>

lemma left_after_appeared:
  assumes "inv s" and "calls s = []" and "\<not> known s i"
    and "calls (foldl step s es) = xs @ Left i # ys"
  shows "\<exists>a. Appeared a \<in> set xs \<and> aID a = i"
proof (rule ccontr)
  assume none: "\<nexists>a. Appeared a \<in> set xs \<and> aID a = i"
  from calls_run [OF assms(1), of es] assms(2,4)
  have "track i (known s i) (xs @ Left i # ys) = Some (known (foldl step s es) i)" by auto
  with assms(3) have "track i False (xs @ Left i # ys) \<noteq> None" by simp
  then obtain h where h: "track i False xs = Some h" "track i h (Left i # ys) \<noteq> None"
    by (auto simp: track_append split: option.splits)
  with track_absent [OF h(1)] none show False by auto
qed

lemma left_once:
  assumes "inv s" and "calls s = []"
    and "calls (foldl step s es) = xs @ Left i # ys @ Left i # zs"
  shows "\<exists>a. Appeared a \<in> set ys \<and> aID a = i"
proof (rule ccontr)
  assume none: "\<nexists>a. Appeared a \<in> set ys \<and> aID a = i"
  from calls_run [OF assms(1), of es] assms(2,3)
  have "track i (known s i) (xs @ Left i # ys @ Left i # zs) = Some (known (foldl step s es) i)" by auto
  then obtain h h2 where h: "track i False ys = Some h2" "track i h2 (Left i # zs) \<noteq> None"
    by (auto simp: track_append split: option.splits if_splits)
  with track_absent [OF h(1)] none show False by auto
qed

end

section \<open>The beacon satisfies it\<close>

definition beacon_inv :: "beacon_run \<Rightarrow> bool" where
  "beacon_inv s \<longleftrightarrow> map_ok (brLast s)"

definition beacon_known :: "beacon_run \<Rightarrow> server_id \<Rightarrow> bool" where
  "beacon_known s i \<longleftrightarrow> map_of (brLast s) i \<noteq> None"

lemma announce_frame [simp]:
  "brLast (announce enc bye s) = brLast s" "brCalls (announce enc bye s) = brCalls s"
  "brHeard (announce enc bye s) = brHeard s" "brStopped (announce enc bye s) = brStopped s"
  "brBeacon (announce enc bye s) = brBeacon s"
  by (simp_all add: announce_def Let_def split: option.splits)

lemma reader_frame [simp]:
  "brLast (reader_step dec now pkt src s) = brLast s" "brCalls (reader_step dec now pkt src s) = brCalls s"
  by (simp_all add: reader_step_def Let_def split: option.splits)

lemma hear_track:
  "\<exists>new. brCalls (hear a s) = brCalls s @ new
     \<and> (\<forall>i. track i (beacon_known s i) new = Some (beacon_known (hear a s) i))"
  by (auto simp: hear_def call_def beacon_known_def)

lemma track_sweep:
  "map_ok l \<Longrightarrow> track i (map_of l i \<noteq> None) (map (\<lambda>e. Left (fst e)) (filter P l))
     = Some (map_of (filter (\<lambda>e. \<not> P e) l) i \<noteq> None)"
proof (induction l)
  case (Cons e l)
  obtain j t where e: "e = (j, t)" by (cases e)
  from Cons.prems have ok: "map_ok l" and out: "map_of l j = None"
    by (auto simp: map_ok_def e map_of_eq_None_iff)
  have gone: "map_of (filter (\<lambda>e. \<not> P e) l) j = None" using out ok by (simp add: map_of_filter)
  have other: "track i (map_of l i \<noteq> None) (map (\<lambda>e. Left (fst e)) (filter P l))
      = Some (map_of (filter (\<lambda>e. \<not> P e) l) i \<noteq> None)" by (rule Cons.IH [OF ok])
  have none: "track j True (map (\<lambda>e. Left (fst e)) (filter P l)) = Some True"
  proof -
    have "Left j \<notin> set (map (\<lambda>e. Left (fst e)) (filter P l))"
      using out by (force simp: map_of_eq_None_iff)
    then show ?thesis by (induction l) (auto split: if_splits)
  qed
  show ?case
  proof (cases "i = j")
    case True
    with other out gone none show ?thesis by (simp add: e)
  next
    case False
    with other show ?thesis by (simp add: e)
  qed
qed simp

interpretation beacon_discovery: discovery_contract "beacon_step enc dec" brCalls beacon_known beacon_inv
proof
  fix s e
  assume inv: "beacon_inv s"
  show "beacon_inv (beacon_step enc dec s e)"
    using inv by (auto simp: beacon_step_def beacon_inv_def hear_def call_def sweep_def Let_def
        split: beacon_event.splits list.splits)
  show "\<exists>new. brCalls (beacon_step enc dec s e) = brCalls s @ new
      \<and> (\<forall>i. track i (beacon_known s i) new = Some (beacon_known (beacon_step enc dec s e) i))"
  proof (cases "brStopped s")
    case True
    then show ?thesis by (intro exI [of _ "[]"]) (simp add: beacon_step_def)
  next
    case False
    show ?thesis
    proof (cases e)
      case (SweepTick now)
      let ?ex = "beacon_expiry (brBeacon s)"
      have "heard_lately ?ex now = (\<lambda>e. \<not> quiet_entry ?ex now e)" by (auto simp: heard_lately_def)
      with False SweepTick inv track_sweep [of "brLast s" _ "quiet_entry ?ex now"] show ?thesis
        by (auto simp: beacon_step_def sweep_def Let_def beacon_known_def beacon_inv_def)
    next
      case TakeHeard
      show ?thesis
      proof (cases "brHeard s")
        case Nil
        with False TakeHeard show ?thesis by (simp add: beacon_step_def)
      next
        case (Cons a as)
        have "brCalls (s\<lparr>brHeard := as\<rparr>) = brCalls s" "beacon_known (s\<lparr>brHeard := as\<rparr>) = beacon_known s"
          by (auto simp: beacon_known_def)
        with hear_track [of a "s\<lparr>brHeard := as\<rparr>"] False TakeHeard Cons show ?thesis
          by (simp add: beacon_step_def)
      qed
    qed (use False in \<open>auto simp: beacon_step_def beacon_known_def\<close>)
  qed
qed

interpretation no_discovery: discovery_contract no_discovery_step "\<lambda>s. s" "\<lambda>s i. False" "\<lambda>s. s = []"
  by unfold_locales (auto simp: no_discovery_step_def)

section \<open>Packets\<close>

lemma bytes_of_magic [simp]: "length (bytes_of beacon_magic) = length beacon_magic"
  by (simp add: bytes_of_def)

lemma encode_beacon_bounds: "encode_beacon enc a = Some pkt \<Longrightarrow> length pkt \<le> beacon_max_packet"
  by (auto simp: encode_beacon_def Let_def split: option.splits if_splits)

lemma parse_encode_beacon:
  assumes "encode_beacon enc a = Some pkt" and "\<And>b. enc (on_wire a) = Some b \<Longrightarrow> dec b = Some (on_wire a)"
    and "ann_valid a"
  shows "parse_beacon dec now pkt (Some ip)
    = Some ((ann_clean a)\<lparr>aHeard := now, aAddr := join_host_port ip (aPort a)\<rparr>)"
proof -
  from assms(1) obtain body where b: "enc (on_wire a) = Some body" "pkt = bytes_of beacon_magic @ body"
    "length pkt \<le> beacon_max_packet"
    by (auto simp: encode_beacon_def Let_def split: option.splits if_splits)
  have "take (length beacon_magic) pkt = bytes_of beacon_magic" "drop (length beacon_magic) pkt = body"
    using b(2) by (simp_all add: bytes_of_def)
  moreover have "\<not> (beacon_max_packet + 64 < length pkt \<or> length pkt < length beacon_magic)" using b(2,3) by simp
  moreover have "ann_valid (on_wire a)" using assms(3) by (simp add: ann_valid_def on_wire_def)
  moreover have "join_host_port ip (aPort a) \<noteq> ''''" by (simp add: join_host_port_def)
  ultimately show ?thesis using assms(2) [OF b(1)]
    by (simp add: parse_beacon_def Let_def ann_clean_def on_wire_def)
qed

text \<open>Whatever a packet holds, the address is the one it came from, and the announcement is checked.\<close>

lemma parse_beacon_address:
  "parse_beacon dec now pkt src = Some a \<Longrightarrow>
     (case src of Some ip \<Rightarrow> aAddr a = join_host_port ip (aPort a) | None \<Rightarrow> aAddr a = '''' \<and> aBye a)
     \<and> 0 < aPort a \<and> aPort a \<le> 65535 \<and> length (aID a) = 32 \<and> aHeard a = now
     \<and> length (runes (aName a)) \<le> 48 \<and> length (runes (aHost a)) \<le> 48"
  by (auto simp: parse_beacon_def Let_def ann_valid_def ann_clean_def on_wire_def clip_runes_length
      split: if_splits option.splits)

end
