(* ===== verification/Link.thy ===== *)
theory Link
  imports Transfers Beacon
begin

text \<open>
  The model of \<open>chatclientd/link.go\<close>: finding the server's address, the retry delay, one session
  from enrolment to its end, every frame from the server folded into the cache, and the cursor.
  \<open>daemon_step\<close> composes the handlers of this and the theories before into one machine over what
  can happen to a client daemon.
\<close>

section \<open>Addresses\<close>

fun last_index :: "string \<Rightarrow> char \<Rightarrow> nat option" where
  "last_index [] c = None"
| "last_index (x # xs) c = (case last_index xs c of Some i \<Rightarrow> Some (Suc i)
     | None \<Rightarrow> (if x = c then Some 0 else None))"

text \<open>Whether \<open>net.SplitHostPort\<close> succeeds.\<close>

definition splits_host_port :: "string \<Rightarrow> bool" where
  "splits_host_port s = (case last_index s (CHR '':'') of
      None \<Rightarrow> False
    | Some i \<Rightarrow>
       (if hd s = CHR ''['' then
          (case index_byte s (CHR '']'') of
             None \<Rightarrow> False
           | Some e \<Rightarrow> Suc e = i \<and> CHR ''['' \<notin> set (drop 1 s) \<and> CHR '']'' \<notin> set (drop (Suc e) s))
        else CHR '':'' \<notin> set (take i s) \<and> CHR ''['' \<notin> set s \<and> CHR '']'' \<notin> set s))"

definition normalize_addr :: "string \<Rightarrow> string" where
  "normalize_addr s0 = (let s = trim_space s0 in
     if s = '''' then '''' else if splits_host_port s then s else join_host_port s default_server_port)"

definition server_target :: "world \<Rightarrow> daemon \<Rightarrow> string" where
  "server_target w d =
    (if normalize_addr (dmAddr d) \<noteq> '''' then normalize_addr (dmAddr d)
     else if normalize_addr (wServerEnv w) \<noteq> '''' then normalize_addr (wServerEnv w)
     else dmHeard d)"

section \<open>The retry delay of linkLoop\<close>

definition first_wait :: int where "first_wait = 250000000"

definition next_wait :: "bool \<Rightarrow> int \<Rightarrow> int" where
  "next_wait woken wait = (if woken then first_wait else if wait < 10 * second_ns then wait * 2 else wait)"

section \<open>The cursor\<close>

definition advance :: "daemon \<Rightarrow> uint64 \<Rightarrow> daemon" where
  "advance d q = (if q = 0 then d else if dmCursor d < q then d\<lparr>dmCursor := q\<rparr> else d)"

section \<open>Frames from the server\<close>

text \<open>A message that was new to the cache: what follows from \<open>added\<close>.\<close>

definition received :: "daemon \<Rightarrow> message \<Rightarrow> daemon" where
  "received d m =
    (let d1 = clear_typing d (mFrom m) (mConv m);
         d2 = emit d1 ((event_of event_message)\<lparr>evConv := mConv m, evPeer := mFrom m, evMsg := Some m\<rparr>)
     in if mMine m then d2 else maybe_notify d2 m (get_or zero_peer (stPeers (dmStore d2)) (mFrom m)))"

definition store_message :: "world \<Rightarrow> daemon \<Rightarrow> message \<Rightarrow> daemon" where
  "store_message w d m =
    (case append_message (wNow w) (dmStore d) m of
       (s', added, err) \<Rightarrow> (if err \<noteq> None \<or> \<not> added then with_dstore d s' else received (with_dstore d s') m))"

definition got_own :: "world \<Rightarrow> daemon \<Rightarrow> message \<Rightarrow> daemon" where
  "got_own w d m =
    (case confirm (dmStore d) (mID m) (mSeq m) of
       (s', Some _) \<Rightarrow> with_dstore d s'
     | (s', None) \<Rightarrow> store_message w (with_dstore d s') (m\<lparr>mRead := True, mState := StateDelivered\<rparr>))"

definition got_message :: "world \<Rightarrow> daemon \<Rightarrow> frame \<Rightarrow> daemon" where
  "got_message w d0 f =
    (if fFrom f = '''' then d0
     else (let d = advance d0 (fSeq f) in
       if blocked (dmStore d) (fFrom f) then d
       else (case message_from_frame (wNow w) f (fFrom f) of
           None \<Rightarrow> d
         | Some m \<Rightarrow>
            (if mFrom m = iID (stSelf (dmStore d)) then got_own w d (m\<lparr>mMine := True\<rparr>)
             else store_message w d m))))"

definition got_seq :: "daemon \<Rightarrow> frame \<Rightarrow> daemon" where
  "got_seq d0 f =
    (let d = advance d0 (fSeq f) in
     case confirm (dmStore d) (fID f) (fSeq f) of
       (s', None) \<Rightarrow> with_dstore d s'
     | (s', Some m) \<Rightarrow> emit (with_dstore d s') ((event_of event_state)\<lparr>evConv := mConv m, evMsg := Some m\<rparr>))"

definition put_roster :: "store \<times> bool \<Rightarrow> peer \<Rightarrow> store \<times> bool" where
  "put_roster sc p =
    (if pID p = '''' \<or> pID p = iID (stSelf (fst sc)) then sc
     else (fst (put_peer (fst sc) p), snd sc \<or> snd (put_peer (fst sc) p)))"

definition got_roster :: "daemon \<Rightarrow> frame \<Rightarrow> daemon" where
  "got_roster d f =
    (case fPeer f of
       Some p \<Rightarrow>
         (case put_roster (dmStore d, False) p of
            (s', changed) \<Rightarrow> (if changed then emit (with_dstore d s') ((event_of event_peers)\<lparr>evPeer := pID p\<rparr>)
              else with_dstore d s'))
     | None \<Rightarrow>
         (case foldl put_roster (dmStore d, False) (fPeers f) of
            (s', changed) \<Rightarrow> (if changed then emit (with_dstore d s') (event_of event_peers) else with_dstore d s')))"

definition got_synced :: "daemon \<Rightarrow> frame \<Rightarrow> daemon" where
  "got_synced d f = emit (flush_queue (save_cursor (advance d (fCursor f)))) (event_of event_peers)"

definition got_error :: "daemon \<Rightarrow> frame \<Rightarrow> daemon" where
  "got_error d f = emit d ((event_of event_status)\<lparr>evText := ''server: '' @ fReason f\<rparr>)"

definition apply_frame :: "world \<Rightarrow> daemon \<Rightarrow> frame \<Rightarrow> daemon" where
  "apply_frame w d f =
    (if fType f = frame_msg then got_message w d f
     else if fType f = frame_seq then got_seq d f
     else if fType f = frame_roster then got_roster d f
     else if fType f = frame_typing then
       (if fFrom f \<noteq> '''' then got_typing w d (fFrom f) (fConv f) (fTyping f) else d)
     else if fType f = frame_synced then got_synced d f
     else if fType f = frame_offer then got_offer w d f
     else if fType f = frame_accept then got_accept w d f
     else if fType f = frame_decline then got_decline w d f
     else if fType f = frame_chunk then got_chunk w d f
     else if fType f = frame_done then got_done w d f
     else if fType f = frame_error then got_error d f
     else d)"

section \<open>A session\<close>

definition welcome_error_text :: "(nat \<Rightarrow> bool) \<Rightarrow> hello_error \<Rightarrow> string" where
  "welcome_error_text printable e = (case e of
      NotAHello t \<Rightarrow> ''chat: expected a welcome frame, got '' @ go_quote printable t
    | WrongVersion v \<Rightarrow> ''chat: server speaks protocol version '' @ decimal_int v @ '', this build speaks 2''
    | MalformedId \<Rightarrow> ''chat: server sent a malformed id''
    | EnrolmentRefused r \<Rightarrow> ''chat: the server refused the enrolment: '' @ r)"

definition enrolment :: "daemon \<Rightarrow> frame" where
  "enrolment d = hello_frame (stSelf (dmStore d)) (dmHost d) (dmCursor d) (dmServerID d)"

definition enrolled :: "daemon \<Rightarrow> string \<Rightarrow> frame \<Rightarrow> nat \<Rightarrow> daemon" where
  "enrolled d addr welcome takes =
    (let d1 = d\<lparr>dmCursor := (if fServer welcome \<noteq> dmServerID d \<or> fReset welcome then 0 else dmCursor d),
           dmServerID := fServer welcome, dmSrvName := clip_runes (fServerName welcome) 48, dmServer := addr,
           dmConn := True, dmConnected := True, dmTakes := takes, dmWire := [enrolment d]\<rparr>;
         d2 = emit d1 ((event_of event_status)\<lparr>evText := ''connected to '' @ addr\<rparr>)
     in emit d2 (event_of event_peers))"

text \<open>
  \<open>session\<close> up to its read loop: the outcome of dialling, of writing the enrolment and of reading
  the answer is a text or a frame.
\<close>

definition session_open :: "world \<Rightarrow> daemon \<Rightarrow> string \<Rightarrow> string + frame \<Rightarrow> nat \<Rightarrow> string + daemon" where
  "session_open w d addr outcome takes =
    (case outcome of
       Inl e \<Rightarrow> Inl e
     | Inr welcome \<Rightarrow> (case valid_welcome welcome of
         Some e \<Rightarrow> Inl (welcome_error_text (wPrint w) e)
       | None \<Rightarrow> Inr (enrolled d addr welcome takes)))"

definition mark_offline :: "world \<Rightarrow> store \<Rightarrow> peer \<Rightarrow> store" where
  "mark_offline w s p = fst (set_presence (wNow w) s (pID p) presence_offline)"

definition mark_everyone_offline :: "world \<Rightarrow> daemon \<Rightarrow> daemon" where
  "mark_everyone_offline w d = with_dstore d (foldl (mark_offline w) (dmStore d) (peers (dmStore d)))"

definition link_error :: "daemon \<Rightarrow> string \<Rightarrow> daemon" where
  "link_error d e = emit d ((event_of event_status)\<lparr>evText := ''server: '' @ e\<rparr>)"

definition unreachable_text :: string where
  "unreachable_text = ''the server is unreachable '' @ [CHR 0xE2, CHR 0x80, CHR 0x94]
     @ '' showing what this machine already has''"

text \<open>The end of \<open>session\<close>, after its read loop.\<close>

definition session_close :: "world \<Rightarrow> daemon \<Rightarrow> daemon" where
  "session_close w d =
    (let d1 = save_cursor (d\<lparr>dmConn := False, dmConnected := False\<rparr>);
         d2 = clear_all_typing (mark_everyone_offline w d1);
         d3 = fail_live_transfers d2 ''the server connection dropped'';
         d4 = emit d3 ((event_of event_status)\<lparr>evText := unreachable_text\<rparr>)
     in emit d4 (event_of event_peers))"

text \<open>What one turn of \<open>linkLoop\<close> does before it waits, where it does not enter a read loop.\<close>

definition attempt :: "world \<Rightarrow> daemon \<Rightarrow> string + frame \<Rightarrow> nat \<Rightarrow> daemon" where
  "attempt w d outcome takes =
    (if server_target w d = '''' then disc_note d ''looking for a server''
     else (case session_open w d (server_target w d) outcome takes of
         Inl e \<Rightarrow> link_error d e
       | Inr d' \<Rightarrow> d'))"

text \<open>The read loop ends with an error, and the turn of \<open>linkLoop\<close> with it.\<close>

definition link_down :: "world \<Rightarrow> daemon \<Rightarrow> string \<Rightarrow> daemon" where
  "link_down w d e = link_error (session_close w d) e"

definition read_frame_step :: "world \<Rightarrow> daemon \<Rightarrow> frame \<Rightarrow> daemon" where
  "read_frame_step w d f =
    (if fType f = frame_bye then link_down w d (''the server said goodbye: '' @ fReason f)
     else if fType f = frame_ping then fst (wire_write d (frame_of frame_pong))
     else if fType f = frame_pong then d
     else apply_frame w d f)"

section \<open>The daemon as a machine\<close>

text \<open>
  What can happen to a daemon: discovery, a turn of the link loop, a frame or the end of a session,
  the typing ticker, a method a front end calls, and a step of a goroutine it started.
\<close>

datatype daemon_event =
  Announced string string bool
| Noted string
| DiscoveryStopped string
| Attempt "string + frame" nat
| Incoming frame
| LinkLost string
| TypingTick
| CallSend conv_id string
| CallPresence presence
| CallIdentity identity
| CallJoin string
| CallLeave string
| CallTyping conv_id bool
| CallOffer conv_id string
| CallAccept transfer_id
| CallDecline transfer_id string
| CallRead conv_id
| CallBlock peer_id bool
| CallPrefs notify_prefs
| PushTurn nat
| AcceptTurn

definition push_turn :: "world \<Rightarrow> daemon \<Rightarrow> nat \<Rightarrow> daemon" where
  "push_turn w d k =
    (if length (dmPush d) \<le> k then d
     else (case push_step w d (dmPush d ! k) of
         (d', None) \<Rightarrow> d'\<lparr>dmPush := take k (dmPush d) @ drop (Suc k) (dmPush d)\<rparr>
       | (d', Some p) \<Rightarrow> d'\<lparr>dmPush := (dmPush d)[k := p]\<rparr>))"

definition accept_turn :: "world \<Rightarrow> daemon \<Rightarrow> daemon" where
  "accept_turn w d = (case dmAccept d of
      [] \<Rightarrow> d
    | i # is' \<Rightarrow> fst (daemon_accept w (d\<lparr>dmAccept := is'\<rparr>) i))"

definition daemon_step :: "daemon \<Rightarrow> world \<times> daemon_event \<Rightarrow> daemon" where
  "daemon_step d we = (case we of (w, e) \<Rightarrow> (case e of
      Announced addr name bye \<Rightarrow> server_appeared d addr name bye
    | Noted msg \<Rightarrow> disc_note d msg
    | DiscoveryStopped msg \<Rightarrow> disc_stopped d msg
    | Attempt outcome takes \<Rightarrow> (if dmConnected d then d else attempt w d outcome takes)
    | Incoming f \<Rightarrow> (if dmConnected d then read_frame_step w d f else d)
    | LinkLost msg \<Rightarrow> (if dmConnected d then link_down w d msg else d)
    | TypingTick \<Rightarrow> expire_typing w d
    | CallSend conv body \<Rightarrow> fst (daemon_send w d conv body)
    | CallPresence p \<Rightarrow> fst (daemon_set_presence w d p)
    | CallIdentity i \<Rightarrow> (case set_self (wEnv w) (wFresh w) (dmStore d) i of
          (s', _, None) \<Rightarrow> readvertise (with_dstore d s')
        | (s', _, Some _) \<Rightarrow> with_dstore d s')
    | CallJoin name \<Rightarrow> fst (daemon_join w d name)
    | CallLeave name \<Rightarrow> fst (daemon_leave w d name)
    | CallTyping conv on \<Rightarrow> daemon_typing d conv on
    | CallOffer conv path \<Rightarrow> fst (daemon_offer w d conv path)
    | CallAccept i \<Rightarrow> fst (daemon_accept w d i)
    | CallDecline i reason \<Rightarrow> fst (daemon_decline w d i reason)
    | CallRead conv \<Rightarrow> with_dstore d (fst (mark_read (dmStore d) conv))
    | CallBlock i b \<Rightarrow> with_dstore d (fst (block_peer (dmStore d) i b))
    | CallPrefs p \<Rightarrow> with_dstore d (fst (set_notify_prefs (dmStore d) p))
    | PushTurn k \<Rightarrow> push_turn w d k
    | AcceptTurn \<Rightarrow> accept_turn w d))"

definition daemon_run :: "daemon \<Rightarrow> (world \<times> daemon_event) list \<Rightarrow> daemon" where
  "daemon_run = foldl daemon_step"

end
