(* ===== verification/StoreProperties.thy ===== *)
theory StoreProperties
  imports StoreDisk Wire
begin

text \<open>
  The properties of the shared packages: the store in memory and on disk, names, file names and the
  wire. A store that only files what it is told converges: what it shows does not depend on the
  order things arrived in.
\<close>

section \<open>The store as a machine\<close>

datatype store_op =
  OpAppend gotime message
| OpSetState message_id message_state
| OpConfirm message_id uint64
| OpMarkRead conv_id
| OpPutPeer peer
| OpSetPresence gotime peer_id presence
| OpBlock peer_id bool
| OpSetSelf identity
| OpJoin string
| OpLeave string
| OpPrefs notify_prefs

definition store_step :: "env \<Rightarrow> peer_id \<Rightarrow> store \<Rightarrow> store_op \<Rightarrow> store" where
  "store_step e fresh s op = (case op of
      OpAppend now m \<Rightarrow> fst (append_message now s m)
    | OpSetState i st \<Rightarrow> fst (set_state s i st)
    | OpConfirm i q \<Rightarrow> fst (confirm s i q)
    | OpMarkRead c \<Rightarrow> fst (mark_read s c)
    | OpPutPeer p \<Rightarrow> fst (put_peer s p)
    | OpSetPresence now i pr \<Rightarrow> fst (set_presence now s i pr)
    | OpBlock i b \<Rightarrow> fst (block_peer s i b)
    | OpSetSelf i \<Rightarrow> fst (set_self e fresh s i)
    | OpJoin r \<Rightarrow> fst (join_room e fresh s r)
    | OpLeave r \<Rightarrow> fst (leave_room e fresh s r)
    | OpPrefs p \<Rightarrow> fst (set_notify_prefs s p))"

lemma store_ok_step: "store_ok s \<Longrightarrow> store_ok (store_step e fresh s op)"
  by (cases op) (simp_all add: store_step_def store_ok_append_message store_ok_set_state store_ok_confirm
      store_ok_mark_read store_ok_put_peer store_ok_set_presence store_ok_block_peer store_ok_set_self
      store_ok_join_room store_ok_leave_room store_ok_set_notify_prefs)

lemma next_seq_append: "stNextSeq s \<le> stNextSeq (fst (append_message now s m))"
  by (simp add: append_message_def Let_def append_line_def case_prod_beta file_message_fields bump_seq_ge)

lemma next_seq_confirm: "stNextSeq s \<le> stNextSeq (fst (confirm s i q))"
  by (simp add: confirm_def Let_def bump_seq_ge split: option.splits)

lemma next_seq_step: "stNextSeq s \<le> stNextSeq (store_step e fresh s op)"
proof (cases op)
  case (OpSetState i st)
  then show ?thesis by (simp add: store_step_def set_state_def Let_def append_state_def split: option.splits)
next
  case (OpMarkRead c)
  then show ?thesis by (simp add: store_step_def mark_read_def Let_def append_read_def)
next
  case (OpBlock i b)
  then show ?thesis by (simp add: store_step_def block_peer_def Let_def split: option.splits)
qed (simp_all add: store_step_def next_seq_append next_seq_confirm set_presence_def set_self_def join_room_def
    leave_room_def set_notify_prefs_def save_identity_def save_prefs_def Let_def case_prod_beta)

interpretation store_run: monotone_stepper "store_step e fresh" store_ok stNextSeq
  by unfold_locales (rule store_ok_step, assumption, rule next_seq_step)

section \<open>Filing many messages\<close>

definition append_all :: "gotime \<Rightarrow> store \<Rightarrow> message list \<Rightarrow> store" where
  "append_all now s ms = foldl (\<lambda>s m. fst (append_message now s m)) s ms"

lemma store_ok_append_all: "store_ok s \<Longrightarrow> store_ok (append_all now s ms)"
  unfolding append_all_def by (induction ms arbitrary: s) auto

definition fileable :: "store \<Rightarrow> message \<Rightarrow> bool" where
  "fileable s m \<longleftrightarrow> mID m \<noteq> '''' \<and> mConv m \<noteq> '''' \<and> \<not> have_message s (mID m)"

definition clipped :: "message \<Rightarrow> message" where
  "clipped m = m\<lparr>mBody := clip_runes (mBody m) max_body_runes\<rparr>"

lemma filed_clipped: "mSent m \<noteq> zero_time \<Longrightarrow> filed_message now m = clipped m"
  by (simp add: filed_message_def clipped_def)

lemma conv_msgs_append:
  "conv_msgs (fst (append_message now s m)) c = (if fileable s m \<and> c = mConv m
     then insert_ordered (conv_msgs s c) (filed_message now m) else conv_msgs s c)"
proof (cases "fileable s m")
  case True
  then show ?thesis using append_message_conv [of m s now c] by (simp add: fileable_def)
next
  case False
  then have "stMsgs (fst (append_message now s m)) = stMsgs s" by (auto simp: fileable_def append_message_store)
  with False show ?thesis by (simp add: conv_msgs_def)
qed

lemma have_append:
  "have_message (fst (append_message now s m)) i \<longleftrightarrow> have_message s i \<or> (fileable s m \<and> i = mID m)"
proof -
  have "have_message (fst (append_log s' c l)) i = have_message s' i" for s' c l by (simp add: have_message_def)
  then show ?thesis
    by (auto simp: append_message_def Let_def append_line_def case_prod_beta fileable_def have_message_file)
qed

lemma set_append_all:
  assumes "distinct (map mID ms)" and "\<And>m. m \<in> set ms \<Longrightarrow> mSent m \<noteq> zero_time"
  shows "set (conv_msgs (append_all now s ms) c)
    = set (conv_msgs s c) \<union> clipped ` {m \<in> set ms. fileable s m \<and> mConv m = c}"
  using assms
proof (induction ms arbitrary: s)
  case (Cons m ms)
  let ?s = "fst (append_message now s m)"
  have "fileable ?s m' = fileable s m'" if "m' \<in> set ms" for m'
  proof -
    have "mID m' \<in> mID ` set ms" using that by simp
    then have "mID m' \<noteq> mID m" using Cons.prems(1) by auto
    then show ?thesis by (simp add: fileable_def have_append)
  qed
  then have "{m' \<in> set ms. fileable ?s m' \<and> mConv m' = c} = {m' \<in> set ms. fileable s m' \<and> mConv m' = c}" by auto
  moreover have "set (conv_msgs (append_all now ?s ms) c)
      = set (conv_msgs ?s c) \<union> clipped ` {m' \<in> set ms. fileable ?s m' \<and> mConv m' = c}"
    by (rule Cons.IH) (use Cons.prems in auto)
  ultimately show ?case
    using Cons.prems(2) [of m] by (auto simp: append_all_def conv_msgs_append filed_clipped)
qed (simp add: append_all_def)

text \<open>Two stores that hold the same messages of a conversation show them in the same order.\<close>

lemma same_set_same_list:
  assumes "store_ok s" and "store_ok t" and "set (conv_msgs s c) = set (conv_msgs t c)"
  shows "conv_msgs s c = conv_msgs t c"
proof (rule message_order.ordered_unique)
  show "ordered_by less_message (conv_msgs s c)" "ordered_by less_message (conv_msgs t c)"
    using assms store_okD(2) by blast+
  have "distinct (conv_msgs s c)" "distinct (conv_msgs t c)"
    using assms store_okD(3) [of s c] store_okD(3) [of t c] by (auto simp: distinct_map)
  with assms(3) show "mset (conv_msgs s c) = mset (conv_msgs t c)"
    by (simp add: set_eq_iff_mset_eq_distinct [symmetric])
  show "a = b" if "a \<in> set (conv_msgs s c)" "b \<in> set (conv_msgs s c)" "\<not> less_message a b" "\<not> less_message b a" for a b
    using that less_message_total [of a b] store_okD(3) [OF assms(1), of c]
    by (auto simp: distinct_map dest: inj_onD)
qed

section \<open>Properties of the store\<close>

definition demo_id_env :: env where
  "demo_id_env = \<lparr>eNick = '''', eUser = Some ''ann'', eHost = None\<rparr>"

definition memo :: "message_id \<Rightarrow> uint64 \<Rightarrow> gotime \<Rightarrow> message" where
  "memo i q t = zero_message\<lparr>mID := i, mConv := ''room:a'', mSeq := q, mSent := t, mBody := ''x''\<rparr>"

definition memo_store :: store where
  "memo_store = new_memory_store demo_id_env ''0''"

lemma memo_store_ok: "store_ok memo_store"
  unfolding memo_store_def by (rule new_memory_store_ok)

text \<open>
  A store stays well formed. Any sequence of filings, confirmations, state changes, reads, roster and identity
  changes leaves every conversation in order, every message filed once and under its conversation,
  the seen set and the unread counts exact, the roster canonical, and the counter at or past every sequence number.
\<close>

theorem store_run_ok:
  "store_ok (foldl (store_step e fresh) (new_memory_store e fresh) ops)"
  by (rule store_run.inv_run) (rule new_memory_store_ok)

text \<open>
  C19: the order things arrive in does not matter. Two stores filing the same messages in different orders, at
  different times, show every conversation in the same order.
\<close>

theorem arrival_order_irrelevant:
  assumes "store_ok s" and "distinct (map mID ms)" and "\<forall>m \<in> set ms. mSent m \<noteq> zero_time" and "mset ms' = mset ms"
  shows "conv_msgs (append_all now s ms) c = conv_msgs (append_all now' s ms') c"
proof (rule same_set_same_list)
  have set: "set ms' = set ms" using assms(4) by (metis set_mset_mset)
  have "distinct (map mID ms')" using assms(2,4) by (metis mset_eq_imp_distinct_iff mset_map)
  with assms(2,3) set show "set (conv_msgs (append_all now s ms) c) = set (conv_msgs (append_all now' s ms') c)"
    using set_append_all [where ms = ms and s = s and now = now and c = c]
      set_append_all [where ms = ms' and s = s and now = now' and c = c] by simp
qed (use assms(1) in \<open>simp_all add: store_ok_append_all\<close>)

theorem arrival_order_irrelevant_witness:
  "conv_msgs (append_all 9 memo_store [memo ''a'' 1 5, memo ''b'' 2 4]) ''room:a''
     = conv_msgs (append_all 7 memo_store [memo ''b'' 2 4, memo ''a'' 1 5]) ''room:a''"
  by (rule arrival_order_irrelevant [OF memo_store_ok]) (simp_all add: memo_def zero_time_def zero_message_def)

text \<open>
  C35: the fast path and the binary search of the insertion give what inserting before the first message that is not
  smaller gives, so the list stays ordered and gains exactly that message.
\<close>

theorem insert_ordered_sorted:
  assumes "ordered_by less_message l"
  shows "insert_ordered l m = insort_by less_message m l \<and> ordered_by less_message (insert_ordered l m)
    \<and> mset (insert_ordered l m) = add_mset m (mset l)"
  using assms by (simp add: insert_ordered_insort message_order.ordered_insort)

theorem insert_ordered_sorted_witness:
  "insert_ordered [memo ''a'' 1 5, memo ''c'' 3 5] (memo ''b'' 2 9) = [memo ''a'' 1 5, memo ''b'' 2 9, memo ''c'' 3 5]"
proof -
  have "ordered_by less_message [memo ''a'' 1 5, memo ''c'' 3 5]"
    by (simp add: ordered_by_def memo_def less_message_def zero_message_def)
  from insert_ordered_sorted [OF this, of "memo ''b'' 2 9"] show ?thesis
    by (simp add: memo_def less_message_def zero_message_def)
qed

text \<open>
  A message is filed once. A new one is found again under its id, its body cut at eight thousand runes, counted unread
  where it is somebody else's and unread, and every other message stays as it was; filing it again changes nothing.
\<close>

theorem append_files_once:
  assumes "store_ok s" and "mID m \<noteq> ''''" and "mConv m \<noteq> ''''" and "\<not> have_message s (mID m)"
    and "s' = fst (append_message now s m)"
  shows "message_of s' (mID m) = Some (filed_message now m)
    \<and> (\<forall>i. i \<noteq> mID m \<longrightarrow> message_of s' i = message_of s i)
    \<and> unread s' c = unread s c + (if counts_unread m \<and> c = mConv m then 1 else 0)
    \<and> append_message now' s' m = (s', False, None)"
proof -
  have ok: "store_ok s'" unfolding assms(5) by (rule store_ok_append_message [OF assms(1)])
  have fl: "fileable s m" using assms by (simp add: fileable_def)
  have mem: "x \<in> set (conv_msgs s' c) \<longleftrightarrow> (c = mConv m \<and> x = filed_message now m) \<or> x \<in> set (conv_msgs s c)" for x c
    using fl by (auto simp: assms(5) conv_msgs_append)
  have "message_of s' (mID m) = Some (filed_message now m)"
    by (simp add: message_of_Some [OF ok] mem)
  moreover have "message_of s' i = message_of s i" if "i \<noteq> mID m" for i
  proof -
    have "message_of s' i = Some x \<longleftrightarrow> message_of s i = Some x" for x
      using that by (auto simp: message_of_Some [OF ok] message_of_Some [OF assms(1)] mem)
    then show ?thesis by (metis option.exhaust)
  qed
  moreover have "unread s' c = unread s c + (if counts_unread m \<and> c = mConv m then 1 else 0)"
    using fl store_okD(8) [OF ok, of c] store_okD(8) [OF assms(1), of c]
    by (auto simp: assms(5) conv_msgs_append counts_unread_def)
  moreover have "append_message now' s' m = (s', False, None)"
  proof -
    have "have_message s' (mID m)" using fl by (simp add: assms(5) have_append)
    with assms(2,3) show ?thesis by (simp add: append_message_def)
  qed
  ultimately show ?thesis by blast
qed

theorem append_files_once_witness:
  "message_of (fst (append_message 9 memo_store (memo ''a'' 1 5))) ''a'' = Some (filed_message 9 (memo ''a'' 1 5))"
proof -
  have "mID (memo ''a'' 1 5) = ''a''" "mConv (memo ''a'' 1 5) \<noteq> ''''" "\<not> have_message memo_store ''a''"
    by (simp_all add: memo_def memo_store_def new_memory_store_def have_message_def)
  with append_files_once [OF memo_store_ok, of "memo ''a'' 1 5" _ 9] show ?thesis by simp
qed

text \<open>
  After a confirmation a message has its sequence number and the delivered state, its conversation is in order
  with it, no message is lost or added, and every other message is as it was.
\<close>

lemma confirm_places:
  assumes "store_ok s" and "message_of s i = Some m"
  shows "message_of (fst (confirm s i q)) i = Some (m\<lparr>mSeq := q, mState := StateDelivered\<rparr>)
    \<and> (\<forall>j. j \<noteq> i \<longrightarrow> message_of (fst (confirm s i q)) j = message_of s j)
    \<and> ordered_by less_message (conv_msgs (fst (confirm s i q)) c)
    \<and> mset (map mID (conv_msgs (fst (confirm s i q)) c)) = mset (map mID (conv_msgs s c))"
proof -
  let ?s = "fst (confirm s i q)"
  have ok: "store_ok ?s" by (rule store_ok_confirm [OF assms(1)])
  obtain d k where dk: "locate i (stMsgs s) = Some (d, k)"
    using assms(2) by (auto simp: message_of_def split: option.splits)
  note loc = locate_conv [OF assms(1) dk]
  have m: "m = conv_msgs s d ! k" using assms(2) dk by (simp add: message_of_def)
  let ?m = "m\<lparr>mSeq := q, mState := StateDelivered\<rparr>"
  let ?rest = "take k (conv_msgs s d) @ drop (Suc k) (conv_msgs s d)"
  have msgs: "conv_msgs ?s c = (if c = d then insert_ordered ?rest ?m else conv_msgs s c)" for c
  proof -
    have "stMsgs ?s = AList.update d (insert_ordered ?rest ?m) (stMsgs s)" by (simp add: confirm_def dk Let_def m)
    then show ?thesis by (rule conv_msgs_update)
  qed
  have parts: "mset (conv_msgs s d) = add_mset m (mset ?rest)"
    unfolding m by (rule mset_remove_nth [OF loc(1), symmetric])
  then have set: "set (conv_msgs s d) = insert m (set ?rest)"
    by (metis set_mset_add_mset_insert set_mset_mset)
  have "distinct (map mID (conv_msgs s d))" by (rule store_okD(3) [OF assms(1)])
  then have "mID m \<notin> mID ` set ?rest"
    using distinct_map_mset [of "conv_msgs s d" "m # ?rest" mID] parts by auto
  then have other: "mID x \<noteq> i" if "x \<in> set ?rest" for x
    using that loc(2) m by (metis image_eqI)
  have "message_of ?s i = Some ?m"
    using loc m by (simp add: message_of_Some [OF ok] msgs)
  moreover have "message_of ?s j = message_of s j" if "j \<noteq> i" for j
  proof -
    have "x \<in> set (conv_msgs ?s c) \<longleftrightarrow> x \<in> set (conv_msgs s c)" if "mID x = j" for x c
      using that \<open>j \<noteq> i\<close> loc(2) m by (cases "c = d") (auto simp: msgs set)
    then have "message_of ?s j = Some x \<longleftrightarrow> message_of s j = Some x" for x
      by (auto simp: message_of_Some [OF ok] message_of_Some [OF assms(1)])
    then show ?thesis by (metis option.exhaust)
  qed
  moreover have "mset (map mID (conv_msgs ?s c)) = mset (map mID (conv_msgs s c))"
    using parts by (simp add: msgs)
  ultimately show ?thesis using store_okD(2) [OF ok] by blast
qed

definition sending_memo :: message where
  "sending_memo = (memo ''a'' 0 5)\<lparr>mMine := True, mState := StateSending\<rparr>"

end
