(* ===== verification/DaemonFacts.thy ===== *)
theory DaemonFacts
  imports Link StoreProperties
begin

text \<open>
  What the operations of the client daemon leave alone, what they do to its cache, and the
  invariant \<open>daemon_ok\<close> of the daemon, which every step keeps: the cache is well formed, the table of
  transfers agrees with itself and with the open files.
\<close>

section \<open>What an operation leaves alone\<close>

lemma emit_frame [simp]:
  "dmStore (emit d ev) = dmStore d" "dmXfers (emit d ev) = dmXfers d" "dmOpen (emit d ev) = dmOpen d"
  "dmFS (emit d ev) = dmFS d" "dmCursor (emit d ev) = dmCursor d" "dmServerID (emit d ev) = dmServerID d"
  "dmConn (emit d ev) = dmConn d" "dmConnected (emit d ev) = dmConnected d" "dmTyping (emit d ev) = dmTyping d"
  "dmPush (emit d ev) = dmPush d" "dmAccept (emit d ev) = dmAccept d" "dmSink (emit d ev) = dmSink d"
  "dmCursorFile (emit d ev) = dmCursorFile d" "dmWire (emit d ev) = dmWire d" "dmTakes (emit d ev) = dmTakes d"
  by (simp_all add: emit_def)

lemma emit_all_frame [simp]:
  "dmStore (emit_all d evs) = dmStore d" "dmXfers (emit_all d evs) = dmXfers d" "dmOpen (emit_all d evs) = dmOpen d"
  "dmFS (emit_all d evs) = dmFS d" "dmCursor (emit_all d evs) = dmCursor d"
  "dmServerID (emit_all d evs) = dmServerID d" "dmConn (emit_all d evs) = dmConn d"
  "dmConnected (emit_all d evs) = dmConnected d" "dmTyping (emit_all d evs) = dmTyping d"
  "dmPush (emit_all d evs) = dmPush d" "dmAccept (emit_all d evs) = dmAccept d" "dmSink (emit_all d evs) = dmSink d"
  "dmCursorFile (emit_all d evs) = dmCursorFile d" "dmWire (emit_all d evs) = dmWire d"
  "dmTakes (emit_all d evs) = dmTakes d"
  by (induction evs rule: rev_induct) (simp_all add: emit_all_def)

lemma wire_write_frame [simp]:
  "dmStore (fst (wire_write d f)) = dmStore d" "dmXfers (fst (wire_write d f)) = dmXfers d"
  "dmOpen (fst (wire_write d f)) = dmOpen d" "dmFS (fst (wire_write d f)) = dmFS d"
  "dmCursor (fst (wire_write d f)) = dmCursor d" "dmServerID (fst (wire_write d f)) = dmServerID d"
  "dmConn (fst (wire_write d f)) = dmConn d" "dmConnected (fst (wire_write d f)) = dmConnected d"
  "dmTyping (fst (wire_write d f)) = dmTyping d" "dmPush (fst (wire_write d f)) = dmPush d"
  "dmAccept (fst (wire_write d f)) = dmAccept d" "dmSink (fst (wire_write d f)) = dmSink d"
  "dmCursorFile (fst (wire_write d f)) = dmCursorFile d" "dmEvents (fst (wire_write d f)) = dmEvents d"
  by (simp_all add: wire_write_def)

lemma with_dstore_frame [simp]:
  "dmXfers (with_dstore d s) = dmXfers d" "dmOpen (with_dstore d s) = dmOpen d" "dmFS (with_dstore d s) = dmFS d"
  "dmCursor (with_dstore d s) = dmCursor d" "dmServerID (with_dstore d s) = dmServerID d"
  "dmConn (with_dstore d s) = dmConn d" "dmConnected (with_dstore d s) = dmConnected d"
  "dmTyping (with_dstore d s) = dmTyping d" "dmPush (with_dstore d s) = dmPush d"
  "dmAccept (with_dstore d s) = dmAccept d" "dmSink (with_dstore d s) = dmSink d"
  "dmCursorFile (with_dstore d s) = dmCursorFile d" "dmWire (with_dstore d s) = dmWire d"
  "dmTakes (with_dstore d s) = dmTakes d" "dmEvents (with_dstore d s) = dmEvents d"
  by (simp_all add: with_dstore_def)

lemma set_msg_state_frame [simp]:
  "dmXfers (set_msg_state d i st) = dmXfers d" "dmOpen (set_msg_state d i st) = dmOpen d"
  "dmFS (set_msg_state d i st) = dmFS d" "dmCursor (set_msg_state d i st) = dmCursor d"
  "dmServerID (set_msg_state d i st) = dmServerID d" "dmConn (set_msg_state d i st) = dmConn d"
  "dmConnected (set_msg_state d i st) = dmConnected d" "dmTyping (set_msg_state d i st) = dmTyping d"
  "dmPush (set_msg_state d i st) = dmPush d" "dmAccept (set_msg_state d i st) = dmAccept d"
  "dmSink (set_msg_state d i st) = dmSink d" "dmCursorFile (set_msg_state d i st) = dmCursorFile d"
  "dmWire (set_msg_state d i st) = dmWire d" "dmTakes (set_msg_state d i st) = dmTakes d"
  by (simp_all add: set_msg_state_def split: prod.splits option.splits)

lemma send_message_frame [simp]:
  "dmXfers (send_message d m) = dmXfers d" "dmOpen (send_message d m) = dmOpen d" "dmFS (send_message d m) = dmFS d"
  "dmCursor (send_message d m) = dmCursor d" "dmServerID (send_message d m) = dmServerID d"
  "dmConn (send_message d m) = dmConn d" "dmConnected (send_message d m) = dmConnected d"
  "dmTyping (send_message d m) = dmTyping d" "dmPush (send_message d m) = dmPush d"
  "dmAccept (send_message d m) = dmAccept d" "dmSink (send_message d m) = dmSink d"
  "dmCursorFile (send_message d m) = dmCursorFile d"
  by (simp_all add: send_message_def wire_write_def)

lemma flush_list_frame [simp]:
  "dmXfers (flush_list d ms) = dmXfers d" "dmOpen (flush_list d ms) = dmOpen d" "dmFS (flush_list d ms) = dmFS d"
  "dmCursor (flush_list d ms) = dmCursor d" "dmServerID (flush_list d ms) = dmServerID d"
  "dmConn (flush_list d ms) = dmConn d" "dmConnected (flush_list d ms) = dmConnected d"
  "dmTyping (flush_list d ms) = dmTyping d" "dmPush (flush_list d ms) = dmPush d"
  "dmAccept (flush_list d ms) = dmAccept d" "dmSink (flush_list d ms) = dmSink d"
  "dmCursorFile (flush_list d ms) = dmCursorFile d"
  by (induction ms arbitrary: d) (simp_all add: wire_write_def)

lemma maybe_notify_frame [simp]:
  "dmStore (maybe_notify d m p) = dmStore d" "dmXfers (maybe_notify d m p) = dmXfers d"
  "dmOpen (maybe_notify d m p) = dmOpen d" "dmFS (maybe_notify d m p) = dmFS d"
  "dmCursor (maybe_notify d m p) = dmCursor d" "dmServerID (maybe_notify d m p) = dmServerID d"
  "dmConn (maybe_notify d m p) = dmConn d" "dmConnected (maybe_notify d m p) = dmConnected d"
  "dmTyping (maybe_notify d m p) = dmTyping d" "dmPush (maybe_notify d m p) = dmPush d"
  "dmAccept (maybe_notify d m p) = dmAccept d" "dmSink (maybe_notify d m p) = dmSink d"
  "dmCursorFile (maybe_notify d m p) = dmCursorFile d" "dmWire (maybe_notify d m p) = dmWire d"
  "dmTakes (maybe_notify d m p) = dmTakes d"
  by (simp_all add: maybe_notify_def)

lemma clear_typing_frame [simp]:
  "dmStore (clear_typing d i c) = dmStore d" "dmXfers (clear_typing d i c) = dmXfers d"
  "dmOpen (clear_typing d i c) = dmOpen d" "dmFS (clear_typing d i c) = dmFS d"
  "dmCursor (clear_typing d i c) = dmCursor d" "dmServerID (clear_typing d i c) = dmServerID d"
  "dmConn (clear_typing d i c) = dmConn d" "dmConnected (clear_typing d i c) = dmConnected d"
  "dmPush (clear_typing d i c) = dmPush d" "dmAccept (clear_typing d i c) = dmAccept d"
  "dmSink (clear_typing d i c) = dmSink d" "dmCursorFile (clear_typing d i c) = dmCursorFile d"
  "dmWire (clear_typing d i c) = dmWire d" "dmTakes (clear_typing d i c) = dmTakes d"
  by (simp_all add: clear_typing_def Let_def split: option.splits)

lemma system_message_frame [simp]:
  "dmXfers (system_message w d c txt) = dmXfers d" "dmOpen (system_message w d c txt) = dmOpen d"
  "dmFS (system_message w d c txt) = dmFS d" "dmCursor (system_message w d c txt) = dmCursor d"
  "dmServerID (system_message w d c txt) = dmServerID d" "dmConn (system_message w d c txt) = dmConn d"
  "dmConnected (system_message w d c txt) = dmConnected d" "dmTyping (system_message w d c txt) = dmTyping d"
  "dmPush (system_message w d c txt) = dmPush d" "dmAccept (system_message w d c txt) = dmAccept d"
  "dmSink (system_message w d c txt) = dmSink d" "dmCursorFile (system_message w d c txt) = dmCursorFile d"
  "dmWire (system_message w d c txt) = dmWire d" "dmTakes (system_message w d c txt) = dmTakes d"
  by (simp_all add: system_message_def Let_def split: prod.splits)

lemma save_cursor_frame [simp]:
  "dmStore (save_cursor d) = dmStore d" "dmXfers (save_cursor d) = dmXfers d" "dmOpen (save_cursor d) = dmOpen d"
  "dmFS (save_cursor d) = dmFS d" "dmCursor (save_cursor d) = dmCursor d" "dmServerID (save_cursor d) = dmServerID d"
  "dmConn (save_cursor d) = dmConn d" "dmConnected (save_cursor d) = dmConnected d"
  "dmTyping (save_cursor d) = dmTyping d" "dmPush (save_cursor d) = dmPush d" "dmAccept (save_cursor d) = dmAccept d"
  "dmSink (save_cursor d) = dmSink d" "dmWire (save_cursor d) = dmWire d" "dmTakes (save_cursor d) = dmTakes d"
  "dmEvents (save_cursor d) = dmEvents d"
  by (simp_all add: save_cursor_def)

lemma advance_frame [simp]:
  "dmStore (advance d q) = dmStore d" "dmXfers (advance d q) = dmXfers d" "dmOpen (advance d q) = dmOpen d"
  "dmFS (advance d q) = dmFS d" "dmServerID (advance d q) = dmServerID d" "dmConn (advance d q) = dmConn d"
  "dmConnected (advance d q) = dmConnected d" "dmTyping (advance d q) = dmTyping d" "dmPush (advance d q) = dmPush d"
  "dmAccept (advance d q) = dmAccept d" "dmSink (advance d q) = dmSink d"
  "dmCursorFile (advance d q) = dmCursorFile d" "dmWire (advance d q) = dmWire d" "dmTakes (advance d q) = dmTakes d"
  "dmEvents (advance d q) = dmEvents d"
  by (simp_all add: advance_def)

lemma received_frame [simp]:
  "dmStore (received d m) = dmStore d" "dmXfers (received d m) = dmXfers d" "dmOpen (received d m) = dmOpen d"
  "dmFS (received d m) = dmFS d" "dmCursor (received d m) = dmCursor d" "dmServerID (received d m) = dmServerID d"
  "dmConn (received d m) = dmConn d" "dmConnected (received d m) = dmConnected d" "dmPush (received d m) = dmPush d"
  "dmAccept (received d m) = dmAccept d" "dmSink (received d m) = dmSink d"
  "dmCursorFile (received d m) = dmCursorFile d" "dmWire (received d m) = dmWire d"
  "dmTakes (received d m) = dmTakes d"
  by (simp_all add: received_def Let_def)

lemma store_message_frame [simp]:
  "dmXfers (store_message w d m) = dmXfers d" "dmOpen (store_message w d m) = dmOpen d"
  "dmFS (store_message w d m) = dmFS d" "dmCursor (store_message w d m) = dmCursor d"
  "dmServerID (store_message w d m) = dmServerID d" "dmConn (store_message w d m) = dmConn d"
  "dmConnected (store_message w d m) = dmConnected d" "dmPush (store_message w d m) = dmPush d"
  "dmAccept (store_message w d m) = dmAccept d" "dmSink (store_message w d m) = dmSink d"
  "dmCursorFile (store_message w d m) = dmCursorFile d" "dmWire (store_message w d m) = dmWire d"
  "dmTakes (store_message w d m) = dmTakes d"
  by (simp_all add: store_message_def split: prod.splits)

lemma set_state_for_transfer_frame [simp]:
  "dmXfers (set_state_for_transfer d i st) = dmXfers d" "dmOpen (set_state_for_transfer d i st) = dmOpen d"
  "dmFS (set_state_for_transfer d i st) = dmFS d" "dmCursor (set_state_for_transfer d i st) = dmCursor d"
  "dmServerID (set_state_for_transfer d i st) = dmServerID d" "dmConn (set_state_for_transfer d i st) = dmConn d"
  "dmConnected (set_state_for_transfer d i st) = dmConnected d"
  "dmTyping (set_state_for_transfer d i st) = dmTyping d" "dmPush (set_state_for_transfer d i st) = dmPush d"
  "dmAccept (set_state_for_transfer d i st) = dmAccept d" "dmSink (set_state_for_transfer d i st) = dmSink d"
  "dmCursorFile (set_state_for_transfer d i st) = dmCursorFile d" "dmWire (set_state_for_transfer d i st) = dmWire d"
  "dmTakes (set_state_for_transfer d i st) = dmTakes d"
  by (simp_all add: set_state_for_transfer_def split: option.splits)

lemma emit_transfer_frame [simp]:
  "dmStore (emit_transfer d t) = dmStore d" "dmXfers (emit_transfer d t) = dmXfers d"
  "dmOpen (emit_transfer d t) = dmOpen d" "dmFS (emit_transfer d t) = dmFS d"
  "dmCursor (emit_transfer d t) = dmCursor d" "dmServerID (emit_transfer d t) = dmServerID d"
  "dmConn (emit_transfer d t) = dmConn d" "dmConnected (emit_transfer d t) = dmConnected d"
  "dmTyping (emit_transfer d t) = dmTyping d" "dmPush (emit_transfer d t) = dmPush d"
  "dmAccept (emit_transfer d t) = dmAccept d" "dmSink (emit_transfer d t) = dmSink d"
  "dmCursorFile (emit_transfer d t) = dmCursorFile d" "dmWire (emit_transfer d t) = dmWire d"
  "dmTakes (emit_transfer d t) = dmTakes d"
  by (simp_all add: emit_transfer_def)

lemma emit_throttled_frame [simp]:
  "dmStore (emit_throttled w d t) = dmStore d" "dmXfers (emit_throttled w d t) = dmXfers d"
  "dmOpen (emit_throttled w d t) = dmOpen d" "dmFS (emit_throttled w d t) = dmFS d"
  "dmCursor (emit_throttled w d t) = dmCursor d" "dmServerID (emit_throttled w d t) = dmServerID d"
  "dmConn (emit_throttled w d t) = dmConn d" "dmConnected (emit_throttled w d t) = dmConnected d"
  "dmTyping (emit_throttled w d t) = dmTyping d" "dmPush (emit_throttled w d t) = dmPush d"
  "dmAccept (emit_throttled w d t) = dmAccept d" "dmSink (emit_throttled w d t) = dmSink d"
  "dmCursorFile (emit_throttled w d t) = dmCursorFile d" "dmWire (emit_throttled w d t) = dmWire d"
  "dmTakes (emit_throttled w d t) = dmTakes d"
  by (simp_all add: emit_throttled_def)

section \<open>The cache changes through the operations of the store only\<close>

text \<open>
  \<open>store_path s t\<close>: some operations of the store, each in its own environment, lead from \<open>s\<close> to \<open>t\<close>.
  Whatever the operations of the store keep, and each handler moves along such a path, the daemon keeps.
\<close>

inductive store_path :: "store \<Rightarrow> store \<Rightarrow> bool" where
  path_refl [simp, intro]: "store_path s s"
| path_step: "store_path s t \<Longrightarrow> store_path s (store_step e fresh t op)"

lemma path_trans [trans]: "store_path s t \<Longrightarrow> store_path t u \<Longrightarrow> store_path s u"
  by (rotate_tac, induction rule: store_path.induct) (auto intro: path_step)

lemma path_ops [simp, intro]:
  "store_path s (fst (append_message now s m))" "store_path s (fst (set_state s i st))"
  "store_path s (fst (confirm s i q))" "store_path s (fst (mark_read s c))" "store_path s (fst (put_peer s p))"
  "store_path s (fst (set_presence now s i pr))" "store_path s (fst (block_peer s i b))"
  "store_path s (fst (set_self e fresh s idn))" "store_path s (fst (join_room e fresh s r))"
  "store_path s (fst (leave_room e fresh s r))" "store_path s (fst (set_notify_prefs s np))"
  using path_step [OF path_refl, of s _ _ "OpAppend now m"] path_step [OF path_refl, of s _ _ "OpSetState i st"]
    path_step [OF path_refl, of s _ _ "OpConfirm i q"] path_step [OF path_refl, of s _ _ "OpMarkRead c"]
    path_step [OF path_refl, of s _ _ "OpPutPeer p"] path_step [OF path_refl, of s _ _ "OpSetPresence now i pr"]
    path_step [OF path_refl, of s _ _ "OpBlock i b"] path_step [OF path_refl, of s e fresh "OpSetSelf idn"]
    path_step [OF path_refl, of s e fresh "OpJoin r"] path_step [OF path_refl, of s e fresh "OpLeave r"]
    path_step [OF path_refl, of s _ _ "OpPrefs np"]
  by (simp_all add: store_step_def)

lemma path_store_ok: "store_path s t \<Longrightarrow> store_ok s \<Longrightarrow> store_ok t"
  by (induction rule: store_path.induct) (auto intro: store_ok_step)

lemma path_next_seq: "store_path s t \<Longrightarrow> stNextSeq s \<le> stNextSeq t"
  by (induction rule: store_path.induct) (auto intro: order_trans next_seq_step)

text \<open>What of a message never changes once it is filed.\<close>

definition content :: "message \<Rightarrow> message_id \<times> conv_id \<times> peer_id \<times> string \<times> string \<times> gotime \<times> bool \<times> transfer_ref option \<times> bool" where
  "content m = (mID m, mConv m, mFrom m, mFromNick m, mBody m, mSent m, mMine m, mTransfer m, mSystem m)"

lemma content_update [simp]: "content (m\<lparr>mState := st\<rparr>) = content m" "content (m\<lparr>mSeq := q\<rparr>) = content m"
  "content (m\<lparr>mRead := b\<rparr>) = content m"
  by (simp_all add: content_def)

lemma conv_msgs_same: "stMsgs s' = stMsgs s \<Longrightarrow> conv_msgs s' c = conv_msgs s c"
  by (simp add: conv_msgs_def)

lemma content_set_state:
  assumes "store_ok s"
  shows "content ` set (conv_msgs (fst (set_state s i st)) c) = content ` set (conv_msgs s c)"
proof (cases "locate i (stMsgs s)")
  case None
  then show ?thesis by (simp add: set_state_def)
next
  case (Some ck)
  obtain c' k where ck: "ck = (c', k)" by (cases ck)
  let ?l = "conv_msgs s c'" and ?m = "(conv_msgs s c' ! k)\<lparr>mState := st\<rparr>"
  have k: "k < length ?l" using locate_conv(1) [OF assms] Some ck by simp
  have "stMsgs (fst (set_state s i st)) = AList.update c' (?l[k := ?m]) (stMsgs s)"
    using Some ck by (simp add: set_state_def Let_def append_state_def)
  then have "conv_msgs (fst (set_state s i st)) c = (if c = c' then ?l[k := ?m] else conv_msgs s c)"
    by (rule conv_msgs_update)
  moreover have "map content (?l[k := ?m]) = map content ?l"
    using k list_update_id [of "map content ?l" k] by (simp add: map_update)
  then have "content ` set (?l[k := ?m]) = content ` set ?l" by (metis list.set_map)
  ultimately show ?thesis by simp
qed

lemma content_confirm:
  assumes "store_ok s"
  shows "content ` set (conv_msgs (fst (confirm s i q)) c) = content ` set (conv_msgs s c)"
proof (cases "locate i (stMsgs s)")
  case None
  then show ?thesis by (simp add: confirm_def conv_msgs_def)
next
  case (Some ck)
  obtain c' k where ck: "ck = (c', k)" by (cases ck)
  let ?l = "conv_msgs s c'" and ?m = "(conv_msgs s c' ! k)\<lparr>mSeq := q, mState := StateDelivered\<rparr>"
  let ?rest = "take k ?l @ drop (Suc k) ?l"
  have k: "k < length ?l" using locate_conv(1) [OF assms] Some ck by simp
  have "stMsgs (fst (confirm s i q)) = AList.update c' (insert_ordered ?rest ?m) (stMsgs s)"
    using Some ck by (simp add: confirm_def Let_def)
  then have "conv_msgs (fst (confirm s i q)) c = (if c = c' then insert_ordered ?rest ?m else conv_msgs s c)"
    by (rule conv_msgs_update)
  moreover have "content ` set (insert_ordered ?rest ?m) = content ` set ?l"
  proof -
    have "set ?l = insert (?l ! k) (set ?rest)"
      using mset_remove_nth [OF k] by (metis set_mset_add_mset_insert set_mset_mset)
    moreover have "content ?m = content (?l ! k)" by (simp add: content_def)
    ultimately show ?thesis by (metis image_insert set_insert_ordered)
  qed
  ultimately show ?thesis by simp
qed

lemma content_mark_read: "content ` set (conv_msgs (fst (mark_read s c')) c) = content ` set (conv_msgs s c)"
proof -
  have "conv_msgs (fst (mark_read s c')) c = (if c = c' then map (\<lambda>m. m\<lparr>mRead := True\<rparr>) (conv_msgs s c) else conv_msgs s c)"
    by (auto simp: mark_read_def Let_def append_read_def conv_msgs_def get_or_def split: option.splits)
  then show ?thesis by (simp add: image_image)
qed

lemma content_step:
  assumes "store_ok s"
  shows "content ` set (conv_msgs s c) \<subseteq> content ` set (conv_msgs (store_step e fresh s op) c)"
proof (cases op)
  case (OpAppend now m)
  then show ?thesis by (auto simp: store_step_def conv_msgs_append)
qed (use assms in \<open>simp_all add: store_step_def content_set_state content_confirm content_mark_read,
  simp_all add: set_presence_def block_peer_def set_self_def join_room_def leave_room_def
    set_notify_prefs_def save_identity_def save_prefs_def Let_def case_prod_beta conv_msgs_def split: option.splits\<close>)

lemma path_content: "store_path s t \<Longrightarrow> store_ok s \<Longrightarrow> content ` set (conv_msgs s c) \<subseteq> content ` set (conv_msgs t c)"
proof (induction rule: store_path.induct)
  case (path_step s t e fresh op)
  from path_step have "store_ok t" by (blast intro: path_store_ok)
  with path_step content_step [of t c e fresh op] show ?case by blast
qed simp


named_theorems daemon_paths \<open>an operation of the daemon moves its cache along the operations of the store\<close>

lemma path_with [simp]: "dmStore (with_dstore d s) = s"
  by (simp add: with_dstore_def)

lemma path_set_msg_state [daemon_paths]: "store_path (dmStore d) (dmStore (set_msg_state d i st))"
  using path_ops(2) [of "dmStore d" i st]
  by (cases "set_state (dmStore d) i st") (simp add: set_msg_state_def split: option.splits)

lemma path_send_message [daemon_paths]: "store_path (dmStore d) (dmStore (send_message d m))"
  using path_set_msg_state [of "fst (wire_write d (msg_frame m))" "mID m" StateSending]
  by (simp add: send_message_def case_prod_beta split: bool.splits)

lemma path_daemon_send [daemon_paths]: "store_path (dmStore d) (dmStore (fst (daemon_send w d conv body)))"
proof -
  let ?m = "composed w d conv (trim_right_space body)"
  obtain s' b e where a: "append_message (wNow w) (dmStore d) ?m = (s', b, e)" by (cases "append_message (wNow w) (dmStore d) ?m")
  then have p: "store_path (dmStore d) s'" using path_ops(1) [of "dmStore d" "wNow w" ?m] by simp
  show ?thesis
  proof (cases e)
    case None
    let ?d = "emit (with_dstore d s') ((event_of event_message)\<lparr>evConv := conv, evMsg := Some ?m\<rparr>)"
    have "store_path s' (dmStore (send_message ?d ?m))" using path_send_message [of ?d ?m] by simp
    with p have "store_path (dmStore d) (dmStore (send_message ?d ?m))" by (rule path_trans)
    with a None show ?thesis by (simp add: daemon_send_def Let_def)
  qed (use a p in \<open>simp add: daemon_send_def Let_def\<close>)
qed

lemma path_flush_list [daemon_paths]: "store_path (dmStore d) (dmStore (flush_list d ms))"
proof (induction ms arbitrary: d)
  case (Cons m ms)
  show ?case
  proof (cases "wire_write d (msg_frame m)")
    case (Pair d' ok)
    then have same: "dmStore d' = dmStore d" using wire_write_frame(1) [of d "msg_frame m"] by simp
    show ?thesis
    proof (cases ok)
      case True
      have "store_path (dmStore d') (dmStore (flush_list (set_msg_state d' (mID m) StateSending) ms))"
        using path_set_msg_state Cons.IH by (rule path_trans)
      with Pair True same show ?thesis by simp
    qed (use Pair same in simp)
  qed
qed simp

lemma path_flush_queue [daemon_paths]: "store_path (dmStore d) (dmStore (flush_queue d))"
  unfolding flush_queue_def by (rule path_flush_list)

lemma path_daemon_presence [daemon_paths]: "store_path (dmStore d) (dmStore (fst (daemon_set_presence w d p)))"
proof -
  let ?r = "set_self (wEnv w) (wFresh w) (dmStore d) ((stSelf (dmStore d))\<lparr>iPresence := presence_valid p\<rparr>)"
  have "store_path (dmStore d) (fst ?r)" by blast
  then show ?thesis by (cases ?r) (auto simp: daemon_set_presence_def split: option.splits)
qed

lemma path_readvertise [daemon_paths]: "store_path (dmStore d) (dmStore (readvertise d))"
  by (simp add: readvertise_def)

lemma path_daemon_join [daemon_paths]: "store_path (dmStore d) (dmStore (fst (daemon_join w d name)))"
proof -
  let ?r = "join_room (wEnv w) (wFresh w) (dmStore d) name"
  have "store_path (dmStore d) (fst ?r)" by blast
  then show ?thesis by (cases ?r) (auto simp: daemon_join_def split: option.splits)
qed

lemma path_daemon_leave [daemon_paths]: "store_path (dmStore d) (dmStore (fst (daemon_leave w d name)))"
proof -
  let ?r = "leave_room (wEnv w) (wFresh w) (dmStore d) name"
  have "store_path (dmStore d) (fst ?r)" by blast
  then show ?thesis by (cases ?r) (auto simp: daemon_leave_def)
qed

lemma path_system_message [daemon_paths]: "store_path (dmStore d) (dmStore (system_message w d conv txt))"
proof -
  let ?r = "append_message (wNow w) (dmStore d) (system_note w d conv txt)"
  have "store_path (dmStore d) (fst ?r)" by blast
  then show ?thesis by (cases ?r) (auto simp: system_message_def Let_def)
qed

lemma path_set_state_for_transfer [daemon_paths]: "store_path (dmStore d) (dmStore (set_state_for_transfer d i st))"
  by (auto simp: set_state_for_transfer_def path_set_msg_state split: option.splits)

lemma take_file_frame [simp]:
  "dmStore (fst (take_file d i)) = dmStore d" "dmXfers (fst (take_file d i)) = dmXfers d"
  "dmCursor (fst (take_file d i)) = dmCursor d" "dmFS (fst (take_file d i)) = dmFS d"
  "dmConn (fst (take_file d i)) = dmConn d" "dmConnected (fst (take_file d i)) = dmConnected d"
  by (simp_all add: take_file_def)

lemma xfer_update_frame [simp]:
  "dmStore (fst (xfer_update d i fn)) = dmStore d" "dmOpen (fst (xfer_update d i fn)) = dmOpen d"
  "dmFS (fst (xfer_update d i fn)) = dmFS d" "dmCursor (fst (xfer_update d i fn)) = dmCursor d"
  "dmConn (fst (xfer_update d i fn)) = dmConn d" "dmConnected (fst (xfer_update d i fn)) = dmConnected d"
  by (simp_all add: xfer_update_def split: option.splits)

lemma path_fail_transfer [daemon_paths]: "store_path (dmStore d) (dmStore (fst (fail_transfer d i why)))"
proof (cases "xfer_update (fst (take_file d i)) i (fail_update why)")
  case (Pair d1 t)
  then have "dmStore d1 = dmStore d" using xfer_update_frame(1) [of "fst (take_file d i)" i "fail_update why"] by simp
  then show ?thesis
    using Pair path_set_state_for_transfer [of "emit_transfer d1 (the t)" i StateFailed]
    by (cases t) (simp_all add: fail_transfer_def)
qed

lemma path_fail_live: "store_path (dmStore d) (dmStore (foldl (fail_live why) d ts))"
proof (induction ts arbitrary: d)
  case (Cons t ts)
  have "store_path (dmStore d) (dmStore (fail_live why d t))" by (simp add: fail_live_def path_fail_transfer)
  also have "store_path \<dots> (dmStore (foldl (fail_live why) (fail_live why d t) ts))" by (rule Cons.IH)
  finally show ?case by simp
qed simp

lemma path_fail_live_transfers [daemon_paths]: "store_path (dmStore d) (dmStore (fail_live_transfers d why))"
  unfolding fail_live_transfers_def by (rule path_fail_live)


lemma file_ops_frame [simp]:
  "dmStore (remove_file d p) = dmStore d" "dmXfers (remove_file d p) = dmXfers d" "dmOpen (remove_file d p) = dmOpen d"
  "dmCursor (remove_file d p) = dmCursor d" "dmConn (remove_file d p) = dmConn d"
  "dmConnected (remove_file d p) = dmConnected d"
  "dmStore (append_file d p bs) = dmStore d" "dmXfers (append_file d p bs) = dmXfers d"
  "dmOpen (append_file d p bs) = dmOpen d" "dmCursor (append_file d p bs) = dmCursor d"
  "dmConn (append_file d p bs) = dmConn d" "dmConnected (append_file d p bs) = dmConnected d"
  "dmStore (open_file d i p) = dmStore d" "dmXfers (open_file d i p) = dmXfers d" "dmFS (open_file d i p) = dmFS d"
  "dmCursor (open_file d i p) = dmCursor d" "dmConn (open_file d i p) = dmConn d"
  "dmConnected (open_file d i p) = dmConnected d"
  "dmStore (xfer_put d t) = dmStore d" "dmOpen (xfer_put d t) = dmOpen d" "dmFS (xfer_put d t) = dmFS d"
  "dmCursor (xfer_put d t) = dmCursor d" "dmConn (xfer_put d t) = dmConn d" "dmConnected (xfer_put d t) = dmConnected d"
  by (simp_all add: remove_file_def append_file_def open_file_def xfer_put_def split: option.splits)

lemma path_send_offer [daemon_paths]: "store_path (dmStore d) (dmStore (fst (send_offer d t)))"
  using path_fail_transfer [of "fst (wire_write d (offer_frame t))" "tID t" "''the server connection dropped''"]
  by (simp add: send_offer_def case_prod_beta split: bool.splits)

lemma path_daemon_offer [daemon_paths]: "store_path (dmStore d) (dmStore (fst (daemon_offer w d conv path)))"
proof (cases "offer_checks w d conv path")
  case (Inr sd)
  let ?t = "offered w conv (conv_peer conv) path (fst sd) (snd sd)"
  let ?d1 = "xfer_put d ?t"
  let ?m = "offer_message w ?d1 ?t"
  let ?r = "append_message (wNow w) (dmStore ?d1) ?m"
  let ?d2 = "emit (with_dstore ?d1 (fst ?r)) ((event_of event_message)\<lparr>evConv := conv, evMsg := Some ?m\<rparr>)"
  let ?d4 = "emit_transfer (send_message ?d2 ?m) ?t"
  have p: "store_path (dmStore d) (fst ?r)" by auto
  also have "store_path \<dots> (dmStore ?d4)" using path_send_message [of ?d2 ?m] by simp
  also have "store_path \<dots> (dmStore (fst (send_offer ?d4 ?t)))" by (rule path_send_offer)
  finally show ?thesis
    using Inr p by (auto simp: daemon_offer_def Let_def case_prod_beta split: option.splits)
qed (simp add: daemon_offer_def)

lemma path_got_offer [daemon_paths]: "store_path (dmStore d) (dmStore (got_offer w d f))"
  by (simp add: got_offer_def Let_def)

lemma path_daemon_accept [daemon_paths]: "store_path (dmStore d) (dmStore (fst (daemon_accept w d i)))"
proof -
  have p: "store_path (dmStore d) (dmStore (fst (fail_transfer e i why)))" if "dmStore e = dmStore d" for e why
    using path_fail_transfer [of e i why] that by simp
  show ?thesis
    by (auto simp: daemon_accept_def Let_def case_prod_beta xfer_update_def intro!: p split: option.splits sum.splits bool.splits)
qed

lemma cancel_transfer_store [simp]: "dmStore (cancel_transfer d i st reason) = dmStore d"
  by (simp add: cancel_transfer_def Let_def case_prod_beta split: option.splits)

lemma path_daemon_decline [daemon_paths]: "store_path (dmStore d) (dmStore (fst (daemon_decline w d i reason)))"
  using path_system_message [of "fst (wire_write (cancel_transfer d i TransferCancelled reason) _)"]
  by (auto simp: daemon_decline_def Let_def split: option.splits)

lemma path_got_decline [daemon_paths]: "store_path (dmStore d) (dmStore (got_decline w d f))"
proof (cases "xfer_get d (fTransfer f)")
  case (Some t)
  let ?d1 = "cancel_transfer d (fTransfer f) TransferDeclined (clip_runes (fReason f) 120)"
  let ?d2 = "system_message w ?d1 (tConv t) (decline_text t f)"
  have "store_path (dmStore d) (dmStore ?d2)" using path_system_message [of ?d1] by simp
  also have "store_path \<dots> (dmStore (set_state_for_transfer ?d2 (fTransfer f) StateFailed))"
    by (rule path_set_state_for_transfer)
  finally show ?thesis using Some by (simp add: got_decline_def Let_def)
qed (simp add: got_decline_def)

lemma path_got_accept [daemon_paths]: "store_path (dmStore d) (dmStore (got_accept w d f))"
proof -
  have p: "store_path (dmStore d) (dmStore (start_push w e t))" if "dmStore e = dmStore d" for e t
    using path_fail_transfer [of e "tID t"] that by (simp add: start_push_def split: option.splits)
  show ?thesis
    by (auto simp: got_accept_def xfer_update_def intro!: p split: option.splits)
qed

lemma path_push_step [daemon_paths]: "store_path (dmStore d) (dmStore (fst (push_step w d p)))"
proof -
  have p: "store_path (dmStore d) (dmStore (fst (fail_transfer e i why)))" if "dmStore e = dmStore d" for e i why
    using path_fail_transfer [of e i why] that by simp
  show ?thesis
    by (auto simp: push_step_def Let_def case_prod_beta intro!: p split: option.splits bool.splits)
qed

lemma path_got_chunk [daemon_paths]: "store_path (dmStore d) (dmStore (got_chunk w d f))"
  using path_fail_transfer [of d "fTransfer f"]
  by (auto simp: got_chunk_def xfer_update_def split: option.splits)

lemma path_got_done [daemon_paths]: "store_path (dmStore d) (dmStore (got_done w d f))"
proof -
  have p: "store_path (dmStore d) (dmStore (fst (fail_transfer e i why)))" if "dmStore e = dmStore d" for e i why
    using path_fail_transfer [of e i why] that by simp
  have q: "store_path (dmStore d) (dmStore (system_message w e c tx))" if "dmStore e = dmStore d" for e c tx
    using path_system_message [of e w c tx] that by simp
  show ?thesis
    by (auto simp: got_done_def Let_def xfer_update_def intro!: p q split: option.splits)
qed


lemma path_store_message [daemon_paths]: "store_path (dmStore d) (dmStore (store_message w d m))"
proof -
  have "store_path (dmStore d) (fst (append_message (wNow w) (dmStore d) m))" by blast
  then show ?thesis by (simp add: store_message_def case_prod_beta)
qed

lemma path_got_own [daemon_paths]: "store_path (dmStore d) (dmStore (got_own w d m))"
proof -
  have c: "store_path (dmStore d) (fst (confirm (dmStore d) (mID m) (mSeq m)))" by blast
  moreover have "store_path (fst (confirm (dmStore d) (mID m) (mSeq m)))
      (dmStore (store_message w (with_dstore d (fst (confirm (dmStore d) (mID m) (mSeq m)))) (m\<lparr>mRead := True, mState := StateDelivered\<rparr>)))"
    using path_store_message [of "with_dstore d (fst (confirm (dmStore d) (mID m) (mSeq m)))"] by simp
  ultimately show ?thesis by (auto simp: got_own_def case_prod_beta intro: path_trans split: option.splits)
qed

lemma path_got_message [daemon_paths]: "store_path (dmStore d) (dmStore (got_message w d f))"
  using path_got_own [of "advance d (fSeq f)" w] path_store_message [of "advance d (fSeq f)" w]
  by (auto simp: got_message_def Let_def split: option.splits)

lemma path_got_seq [daemon_paths]: "store_path (dmStore d) (dmStore (got_seq d f))"
proof -
  have "store_path (dmStore d) (fst (confirm (dmStore d) (fID f) (fSeq f)))" by blast
  then show ?thesis by (simp add: got_seq_def Let_def case_prod_beta split: option.splits)
qed

lemma path_put_roster: "store_path (fst sc) (fst (put_roster sc p))"
  by (simp add: put_roster_def)

lemma path_put_rosters: "store_path (fst sc) (fst (foldl put_roster sc ps))"
proof (induction ps arbitrary: sc)
  case (Cons p ps)
  have "store_path (fst sc) (fst (put_roster sc p))" by (rule path_put_roster)
  also have "store_path \<dots> (fst (foldl put_roster (put_roster sc p) ps))" by (rule Cons.IH)
  finally show ?case by simp
qed simp

lemma path_got_roster [daemon_paths]: "store_path (dmStore d) (dmStore (got_roster d f))"
  using path_put_roster [of "(dmStore d, False)"] path_put_rosters [of "(dmStore d, False)" "fPeers f"]
  by (auto simp: got_roster_def case_prod_beta split: option.splits)

lemma path_got_synced [daemon_paths]: "store_path (dmStore d) (dmStore (got_synced d f))"
  using path_flush_queue [of "save_cursor (advance d (fCursor f))"] by (simp add: got_synced_def)

lemma path_apply_frame [daemon_paths]: "store_path (dmStore d) (dmStore (apply_frame w d f))"
  by (simp add: apply_frame_def daemon_paths got_typing_def got_error_def Let_def)

lemma path_mark_offline: "store_path s (foldl (mark_offline w) s ps)"
proof (induction ps arbitrary: s)
  case (Cons p ps)
  have "store_path s (mark_offline w s p)" unfolding mark_offline_def by blast
  also have "store_path \<dots> (foldl (mark_offline w) (mark_offline w s p) ps)" by (rule Cons.IH)
  finally show ?case by simp
qed simp

lemma clear_all_typing_store [simp]: "dmStore (clear_all_typing d) = dmStore d"
  by (simp add: clear_all_typing_def)

lemma path_session_close [daemon_paths]: "store_path (dmStore d) (dmStore (session_close w d))"
proof -
  let ?d1 = "save_cursor (d\<lparr>dmConn := False, dmConnected := False\<rparr>)"
  let ?d2 = "clear_all_typing (mark_everyone_offline w ?d1)"
  have "store_path (dmStore d) (dmStore ?d2)" by (simp add: mark_everyone_offline_def path_mark_offline)
  also have "store_path \<dots> (dmStore (fail_live_transfers ?d2 ''the server connection dropped''))"
    by (rule path_fail_live_transfers)
  finally show ?thesis by (simp add: session_close_def Let_def)
qed

lemma path_link_down [daemon_paths]: "store_path (dmStore d) (dmStore (link_down w d e))"
  by (simp add: link_down_def link_error_def path_session_close)

lemma path_attempt [daemon_paths]: "store_path (dmStore d) (dmStore (attempt w d outcome takes))"
  by (simp add: attempt_def disc_note_def link_error_def session_open_def enrolled_def Let_def split: sum.splits option.splits)

lemma path_read_frame_step [daemon_paths]: "store_path (dmStore d) (dmStore (read_frame_step w d f))"
  by (simp add: read_frame_step_def path_link_down path_apply_frame)

lemma path_push_turn [daemon_paths]: "store_path (dmStore d) (dmStore (push_turn w d k))"
  using path_push_step [of d w "dmPush d ! k"] by (simp add: push_turn_def case_prod_beta split: option.splits)

lemma path_accept_turn [daemon_paths]: "store_path (dmStore d) (dmStore (accept_turn w d))"
  using path_daemon_accept [of "d\<lparr>dmAccept := _\<rparr>" w] by (auto simp: accept_turn_def split: list.splits)

lemma path_daemon_step: "store_path (dmStore d) (dmStore (daemon_step d we))"
proof (cases we)
  case (Pair w e)
  have identity: "store_path (dmStore d) (fst (set_self (wEnv w) (wFresh w) (dmStore d) i))" for i by blast
  show ?thesis
  proof (cases e)
    case (CallIdentity i)
    with Pair identity [of i] path_readvertise show ?thesis
      by (simp add: daemon_step_def case_prod_beta readvertise_def split: option.splits)
  qed (use Pair in \<open>simp_all add: daemon_step_def daemon_paths server_appeared_def nudge_def disc_note_def
      disc_stopped_def expire_typing_def daemon_typing_def Let_def\<close>)
qed

lemma path_daemon_run: "store_path (dmStore d) (dmStore (daemon_run d es))"
  unfolding daemon_run_def
proof (induction es arbitrary: d)
  case (Cons e es)
  have "store_path (dmStore d) (dmStore (daemon_step d e))" by (rule path_daemon_step)
  also have "store_path \<dots> (dmStore (foldl daemon_step (daemon_step d e) es))" by (rule Cons.IH)
  finally show ?case by simp
qed simp



section \<open>The transfer table agrees with itself and with the open files\<close>

definition transfer_ok :: "transfer_id \<Rightarrow> transfer \<Rightarrow> bool" where
  "transfer_ok i t \<longleftrightarrow> tID t = i \<and> (tIncoming t \<longrightarrow> 0 \<le> tSize t \<and> tSize t \<le> max_transfer_bytes
     \<and> safe_name (tName t) \<and> tConv t = direct_conv (tPeer t) \<and> tState t \<noteq> TransferOffered)
     \<and> (\<not> tIncoming t \<longrightarrow> tState t \<noteq> TransferIncoming)"

definition receiving :: "transfer \<Rightarrow> bool" where
  "receiving t \<longleftrightarrow> tIncoming t \<and> tState t = TransferRunning"

definition table_ok :: "(transfer_id \<times> transfer) list \<Rightarrow> (transfer_id \<times> string) list \<Rightarrow> bool" where
  "table_ok xs hs \<longleftrightarrow> map_ok xs \<and> map_ok hs
     \<and> (\<forall>i t. map_of xs i = Some t \<longrightarrow> transfer_ok i t \<and> (receiving t \<longrightarrow> map_of hs i = Some (tPath t)))"

lemma table_okD:
  assumes "table_ok xs hs" and "map_of xs i = Some t"
  shows "transfer_ok i t" "tID t = i" "receiving t \<Longrightarrow> map_of hs i = Some (tPath t)"
  using assms by (auto simp: table_ok_def transfer_ok_def)

lemma table_ok_put [intro]:
  "table_ok xs hs \<Longrightarrow> transfer_ok i t \<Longrightarrow> (receiving t \<Longrightarrow> map_of hs i = Some (tPath t)) \<Longrightarrow> table_ok (AList.update i t xs) hs"
  by (auto simp: table_ok_def)

lemma table_ok_close [intro]:
  "table_ok xs hs \<Longrightarrow> transfer_ok i t \<Longrightarrow> \<not> receiving t \<Longrightarrow> table_ok (AList.update i t xs) (AList.delete i hs)"
  by (auto simp: table_ok_def)

lemma table_ok_handle [intro]:
  "table_ok xs hs \<Longrightarrow> transfer_ok i t \<Longrightarrow> tPath t = p \<Longrightarrow> table_ok (AList.update i t xs) (AList.update i p hs)"
  by (auto simp: table_ok_def)

lemma table_ok_no_handle: "table_ok xs hs \<Longrightarrow> map_of xs i = None \<Longrightarrow> table_ok xs (AList.delete i hs)"
  by (auto simp: table_ok_def)

lemma fail_transfer_fields [simp]:
  "dmXfers (fst (fail_transfer d i why)) = (case map_of (dmXfers d) i of None \<Rightarrow> dmXfers d
     | Some t \<Rightarrow> AList.update i (fail_update why t) (dmXfers d))"
  "dmOpen (fst (fail_transfer d i why)) = AList.delete i (dmOpen d)"
  "dmFS (fst (fail_transfer d i why)) = dmFS d" "dmCursor (fst (fail_transfer d i why)) = dmCursor d"
  "dmConn (fst (fail_transfer d i why)) = dmConn d" "dmConnected (fst (fail_transfer d i why)) = dmConnected d"
  by (simp_all add: fail_transfer_def xfer_update_def take_file_def split: option.splits)

lemma transfer_ok_changes [simp]:
  "receiving (fail_update why t) = False" "receiving (finish_receive t) = False" "receiving (finish_push n t) = False"
  "receiving (cancel_update TransferCancelled r t) = False" "receiving (cancel_update TransferDeclined r t) = False"
  "receiving (set_done n t) = receiving t" "receiving (add_done n t) = receiving t"
  by (auto simp: transfer_ok_def fail_update_def receiving_def finish_receive_def finish_push_def cancel_update_def
      set_done_def add_done_def Let_def)

lemma transfer_ok_keep [intro]:
  assumes "transfer_ok i t"
  shows "transfer_ok i (fail_update why t)" "transfer_ok i (finish_receive t)" "transfer_ok i (finish_push n t)"
    "transfer_ok i (cancel_update TransferCancelled r t)" "transfer_ok i (cancel_update TransferDeclined r t)"
    "transfer_ok i (set_done n t)" "transfer_ok i (add_done n t)" "transfer_ok i (run_update path t)"
    "transfer_ok i (set_xfer_state TransferRunning t)"
  using assms by (auto simp: transfer_ok_def fail_update_def finish_receive_def finish_push_def cancel_update_def
      set_done_def add_done_def run_update_def set_xfer_state_def Let_def)

lemma keep_fields [simp]:
  "tPath (set_done n t) = tPath t" "tPath (add_done n t) = tPath t" "tPath (run_update p t) = p"
  "tIncoming (run_update p t) = tIncoming t" "tIncoming (set_xfer_state st t) = tIncoming t"
  by (simp_all add: set_done_def add_done_def run_update_def set_xfer_state_def)

lemma table_fail [intro]:
  "table_ok (dmXfers d) (dmOpen d) \<Longrightarrow> table_ok (dmXfers (fst (fail_transfer d i why))) (dmOpen (fst (fail_transfer d i why)))"
  using table_okD(1) [of "dmXfers d" "dmOpen d" i] transfer_ok_keep(1)
  by (auto simp: table_ok_no_handle intro!: table_ok_close split: option.splits)

lemma table_fail_live:
  "table_ok (dmXfers d) (dmOpen d) \<Longrightarrow>
     table_ok (dmXfers (foldl (fail_live why) d ts)) (dmOpen (foldl (fail_live why) d ts))"
proof (induction ts arbitrary: d)
  case (Cons t ts)
  have "table_ok (dmXfers (fail_live why d t)) (dmOpen (fail_live why d t))"
    using table_fail [OF Cons.prems, of "tID t" why] Cons.prems by (simp add: fail_live_def)
  then show ?case using Cons.IH by simp
qed simp


definition table :: "daemon \<Rightarrow> bool" where
  "table d \<longleftrightarrow> table_ok (dmXfers d) (dmOpen d)"

lemma table_cong: "dmXfers d' = dmXfers d \<Longrightarrow> dmOpen d' = dmOpen d \<Longrightarrow> table d' = table d"
  by (simp add: table_def)

named_theorems tables \<open>an operation of the daemon keeps its transfer table in order\<close>

lemma table_silent [simp]:
  "table (emit d ev) = table d" "table (emit_all d evs) = table d" "table (fst (wire_write d f)) = table d"
  "table (with_dstore d s) = table d" "table (set_msg_state d i st) = table d" "table (send_message d m) = table d"
  "table (flush_list d ms) = table d" "table (maybe_notify d m p) = table d" "table (clear_typing d i c) = table d"
  "table (system_message w d c tx) = table d" "table (save_cursor d) = table d" "table (advance d q) = table d"
  "table (received d m) = table d" "table (store_message w d m) = table d" "table (emit_transfer d t) = table d"
  "table (set_state_for_transfer d i st) = table d" "table (emit_throttled w d t) = table d"
  by (simp_all add: table_def)

lemma table_files [simp]:
  "table (remove_file d p) = table d" "table (append_file d p bs) = table d" "table (d\<lparr>dmPush := ps\<rparr>) = table d"
  "table (d\<lparr>dmAccept := xs\<rparr>) = table d" "table (d\<lparr>dmFS := fs\<rparr>) = table d" "table (d\<lparr>dmTyping := ty\<rparr>) = table d"
  "table (d\<lparr>dmDiscNote := n\<rparr>) = table d"
  by (simp_all add: table_def)

lemma table_fail_transfer [tables, intro]: "table d \<Longrightarrow> table (fst (fail_transfer d i why))"
  using table_fail by (simp add: table_def)

lemma table_send_offer: "table d \<Longrightarrow> table (fst (send_offer d t))"
  by (auto simp: send_offer_def case_prod_beta split: bool.splits)

lemma table_put: "table d \<Longrightarrow> transfer_ok (tID t) t \<Longrightarrow> \<not> receiving t \<Longrightarrow> table (xfer_put d t)"
  by (auto simp: table_def xfer_put_def)

lemma table_daemon_offer [tables]:
  assumes "table d"
  shows "table (fst (daemon_offer w d conv path))"
proof -
  have "table (xfer_put d (offered w conv p path sz dig))" for p sz dig
    using assms by (intro table_put) (simp_all add: offered_def new_transfer_def transfer_ok_def receiving_def)
  with assms show ?thesis
    by (auto simp: daemon_offer_def Let_def case_prod_beta intro!: table_send_offer split: sum.splits option.splits)
qed

lemma incoming_ok:
  assumes "\<not> (fSize f < 0 \<or> max_transfer_bytes < fSize f)"
  shows "transfer_ok (tID (incoming w f)) (incoming w f)" "\<not> receiving (incoming w f)"
  using assms by (auto simp: incoming_def new_transfer_def transfer_ok_def receiving_def Let_def safe_name_safe_base_name)

lemma table_got_offer [tables]: "table d \<Longrightarrow> table (got_offer w d f)"
  using incoming_ok [of f w] table_put [of d "incoming w f"]
  by (auto simp: got_offer_def Let_def)

lemma table_daemon_accept [tables]:
  assumes "table d"
  shows "table (fst (daemon_accept w d i))"
proof -
  have run: "table (d\<lparr>dmFS := fs\<rparr>)" for fs using assms by (simp add: table_def)
  have "table (fst (xfer_update (open_file (d\<lparr>dmFS := fs\<rparr>) i path) i (run_update path)))" if "xfer_get d i = Some t" for fs path t
  proof -
    have "transfer_ok i (run_update path t)" using assms that table_okD(1) by (auto simp: table_def xfer_get_def)
    with assms that show ?thesis by (auto simp: table_def xfer_update_def open_file_def xfer_get_def)
  qed
  with run assms show ?thesis
    by (auto simp: daemon_accept_def Let_def case_prod_beta intro!: table_fail_transfer split: option.splits sum.splits bool.splits)
qed

lemma table_cancel_transfer:
  assumes "table d" and "st = TransferCancelled \<or> st = TransferDeclined"
  shows "table (cancel_transfer d i st reason)"
proof (cases "xfer_get d i")
  case (Some t)
  then have "transfer_ok i t" using assms(1) table_okD(1) by (auto simp: table_def xfer_get_def)
  then have "transfer_ok i (cancel_update st reason t)" "\<not> receiving (cancel_update st reason t)"
    using assms(2) transfer_ok_keep(4,5) by auto
  with assms(1) Some show ?thesis
    by (auto simp: table_def cancel_transfer_def Let_def case_prod_beta xfer_update_def xfer_get_def take_file_def
        remove_file_def)
qed (use assms in \<open>simp add: cancel_transfer_def\<close>)

lemma table_daemon_decline [tables]: "table d \<Longrightarrow> table (fst (daemon_decline w d i reason))"
  by (simp add: daemon_decline_def Let_def table_cancel_transfer split: option.splits)

lemma table_got_decline [tables]: "table d \<Longrightarrow> table (got_decline w d f)"
  by (simp add: got_decline_def Let_def table_cancel_transfer split: option.splits)

lemma table_update_same:
  assumes "table d" and "\<And>t. map_of (dmXfers d) i = Some t \<Longrightarrow> transfer_ok i t \<Longrightarrow>
      transfer_ok i (fn t) \<and> (receiving (fn t) \<longrightarrow> receiving t \<and> tPath (fn t) = tPath t)"
  shows "table (fst (xfer_update d i fn))"
proof (cases "map_of (dmXfers d) i")
  case (Some t)
  have ok: "transfer_ok i t" and h: "receiving t \<Longrightarrow> map_of (dmOpen d) i = Some (tPath t)"
    using assms(1) Some table_okD by (auto simp: table_def)
  from assms(2) [OF Some ok] have "transfer_ok i (fn t)" "receiving (fn t) \<Longrightarrow> map_of (dmOpen d) i = Some (tPath (fn t))"
    using h by auto
  with assms(1) Some show ?thesis by (auto simp: table_def xfer_update_def)
qed (use assms in \<open>simp add: xfer_update_def\<close>)

lemma table_got_accept [tables]:
  assumes "table d"
  shows "table (got_accept w d f)"
proof -
  have push: "table (start_push w e t)" if "table e" for e t
    using that by (auto simp: start_push_def split: option.splits)
  have "table (fst (xfer_update d (fTransfer f) (set_xfer_state TransferRunning)))"
    if "xfer_get d (fTransfer f) = Some t" "\<not> tIncoming t" for t
    using assms that
    by (intro table_update_same) (auto simp: xfer_get_def receiving_def)
  with push assms show ?thesis
    by (auto simp: got_accept_def case_prod_beta xfer_update_def split: option.splits)
qed

lemma table_push_step [tables]:
  assumes "table d"
  shows "table (fst (push_step w d p))"
proof -
  have "table (fst (xfer_update e i (finish_push n)))" "table (fst (xfer_update e i (set_done n)))" if "table e" for e i n
    using that by (auto intro!: table_update_same)
  with assms show ?thesis
    by (auto simp: push_step_def Let_def case_prod_beta intro!: table_fail_transfer split: option.splits bool.splits)
qed

lemma table_got_chunk [tables]:
  assumes "table d"
  shows "table (got_chunk w d f)"
proof -
  have "table (fst (xfer_update e i (add_done n)))" if "table e" for e i n
    using that by (auto intro!: table_update_same)
  from this [of "append_file d _ (fData f)"] assms show ?thesis
    by (auto simp: got_chunk_def case_prod_beta intro!: table_fail_transfer split: option.splits)
qed

lemma table_got_done [tables]:
  assumes "table d"
  shows "table (got_done w d f)"
proof (cases "xfer_get d (fTransfer f)")
  case (Some t)
  let ?i = "fTransfer f"
  have ok: "transfer_ok ?i (finish_receive t)"
    using assms Some table_okD(1) by (auto simp: table_def xfer_get_def)
  have closed: "table (fst (xfer_update (fst (take_file d ?i)) ?i finish_receive))"
    using assms Some ok by (auto simp: table_def take_file_def xfer_update_def xfer_get_def)
  have failed: "table (fst (fail_transfer (remove_file (fst (take_file d ?i)) p) ?i why))" for p why
  proof -
    have "AList.delete ?i (AList.delete ?i (dmOpen d)) = AList.delete ?i (dmOpen d)" by (rule delete_idem)
    with assms table_fail [of d ?i why] show ?thesis
      by (simp add: table_def take_file_def split: option.splits)
  qed
  show ?thesis
    using assms Some closed failed by (auto simp: got_done_def Let_def xfer_update_def split: option.splits)
qed (use assms in \<open>simp add: got_done_def\<close>)


lemma table_flush [simp]: "table (flush_queue d) = table d"
  by (simp add: flush_queue_def)

lemma table_clear_all [simp]: "table (clear_all_typing d) = table d"
  by (simp add: clear_all_typing_def)

lemma table_session_close [tables]:
  assumes "table d"
  shows "table (session_close w d)"
proof -
  let ?d1 = "save_cursor (d\<lparr>dmConn := False, dmConnected := False\<rparr>)"
  have "table (clear_all_typing (mark_everyone_offline w ?d1))"
    using assms by (simp add: mark_everyone_offline_def) (simp add: table_def)
  then show ?thesis
    using table_fail_live by (simp add: session_close_def Let_def fail_live_transfers_def table_def)
qed

lemma table_got_own [simp]: "table (got_own w d m) = table d"
  by (simp add: got_own_def case_prod_beta split: option.splits)

lemma table_got_message [simp]: "table (got_message w d f) = table d"
  by (simp add: got_message_def Let_def split: option.splits)

lemma table_folds [simp]:
  "table (got_seq d f) = table d" "table (got_roster d f) = table d" "table (got_typing w d i c b) = table d"
  "table (got_synced d f) = table d" "table (got_error d f) = table d"
  by (simp_all add: got_seq_def got_roster_def got_typing_def got_synced_def got_error_def Let_def case_prod_beta
      split: option.splits)

lemma table_apply_frame [tables]: "table d \<Longrightarrow> table (apply_frame w d f)"
  by (simp add: apply_frame_def tables)

lemma table_daemon_step:
  assumes "table d"
  shows "table (daemon_step d we)"
proof (cases we)
  case (Pair w e)
  have "table (d\<lparr>dmHeard := a, dmSrvName := n\<rparr>)" "table (nudge (d\<lparr>dmHeard := a, dmSrvName := n\<rparr>))" for a n
    using assms by (simp_all add: table_def nudge_def)
  moreover have "table (enrolled d a f n)" for a f n using assms by (simp add: enrolled_def Let_def) (simp add: table_def)
  ultimately show ?thesis
    using assms Pair
    by (cases e) (simp_all add: daemon_step_def server_appeared_def disc_note_def disc_stopped_def attempt_def
        session_open_def link_error_def read_frame_step_def link_down_def tables expire_typing_def daemon_send_def
        daemon_set_presence_def readvertise_def daemon_join_def daemon_leave_def daemon_typing_def push_turn_def
        accept_turn_def Let_def case_prod_beta split: sum.splits option.splits list.splits)
qed

section \<open>The invariant\<close>

definition daemon_ok :: "daemon \<Rightarrow> bool" where
  "daemon_ok d \<longleftrightarrow> store_ok (dmStore d) \<and> table d"

lemma daemon_ok_step: "daemon_ok d \<Longrightarrow> daemon_ok (daemon_step d we)"
  using path_store_ok [OF path_daemon_step] table_daemon_step by (auto simp: daemon_ok_def)

interpretation daemon_steps: stepper daemon_step daemon_ok
  by unfold_locales (rule daemon_ok_step)

section \<open>The cursor\<close>

lemma advance_cursor: "dmCursor (advance d q) = max (dmCursor d) q"
  by (auto simp: advance_def max_def)

lemma le_advance [simp]: "dmCursor d \<le> dmCursor (advance d q)" "q \<le> dmCursor (advance d q)"
  by (simp_all add: advance_cursor)

named_theorems cursors \<open>an operation that leaves the cursor and the server it belongs to\<close>

lemma cursor_transfers [cursors]:
  "dmCursor (fst (daemon_offer w d conv path)) = dmCursor d" "dmCursor (got_offer w d f) = dmCursor d"
  "dmCursor (fst (daemon_accept w d i)) = dmCursor d" "dmCursor (fst (daemon_decline w d i r)) = dmCursor d"
  "dmCursor (got_decline w d f) = dmCursor d" "dmCursor (got_accept w d f) = dmCursor d"
  "dmCursor (fst (push_step w d p)) = dmCursor d" "dmCursor (got_chunk w d f) = dmCursor d"
  "dmCursor (got_done w d f) = dmCursor d"
  by (simp_all add: daemon_offer_def send_offer_def got_offer_def daemon_accept_def daemon_decline_def
      cancel_transfer_def got_decline_def got_accept_def start_push_def push_step_def got_chunk_def got_done_def
      Let_def case_prod_beta split: option.splits sum.splits bool.splits)

lemma cursor_fail_live [cursors]: "dmCursor (foldl (fail_live why) d ts) = dmCursor d"
  by (induction ts arbitrary: d) (simp_all add: fail_live_def)

lemma cursor_flush [cursors]: "dmCursor (flush_queue d) = dmCursor d"
  by (simp add: flush_queue_def)

lemma cursor_clear_all [cursors]: "dmCursor (clear_all_typing d) = dmCursor d"
  by (simp add: clear_all_typing_def)

lemma cursor_got_message: "dmCursor (got_message w d f) = (if fFrom f = '''' then dmCursor d else max (dmCursor d) (fSeq f))"
  by (simp add: got_message_def got_own_def advance_cursor Let_def case_prod_beta split: option.splits)

lemma cursor_folds [cursors]:
  "dmCursor (got_seq d f) = max (dmCursor d) (fSeq f)" "dmCursor (got_roster d f) = dmCursor d"
  "dmCursor (got_typing w d i c b) = dmCursor d" "dmCursor (got_synced d f) = max (dmCursor d) (fCursor f)"
  "dmCursor (got_error d f) = dmCursor d"
  by (simp_all add: got_seq_def got_roster_def got_typing_def got_synced_def got_error_def cursors advance_cursor
      Let_def case_prod_beta split: option.splits)

lemma cursor_apply_frame: "dmCursor d \<le> dmCursor (apply_frame w d f)"
  by (simp add: apply_frame_def cursor_got_message cursors)

lemma cursor_session_close [cursors]: "dmCursor (session_close w d) = dmCursor d"
  by (simp add: session_close_def mark_everyone_offline_def fail_live_transfers_def cursors Let_def)

definition is_attempt :: "world \<times> daemon_event \<Rightarrow> bool" where
  "is_attempt we \<longleftrightarrow> (case snd we of Attempt _ _ \<Rightarrow> True | _ \<Rightarrow> False)"

lemma cursor_step: "\<not> is_attempt we \<Longrightarrow> dmCursor d \<le> dmCursor (daemon_step d we)"
proof (cases we)
  case (Pair w e)
  assume "\<not> is_attempt we"
  with Pair show ?thesis
    by (cases e) (simp_all add: is_attempt_def daemon_step_def server_appeared_def disc_note_def disc_stopped_def
        nudge_def read_frame_step_def link_down_def link_error_def cursor_apply_frame cursors expire_typing_def
        daemon_send_def daemon_set_presence_def readvertise_def daemon_join_def daemon_leave_def daemon_typing_def
        push_turn_def accept_turn_def Let_def case_prod_beta split: option.splits sum.splits list.splits)
qed


end
