(* ===== verification/CatchUp.thy ===== *)
theory CatchUp
  imports ServerFacts DaemonFacts
begin

text \<open>
  A client daemon against a server: what a client that is sent its backlog ends up holding. The server
  only stores messages a client can take (\<open>server_ready\<close>, an invariant of its runs); a client that reads the
  frames of a backlog in order holds every message up to its cursor at every moment, so a link
  that breaks in the middle loses nothing.
\<close>

section \<open>What the server stores, a client can take\<close>

definition takeable :: "message \<Rightarrow> bool" where
  "takeable m \<longleftrightarrow> mFrom m \<noteq> '''' \<and> mID m \<noteq> '''' \<and> length (runes (mBody m)) \<le> 8000"

definition nobody_blocked :: "store \<Rightarrow> bool" where
  "nobody_blocked st \<longleftrightarrow> (\<forall>i. \<not> blocked st i)"

definition server_ready :: "server \<Rightarrow> bool" where
  "server_ready s \<longleftrightarrow> (\<forall>m \<in> history s. takeable m) \<and> nobody_blocked (svStore s)"

lemma blocked_put_peer: "blocked (fst (put_peer st p)) i \<longleftrightarrow> blocked st i \<or> (pID p \<noteq> '''' \<and> i = pID p \<and> pBlocked p)"
  by (auto simp: blocked_def put_peer_peers merge_peer_fields)

lemma blocked_same: "stPeers st' = stPeers st \<Longrightarrow> blocked st' = blocked st"
  by (simp add: blocked_def fun_eq_iff)

lemma nobody_put_peer [simp]: "\<not> pBlocked p \<Longrightarrow> nobody_blocked (fst (put_peer st p)) = nobody_blocked st"
  by (auto simp: nobody_blocked_def blocked_put_peer)

lemma nobody_set_rooms [simp]: "nobody_blocked (svStore (set_rooms s i rs)) = nobody_blocked (svStore s)"
  by (simp add: set_rooms_def zero_peer_def)

lemma nobody_set_presence [simp]: "nobody_blocked (fst (set_presence now st i pr)) = nobody_blocked st"
  by (simp add: set_presence_def zero_peer_def)

lemma nobody_append [simp]: "nobody_blocked (fst (append_message now st m)) = nobody_blocked st"
  using append_message_fields(1) [of now st m] by (simp add: nobody_blocked_def blocked_def)

lemma nobody_next [simp]: "nobody_blocked (fst (next_seq st)) = nobody_blocked st"
  by (simp add: next_seq_def nobody_blocked_def blocked_def)

lemma nobody_sends: "sends_only s s' \<Longrightarrow> nobody_blocked (svStore s') = nobody_blocked (svStore s)"
  by (simp add: sends_only_fields)

lemma nobody_relays: "relays_only s s' \<Longrightarrow> nobody_blocked (svStore s') = nobody_blocked (svStore s)"
  by (simp add: relays_only_fields)

lemma nobody_sending [simp]:
  "nobody_blocked (svStore (broadcast_peer s i)) = nobody_blocked (svStore s)"
  "nobody_blocked (svStore (on_typing s c f)) = nobody_blocked (svStore s)"
  "nobody_blocked (svStore (send f s c)) = nobody_blocked (svStore s)"
  "nobody_blocked (svStore (resend_seq s c i)) = nobody_blocked (svStore s)"
  "nobody_blocked (svStore (foldl (send_plain c) s ms)) = nobody_blocked (svStore s)"
  "nobody_blocked (svStore (backfill s c from reset cursor)) = nobody_blocked (svStore s)"
  by (rule nobody_sends, simp)+

lemma nobody_relaying [simp]:
  "nobody_blocked (svStore (on_offer now s c f)) = nobody_blocked (svStore s)"
  "nobody_blocked (svStore (on_accept s c f)) = nobody_blocked (svStore s)"
  "nobody_blocked (svStore (on_decline s c f)) = nobody_blocked (svStore s)"
  "nobody_blocked (svStore (on_chunk s c f)) = nobody_blocked (svStore s)"
  "nobody_blocked (svStore (on_done s c f)) = nobody_blocked (svStore s)"
  "nobody_blocked (svStore (fail_transfers_of s i reason)) = nobody_blocked (svStore s)"
  "nobody_blocked (svStore (server_tick now s)) = nobody_blocked (svStore s)"
  by (rule nobody_relays, simp add: relays_only_tick)+

lemma nobody_with_store [simp]: "nobody_blocked (svStore (with_store s st)) = nobody_blocked st"
  by simp

lemma nobody_accept [simp]: "nobody_blocked (svStore (accept_message now s c m rcpts)) = nobody_blocked (svStore s)"
  using nobody_sends [OF accept_message_sends] by simp

lemma nobody_handle: "nobody_blocked (svStore (handle now s c f)) = nobody_blocked (svStore s)"
proof -
  have "nobody_blocked (svStore (on_message now s c f)) = nobody_blocked (svStore s)"
    by (simp add: on_message_def split: option.splits sum.splits)
  moreover have "nobody_blocked (svStore (on_presence now s c f)) = nobody_blocked (svStore s)"
    by (simp add: on_presence_def Let_def zero_peer_def)
  moreover have "nobody_blocked (svStore (on_join s c f)) = nobody_blocked (svStore s)"
    by (simp add: on_join_def join_member_def Let_def)
  moreover have "nobody_blocked (svStore (on_leave s c f)) = nobody_blocked (svStore s)"
    by (simp add: on_leave_def)
  ultimately show ?thesis by (simp add: handle_def)
qed

lemma nobody_handle_conn: "nobody_blocked (svStore (fst (handle_conn printable now s k addr first ok))) = nobody_blocked (svStore s)"
proof -
  have "nobody_blocked (svStore (record_hello now s h a)) = nobody_blocked (svStore s)" for h a
    by (simp add: record_hello_def peer_from_hello_def Let_def)
  then show ?thesis by (simp add: handle_conn_def register_def Let_def split: sum.splits option.splits)
qed

lemma nobody_disconnect: "nobody_blocked (svStore (disconnect now s c)) = nobody_blocked (svStore s)"
  by (simp add: disconnect_def close_conn_def unregister_def Let_def)

lemmas nobody_handlers = nobody_handle nobody_handle_conn nobody_disconnect

lemma nobody_step: "nobody_blocked (svStore s) \<Longrightarrow> nobody_blocked (svStore (server_step printable s e))"
  by (cases e) (simp_all add: server_step_def nobody_handlers)

lemma takeable_step:
  assumes "server_ok s" and "\<forall>m \<in> history s. takeable m"
  shows "\<forall>m \<in> history (server_step printable s e). takeable m"
proof (cases e)
  case (Received now c f)
  show ?thesis
  proof (cases "is_conn s c \<and> fType f \<noteq> frame_bye")
    case True
    have "\<forall>m \<in> history (on_message now s c f). takeable m"
      using history_on_message [of now s c f]
    proof
      assume "\<exists>m conv rcpts. message_from_frame now f (ccPeer c) = Some m \<and> route s (ccPeer c) (fConv f) = Inr (conv, rcpts)
        \<and> \<not> have_message (svStore s) (mID m) \<and> history (on_message now s c f) = insert (filed_message now
           (m\<lparr>mConv := conv, mFromNick := pNick (get_or zero_peer (stPeers (svStore s)) (ccPeer c)),
              mSeq := stNextSeq (svStore s) + 1\<rparr>)) (history s)"
      then obtain m conv where m: "message_from_frame now f (ccPeer c) = Some m"
        and h: "history (on_message now s c f) = insert (filed_message now
           (m\<lparr>mConv := conv, mFromNick := pNick (get_or zero_peer (stPeers (svStore s)) (ccPeer c)),
              mSeq := stNextSeq (svStore s) + 1\<rparr>)) (history s)" by blast
      have "ccPeer c \<noteq> ''''"
        using is_conn_id [OF assms(1) conjunct1 [OF True]] by (auto simp: id_ok_def)
      then have "takeable (m\<lparr>mConv := conv, mFromNick := nk, mSeq := q\<rparr>)" for nk q
        using message_from_frame_fields [OF m] by (simp add: takeable_def)
      with h assms(2) filed_from_frame [OF m] show ?thesis by simp
    qed (use assms in simp)
    with assms(2) Received True show ?thesis by (simp add: server_step_def history_handle)
  qed (use assms Received in \<open>auto simp: server_step_def\<close>)
qed (use assms in \<open>simp_all add: server_step_def\<close>)

lemma server_ready_step: "server_ok s \<Longrightarrow> server_ready s \<Longrightarrow> server_ready (server_step printable s e)"
  by (simp add: server_ready_def takeable_step nobody_step)

definition ready_fit :: "nat \<Rightarrow> server \<Rightarrow> bool" where
  "ready_fit n s \<longleftrightarrow> server_fit n s \<and> server_ready s"

interpretation ready_budget: budget_stepper "server_step printable" ready_fit
  by unfold_locales (auto simp: ready_fit_def intro: server_fit_step server_ready_step [OF server_fit_ok])

lemma new_server_ready: "all_msgs st = [] \<Longrightarrow> stPeers st = [] \<Longrightarrow> store_ok st \<Longrightarrow> server_ready (new_server st host)"
  using all_msgs_iff [of st] store_okD(1) [of st]
  by (auto simp: server_ready_def history_def new_server_def nobody_blocked_def blocked_def zero_peer_def)

section \<open>A client that reads a message holds it\<close>

lemma have_path: "store_path s t \<Longrightarrow> store_ok s \<Longrightarrow> have_message s i \<Longrightarrow> have_message t i"
proof -
  assume p: "store_path s t" "store_ok s" "have_message s i"
  then obtain c m where m: "m \<in> set (conv_msgs s c)" "mID m = i" by (auto simp: have_message_iff)
  then have "content m \<in> content ` set (conv_msgs t c)" using path_content [OF p(1,2), of c] by blast
  then obtain m' where "m' \<in> set (conv_msgs t c)" "mID m' = i" using m(2) by (auto simp: content_def)
  with path_store_ok [OF p(1,2)] show ?thesis by (auto simp: have_message_iff)
qed

definition carries :: "frame \<Rightarrow> message \<Rightarrow> bool" where
  "carries f m \<longleftrightarrow> fType f = frame_msg \<and> fFrom f = mFrom m \<and> fID f = mID m \<and> fBody f = mBody m
     \<and> fSeq f = mSeq m \<and> fConv f \<noteq> ''''"

lemma store_message_store: "dmStore (store_message w d m) = fst (append_message (wNow w) (dmStore d) m)"
  by (simp add: store_message_def case_prod_beta)

lemma store_message_have:
  "mID m \<noteq> '''' \<Longrightarrow> mConv m \<noteq> '''' \<Longrightarrow> have_message (dmStore (store_message w d m)) (mID m)"
  by (auto simp: store_message_store have_append fileable_def)

lemma confirm_side [simp]:
  "stSelf (fst (confirm s i q)) = stSelf s" "stPeers (fst (confirm s i q)) = stPeers s"
  by (simp_all add: confirm_def Let_def split: option.splits)

lemma confirm_found: "store_ok s \<Longrightarrow> snd (confirm s i q) \<noteq> None \<Longrightarrow> have_message s i"
  by (auto simp: confirm_def have_message_of message_of_def Let_def split: option.splits)

lemma got_own_have:
  assumes "store_ok (dmStore d)" and "mID m \<noteq> ''''" and "mConv m \<noteq> ''''"
  shows "have_message (dmStore (got_own w d m)) (mID m)"
proof (cases "snd (confirm (dmStore d) (mID m) (mSeq m))")
  case None
  then show ?thesis
    using store_message_have [of "m\<lparr>mRead := True, mState := StateDelivered\<rparr>" w] assms(2,3)
    by (simp add: got_own_def case_prod_beta)
next
  case (Some a)
  then have "have_message (dmStore d) (mID m)" using confirm_found [OF assms(1), of "mID m" "mSeq m"] by simp
  then show ?thesis using have_path [OF path_got_own assms(1)] by blast
qed

lemma got_message_have:
  assumes ok: "store_ok (dmStore d)" and f: "carries f m" and m: "takeable m" and free: "\<not> blocked (dmStore d) (mFrom m)"
  shows "have_message (dmStore (got_message w d f)) (mID m)"
proof -
  obtain x where x: "message_from_frame (wNow w) f (fFrom f) = Some x"
    using f m by (simp add: message_from_frame_def carries_def takeable_def)
  note fields = message_from_frame_fields [OF x]
  let ?d = "advance d (fSeq f)"
  have conv: "mConv x \<noteq> ''''" "mID x = mID m" "mID x \<noteq> ''''"
    using f m by (simp_all add: fields carries_def takeable_def)
  have "have_message (dmStore (got_own w ?d (x\<lparr>mMine := True\<rparr>))) (mID x)"
    using got_own_have [of ?d "x\<lparr>mMine := True\<rparr>"] ok conv by simp
  moreover have "have_message (dmStore (store_message w ?d x)) (mID x)"
    using store_message_have [of x w ?d] conv by simp
  ultimately show ?thesis using f m free x conv
    by (simp add: got_message_def carries_def takeable_def Let_def)
qed

text \<open>Who the client is and whom it has blocked does not change by reading a backlog.\<close>

definition same_side :: "daemon \<Rightarrow> daemon \<Rightarrow> bool" where
  "same_side d d' \<longleftrightarrow> iID (stSelf (dmStore d')) = iID (stSelf (dmStore d))
     \<and> blocked (dmStore d') = blocked (dmStore d) \<and> dmConnected d' = dmConnected d"

lemma same_side_refl [simp, intro]: "same_side d d"
  by (simp add: same_side_def)

lemma same_side_trans [trans]: "same_side a b \<Longrightarrow> same_side b c \<Longrightarrow> same_side a c"
  by (simp add: same_side_def)

lemma same_side_store_message: "same_side e (store_message w e m)"
  by (simp add: same_side_def store_message_store append_message_fields blocked_def fun_eq_iff)

lemma same_side_got_own: "same_side e (got_own w e m)"
proof -
  let ?e = "with_dstore e (fst (confirm (dmStore e) (mID m) (mSeq m)))"
  have c: "same_side e ?e" by (simp add: same_side_def blocked_def fun_eq_iff)
  then have "same_side e (store_message w ?e x)" for x
    using same_side_store_message by (rule same_side_trans)
  with c show ?thesis by (simp add: got_own_def case_prod_beta split: option.splits)
qed

lemma same_side_got_message [intro]: "same_side d (got_message w d f)"
proof -
  let ?d = "advance d (fSeq f)"
  have a: "same_side d ?d" by (simp add: same_side_def)
  have "same_side d (got_own w ?d m)" "same_side d (store_message w ?d m)" for m
    using a same_side_got_own [of ?d w m] same_side_store_message [of ?d w m] by (auto intro: same_side_trans)
  with a show ?thesis by (simp add: got_message_def Let_def split: option.splits)
qed

lemma put_rosters_side:
  assumes "\<forall>p \<in> set ps. \<not> pBlocked p"
  shows "stSelf (fst (foldl put_roster sc ps)) = stSelf (fst sc) \<and> blocked (fst (foldl put_roster sc ps)) = blocked (fst sc)"
  using assms
proof (induction ps arbitrary: sc)
  case (Cons p ps)
  have "stSelf (fst (put_roster sc p)) = stSelf (fst sc) \<and> blocked (fst (put_roster sc p)) = blocked (fst sc)"
    using Cons.prems by (auto simp: put_roster_def blocked_put_peer fun_eq_iff)
  then show ?case using Cons.IH [of "put_roster sc p"] Cons.prems by simp
qed simp

lemma same_side_got_roster:
  assumes "fPeer f = None" and "\<forall>p \<in> set (fPeers f). \<not> pBlocked p"
  shows "same_side d (got_roster d f)"
  using put_rosters_side [OF assms(2), of "(dmStore d, False)"] assms(1)
  by (simp add: same_side_def got_roster_def case_prod_beta)


section \<open>Reading a backlog\<close>

definition reads :: "daemon \<Rightarrow> (world \<times> frame) list \<Rightarrow> daemon" where
  "reads d wps = daemon_run d (map (\<lambda>wp. (fst wp, Incoming (snd wp))) wps)"

lemma reads_simps [simp]:
  "reads d [] = d"
  "reads d (wp # wps) = reads (daemon_step d (fst wp, Incoming (snd wp))) wps"
  by (simp_all add: reads_def daemon_run_def)

lemma reads_append: "reads d (xs @ ys) = reads (reads d xs) ys"
  by (simp add: reads_def daemon_run_def)

lemma reads_path: "store_path (dmStore d) (dmStore (reads d wps))"
  unfolding reads_def by (rule path_daemon_run)

lemma reads_have: "store_ok (dmStore d) \<Longrightarrow> have_message (dmStore d) i \<Longrightarrow> have_message (dmStore (reads d wps)) i"
  using have_path [OF reads_path] by blast

lemma reads_ok: "store_ok (dmStore d) \<Longrightarrow> store_ok (dmStore (reads d wps))"
  using path_store_ok [OF reads_path] by blast

lemma step_message: "dmConnected d \<Longrightarrow> fType f = frame_msg \<Longrightarrow> daemon_step d (w, Incoming f) = got_message w d f"
  by (simp add: daemon_step_def read_frame_step_def apply_frame_def frame_type_defs)

lemma step_roster: "dmConnected d \<Longrightarrow> fType f = frame_roster \<Longrightarrow> daemon_step d (w, Incoming f) = got_roster d f"
  by (simp add: daemon_step_def read_frame_step_def apply_frame_def frame_type_defs)

lemma step_synced: "dmConnected d \<Longrightarrow> fType f = frame_synced \<Longrightarrow> daemon_step d (w, Incoming f) = got_synced d f"
  by (simp add: daemon_step_def read_frame_step_def apply_frame_def frame_type_defs)

lemma reads_messages:
  assumes "list_all2 (\<lambda>wp m. carries (snd wp) m) wps ms" and "store_ok (dmStore d)" and "dmConnected d"
    and "\<forall>m \<in> set ms. takeable m \<and> \<not> blocked (dmStore d) (mFrom m)"
  shows "(\<forall>m \<in> set ms. have_message (dmStore (reads d wps)) (mID m)) \<and> same_side d (reads d wps)
     \<and> dmCursor (reads d wps) = foldl max (dmCursor d) (map mSeq ms)"
  using assms
proof (induction wps ms arbitrary: d rule: list_all2_induct)
  case (Cons wp wps m ms)
  let ?d = "got_message (fst wp) d (snd wp)"
  have f: "carries (snd wp) m" "takeable m" "\<not> blocked (dmStore d) (mFrom m)" using Cons by auto
  have step: "daemon_step d (fst wp, Incoming (snd wp)) = ?d"
    using f(1) Cons.prems(2) by (simp add: step_message carries_def)
  have side: "same_side d ?d" by blast
  have ok: "store_ok (dmStore ?d)" using path_store_ok [OF path_got_message] Cons.prems(1) by blast
  have IH: "(\<forall>m \<in> set ms. have_message (dmStore (reads ?d wps)) (mID m)) \<and> same_side ?d (reads ?d wps)
     \<and> dmCursor (reads ?d wps) = foldl max (dmCursor ?d) (map mSeq ms)"
    by (rule Cons.IH [OF ok]) (use side Cons.prems in \<open>auto simp: same_side_def\<close>)
  moreover have "have_message (dmStore (reads ?d wps)) (mID m)"
    by (rule reads_have [OF ok]) (rule got_message_have [OF Cons.prems(1) f])
  moreover have "dmCursor ?d = max (dmCursor d) (mSeq m)"
    using f by (simp add: cursor_got_message carries_def takeable_def)
  ultimately show ?case using step side by (auto intro: same_side_trans)
qed simp

lemma visible_frame_carries:
  assumes "conv_for m i rs \<noteq> None" and "mConv m \<noteq> ''''"
  shows "carries (visible_frame i rs m) m"
proof -
  obtain c where c: "conv_for m i rs = Some c" using assms(1) by auto
  have "c \<noteq> ''''" using c assms(2) by (auto simp: conv_for_def direct_conv_def split: if_splits option.splits)
  with c show ?thesis by (simp add: carries_def visible_frame_def)
qed

lemma foldl_max_sorted:
  "foldl max (a :: uint64) xs \<le> q \<longleftrightarrow> a \<le> q \<and> (\<forall>x \<in> set xs. x \<le> q)"
  by (induction xs arbitrary: a) auto

lemma foldl_max_mem: "foldl max (a :: uint64) xs = a \<or> foldl max a xs \<in> set xs"
proof (induction xs arbitrary: a)
  case (Cons x xs)
  from Cons.IH [of "max a x"] show ?case by (auto simp: max_def split: if_splits)
qed simp

text \<open>In a list sorted by sequence number, a message not past the largest one of a prefix is in the prefix.\<close>

lemma sorted_prefix_mem:
  assumes "sorted_wrt (\<lambda>a b. mSeq a < mSeq b) l" and "m \<in> set l" and "from < mSeq m"
    and "mSeq m \<le> foldl max from (map mSeq (take k l))"
  shows "m \<in> set (take k l)"
proof -
  from assms(3,4) have "foldl max from (map mSeq (take k l)) \<noteq> from" by auto
  with foldl_max_mem [of "from" "map mSeq (take k l)"] obtain x where
    x: "x \<in> set (take k l)" "mSeq m \<le> mSeq x" using assms(4) by auto
  show ?thesis
  proof (rule ccontr)
    assume "m \<notin> set (take k l)"
    then have "m \<in> set (drop k l)" using assms(2) by (metis Un_iff append_take_drop_id set_append)
    moreover have "sorted_wrt (\<lambda>a b. mSeq a < mSeq b) (take k l @ drop k l)" using assms(1) by simp
    ultimately have "mSeq x < mSeq m" using x(1) unfolding sorted_wrt_append by blast
    with x(2) show False by simp
  qed
qed


text \<open>Roster frames of a server that blocks nobody are harmless.\<close>

definition harmless :: "frame \<Rightarrow> bool" where
  "harmless f \<longleftrightarrow> fType f = frame_roster
     \<and> (\<forall>p \<in> set (case fPeer f of Some p \<Rightarrow> [p] | None \<Rightarrow> fPeers f). \<not> pBlocked p)"

lemma same_side_harmless: "harmless f \<Longrightarrow> same_side d (got_roster d f)"
  using put_rosters_side [of "case fPeer f of Some p \<Rightarrow> [p] | None \<Rightarrow> fPeers f" "(dmStore d, False)"]
  by (auto simp: harmless_def same_side_def got_roster_def case_prod_beta split: option.splits)

lemma reads_harmless:
  assumes "\<forall>f \<in> set (map snd wps). harmless f" and "dmConnected d"
  shows "same_side d (reads d wps) \<and> dmCursor (reads d wps) = dmCursor d"
  using assms
proof (induction wps arbitrary: d)
  case (Cons wp wps)
  then have h: "harmless (snd wp)" by simp
  then have step: "daemon_step d (fst wp, Incoming (snd wp)) = got_roster d (snd wp)"
    using Cons.prems by (simp add: step_roster harmless_def)
  have side: "same_side d (got_roster d (snd wp))" by (rule same_side_harmless [OF h])
  have "same_side (got_roster d (snd wp)) (reads (got_roster d (snd wp)) wps)
      \<and> dmCursor (reads (got_roster d (snd wp)) wps) = dmCursor (got_roster d (snd wp))"
    by (rule Cons.IH) (use Cons.prems side in \<open>auto simp: same_side_def\<close>)
  with side step show ?case by (auto simp: cursors intro: same_side_trans)
qed simp

lemma blocked_peer: "store_ok st \<Longrightarrow> nobody_blocked st \<Longrightarrow> p \<in> set (map snd (stPeers st)) \<Longrightarrow> \<not> pBlocked p"
proof -
  assume st: "store_ok st" "nobody_blocked st" "p \<in> set (map snd (stPeers st))"
  then obtain i where "(i, p) \<in> set (stPeers st)" by auto
  moreover have "map_ok (stPeers st)" using st(1) by (simp add: store_ok_def peers_ok_def)
  ultimately have "map_of (stPeers st) i = Some p" by (simp add: map_of_in_set)
  with st(2) show ?thesis by (auto simp: nobody_blocked_def blocked_def get_or_def split: option.splits dest: spec [of _ i])
qed

lemma harmless_roster: "server_ok s \<Longrightarrow> server_ready s \<Longrightarrow> harmless (roster_frame s)"
  using blocked_peer [OF server_okD(1), of s]
  by (force simp: harmless_def roster_frame_def roster_def roster_peer_def peers_def server_ready_def zero_frame_def)

lemma harmless_broadcast:
  assumes "server_ok s" and "server_ready s" and "peer_of (svStore s) i = Some p"
  shows "harmless (zero_frame\<lparr>fType := frame_roster, fPeer := Some p\<rparr>)"
proof -
  have "p \<in> set (map snd (stPeers (svStore s)))"
    using assms(3) by (force simp: peer_of_def dest: map_of_SomeD)
  with assms blocked_peer [OF server_okD(1) [OF assms(1)]] show ?thesis by (simp add: harmless_def server_ready_def)
qed

text \<open>What a client holds after the first \<open>n\<close> frames of its backlog.\<close>

lemma backlog_prefix:
  assumes s: "server_ok s" "server_ready s" and vis: "vis = visible_since s i (dmCursor d)"
    and d: "store_ok (dmStore d)" "dmConnected d"
    and free: "\<forall>m \<in> set vis. \<not> blocked (dmStore d) (mFrom m)"
    and qs: "\<forall>f \<in> set qs. harmless f"
    and frames: "map snd wps = take n (qs @ map (visible_frame i (rooms_of s i)) vis @ [synced_frame cur])"
  shows "(\<forall>m \<in> set vis. mSeq m \<le> dmCursor (reads d wps) \<longrightarrow> have_message (dmStore (reads d wps)) (mID m))
     \<and> (length qs + length vis < n \<longrightarrow> cur \<le> dmCursor (reads d wps)
          \<and> (\<forall>m \<in> set vis. have_message (dmStore (reads d wps)) (mID m)))" (is "?P \<and> ?Q")
proof -
  have sorted: "sorted_wrt (\<lambda>a b. mSeq a < mSeq b) vis" unfolding vis by (rule sorted_visible_since [OF s(1)])
  have mem: "m \<in> history s \<and> dmCursor d < mSeq m \<and> conv_for m i (rooms_of s i) \<noteq> None" if "m \<in> set vis" for m
    using that set_visible_since [OF s(1)] unfolding vis by blast
  have take: "takeable m" "mConv m \<noteq> ''''" if "m \<in> set vis" for m
    using mem [OF that] s(2) store_okD(4,5) [OF server_okD(1) [OF s(1)]] by (auto simp: server_ready_def history_def)
  have mid: "(\<forall>m \<in> set (take k vis). have_message (dmStore (reads e ps)) (mID m)) \<and> same_side e (reads e ps)
      \<and> dmCursor (reads e ps) = foldl max (dmCursor d) (map mSeq (take k vis)) \<and> store_ok (dmStore (reads e ps))"
    if e: "store_ok (dmStore e)" "same_side d e" "dmCursor e = dmCursor d"
      and ps: "map snd ps = map (visible_frame i (rooms_of s i)) (take k vis)" for e ps k
  proof -
    have "list_all2 (\<lambda>wp m. carries (snd wp) m) ps (take k vis)"
    proof (rule list_all2_all_nthI)
      show len: "length ps = length (take k vis)" using arg_cong [OF ps, of length] by simp
      fix j
      assume j: "j < length ps"
      then have "snd (ps ! j) = map snd ps ! j" by simp
      also have "\<dots> = visible_frame i (rooms_of s i) (take k vis ! j)"
        unfolding ps by (rule nth_map) (use j in \<open>simp only: len\<close>)
      finally have eq: "snd (ps ! j) = visible_frame i (rooms_of s i) (take k vis ! j)" .
      have "take k vis ! j \<in> set vis" using j unfolding len by (meson nth_mem in_set_takeD)
      with mem take(2) show "carries (snd (ps ! j)) (take k vis ! j)"
        unfolding eq by (blast intro: visible_frame_carries)
    qed
    moreover have "\<forall>m \<in> set (take k vis). takeable m \<and> \<not> blocked (dmStore e) (mFrom m)"
      using take(1) free e(2) by (auto simp: same_side_def dest: in_set_takeD)
    moreover have "dmConnected e" using e(2) d(2) by (simp add: same_side_def)
    ultimately show ?thesis
      using reads_messages [of ps "take k vis" e] e(1,3) reads_ok [OF e(1)] by metis
  qed
  consider (early) "n \<le> length qs" | (middle) k where "n = length qs + k" "k \<le> length vis"
    | (late) "length qs + length vis < n" by (metis le_add_diff_inverse nat_le_linear not_le add_le_cancel_left)
  then show ?thesis
  proof cases
    case early
    then have "\<forall>f \<in> set (map snd wps). harmless f" using frames qs by (auto dest: in_set_takeD)
    then have "dmCursor (reads d wps) = dmCursor d" using reads_harmless d(2) by blast
    with early mem show ?thesis by fastforce
  next
    case (middle k)
    then have f: "map snd wps = qs @ map (visible_frame i (rooms_of s i)) (take k vis)"
      using frames by (simp add: take_map)
    let ?a = "take (length qs) wps" and ?b = "drop (length qs) wps"
    have a: "map snd ?a = qs" "map snd ?b = map (visible_frame i (rooms_of s i)) (take k vis)"
      using f by (simp_all add: take_map [symmetric] drop_map [symmetric])
    have e: "same_side d (reads d ?a)" "dmCursor (reads d ?a) = dmCursor d"
      using reads_harmless [of ?a d] a(1) qs d(2) by auto
    have r: "reads d wps = reads (reads d ?a) ?b" by (metis append_take_drop_id reads_append)
    note m = mid [OF reads_ok [OF d(1)] e a(2)]
    have "?P"
      using m r sorted_prefix_mem [OF sorted] mem by metis
    with middle show ?thesis by simp
  next
    case late
    then have f: "map snd wps = qs @ map (visible_frame i (rooms_of s i)) vis @ [synced_frame cur]"
      using frames by simp
    let ?a = "take (length qs) wps" and ?bc = "drop (length qs) wps"
    let ?b = "take (length vis) ?bc" and ?c = "drop (length vis) ?bc"
    have a: "map snd ?a = qs" "map snd ?b = map (visible_frame i (rooms_of s i)) (take (length vis) vis)"
      "map snd ?c = [synced_frame cur]"
      using f by (simp_all add: take_map [symmetric] drop_map [symmetric])
    have e: "same_side d (reads d ?a)" "dmCursor (reads d ?a) = dmCursor d"
      using reads_harmless [of ?a d] a(1) qs d(2) by auto
    let ?e = "reads (reads d ?a) ?b"
    have r: "reads d wps = reads ?e ?c" by (metis append_take_drop_id reads_append)
    note m = mid [OF reads_ok [OF d(1)] e a(2)]
    obtain w where c: "?c = [(w, synced_frame cur)]" using a(3) by (cases ?c) auto
    have "dmConnected ?e" using m e(1) d(2) by (simp add: same_side_def)
    then have "reads ?e ?c = got_synced ?e (synced_frame cur)"
      unfolding c by (simp add: step_synced synced_frame_def)
    then have "cur \<le> dmCursor (reads d wps)" by (simp add: r cursors synced_frame_def)
    moreover have "\<forall>m \<in> set vis. have_message (dmStore (reads d wps)) (mID m)"
      unfolding r using m reads_have [of ?e _ ?c] by auto
    ultimately show ?thesis by blast
  qed
qed


section \<open>What an enrolment queues\<close>

lemma sends_ready: "sends_only s s' \<Longrightarrow> server_ready s' = server_ready s"
  by (simp add: server_ready_def history_sends sends_only_fields)

lemma out_broadcast:
  "\<exists>q g. out_of (broadcast_peer s i) k = out_of s k @ replicate q g
     \<and> (q = 0 \<or> (\<exists>p. peer_of (svStore s) i = Some p
          \<and> g = zero_frame\<lparr>fType := frame_roster, fPeer := Some (if conns_of s i = 0 then p\<lparr>pPresence := presence_offline\<rparr> else p)\<rparr>))"
proof (cases "peer_of (svStore s) i")
  case None
  then show ?thesis by (intro exI [of _ 0]) (simp add: broadcast_peer_def)
next
  case (Some p)
  let ?g = "zero_frame\<lparr>fType := frame_roster, fPeer := Some (if conns_of s i = 0 then p\<lparr>pPresence := presence_offline\<rparr> else p)\<rparr>"
  show ?thesis
    by (intro exI [of _ "if reading s k then count_list (map ccId (every_conn s)) k else 0"] exI [of _ ?g])
       (use Some in \<open>simp add: broadcast_peer_def out_of_send_all\<close>)
qed

lemma out_backfill:
  assumes "reading s (ccId c)" and "missed s (ccPeer c) from reset = ms"
    and "\<forall>m \<in> set ms. conv_for m (ccPeer c) (rooms_of s (ccPeer c)) \<noteq> None"
  shows "out_of (backfill s c from reset cursor) (ccId c) = out_of s (ccId c) @ roster_frame s
    # map (visible_frame (ccPeer c) (rooms_of s (ccPeer c))) ms @ [synced_frame cursor]"
proof -
  have "filter (\<lambda>m. conv_for m (ccPeer c) (rooms_of s (ccPeer c)) \<noteq> None) ms = ms" using assms(3) by simp
  with svOut_backfill [OF assms(1), of "from" reset cursor] assms(2) show ?thesis
    by (simp add: out_of_def comp_def)
qed

text \<open>The frames queued for a client that enrols: the welcome, roster frames, its backlog, the end of it.\<close>

lemma out_handle_conn:
  assumes s: "server_fit n s" "server_ready s" and hello: "valid_hello hello = None"
    and k: "k \<notin> set (conn_ids s)" "reading s k" "out_of s k = []"
    and reset: "\<not> hello_resets s hello (stNextSeq (svStore s))"
    and s': "s' = fst (handle_conn printable now s k addr (Inr hello) True)"
    and few: "length (visible_since s' (fFrom hello) (fCursor hello)) \<le> max_backlog"
  shows "\<exists>qs. (\<forall>f \<in> set qs. harmless f) \<and> out_of s' k = welcome_frame now (record_hello now s hello addr) hello # qs
      @ map (visible_frame (fFrom hello) (rooms_of s' (fFrom hello))) (visible_since s' (fFrom hello) (fCursor hello))
      @ [synced_frame (stNextSeq (svStore s'))]"
proof -
  let ?i = "fFrom hello" and ?s1 = "record_hello now s hello addr"
  let ?s2 = "?s1\<lparr>svOut := svOut ?s1 @ [(k, welcome_frame now ?s1 hello)]\<rparr>" and ?c = "\<lparr>ccPeer = fFrom hello, ccId = k\<rparr>"
  let ?s2c = "?s2\<lparr>svConns := AList.update ?i (conns_to ?s2 ?i @ [?c]) (svConns ?s2)\<rparr>"
  let ?s3 = "register ?s2 ?c"
  have same: "hello_resets ?s1 hello (stNextSeq (svStore ?s1)) = hello_resets s hello (stNextSeq (svStore s))"
    by (simp add: hello_resets_def server_ident_def)
  have s'_eq: "s' = backfill ?s3 ?c (fCursor hello) False (stNextSeq (svStore s))"
    using hello reset same by (simp add: s' handle_conn_def Let_def)
  have reg: "?s3 = broadcast_peer ?s2c ?i" by (simp add: register_def)
  have s3s: "sends_only ?s2c ?s3" unfolding reg by simp
  have fill: "sends_only ?s3 s'" unfolding s'_eq by simp
  have fit3: "server_fit n ?s3"
  proof -
    have "server_fit n ?s1" by (rule server_fit_record_hello [OF s(1) valid_hello_id_ok [OF hello]])
    then have "server_fit n ?s2" by (rule server_fit_out)
    moreover have "conn_ids ?s2 = conn_ids s" by (simp add: conn_ids_def every_conn_def)
    moreover have "peer_of (svStore ?s2) ?i \<noteq> None" using peer_of_record_hello [OF valid_hello_id [OF hello]] by simp
    ultimately show ?thesis using k(1) by (intro server_fit_register) simp_all
  qed
  have ready: "server_ready ?s2c"
    using s(2) nobody_handle_conn [of printable now s k addr "Inr hello" False] hello
    by (simp add: server_ready_def handle_conn_def Let_def)
  then have ready3: "server_ready ?s3" using sends_ready [OF s3s] by simp
  obtain q g where out3: "out_of ?s3 k = out_of ?s2c k @ replicate q g"
    and g: "q = 0 \<or> (\<exists>p. peer_of (svStore ?s2c) ?i = Some p
        \<and> g = zero_frame\<lparr>fType := frame_roster, fPeer := Some (if conns_of ?s2c ?i = 0 then p\<lparr>pPresence := presence_offline\<rparr> else p)\<rparr>)"
    using out_broadcast [of ?s2c ?i k] unfolding reg by blast
  have ok3: "server_ok ?s3" by (rule server_fit_ok [OF fit3])
  have "conns_of ?s2c ?i \<noteq> 0" by (simp add: conns_of_def conns_to_def)
  with g have "q = 0 \<or> (\<exists>p. peer_of (svStore ?s3) ?i = Some p \<and> g = zero_frame\<lparr>fType := frame_roster, fPeer := Some p\<rparr>)"
    using sends_only_fields(1) [OF s3s] by simp
  then have harm: "\<forall>f \<in> set (replicate q g). harmless f"
    using harmless_broadcast [OF ok3 ready3] by (auto simp: set_replicate_conv_if)
  have out2: "out_of ?s2c k = [welcome_frame now ?s1 hello]" using k(3) by (simp add: out_of_def)
  have "reading ?s2c k" using k(2) by (simp add: reading_def)
  then have "reading ?s3 k" unfolding reg by (simp add: broadcast_peer_def send_all_reading split: option.splits)
  then have rd: "reading ?s3 (ccId ?c)" by simp
  have vis: "visible_since ?s3 ?i (fCursor hello) = visible_since s' ?i (fCursor hello)"
    by (simp add: visible_since_def sends_only_fields [OF fill])
  then have missed: "missed ?s3 ?i (fCursor hello) False = visible_since s' ?i (fCursor hello)"
    using few by (simp add: missed_def backfill_reset_def)
  then have "missed ?s3 (ccPeer ?c) (fCursor hello) False = visible_since s' ?i (fCursor hello)" by simp
  moreover have "\<forall>m \<in> set (visible_since s' ?i (fCursor hello)). conv_for m (ccPeer ?c) (rooms_of ?s3 (ccPeer ?c)) \<noteq> None"
    unfolding vis [symmetric] by (simp add: visible_since_def)
  ultimately have "out_of s' (ccId ?c) = out_of ?s3 (ccId ?c) @ roster_frame ?s3
      # map (visible_frame (ccPeer ?c) (rooms_of ?s3 (ccPeer ?c))) (visible_since s' ?i (fCursor hello))
      @ [synced_frame (stNextSeq (svStore s))]"
    unfolding s'_eq by (rule out_backfill [OF rd])
  then have out: "out_of s' k = out_of ?s3 k @ roster_frame ?s3
      # map (visible_frame ?i (rooms_of ?s3 ?i)) (visible_since s' ?i (fCursor hello)) @ [synced_frame (stNextSeq (svStore s))]"
    by simp
  have "stNextSeq (svStore ?s3) = stNextSeq (svStore ?s2c)" using sends_only_fields(1) [OF s3s] by (simp only:)
  then have "stNextSeq (svStore s') = stNextSeq (svStore s)" by (simp add: sends_only_fields [OF fill])
  moreover have "rooms_of ?s3 = rooms_of s'" by (simp add: sends_only_fields [OF fill])
  moreover have "out_of s' k = welcome_frame now ?s1 hello # (replicate q g @ [roster_frame ?s3])
      @ map (visible_frame ?i (rooms_of ?s3 ?i)) (visible_since s' ?i (fCursor hello)) @ [synced_frame (stNextSeq (svStore s))]"
    unfolding out out3 out2 by simp
  moreover have "\<forall>f \<in> set (replicate q g @ [roster_frame ?s3]). harmless f"
    using harm harmless_roster [OF ok3 ready3] by simp
  ultimately show ?thesis by metis
qed


end
