(* ===== verification/ServerProperties.thy ===== *)
theory ServerProperties
  imports ServerFacts
begin

text \<open>
  The properties of the server, each with a run it applies to: two people enrol, one of them
  writes in the room they share.
\<close>

section \<open>A server that runs\<close>

lemma new_server_fit:
  assumes "store_ok st" and "seqs_ok st" and "ids_ok st" and "unat (stNextSeq st) + n < 2 ^ 64"
  shows "server_fit n (new_server st host)"
  using assms by (simp add: server_fit_def server_ok_def new_server_def conns_ok_def xfers_ok_def conns_to_def
      max_open_transfers_def)

lemma server_run_fit:
  assumes "store_ok st" and "seqs_ok st" and "ids_ok st" and "unat (stNextSeq st) + (length es + n) < 2 ^ 64"
  shows "server_fit n (server_run printable (new_server st host) es)"
  unfolding server_run_def by (rule server_budget.inv_spend_run) (rule new_server_fit [OF assms])

definition demo_env :: env where
  "demo_env = \<lparr>eNick = '''', eUser = Some ''ann'', eHost = None\<rparr>"

definition alice :: peer_id where "alice = replicate 32 (CHR ''a'')"
definition bob :: peer_id where "bob = replicate 32 (CHR ''b'')"
definition alice_conn :: client_conn where "alice_conn = \<lparr>ccPeer = alice, ccId = 1\<rparr>"
definition bob_conn :: client_conn where "bob_conn = \<lparr>ccPeer = bob, ccId = 2\<rparr>"

definition demo_hello :: "peer_id \<Rightarrow> frame" where
  "demo_hello i = zero_frame\<lparr>fType := frame_hello, fVersion := 2, fFrom := i, fNick := ''nick'', fColor := ''#2f6fd0'',
     fRooms := Some [''general'']\<rparr>"

definition demo_msg :: "message_id \<Rightarrow> conv_id \<Rightarrow> frame" where
  "demo_msg i c = zero_frame\<lparr>fType := frame_msg, fID := i, fConv := c, fBody := ''hi''\<rparr>"

definition all_printable :: "nat \<Rightarrow> bool" where "all_printable n = True"

definition demo_store :: store where "demo_store = new_memory_store demo_env (replicate 32 (CHR ''0''))"

definition demo_enrols :: "server_event list" where
  "demo_enrols = [Accepted 1 1 ''10.0.0.1:5000'' (Inr (demo_hello alice)) True,
     Accepted 2 2 ''10.0.0.2:5000'' (Inr (demo_hello bob)) True]"

definition demo_pair :: server where
  "demo_pair = server_run all_printable (new_server demo_store ''srv'') demo_enrols"

definition demo_server :: server where
  "demo_server = handle 3 demo_pair alice_conn (demo_msg ''m1'' (room_conv ''general''))"

lemma demo_store_ok: "store_ok demo_store" "seqs_ok demo_store" "ids_ok demo_store" "stNextSeq demo_store = 0"
  unfolding demo_store_def
  by (rule new_memory_store_ok)
    (simp_all add: new_memory_store_def seqs_ok_def ids_ok_def conv_msgs_def peer_of_def)

lemma demo_pair_fit: "n < 2 ^ 63 \<Longrightarrow> server_fit n demo_pair"
  unfolding demo_pair_def by (rule server_run_fit) (simp_all add: demo_store_ok demo_enrols_def)

text \<open>What holds of a server in the middle of the run, evaluated once.\<close>

definition pair_facts :: "server \<Rightarrow> bool" where
  "pair_facts s \<longleftrightarrow> is_conn s alice_conn \<and> is_conn s bob_conn \<and> reading s 1 \<and> reading s 2
     \<and> other_conns s bob_conn = [] \<and> \<not> have_message (svStore s) ''m1'' \<and> stDir (svStore s) = ''''
     \<and> all_msgs (svStore s) = []
     \<and> route s alice (room_conv ''general'') = Inr (room_conv ''general'', [alice, bob])
     \<and> rooms_of s alice = [''general''] \<and> rooms_of s bob = [''general'']"

definition talk_facts :: "server \<Rightarrow> bool" where
  "talk_facts s \<longleftrightarrow> is_conn s alice_conn \<and> is_conn s bob_conn \<and> reading s 1 \<and> reading s 2
     \<and> other_conns s bob_conn = [] \<and> have_message (svStore s) ''m1''
     \<and> map mID (all_msgs (svStore s)) = [''m1''] \<and> map mID (visible_since s bob 0) = [''m1'']
     \<and> route s alice (room_conv ''general'') = Inr (room_conv ''general'', [alice, bob])"

lemma demo_pair_facts: "pair_facts demo_pair"
  by code_simp

lemma demo_server_facts: "talk_facts demo_server"
  by code_simp

lemma demo_server_fit: "n < 2 ^ 62 \<Longrightarrow> server_fit n demo_server"
  unfolding demo_server_def using demo_pair_facts
  by (intro server_fit_handle demo_pair_fit) (auto simp: pair_facts_def)

section \<open>Order\<close>

text \<open>
  C12: the invariant of the server. Whatever connections come and go and whatever frames they send, in any
  order, a server started over a well-formed store stays well formed: messages filed once, in order and
  under their conversation; unread counts and the seen set right; roster entries canonical; connections
  listed once under the identity that enrolled; and every open transfer between two connected people,
  within its size, at most eight offered by one person. The bound is the 64-bit sequence counter.
\<close>

theorem server_run_ok:
  assumes "store_ok st" and "seqs_ok st" and "ids_ok st" and "unat (stNextSeq st) + length es < 2 ^ 64"
  shows "server_ok (server_run printable (new_server st host) es)"
  by (rule server_fit_ok [of 0], rule server_run_fit) (use assms in simp_all)

theorem server_run_ok_witness: "server_ok demo_pair"
  unfolding demo_pair_def by (rule server_run_ok) (simp_all add: demo_store_ok demo_enrols_def)

text \<open>
  C1: one order. In every state a server reaches, the messages of a conversation stand in strictly increasing
  sequence, none is zero, and no sequence number is given to two messages of any conversations.
\<close>

theorem server_total_order:
  assumes "store_ok st" and "seqs_ok st" and "ids_ok st" and "unat (stNextSeq st) + length es < 2 ^ 64"
    and "st' = svStore (server_run printable (new_server st host) es)"
  shows "sorted_wrt (\<lambda>a b. mSeq a < mSeq b) (conv_msgs st' c)
    \<and> (\<forall>m \<in> set (all_msgs st'). 0 < mSeq m \<and> mSeq m \<le> stNextSeq st')
    \<and> inj_on mSeq (set (all_msgs st'))"
proof -
  have ok: "server_ok (server_run printable (new_server st host) es)"
    by (rule server_fit_ok [of 0], rule server_run_fit) (use assms in simp_all)
  then have st: "store_ok st'" and seqs: "seqs_ok st'" using server_okD assms(5) by auto
  have mem: "m \<in> set (all_msgs st') \<longleftrightarrow> (\<exists>c. m \<in> set (conv_msgs st' c))" for m
    by (rule all_msgs_iff) (rule store_okD(1) [OF st])
  have "sorted_wrt (\<lambda>a b. mSeq a < mSeq b) (conv_msgs st' c)"
  proof (rule sorted_distinct_strict)
    show "sorted_wrt (\<lambda>a b. \<not> less_message b a) (conv_msgs st' c)"
      using store_okD(2) [OF st] by (simp add: ordered_by_def)
    show "distinct (conv_msgs st' c)" using store_okD(3) [OF st] by (simp add: distinct_map)
  qed (use seqs in \<open>auto simp: seqs_ok_def\<close>)
  moreover have "0 < mSeq m \<and> mSeq m \<le> stNextSeq st'" if "m \<in> set (all_msgs st')" for m
    using that seqs store_okD(7) [OF st] by (auto simp: mem seqs_ok_def word_gt_0)
  moreover have "inj_on mSeq (set (all_msgs st'))"
  proof (rule inj_onI)
    fix a b assume "a \<in> set (all_msgs st')" "b \<in> set (all_msgs st')" "mSeq a = mSeq b"
    then show "a = b" using seqs unfolding mem seqs_ok_def by blast
  qed
  ultimately show ?thesis by blast
qed

theorem server_total_order_witness:
  "inj_on mSeq (set (all_msgs (svStore (server_run all_printable (new_server demo_store ''srv'') demo_enrols))))"
proof -
  have "unat (stNextSeq demo_store) + length demo_enrols < 2 ^ 64"
    by (simp add: demo_store_ok demo_enrols_def)
  from server_total_order [OF demo_store_ok(1-3) this refl] show ?thesis by blast
qed

text \<open>
  C15: history is permanent. A message the server has filed is there, unchanged and with the same sequence
  number, after any number of further events: nothing edits or drops it.
\<close>

theorem server_history_permanent:
  assumes "server_fit (length es) s" and "m \<in> set (all_msgs (svStore s))"
  shows "m \<in> set (all_msgs (svStore (server_run printable s es)))"
proof -
  have sub: "history s \<subseteq> history (server_run printable s es)"
    using server_history.mono_spend_run [of es 0 s printable] assms(1) by (simp add: server_run_def)
  have fit: "server_fit 0 (server_run printable s es)"
    unfolding server_run_def by (rule server_budget.inv_spend_run) (use assms(1) in simp)
  have mem: "x \<in> set (all_msgs (svStore t)) \<longleftrightarrow> x \<in> history t" if "server_fit n t" for x t n
    unfolding history_def mem_Collect_eq by (rule all_msgs_iff) (rule store_okD(1) [OF server_okD(1) [OF server_fit_ok [OF that]]])
  show ?thesis using sub assms(2) mem [OF assms(1)] mem [OF fit] by blast
qed

theorem server_history_permanent_witness:
  "hd (all_msgs (svStore demo_server))
     \<in> set (all_msgs (svStore (server_run all_printable demo_server [Ended 4 alice_conn, Ticked 5])))"
proof (rule server_history_permanent)
  show "server_fit (length [Ended 4 alice_conn, Ticked 5]) demo_server" by (rule demo_server_fit) simp
  show "hd (all_msgs (svStore demo_server)) \<in> set (all_msgs (svStore demo_server))"
    using demo_server_facts unfolding talk_facts_def by (cases "all_msgs (svStore demo_server)") auto
qed

section \<open>Who says what to whom\<close>

text \<open>
  C7: nobody speaks for anybody else. A message that a frame adds to the history is from the identity
  that enrolled on the connection it came over, whatever the frame says, under the nickname the roster has for
  it, with the next sequence number, in a conversation that identity is part of.
\<close>

theorem message_authentic:
  assumes fit: "server_fit (Suc n) s" and c: "is_conn s c"
    and new: "m \<in> set (all_msgs (svStore (handle now s c f)))" "m \<notin> set (all_msgs (svStore s))"
  shows "fType f = frame_msg \<and> mID m = fID f \<and> mFrom m = ccPeer c \<and> mBody m = fBody f
    \<and> mFromNick m = pNick (get_or zero_peer (stPeers (svStore s)) (ccPeer c))
    \<and> mSeq m = stNextSeq (svStore s) + 1 \<and> conv_for m (ccPeer c) (rooms_of s (ccPeer c)) \<noteq> None"
proof -
  have ok: "server_ok s" "server_ok (handle now s c f)"
    using server_fit_ok [OF fit] server_fit_ok [OF server_fit_handle [OF fit c]] by auto
  have mem: "x \<in> set (all_msgs (svStore t)) \<longleftrightarrow> x \<in> history t" if "server_ok t" for x t
    unfolding history_def mem_Collect_eq by (rule all_msgs_iff) (rule store_okD(1) [OF server_okD(1) [OF that]])
  from new have h: "m \<in> history (handle now s c f)" "m \<notin> history s" by (simp_all add: mem ok)
  then have msg: "fType f = frame_msg" "m \<in> history (on_message now s c f)"
    by (auto simp: history_handle split: if_splits)
  with h history_on_message [of now s c f] obtain m0 conv rcpts where
    m0: "message_from_frame now f (ccPeer c) = Some m0" and r: "route s (ccPeer c) (fConv f) = Inr (conv, rcpts)"
    and m: "m = filed_message now (m0\<lparr>mConv := conv,
        mFromNick := pNick (get_or zero_peer (stPeers (svStore s)) (ccPeer c)), mSeq := stNextSeq (svStore s) + 1\<rparr>)"
    by auto
  then have "m = m0\<lparr>mConv := conv, mFromNick := pNick (get_or zero_peer (stPeers (svStore s)) (ccPeer c)),
      mSeq := stNextSeq (svStore s) + 1\<rparr>"
    using filed_from_frame [OF m0] by simp
  moreover from this have "conv_for m (ccPeer c) (rooms_of s (ccPeer c)) \<noteq> None"
    using route_exact(1) [OF ok(1) is_conn_id [OF ok(1) c] r, of m] by simp
  ultimately show ?thesis using message_from_frame_fields [OF m0] msg by simp
qed

theorem message_authentic_witness:
  "mFrom (hd (all_msgs (svStore demo_server))) = alice"
proof -
  have pair: "is_conn demo_pair alice_conn" "all_msgs (svStore demo_pair) = []"
    using demo_pair_facts by (simp_all add: pair_facts_def)
  have "hd (all_msgs (svStore demo_server)) \<in> set (all_msgs (svStore demo_server))"
    using demo_server_facts unfolding talk_facts_def by (cases "all_msgs (svStore demo_server)") auto
  then have "hd (all_msgs (svStore demo_server))
      \<in> set (all_msgs (svStore (handle 3 demo_pair alice_conn (demo_msg ''m1'' (room_conv ''general'')))))"
    by (simp only: demo_server_def)
  from message_authentic [OF demo_pair_fit [of "Suc 0"] pair(1) this] pair(2) show ?thesis
    by (simp add: alice_conn_def)
qed

text \<open>
  C3: nobody is sent what they may not see. Every message frame that a step of the server queues is for a
  live connection, carries a message of the history, and the identity enrolled on that connection is a member
  of the room, or one of the two ends of the conversation, under the name that end knows it by.
\<close>

theorem message_confidential:
  assumes "server_fit (Suc n) s" and "s' = server_step printable s e"
    and "i < length (svOut s')" and "length (svOut s) \<le> i" and "svOut s' ! i = (k, g)" and "fType g = frame_msg"
  shows "\<exists>c m. is_conn s' c \<and> ccId c = k \<and> m \<in> set (all_msgs (svStore s'))
    \<and> conv_for m (ccPeer c) (rooms_of s' (ccPeer c)) = Some (fConv g) \<and> g = (msg_frame m)\<lparr>fConv := fConv g\<rparr>"
proof -
  have ok: "store_ok (svStore s')"
    unfolding assms(2) by (rule server_okD(1) [OF server_fit_ok [OF server_fit_step [OF assms(1)]]])
  have "adds (may_receive s') (svOut s) (svOut s')"
    unfolding assms(2) by (rule step_adds_may_receive [OF assms(1)])
  then obtain fs where fs: "svOut s' = svOut s @ fs" "list_all (may_receive s') fs" by (auto simp: adds_def)
  then have "(k, g) \<in> set fs"
    using assms(3-5) by (metis le_add_diff_inverse length_append nat_add_left_cancel_less nth_append_length_plus nth_mem)
  with fs have "may_receive s' (k, g)" by (auto simp: list_all_iff)
  with assms(6) show ?thesis by (simp add: may_receive_def history_def all_msgs_iff [OF store_okD(1) [OF ok]])
qed

definition talk_event :: server_event where
  "talk_event = Received 3 alice_conn (demo_msg ''m1'' (room_conv ''general''))"

definition talk_out :: "server \<Rightarrow> server \<Rightarrow> bool" where
  "talk_out s s' \<longleftrightarrow> length (svOut s) < length (svOut s')
     \<and> fst (svOut s' ! length (svOut s)) = 1 \<and> fType (snd (svOut s' ! length (svOut s))) = frame_msg"

lemma demo_talk_out: "talk_out demo_pair (server_step all_printable demo_pair talk_event)"
  by code_simp

theorem message_confidential_witness:
  "\<exists>c. is_conn (server_step all_printable demo_pair talk_event) c \<and> ccId c = 1"
proof -
  let ?s = "server_step all_printable demo_pair talk_event" and ?i = "length (svOut demo_pair)"
  have t: "?i < length (svOut ?s)" "fst (svOut ?s ! ?i) = 1" "fType (snd (svOut ?s ! ?i)) = frame_msg"
    using demo_talk_out by (simp_all add: talk_out_def)
  have "svOut ?s ! ?i = (1, snd (svOut ?s ! ?i))" using t(2) by (simp add: prod_eq_iff)
  from message_confidential [OF demo_pair_fit [of "Suc 0"] refl t(1) order_refl this t(3)] show ?thesis by auto
qed


text \<open>
  C9: everybody connected who may see a message is sent it. When the server accepts a new message, each
  open connection of each member of the room, or of either end of the conversation, is queued that message
  with its sequence number and under that identity's name for the conversation; nobody connected is missed.
\<close>

theorem message_delivered:
  assumes "server_fit (Suc n) s" and "is_conn s c" and "fType f = frame_msg"
    and "message_from_frame now f (ccPeer c) = Some m" and "route s (ccPeer c) (fConv f) = Inr (conv, rcpts)"
    and "\<not> have_message (svStore s) (fID f)" and "disk_accepts s conv"
    and "is_conn s d" and "reading s (ccId d)"
    and "conv_for (accepted_message now s c f conv m) (ccPeer d) (rooms_of s (ccPeer d)) = Some name"
  shows "(msg_frame (accepted_message now s c f conv m))\<lparr>fConv := name\<rparr> \<in> set (out_of (handle now s c f) (ccId d))"
  using on_message_delivers [OF assms(1,2,4-10)] assms(3) by (simp add: handle_def)

definition demo_accepted :: message where
  "demo_accepted = accepted_message 3 demo_pair alice_conn (demo_msg ''m1'' (room_conv ''general'')) (room_conv ''general'')
     (the (message_from_frame 3 (demo_msg ''m1'' (room_conv ''general'')) alice))"

definition accepted_facts :: "message \<Rightarrow> bool" where
  "accepted_facts m \<longleftrightarrow> conv_for m bob [''general''] = Some (room_conv ''general'')
     \<and> message_from_frame 3 (demo_msg ''m1'' (room_conv ''general'')) alice \<noteq> None
     \<and> fConv (demo_msg ''m1'' (room_conv ''general'')) = room_conv ''general''"

lemma demo_accepted_facts: "accepted_facts demo_accepted"
  by code_simp

theorem message_delivered_witness:
  "(msg_frame demo_accepted)\<lparr>fConv := room_conv ''general''\<rparr> \<in> set (out_of demo_server 2)"
proof -
  note facts = demo_pair_facts [unfolded pair_facts_def]
  let ?f = "demo_msg ''m1'' (room_conv ''general'')"
  obtain m where m: "message_from_frame 3 ?f (ccPeer alice_conn) = Some m"
    using demo_accepted_facts by (auto simp: accepted_facts_def alice_conn_def)
  have r: "route demo_pair (ccPeer alice_conn) (fConv ?f) = Inr (room_conv ''general'', [alice, bob])"
    using facts demo_accepted_facts by (simp add: accepted_facts_def alice_conn_def)
  have acc: "accepted_message 3 demo_pair alice_conn ?f (room_conv ''general'') m = demo_accepted"
    using m by (simp add: demo_accepted_def alice_conn_def)
  have sees: "conv_for (accepted_message 3 demo_pair alice_conn ?f (room_conv ''general'') m)
      (ccPeer bob_conn) (rooms_of demo_pair (ccPeer bob_conn)) = Some (room_conv ''general'')"
    unfolding acc using facts demo_accepted_facts by (simp add: accepted_facts_def bob_conn_def)
  have "\<not> have_message (svStore demo_pair) (fID ?f)" using facts by (simp add: demo_msg_def)
  moreover have "fType ?f = frame_msg" by (simp add: demo_msg_def)
  ultimately have "(msg_frame (accepted_message 3 demo_pair alice_conn ?f (room_conv ''general'') m))
      \<lparr>fConv := room_conv ''general''\<rparr> \<in> set (out_of (handle 3 demo_pair alice_conn ?f) (ccId bob_conn))"
    using facts
    by (intro message_delivered [OF demo_pair_fit [of "Suc 0"] _ _ m r _ _ _ _ sees])
      (simp_all add: disk_accepts_def bob_conn_def)
  then show ?thesis by (simp add: acc demo_server_def bob_conn_def)
qed

text \<open>
  C36: a resend is free. A message whose id the server already holds changes nothing it stores, mints no sequence
  number and reaches nobody; the sender alone is told the number that message was given.
\<close>

theorem resend_free:
  assumes "server_ok s" and "fType f = frame_msg" and "message_from_frame now f (ccPeer c) \<noteq> None"
    and "route s (ccPeer c) (fConv f) = Inr r" and "have_message (svStore s) (fID f)"
  shows "\<exists>had. message_of (svStore s) (fID f) = Some had
    \<and> handle now s c f = send (seq_frame (fID f) (mSeq had)) s c \<and> svStore (handle now s c f) = svStore s"
proof -
  from assms(3) obtain m where m: "message_from_frame now f (ccPeer c) = Some m" by blast
  from assms(5) have "message_of (svStore s) (fID f) \<noteq> None"
    using have_message_of [OF server_okD(1) [OF assms(1)]] by blast
  then obtain had where "message_of (svStore s) (fID f) = Some had" by blast
  with assms m message_from_frame_fields(1) [OF m] show ?thesis
    by (cases r) (simp add: handle_def on_message_def resend_seq_def sends_only_fields(1) [OF sends_only_send])
qed

theorem resend_free_witness:
  "svStore (handle 9 demo_server alice_conn (demo_msg ''m1'' (room_conv ''general''))) = svStore demo_server"
proof -
  let ?f = "demo_msg ''m1'' (room_conv ''general'')"
  note facts = demo_server_facts [unfolded talk_facts_def]
  have "message_from_frame 9 ?f (ccPeer alice_conn) \<noteq> None"
    by (simp add: message_from_frame_def demo_msg_def zero_frame_def) (code_simp)
  moreover have "route demo_server (ccPeer alice_conn) (fConv ?f) = Inr (room_conv ''general'', [alice, bob])"
    using facts by (simp add: alice_conn_def demo_msg_def)
  moreover have "have_message (svStore demo_server) (fID ?f)" using facts by (simp add: demo_msg_def)
  moreover have "server_ok demo_server" by (rule server_fit_ok [OF demo_server_fit [of 0]]) simp
  moreover have "fType ?f = frame_msg" by (simp add: demo_msg_def)
  ultimately show ?thesis using resend_free by blast
qed

section \<open>Coming back\<close>

text \<open>
  C8: a resume misses nothing. A client whose cursor belongs to this server and is not too far behind is sent the
  roster, then every message of the history past its cursor that it may see, each once, in strictly
  increasing sequence, then that it is up to date, and nothing else.
\<close>

theorem resume_complete:
  assumes "server_ok s" and "reading s (ccId c)" and "length (visible_since s (ccPeer c) from) \<le> max_backlog"
  shows "svOut (backfill s c from False cursor) = svOut s @ (ccId c, roster_frame s)
      # map (\<lambda>m. (ccId c, visible_frame (ccPeer c) (rooms_of s (ccPeer c)) m)) (visible_since s (ccPeer c) from)
      @ [(ccId c, synced_frame cursor)]
    \<and> set (visible_since s (ccPeer c) from)
      = {m \<in> set (all_msgs (svStore s)). from < mSeq m \<and> conv_for m (ccPeer c) (rooms_of s (ccPeer c)) \<noteq> None}
    \<and> sorted_wrt (\<lambda>a b. mSeq a < mSeq b) (visible_since s (ccPeer c) from)"
proof (intro conjI)
  have "filter (\<lambda>m. conv_for m (ccPeer c) (rooms_of s (ccPeer c)) \<noteq> None) (visible_since s (ccPeer c) from)
      = visible_since s (ccPeer c) from"
    by (simp add: visible_since_def)
  moreover have "missed s (ccPeer c) from False = visible_since s (ccPeer c) from"
    using assms(3) by (simp add: missed_def backfill_reset_def)
  ultimately show "svOut (backfill s c from False cursor) = svOut s @ (ccId c, roster_frame s)
      # map (\<lambda>m. (ccId c, visible_frame (ccPeer c) (rooms_of s (ccPeer c)) m)) (visible_since s (ccPeer c) from)
      @ [(ccId c, synced_frame cursor)]"
    by (simp add: svOut_backfill [OF assms(2)])
  have "m \<in> history s \<longleftrightarrow> m \<in> set (all_msgs (svStore s))" for m
    unfolding history_def mem_Collect_eq
    by (rule all_msgs_iff [symmetric]) (rule store_okD(1) [OF server_okD(1) [OF assms(1)]])
  then show "set (visible_since s (ccPeer c) from)
      = {m \<in> set (all_msgs (svStore s)). from < mSeq m \<and> conv_for m (ccPeer c) (rooms_of s (ccPeer c)) \<noteq> None}"
    by (simp add: set_visible_since [OF assms(1)])
  show "sorted_wrt (\<lambda>a b. mSeq a < mSeq b) (visible_since s (ccPeer c) from)"
    by (rule sorted_visible_since [OF assms(1)])
qed

theorem resume_complete_witness:
  "map fst (svOut (backfill demo_server bob_conn 0 False 1)) = map fst (svOut demo_server) @ [2, 2, 2]"
proof -
  note facts = demo_server_facts [unfolded talk_facts_def]
  have ok: "server_ok demo_server" by (rule server_fit_ok [OF demo_server_fit [of 0]]) simp
  have len: "length (visible_since demo_server (ccPeer bob_conn) 0) = 1"
    using facts by (metis One_nat_def bob_conn_def client_conn.select_convs(1) length_0_conv length_Suc_conv length_map)
  with facts resume_complete [OF ok, of bob_conn 0 1] show ?thesis
    by (auto simp: bob_conn_def max_backlog_def length_Suc_conv comp_def)
qed

text \<open>
  A client that starts again is sent the recent window. Where the cursor is no use, or too far behind, it is sent
  exactly the last two hundred messages of each conversation it may see, merged by sequence number.
\<close>

theorem resume_window:
  assumes "server_ok s" and "backfill_reset s i from reset"
  shows "set (missed s i from reset) = {m. conv_visible (mConv m) i (rooms_of s i)
      \<and> m \<in> set (tail backlog_window (conv_msgs (svStore s) (mConv m)))}
    \<and> sorted_wrt (\<lambda>a b. mSeq a \<le> mSeq b) (missed s i from reset)"
  using assms set_recent_window [OF assms(1)] sorted_sort_by_seq by (simp add: missed_def recent_window_def)

theorem resume_window_witness:
  "sorted_wrt (\<lambda>a b. mSeq a \<le> mSeq b) (missed demo_server bob 7 True)"
proof -
  have "server_ok demo_server" by (rule server_fit_ok [OF demo_server_fit [of 0]]) simp
  moreover have "backfill_reset demo_server bob 7 True" by (simp add: backfill_reset_def)
  ultimately show ?thesis using resume_window by blast
qed

section \<open>The roster\<close>

text \<open>
  C37: a connection speaks for its own identity only. No frame, of any type and with any contents, changes
  the roster entry of an identity other than the one enrolled on the connection it came over.
\<close>

theorem own_identity_only:
  assumes "i \<noteq> ccPeer c"
  shows "peer_of (svStore (handle now s c f)) i = peer_of (svStore s) i"
  by (rule peer_of_handle [OF assms])

theorem own_identity_only_witness:
  "peer_of (svStore (handle 3 demo_pair alice_conn (demo_hello bob))) bob = peer_of (svStore demo_pair) bob"
  by (rule own_identity_only) (simp add: alice_conn_def alice_def bob_def numeral_eq_Suc)

text \<open>
  C38: somebody whose last connection ends is offline, to everybody. The roster says so, every open
  connection of everybody else is told, they have no connection left, and no transfer of theirs stays open.
\<close>

theorem disconnected_offline:
  assumes "server_ok s" and "is_conn s c" and "other_conns s c = []"
  shows "(\<exists>p. peer_of (svStore (disconnect now s c)) (ccPeer c) = Some p \<and> pPresence p = presence_offline
      \<and> (\<forall>d. is_conn s d \<and> ccPeer d \<noteq> ccPeer c \<and> reading s (ccId d)
           \<longrightarrow> zero_frame\<lparr>fType := frame_roster, fPeer := Some p\<rparr> \<in> set (out_of (disconnect now s c) (ccId d))))
    \<and> conns_of (disconnect now s c) (ccPeer c) = 0
    \<and> (\<forall>t r. map_of (svXfers (disconnect now s c)) t = Some r \<longrightarrow> rlFrom r \<noteq> ccPeer c \<and> rlTo r \<noteq> ccPeer c)"
proof (intro conjI)
  show "conns_of (disconnect now s c) (ccPeer c) = 0"
    by (simp add: conns_of_def conns_of_disconnect assms(3))
  show "\<forall>t r. map_of (svXfers (disconnect now s c)) t = Some r \<longrightarrow> rlFrom r \<noteq> ccPeer c \<and> rlTo r \<noteq> ccPeer c"
    by (auto simp: xfers_disconnect entry_spares_def involves_def dest!: map_of_SomeD)
qed (rule last_connection_offline [OF assms])

theorem disconnected_offline_witness:
  "conns_of (disconnect 9 demo_server bob_conn) bob = 0"
proof -
  note facts = demo_server_facts [unfolded talk_facts_def]
  have "server_ok demo_server" by (rule server_fit_ok [OF demo_server_fit [of 0]]) simp
  with facts disconnected_offline [of demo_server bob_conn 9] show ?thesis by (simp add: bob_conn_def)
qed


section \<open>Files in transit\<close>


definition demo_relay :: "int \<Rightarrow> relay" where
  "demo_relay sent = \<lparr>rlID = ''t1'', rlFrom = alice, rlTo = bob, rlName = ''f'', rlSize = 3, rlSent = sent,
     rlState = RelayRunning, rlAt = 5\<rparr>"

definition demo_transfer :: server where
  "demo_transfer = (new_server demo_store ''srv'')\<lparr>svConns := [(alice, [alice_conn]), (bob, [bob_conn])],
     svXfers := [(''t1'', demo_relay 0)]\<rparr>"

definition demo_chunk :: frame where
  "demo_chunk = zero_frame\<lparr>fType := frame_chunk, fTransfer := ''t1'', fData := [1, 2]\<rparr>"

lemma alice_bob [simp]: "alice \<noteq> bob" "bob \<noteq> alice"
  by (simp_all add: alice_def bob_def numeral_eq_Suc)


text \<open>
  An offer is carried only where it can be. A transfer that a frame opens was offered by the connection it came
  over, to somebody else who has enrolled and is connected now, with a size within the limit and a name
  that is one safe path component, while fewer than eight transfers involved its sender.
\<close>

theorem offer_opened:
  assumes "map_of (svXfers s) t = None" and "map_of (svXfers (on_offer now s c f)) t = Some r"
  shows "t = fTransfer f \<and> rlFrom r = ccPeer c \<and> rlTo r \<noteq> ccPeer c \<and> 0 < conns_of s (rlTo r)
    \<and> peer_of (svStore s) (rlTo r) \<noteq> None \<and> 0 \<le> rlSize r \<and> rlSize r \<le> max_transfer_bytes
    \<and> rlSent r = 0 \<and> rlState r = RelayOffered \<and> safe_name (rlName r) \<and> open_relays s (ccPeer c) < max_open_transfers"
proof (cases "offer_refusal s c f")
  case (Some reason)
  with assms show ?thesis by (simp add: on_offer_def sends_only_fields(3) [OF sends_only_send])
next
  case None
  with assms have new: "map_of (svXfers s) (fTransfer f) = None" "open_relays s (ccPeer c) < max_open_transfers"
    "t = fTransfer f" "r = new_relay now c f"
    by (auto simp: on_offer_def sends_only_fields(3) [OF sends_only_send] sends_only_fields(3) [OF sends_only_send_to]
        not_le split: if_splits)
  with offer_refusal_None [OF None] show ?thesis by (auto simp: new_relay_def safe_name_safe_base_name)
qed

definition demo_offer :: frame where
  "demo_offer = zero_frame\<lparr>fType := frame_offer, fTransfer := ''t2'', fTo := bob, fName := ''a.txt'', fSize := 9\<rparr>"

definition demo_known :: server where
  "demo_known = demo_transfer\<lparr>svStore := demo_store\<lparr>stPeers := [(bob, zero_peer\<lparr>pID := bob\<rparr>)]\<rparr>\<rparr>"

theorem offer_opened_witness:
  "safe_name (rlName (new_relay 7 alice_conn demo_offer))"
proof -
  have "map_of (svXfers demo_known) ''t2'' = None" by (simp add: demo_known_def demo_transfer_def)
  moreover have "bob \<noteq> ''''" by (simp add: bob_def)
  then have "map_of (svXfers (on_offer 7 demo_known alice_conn demo_offer)) ''t2'' = Some (new_relay 7 alice_conn demo_offer)"
    by (simp add: on_offer_def offer_refusal_def offer_to_def demo_offer_def demo_known_def demo_transfer_def
        alice_conn_def peer_of_def conns_of_def conns_to_def get_or_def max_transfer_bytes_def open_relays_def
        involves_def demo_relay_def max_open_transfers_def sends_only_fields(3) [OF sends_only_send_to] zero_frame_def)
  ultimately show ?thesis using offer_opened by blast
qed

lemma out_of_expire:
  assumes "r \<in> set rs" and "d \<in> set (conns_to s (rlFrom r))" and "reading s (ccId d)"
  shows "decline_from r (rlTo r) ''the offer was not answered'' \<in> set (out_of (foldl expire_one s rs) (ccId d))"
  using assms
proof (induction rs arbitrary: s)
  case (Cons x rs)
  have one: "sends_only s (expire_one s x)" by simp
  have rest: "sends_only (expire_one s x) (foldl expire_one (expire_one s x) rs)" by (rule sends_only_foldl) simp
  show ?case
  proof (cases "x = r")
    case True
    have "decline_from r (rlTo r) ''the offer was not answered'' \<in> set (out_of (send_to s (rlFrom r)
        (decline_from r (rlTo r) ''the offer was not answered'')) (ccId d))"
      by (rule out_of_send_to) (use Cons.prems in simp_all)
    then have "decline_from r (rlTo r) ''the offer was not answered'' \<in> set (out_of (expire_one s x) (ccId d))"
      unfolding expire_one_def True by (rule subsetD [OF out_of_sends [OF sends_only_send_to]])
    then show ?thesis using out_of_sends [OF rest] by auto
  next
    case False
    have "reading (expire_one s x) (ccId d)" using Cons.prems(3) by (simp add: expire_one_def reading_send_to)
    with False Cons.prems show ?thesis
      by (simp add: Cons.IH sends_only_fields(4) [OF one])
  qed
qed simp

text \<open>
  An offer nobody answers ends. After the tick no offer older than two minutes is open, every other
  transfer is as it was, and each open connection of both ends of an expired one is told.
\<close>

theorem offers_expire:
  assumes "map_ok (svXfers s)" and "map_of (svXfers s) t = Some r"
  shows "(rlState r = RelayOffered \<and> rlAt r < now - offer_timeout
      \<longrightarrow> map_of (svXfers (server_tick now s)) t = None
        \<and> (\<forall>d. d \<in> set (conns_to s (rlFrom r)) \<and> reading s (ccId d)
            \<longrightarrow> decline_from r (rlTo r) ''the offer was not answered'' \<in> set (out_of (server_tick now s) (ccId d))))
    \<and> (\<not> (rlState r = RelayOffered \<and> rlAt r < now - offer_timeout)
      \<longrightarrow> map_of (svXfers (server_tick now s)) t = Some r)"
proof -
  have x: "svXfers (server_tick now s) = filter (is_live now) (svXfers s)"
    by (simp add: server_tick_def sends_only_fields(3) [OF sends_only_ping_all] expire_offers_xfers)
  have told: "decline_from r (rlTo r) ''the offer was not answered'' \<in> set (out_of (server_tick now s) (ccId d))"
    if "is_expired now (t, r)" "d \<in> set (conns_to s (rlFrom r))" "reading s (ccId d)" for d
  proof -
    let ?s = "s\<lparr>svXfers := filter (is_live now) (svXfers s)\<rparr>"
    have "(t, r) \<in> set (svXfers s)" using assms(2) by (rule map_of_SomeD)
    then have "r \<in> set (map snd (filter (is_expired now) (svXfers s)))" using that(1) by force
    moreover have "d \<in> set (conns_to ?s (rlFrom r))" using that(2) by (simp add: conns_to_def)
    moreover have "reading ?s (ccId d)" using that(3) by (simp add: reading_def)
    ultimately have "decline_from r (rlTo r) ''the offer was not answered'' \<in> set (out_of (expire_offers now s) (ccId d))"
      unfolding expire_offers_def by (rule out_of_expire)
    then show ?thesis
      unfolding server_tick_def by (rule subsetD [OF out_of_sends [OF sends_only_ping_all]])
  qed
  show ?thesis
    using assms told by (auto simp: x map_of_filter is_live_def is_expired_def)
qed

theorem offers_expire_witness:
  "map_of (svXfers (server_tick (300 * second_ns)
     (demo_transfer\<lparr>svXfers := [(''t1'', (demo_relay 0)\<lparr>rlState := RelayOffered\<rparr>)]\<rparr>))) ''t1'' = None"
proof -
  let ?s = "demo_transfer\<lparr>svXfers := [(''t1'', (demo_relay 0)\<lparr>rlState := RelayOffered\<rparr>)]\<rparr>"
  have "map_ok (svXfers ?s)" "map_of (svXfers ?s) ''t1'' = Some ((demo_relay 0)\<lparr>rlState := RelayOffered\<rparr>)"
    by (simp_all add: map_ok_def)
  from offers_expire [OF this, of "300 * second_ns"] show ?thesis
    by (simp add: demo_relay_def offer_timeout_def second_ns_def)
qed

end
