(* ===== verification/CatchUpProperties.thy ===== *)
theory CatchUpProperties
  imports CatchUp ServerProperties
begin

text \<open>
  A client daemon that enrols with a server catches up with it.
\<close>

section \<open>Catching up\<close>

definition bob_store :: store where "bob_store = fst (join_room demo_env bob (new_memory_store demo_env bob) ''general'')"

definition empty_fs :: filesystem where
  "empty_fs = \<lparr>fsFiles = [], fsDirs = [], fsRefuses = [], fsNoRead = [], fsNoWrite = [], fsMkdirFails = False\<rparr>"

definition bob_daemon :: daemon where
  "bob_daemon = (new_daemon bob_store ''none'' ''host'' empty_fs Absent)
     \<lparr>dmServerID := replicate 32 (CHR ''0''), dmAddr := ''10.0.0.9:47772''\<rparr>"

lemma attempt_enrolled:
  assumes "server_target w d \<noteq> ''''" and "valid_welcome f = None"
  shows "attempt w d (Inr f) takes = enrolled d (server_target w d) f takes"
  using assms by (simp add: attempt_def session_open_def)

lemma enrolled_fields [simp]:
  "dmStore (enrolled d a f n) = dmStore d" "dmConnected (enrolled d a f n) = True" "dmConn (enrolled d a f n) = True"
  "dmCursor (enrolled d a f n) = (if fServer f \<noteq> dmServerID d \<or> fReset f then 0 else dmCursor d)"
  "dmServerID (enrolled d a f n) = fServer f" "dmWire (enrolled d a f n) = [enrolment d]"
  "dmTakes (enrolled d a f n) = n"
  by (simp_all add: enrolled_def Let_def emit_def)


definition demo_world :: world where
  "demo_world = \<lparr>wNow = 7, wRnd = [1, 2, 3, 4, 5, 6, 7, 8], wEnv = demo_env, wFresh = bob, wServerEnv = '''',
     wDownload = ''/home/bob/Downloads'', wMime = (\<lambda>e. ''''), wSha = (\<lambda>b. ''sha''), wErr = ''error'', wPrint = all_printable\<rparr>"

definition bob_back :: server where
  "bob_back = fst (handle_conn all_printable 5 demo_server 3 ''10.0.0.2:5001'' (Inr (enrolment bob_daemon)) True)"

definition back_facts :: "server \<Rightarrow> server \<Rightarrow> bool" where
  "back_facts s s' \<longleftrightarrow> 3 \<notin> set (conn_ids s) \<and> reading s 3 \<and> out_of s 3 = [] \<and> server_ident s = replicate 32 (CHR ''0'')
     \<and> map mID (visible_since s' bob 0) = [''m1''] \<and> list_ex (\<lambda>m. mID m = ''m1'' \<and> conv_for m bob (rooms_of s' bob) \<noteq> None \<and> mSeq m = 1)
         (all_msgs (svStore s'))"

lemma demo_back_facts: "back_facts demo_server bob_back"
  by code_simp

lemma demo_server_ready: "server_ready demo_server"
proof -
  have run: "demo_server = foldl (server_step all_printable) (new_server demo_store ''srv'') (demo_enrols @ [talk_event])"
    using demo_pair_facts by (simp add: demo_server_def demo_pair_def server_run_def server_step_def talk_event_def
        pair_facts_def demo_msg_def frame_type_defs zero_frame_def)
  have "stMsgs demo_store = []" "stPeers demo_store = []" by (simp_all add: demo_store_def new_memory_store_def)
  then have "ready_fit 3 (new_server demo_store ''srv'')"
    using new_server_fit [OF demo_store_ok(1-3), of 3] demo_store_ok
    by (simp add: ready_fit_def new_server_ready all_msgs_def)
  then have "ready_fit 0 demo_server"
    unfolding run using ready_budget.inv_spend_run [of "demo_enrols @ [talk_event]" 0 "new_server demo_store ''srv''" all_printable]
    by (simp add: demo_enrols_def numeral_3_eq_3)
  then show ?thesis by (simp add: ready_fit_def)
qed


end
