(* ===== verification/Rpc.thy ===== *)
theory Rpc
  imports Link
begin

text \<open>
  The model of \<open>chatclientd/rpc.go\<close> and of the parts of \<open>chat/proto.go\<close> and \<open>chatclientd/start.go\<close> it
  uses: the set of front ends, the dispatch of their requests over the client daemon, the fan-out of
  events, and a connection's life. A request is its method with what \<open>DecodeParams\<close> made of its
  parameters, the text of its error or the decoded value; a result is the value before it is encoded. An
  error of the application keeps the error value in place of its text.
\<close>

section \<open>Requests and responses\<close>

datatype rpc_call =
  Ping | StatusGet | IdentityGet
| IdentitySet "string + identity"
| PresenceSet "string + presence"
| PeersList
| PeersBlock "string + (peer_id \<times> bool)"
| ConvList
| ConvGet "string + conv_id"
| MessagesList "string + (conv_id \<times> int)"
| MessagesSend "string + (conv_id \<times> string)"
| MessagesRead "string + conv_id"
| TypingSet "string + (conv_id \<times> bool)"
| RoomsList
| RoomsJoin "string + string"
| RoomsLeave "string + string"
| FilesOffer "string + (conv_id \<times> string)"
| FilesAccept "string + transfer_id"
| FilesDecline "string + (transfer_id \<times> string)"
| FilesList
| NotifyGet
| NotifySet "string + notify_prefs"
| UnknownMethod string

fun method_name :: "rpc_call \<Rightarrow> string" where
  "method_name Ping = ''ping''"
| "method_name StatusGet = ''status.get''"
| "method_name IdentityGet = ''identity.get''"
| "method_name (IdentitySet _) = ''identity.set''"
| "method_name (PresenceSet _) = ''presence.set''"
| "method_name PeersList = ''peers.list''"
| "method_name (PeersBlock _) = ''peers.block''"
| "method_name ConvList = ''conversations.list''"
| "method_name (ConvGet _) = ''conversations.get''"
| "method_name (MessagesList _) = ''messages.list''"
| "method_name (MessagesSend _) = ''messages.send''"
| "method_name (MessagesRead _) = ''messages.markRead''"
| "method_name (TypingSet _) = ''typing.set''"
| "method_name RoomsList = ''rooms.list''"
| "method_name (RoomsJoin _) = ''rooms.join''"
| "method_name (RoomsLeave _) = ''rooms.leave''"
| "method_name (FilesOffer _) = ''files.offer''"
| "method_name (FilesAccept _) = ''files.accept''"
| "method_name (FilesDecline _) = ''files.decline''"
| "method_name FilesList = ''files.list''"
| "method_name NotifyGet = ''notify.get''"
| "method_name (NotifySet _) = ''notify.set''"
| "method_name (UnknownMethod m) = m"

definition err_parse :: int where "err_parse = - 32700"
definition err_no_method :: int where "err_no_method = - 32601"
definition err_bad_params :: int where "err_bad_params = - 32602"
definition err_app :: int where "err_app = - 32000"

datatype error_detail = Because string | OfStore store_error | OfSend send_error | OfTransfer transfer_error

record conv_view =
  cvConv :: conversation
  cvPeers :: "peer list"
  cvTyping :: "peer_id list"

datatype rpc_result =
  Pong string | StatusIs daemon_status | IdentityIs identity | PeersAre "peer list" | OkIs bool string
| ConvsAre "conversation list" | ViewIs conv_view | MessagesAre "message list" | MessageIs message
| CountIs int | TransferIs transfer | TransfersAre "transfer list" | PrefsAre notify_prefs

type_synonym rpc_response = "(int \<times> error_detail) + rpc_result"

datatype rpc_out = Notify event | Reply "string option" rpc_response

section \<open>The front ends\<close>

text \<open>
  A connection is a number. \<open>rpStuck\<close> are the connections that have stopped reading; writing to one
  of those with a deadline closes it, and its handler then leaves the set.
\<close>

record rpc =
  rpDaemon :: daemon
  rpSocket :: string
  rpVersion :: string
  rpConns :: "nat list"
  rpStuck :: "nat list"
  rpServing :: bool
  rpClosed :: bool
  rpOut :: "(nat \<times> rpc_out) list"

definition new_rpc :: "daemon \<Rightarrow> string \<Rightarrow> string \<Rightarrow> rpc" where
  "new_rpc d socket default_socket = \<lparr>rpDaemon = on_event d, rpSocket = (if socket = '''' then default_socket else socket),
     rpVersion = ''0.2.0'', rpConns = [], rpStuck = [], rpServing = True, rpClosed = False, rpOut = []\<rparr>"

definition front_ends :: "rpc \<Rightarrow> nat" where
  "front_ends r = length (rpConns r)"

definition reads_on :: "rpc \<Rightarrow> nat \<Rightarrow> bool" where
  "reads_on r c \<longleftrightarrow> c \<notin> set (rpStuck r)"

text \<open>\<open>broadcast\<close>: the event to every front end; one that has stopped reading is dropped.\<close>

definition broadcast :: "rpc \<Rightarrow> event \<Rightarrow> rpc" where
  "broadcast r ev = r\<lparr>rpOut := rpOut r @ map (\<lambda>c. (c, Notify ev)) (filter (reads_on r) (rpConns r)),
     rpConns := filter (reads_on r) (rpConns r)\<rparr>"

text \<open>The daemon after a handler, with the events it emitted passed to the sink, \<open>broadcast\<close>.\<close>

definition with_daemon :: "rpc \<Rightarrow> daemon \<Rightarrow> rpc" where
  "with_daemon r d' = foldl broadcast (r\<lparr>rpDaemon := d'\<rparr>) (drop (length (dmEvents (rpDaemon r))) (dmEvents d'))"

definition accept_front_end :: "bool \<Rightarrow> rpc \<Rightarrow> nat \<Rightarrow> rpc" where
  "accept_front_end allowed r c =
    (if \<not> allowed then r else if rpClosed r then r else r\<lparr>rpConns := rpConns r @ [c]\<rparr>)"

definition front_end_gone :: "rpc \<Rightarrow> nat \<Rightarrow> rpc" where
  "front_end_gone r c = r\<lparr>rpConns := filter (\<lambda>x. x \<noteq> c) (rpConns r)\<rparr>"

definition close_clients :: "rpc \<Rightarrow> rpc" where
  "close_clients r = r\<lparr>rpClosed := True, rpConns := []\<rparr>"

section \<open>Dispatch\<close>

definition dstore :: "rpc \<Rightarrow> store" where
  "dstore r = dmStore (rpDaemon r)"

definition online_peer :: "peer \<Rightarrow> bool" where
  "online_peer p \<longleftrightarrow> pPresence p \<noteq> presence_offline"

definition status_server :: "daemon \<Rightarrow> string" where
  "status_server d = (if server_addr d = '''' then ''not found yet''
     else if dmSrvName d \<noteq> '''' then dmSrvName d @ '' ('' @ server_addr d @ '')'' else server_addr d)"

definition status_of :: "rpc \<Rightarrow> daemon_status" where
  "status_of r = \<lparr>dsVersion = rpVersion r, dsSocket = rpSocket r, dsSelf = identity_peer (stSelf (dstore r)),
     dsServer = status_server (rpDaemon r), dsConnected = dmConnected (rpDaemon r),
     dsDiscovery = discovery_text (rpDaemon r), dsCursor = dmCursor (rpDaemon r), dsPeers = length (peers (dstore r)),
     dsOnline = length (filter online_peer (peers (dstore r))), dsStarted = dmStarted (rpDaemon r),
     dsDataDir = stDir (dstore r), dsClients = front_ends r\<rparr>"

definition bad_params :: "rpc \<Rightarrow> string \<Rightarrow> rpc \<times> rpc_response" where
  "bad_params r e = (r, Inl (err_bad_params, Because e))"

definition fail_app :: "rpc \<Rightarrow> error_detail \<Rightarrow> rpc \<times> rpc_response" where
  "fail_app r e = (r, Inl (err_app, e))"

definition with_rstore :: "rpc \<Rightarrow> store \<Rightarrow> rpc" where
  "with_rstore r s = with_daemon r (with_dstore (rpDaemon r) s)"

definition identity_set :: "world \<Rightarrow> rpc \<Rightarrow> identity \<Rightarrow> rpc \<times> rpc_response" where
  "identity_set w r i = (case set_self (wEnv w) (wFresh w) (dstore r) i of
      (s', out, Some e) \<Rightarrow> fail_app (with_rstore r s') (OfStore e)
    | (s', out, None) \<Rightarrow>
       (broadcast (with_daemon r (readvertise (with_dstore (rpDaemon r) s'))) (event_of event_peers), Inr (IdentityIs out)))"

definition presence_set :: "world \<Rightarrow> rpc \<Rightarrow> presence \<Rightarrow> rpc \<times> rpc_response" where
  "presence_set w r p = (case daemon_set_presence w (rpDaemon r) p of
      (d', out, Some e) \<Rightarrow> fail_app (with_daemon r d') (OfStore e)
    | (d', out, None) \<Rightarrow> (broadcast (with_daemon r d') (event_of event_peers), Inr (IdentityIs out)))"

definition peers_block :: "rpc \<Rightarrow> peer_id \<Rightarrow> bool \<Rightarrow> rpc \<times> rpc_response" where
  "peers_block r i b = (case block_peer (dstore r) i b of
      (s', False) \<Rightarrow> fail_app (with_rstore r s') (Because ''no such peer'')
    | (s', True) \<Rightarrow> (broadcast (with_rstore r s') ((event_of event_peers)\<lparr>evPeer := i\<rparr>), Inr (OkIs True '''')))"

definition conv_get :: "world \<Rightarrow> rpc \<Rightarrow> conv_id \<Rightarrow> rpc \<times> rpc_response" where
  "conv_get w r c = (case conversation_of (dstore r) c of
      None \<Rightarrow> fail_app r (Because ''no such conversation'')
    | Some conv \<Rightarrow> (r, Inr (ViewIs \<lparr>cvConv = conv,
        cvPeers = (if cRoom conv \<noteq> '''' then room_members (dstore r) (cRoom conv)
          else (case peer_of (dstore r) (cPeer conv) of Some p \<Rightarrow> [p] | None \<Rightarrow> [])),
        cvTyping = who_types w (rpDaemon r) c\<rparr>)))"

definition messages_send :: "world \<Rightarrow> rpc \<Rightarrow> conv_id \<Rightarrow> string \<Rightarrow> rpc \<times> rpc_response" where
  "messages_send w r c body = (case daemon_send w (rpDaemon r) c body of
      (d', Inl e) \<Rightarrow> fail_app (with_daemon r d') (OfSend e)
    | (d', Inr m) \<Rightarrow> (with_daemon r d', Inr (MessageIs m)))"

definition messages_read :: "rpc \<Rightarrow> conv_id \<Rightarrow> rpc \<times> rpc_response" where
  "messages_read r c = (case mark_read (dstore r) c of
      (s', n) \<Rightarrow> (if 0 < n then broadcast (with_rstore r s') ((event_of event_peers)\<lparr>evConv := c\<rparr>) else with_rstore r s',
        Inr (CountIs n)))"

definition rooms_join :: "world \<Rightarrow> rpc \<Rightarrow> string \<Rightarrow> rpc \<times> rpc_response" where
  "rooms_join w r name = (case daemon_join w (rpDaemon r) name of
      (d', room, changed, Some e) \<Rightarrow> fail_app (with_daemon r d') (OfStore e)
    | (d', room, changed, None) \<Rightarrow>
       (if changed then broadcast (with_daemon r d') ((event_of event_peers)\<lparr>evConv := room_conv room\<rparr>)
          else with_daemon r d', Inr (OkIs changed room)))"

definition rooms_leave :: "world \<Rightarrow> rpc \<Rightarrow> string \<Rightarrow> rpc \<times> rpc_response" where
  "rooms_leave w r name = (case daemon_leave w (rpDaemon r) name of
      (d', left, Some e) \<Rightarrow> fail_app (with_daemon r d') (OfStore e)
    | (d', left, None) \<Rightarrow>
       (if left then broadcast (with_daemon r d') ((event_of event_peers)\<lparr>evConv := room_conv name\<rparr>)
          else with_daemon r d', Inr (OkIs left (canon_room name))))"

definition files_offer :: "world \<Rightarrow> rpc \<Rightarrow> conv_id \<Rightarrow> string \<Rightarrow> rpc \<times> rpc_response" where
  "files_offer w r c path = (case daemon_offer w (rpDaemon r) c path of
      (d', Inl e) \<Rightarrow> fail_app (with_daemon r d') (OfTransfer e)
    | (d', Inr t) \<Rightarrow> (with_daemon r d', Inr (TransferIs t)))"

definition files_answer :: "rpc \<Rightarrow> daemon \<times> transfer_error option \<Rightarrow> rpc \<times> rpc_response" where
  "files_answer r de = (case de of
      (d', Some e) \<Rightarrow> fail_app (with_daemon r d') (OfTransfer e)
    | (d', None) \<Rightarrow> (with_daemon r d', Inr (OkIs True '''')))"

definition notify_set :: "rpc \<Rightarrow> notify_prefs \<Rightarrow> rpc \<times> rpc_response" where
  "notify_set r p = (case set_notify_prefs (dstore r) p of
      (s', out, Some e) \<Rightarrow> fail_app (with_rstore r s') (OfStore e)
    | (s', out, None) \<Rightarrow> (with_rstore r s', Inr (PrefsAre out)))"

text \<open>\<open>DecodeParams\<close> first, then the method.\<close>

definition decoded :: "rpc \<Rightarrow> string + 'a \<Rightarrow> ('a \<Rightarrow> rpc \<times> rpc_response) \<Rightarrow> rpc \<times> rpc_response" where
  "decoded r p k = (case p of Inl e \<Rightarrow> bad_params r e | Inr v \<Rightarrow> k v)"

definition dispatch :: "world \<Rightarrow> rpc \<Rightarrow> rpc_call \<Rightarrow> rpc \<times> rpc_response" where
  "dispatch w r c = (case c of
      Ping \<Rightarrow> (r, Inr (Pong (rpVersion r)))
    | StatusGet \<Rightarrow> (r, Inr (StatusIs (status_of r)))
    | IdentityGet \<Rightarrow> (r, Inr (IdentityIs (stSelf (dstore r))))
    | IdentitySet p \<Rightarrow> decoded r p (identity_set w r)
    | PresenceSet p \<Rightarrow> decoded r p (presence_set w r)
    | PeersList \<Rightarrow> (r, Inr (PeersAre (peers (dstore r))))
    | PeersBlock p \<Rightarrow> decoded r p (\<lambda>(i, b). peers_block r i b)
    | ConvList \<Rightarrow> (r, Inr (ConvsAre (conversations (dstore r))))
    | ConvGet p \<Rightarrow> decoded r p (conv_get w r)
    | MessagesList p \<Rightarrow> decoded r p (\<lambda>(conv, limit). (r, Inr (MessagesAre (messages (dstore r) conv (nat limit)))))
    | MessagesSend p \<Rightarrow> decoded r p (\<lambda>(conv, body). messages_send w r conv body)
    | MessagesRead p \<Rightarrow> decoded r p (messages_read r)
    | TypingSet p \<Rightarrow> decoded r p (\<lambda>(conv, on). (with_daemon r (daemon_typing (rpDaemon r) conv on), Inr (OkIs True '''')))
    | RoomsList \<Rightarrow> (r, Inr (ConvsAre (rooms (dstore r))))
    | RoomsJoin p \<Rightarrow> decoded r p (rooms_join w r)
    | RoomsLeave p \<Rightarrow> decoded r p (rooms_leave w r)
    | FilesOffer p \<Rightarrow> decoded r p (\<lambda>(conv, path). files_offer w r conv path)
    | FilesAccept p \<Rightarrow> decoded r p (\<lambda>i. files_answer r (daemon_accept w (rpDaemon r) i))
    | FilesDecline p \<Rightarrow> decoded r p (\<lambda>(i, reason). files_answer r (daemon_decline w (rpDaemon r) i reason))
    | FilesList \<Rightarrow> (r, Inr (TransfersAre (xfer_list (rpDaemon r))))
    | NotifyGet \<Rightarrow> (r, Inr (PrefsAre (stNotify (dstore r))))
    | NotifySet p \<Rightarrow> decoded r p (notify_set r)
    | UnknownMethod m \<Rightarrow> (r, Inl (err_no_method, Because (''chat: no method '' @ go_quote (wPrint w) m))))"

section \<open>A front end's connection\<close>

text \<open>One line of a front end: empty, not a request (with the parser's text), or a request with its id.\<close>

datatype rpc_line = EmptyLine | NotARequest string | RequestLine "string option" rpc_call

definition reply :: "rpc \<Rightarrow> nat \<Rightarrow> string option \<Rightarrow> rpc_response \<Rightarrow> rpc" where
  "reply r c i resp = (if reads_on r c then r\<lparr>rpOut := rpOut r @ [(c, Reply i resp)]\<rparr> else front_end_gone r c)"

definition handle_line :: "world \<Rightarrow> rpc \<Rightarrow> nat \<Rightarrow> rpc_line \<Rightarrow> rpc" where
  "handle_line w r c l = (case l of
      EmptyLine \<Rightarrow> r
    | NotARequest e \<Rightarrow> (if reads_on r c then r\<lparr>rpOut := rpOut r @ [(c, Reply None (Inl (err_parse, Because e)))]\<rparr> else r)
    | RequestLine i rc \<Rightarrow>
       (case dispatch w r rc of (r', resp) \<Rightarrow> (case i of None \<Rightarrow> r' | Some k \<Rightarrow> reply r' c (Some k) resp)))"

datatype rpc_event =
  FrontEnd bool nat | Line nat rpc_line | Gone nat | DaemonStep daemon_event | Shutdown

definition rpc_step :: "rpc \<Rightarrow> world \<times> rpc_event \<Rightarrow> rpc" where
  "rpc_step r we = (case we of (w, e) \<Rightarrow> (case e of
      FrontEnd allowed c \<Rightarrow> accept_front_end allowed r c
    | Line c l \<Rightarrow> (if c \<in> set (rpConns r) then handle_line w r c l else r)
    | Gone c \<Rightarrow> front_end_gone r c
    | DaemonStep de \<Rightarrow> with_daemon r (daemon_step (rpDaemon r) (w, de))
    | Shutdown \<Rightarrow> close_clients r))"

section \<open>Open (start.go)\<close>

text \<open>Which discovery \<open>Open\<close> chooses, over the environment variable and the address it was given.\<close>

definition discovery_off :: "string \<Rightarrow> string \<Rightarrow> bool" where
  "discovery_off off addr \<longleftrightarrow> trim_space off \<noteq> '''' \<and> trim_space off \<noteq> ''0'' \<or> trim_space addr \<noteq> ''''"

definition open_daemon :: "env \<Rightarrow> peer_id \<Rightarrow> string \<Rightarrow> disk \<Rightarrow> string \<Rightarrow> string \<Rightarrow> string \<Rightarrow> filesystem
    \<Rightarrow> (server_id \<times> uint64) file_content \<Rightarrow> daemon option \<times> store_error option" where
  "open_daemon e fresh dir dk off addr host fs cf =
    (case new_store e fresh dir dk of
       (None, err) \<Rightarrow> (None, err)
     | (Some st, err) \<Rightarrow>
        (Some ((new_daemon st (if discovery_off off addr then ''off'' else ''beacon'') host fs cf)
           \<lparr>dmAddr := trim_space addr\<rparr>), err))"

end
