(* ===== verification/DaemonProperties.thy ===== *)
theory DaemonProperties
  imports Rpc DaemonFacts
begin

text \<open>
  The properties of the client daemon on its own, each with a run it applies to.
\<close>

section \<open>A daemon that runs\<close>

definition dev_env :: env where
  "dev_env = \<lparr>eNick = '''', eUser = Some ''bob'', eHost = None\<rparr>"

definition dev_id :: peer_id where "dev_id = replicate 32 (CHR ''b'')"

definition dev_world :: world where
  "dev_world = \<lparr>wNow = 7, wRnd = [1, 2, 3, 4, 5, 6, 7, 8], wEnv = dev_env, wFresh = dev_id, wServerEnv = '''',
     wDownload = ''/dl'', wMime = (\<lambda>e. ''''), wSha = (\<lambda>b. ''sha''), wErr = ''error'', wPrint = (\<lambda>n. True)\<rparr>"

definition dev_fs :: filesystem where
  "dev_fs = \<lparr>fsFiles = [], fsDirs = [], fsRefuses = [], fsNoRead = [], fsNoWrite = [], fsMkdirFails = False\<rparr>"

definition dev_daemon :: daemon where
  "dev_daemon = (new_daemon (new_memory_store dev_env dev_id) ''none'' ''host'' dev_fs Absent)
     \<lparr>dmAddr := ''10.0.0.9:47772''\<rparr>"

definition dev_welcome :: "bool \<Rightarrow> frame" where
  "dev_welcome reset = zero_frame\<lparr>fType := frame_welcome, fVersion := 2, fServer := replicate 32 (CHR ''0''), fReset := reset\<rparr>"

lemma new_daemon_ok: "store_ok st \<Longrightarrow> daemon_ok (new_daemon st disc host fs cf)"
  by (simp add: daemon_ok_def table_def table_ok_def new_daemon_def)

text \<open>
  C13: the invariant of the client daemon. Whatever the server sends, front ends call, or discovery says, in any
  order, the cache stays well formed; every transfer stands in the table under its own id, every incoming one has a
  safe file name and a size within the limit and came from the person its conversation is with; and every
  transfer being received has the handle of the file it names open.
\<close>

theorem daemon_run_ok:
  "store_ok st \<Longrightarrow> daemon_ok (daemon_run (start_daemon w (new_daemon st disc host fs cf)) es)"
proof -
  assume "store_ok st"
  then have "daemon_ok (start_daemon w (new_daemon st disc host fs cf))"
    using new_daemon_ok [of st disc host fs cf] by (simp add: daemon_ok_def start_daemon_def table_def)
  then show ?thesis unfolding daemon_run_def by (rule daemon_steps.inv_run)
qed

theorem daemon_run_ok_witness:
  "daemon_ok (daemon_run (start_daemon dev_world (new_daemon (new_memory_store dev_env dev_id) ''none'' ''host'' dev_fs Absent))
     [(dev_world, Attempt (Inr (dev_welcome False)) 9), (dev_world, CallSend ''room:lobby'' ''hi''), (dev_world, LinkLost ''eof'')])"
  by (rule daemon_run_ok) (rule new_memory_store_ok)

text \<open>
  C14: what a client holds it keeps. A message in its cache is still there after any number of events, in
  the same conversation, from the same sender, with the same text and time: only its delivery state, its
  sequence number and whether it was read may change.
\<close>

theorem cache_permanent:
  assumes "store_ok (dmStore d)" and "m \<in> set (conv_msgs (dmStore d) c)"
  shows "\<exists>m' \<in> set (conv_msgs (dmStore (daemon_run d es)) c). mID m' = mID m \<and> mFrom m' = mFrom m \<and> mBody m' = mBody m
    \<and> mSent m' = mSent m \<and> mMine m' = mMine m"
proof -
  have "content m \<in> content ` set (conv_msgs (dmStore (daemon_run d es)) c)"
    using path_content [OF path_daemon_run assms(1), of c] assms(2) by blast
  then show ?thesis by (auto simp: content_def)
qed

definition spoke :: daemon where
  "spoke = fst (daemon_send dev_world dev_daemon ''room:lobby'' ''hi'')"

lemma dev_daemon_ok: "daemon_ok dev_daemon"
  using new_daemon_ok [OF new_memory_store_ok] by (simp add: dev_daemon_def daemon_ok_def table_def)

lemma spoke_ok: "daemon_ok spoke"
  using daemon_steps.inv_step [OF dev_daemon_ok, of "(dev_world, CallSend ''room:lobby'' ''hi'')"]
  by (simp add: spoke_def daemon_step_def)

theorem cache_permanent_witness:
  "\<exists>m' \<in> set (conv_msgs (dmStore (daemon_run spoke [(dev_world, CallRead ''room:lobby''), (dev_world, TypingTick)])) ''room:lobby'').
     mBody m' = ''hi''"
proof -
  have "map mBody (conv_msgs (dmStore spoke) ''room:lobby'') = [''hi'']" by code_simp
  then have "hd (conv_msgs (dmStore spoke) ''room:lobby'') \<in> set (conv_msgs (dmStore spoke) ''room:lobby'')"
    "mBody (hd (conv_msgs (dmStore spoke) ''room:lobby'')) = ''hi''" by (auto simp: map_eq_Cons_conv)
  with cache_permanent [of spoke] spoke_ok show ?thesis unfolding daemon_ok_def by metis
qed

text \<open>
  C34: the cursor only moves forward. No event takes a client's cursor back, except enrolling with a server that
  is not the one of its last session or that says it cannot go on from the cursor, and then it is zero.
\<close>

theorem cursor_forward:
  assumes "dmCursor (daemon_step d (w, e)) < dmCursor d"
  shows "\<exists>f takes. e = Attempt (Inr f) takes \<and> valid_welcome f = None \<and> (fServer f \<noteq> dmServerID d \<or> fReset f)
    \<and> dmCursor (daemon_step d (w, e)) = 0"
proof -
  have "is_attempt (w, e)" using cursor_step [of "(w, e)" d] assms by (cases "is_attempt (w, e)") auto
  then obtain outcome takes where e: "e = Attempt outcome takes" by (cases e) (auto simp: is_attempt_def)
  show ?thesis
    using assms unfolding e
    by (auto simp: daemon_step_def attempt_def session_open_def disc_note_def link_error_def enrolled_def Let_def
        split: if_splits sum.splits option.splits)
qed

definition far_daemon :: daemon where
  "far_daemon = dev_daemon\<lparr>dmCursor := 9, dmServerID := replicate 32 (CHR ''0'')\<rparr>"

theorem cursor_forward_witness:
  "dmCursor (daemon_step far_daemon (dev_world, Attempt (Inr (dev_welcome True)) 5)) = 0"
proof -
  have "server_target dev_world far_daemon \<noteq> ''''" "valid_welcome (dev_welcome True) = None" by code_simp+
  then have "dmCursor (daemon_step far_daemon (dev_world, Attempt (Inr (dev_welcome True)) 5)) < dmCursor far_daemon"
    by (simp add: daemon_step_def attempt_def session_open_def enrolled_def Let_def far_daemon_def dev_daemon_def
        new_daemon_def dev_welcome_def zero_frame_def)
  from cursor_forward [OF this] show ?thesis by blast
qed

section \<open>Being mentioned\<close>

lemma has_prefix_iff: "has_prefix s p \<longleftrightarrow> take (length p) s = p"
  by (auto simp: has_prefix_def)

lemma str_index_Some:
  "str_index s p = Some j \<longleftrightarrow> has_prefix (drop j s) p \<and> j \<le> length s \<and> (\<forall>k < j. \<not> has_prefix (drop k s) p)"
proof (induction s p arbitrary: j rule: str_index.induct)
  case (1 s p)
  show ?case
  proof (cases "has_prefix s p")
    case True
    then show ?thesis by (subst str_index.simps) (auto dest: spec [of _ 0])
  next
    case False
    show ?thesis
    proof (cases s)
      case Nil
      with False show ?thesis by (subst str_index.simps) auto
    next
      case (Cons c cs)
      have "str_index s p = map_option Suc (str_index cs p)" using False Cons by (subst str_index.simps) simp
      then show ?thesis using 1 [OF False Cons] False Cons
        by (cases j) (auto simp: less_Suc_eq_0_disj)
    qed
  qed
qed

lemma str_index_None: "str_index s p = None \<longleftrightarrow> (\<forall>j \<le> length s. \<not> has_prefix (drop j s) p)"
proof
  assume none: "str_index s p = None"
  show "\<forall>j \<le> length s. \<not> has_prefix (drop j s) p"
  proof (rule ccontr)
    assume "\<not> (\<forall>j \<le> length s. \<not> has_prefix (drop j s) p)"
    then obtain j where j: "j \<le> length s \<and> has_prefix (drop j s) p" by blast
    then have "str_index s p = Some (LEAST j. j \<le> length s \<and> has_prefix (drop j s) p)"
      using LeastI [of "\<lambda>j. j \<le> length s \<and> has_prefix (drop j s) p" j]
        not_less_Least [of _ "\<lambda>j. j \<le> length s \<and> has_prefix (drop j s) p"] unfolding str_index_Some by auto
    with none show False by simp
  qed
next
  assume no: "\<forall>j \<le> length s. \<not> has_prefix (drop j s) p"
  show "str_index s p = None"
  proof (cases "str_index s p")
    case (Some j)
    then show ?thesis using no str_index_Some by blast
  qed simp
qed

definition occurs_at :: "string \<Rightarrow> string \<Rightarrow> nat \<Rightarrow> bool" where
  "occurs_at low name j \<longleftrightarrow> j \<le> length low \<and> has_prefix (drop j low) name \<and> whole_word low name j"

lemma mentioned_from_iff: "mentioned_from low name i \<longleftrightarrow> (\<exists>j \<ge> i. occurs_at low name j)"
proof (induction low name i rule: mentioned_from.induct)
  case (1 low name i)
  show ?case
  proof (cases "length low < i")
    case True
    then show ?thesis by (subst mentioned_from.simps) (auto simp: occurs_at_def)
  next
    case in_range: False
    show ?thesis
    proof (cases "str_index (drop i low) name")
      case None
      have "\<not> occurs_at low name j" if "i \<le> j" for j
      proof
        assume o: "occurs_at low name j"
        then have "j - i \<le> length (drop i low)" by (simp add: occurs_at_def diff_le_mono)
        then have "\<not> has_prefix (drop (j - i) (drop i low)) name" using None unfolding str_index_None by blast
        with o that show False by (simp add: occurs_at_def)
      qed
      with None in_range show ?thesis by (subst mentioned_from.simps) auto
    next
      case (Some j)
      then have at: "has_prefix (drop (i + j) low) name" "i + j \<le> length low"
        using in_range by (auto simp: str_index_Some add.commute)
      have before: "\<not> occurs_at low name k" if k: "i \<le> k" "k < i + j" for k
      proof
        assume o: "occurs_at low name k"
        from k have "k - i < j" by simp
        then have "\<not> has_prefix (drop (k - i) (drop i low)) name" using Some unfolding str_index_Some by blast
        with o k show False by (simp add: occurs_at_def)
      qed
      show ?thesis
      proof (cases "whole_word low name (i + j)")
        case True
        with at have "occurs_at low name (i + j)" by (simp add: occurs_at_def)
        moreover have "mentioned_from low name i" using Some in_range True by (subst mentioned_from.simps) simp
        ultimately show ?thesis using le_add1 by blast
      next
        case False
        then have "\<not> occurs_at low name (i + j)" by (simp add: occurs_at_def)
        then have "(\<exists>k \<ge> i. occurs_at low name k) \<longleftrightarrow> (\<exists>k \<ge> Suc (i + j). occurs_at low name k)"
          using before by (metis Suc_leI le_add1 le_neq_implies_less not_less order_trans Suc_leD)
        moreover have "mentioned_from low name i = mentioned_from low name (Suc (i + j))"
          using Some in_range False by (subst mentioned_from.simps) simp
        ultimately show ?thesis using 1 [OF in_range Some False] by simp
      qed
    qed
  qed
qed


section \<open>Typing indicators\<close>

lemma emit_all_snoc: "emit_all d (evs @ [ev]) = emit (emit_all d evs) ev"
  by (simp add: emit_all_def)

lemma emit_all_events: "dmEvents (emit_all d evs) = dmEvents d @ (if dmSink d then evs else [])"
proof (induction evs rule: rev_induct)
  case (snoc ev evs)
  then show ?case by (simp add: emit_all_snoc emit_def)
qed (simp add: emit_all_def)

text \<open>
  An indicator lasts six seconds. The ticker keeps exactly the indicators that are not older than six seconds, and
  emits one event that takes it off for each of the others; who is typing in a conversation is who was last heard
  typing there less than six seconds ago, in order of identity.
\<close>

theorem typing_expires:
  "map_of (typing_convs (expire_typing w d) i) c = (case map_of (dmTyping d) i of None \<Rightarrow> None
      | Some cs \<Rightarrow> map_of (filter (fresh_entry (wNow w)) cs) c)
   \<and> dmEvents (expire_typing w d) = dmEvents d @ (if dmSink d then concat (map (stale_events (wNow w)) (dmTyping d)) else [])
   \<and> (i \<in> set (who_types w d c) \<longleftrightarrow> (\<exists>cs t. (i, cs) \<in> set (dmTyping d) \<and> map_of cs c = Some t \<and> wNow w - t < typing_timeout))
   \<and> ordered_by less_string (who_types w d c)"
proof -
  have "map_of (map (\<lambda>e. (fst e, filter (fresh_entry (wNow w)) (snd e))) xs) i
      = map_option (filter (fresh_entry (wNow w))) (map_of xs i)" for xs :: "(peer_id \<times> (conv_id \<times> gotime) list) list"
    by (induction xs) auto
  then have "map_of (typing_convs (expire_typing w d) i) c = (case map_of (dmTyping d) i of None \<Rightarrow> None
      | Some cs \<Rightarrow> map_of (filter (fresh_entry (wNow w)) cs) c)"
    by (simp add: typing_convs_def expire_typing_def get_or_def split: option.splits)
  moreover have "dmEvents (expire_typing w d) = dmEvents d @ (if dmSink d then concat (map (stale_events (wNow w)) (dmTyping d)) else [])"
    by (simp add: expire_typing_def emit_all_events)
  moreover have "i \<in> set (who_types w d c) \<longleftrightarrow> (\<exists>cs t. (i, cs) \<in> set (dmTyping d) \<and> map_of cs c = Some t \<and> wNow w - t < typing_timeout)"
    by (force simp: who_types_def types_in_def split: option.splits)
  moreover have "ordered_by less_string (who_types w d c)"
    unfolding who_types_def by (rule string_order.ordered_sort)
  ultimately show ?thesis by blast
qed

section \<open>Trying again\<close>

text \<open>
  The wait between two attempts to reach the server is a quarter of a second, doubled with each failure in a
  row and at most sixteen seconds; being told of a server starts it over.
\<close>

theorem backoff_bounded:
  "foldl (\<lambda>t woken. next_wait woken t) first_wait ws = first_wait * 2 ^ min 6 (length (takeWhile Not (rev ws)))
   \<and> foldl (\<lambda>t woken. next_wait woken t) first_wait ws \<le> 16 * second_ns"
proof -
  have double: "next_wait False (first_wait * 2 ^ min 6 n) = first_wait * 2 ^ min 6 (Suc n)" for n
  proof (cases "6 \<le> n")
    case True
    then show ?thesis by (simp add: next_wait_def first_wait_def second_ns_def)
  next
    case False
    then consider "n = 0" | "n = 1" | "n = 2" | "n = 3" | "n = 4" | "n = 5" by linarith
    then show ?thesis by cases (simp_all add: next_wait_def first_wait_def second_ns_def)
  qed
  have eq: "foldl (\<lambda>t woken. next_wait woken t) first_wait ws = first_wait * 2 ^ min 6 (length (takeWhile Not (rev ws)))"
  proof (induction ws rule: rev_induct)
    case (snoc b ws)
    then show ?case using double [of "length (takeWhile Not (rev ws))"] by (cases b) (simp_all add: next_wait_def)
  qed simp
  have "(2 :: int) ^ min 6 n \<le> 2 ^ 6" for n by (rule power_increasing) simp_all
  then show ?thesis unfolding eq by (simp add: first_wait_def second_ns_def mult.commute)
qed

end
