(* ===== verification/StoreRefinement.thy ===== *)
theory StoreRefinement
  imports StoreProperties
begin

text \<open>
  The abstract specification of the message store: a finite map from message ids to messages. Each operation
  of the store is an operation of the map, and a conversation shown is the map's messages of that
  conversation in the order of \<open>less\<close>.
\<close>

section \<open>The abstract store\<close>

type_synonym abs_store = "message_id \<Rightarrow> message option"

definition abs_read :: "conv_id \<Rightarrow> message \<Rightarrow> message" where
  "abs_read c m = (if mConv m = c then m\<lparr>mRead := True\<rparr> else m)"

definition abs_step :: "store_op \<Rightarrow> abs_store \<Rightarrow> abs_store" where
  "abs_step op f = (case op of
      OpAppend now m \<Rightarrow> (if mID m \<noteq> '''' \<and> mConv m \<noteq> '''' \<and> f (mID m) = None then f(mID m \<mapsto> filed_message now m) else f)
    | OpSetState i st \<Rightarrow> (case f i of None \<Rightarrow> f | Some m \<Rightarrow> f(i \<mapsto> m\<lparr>mState := st\<rparr>))
    | OpConfirm i q \<Rightarrow> (case f i of None \<Rightarrow> f | Some m \<Rightarrow> f(i \<mapsto> m\<lparr>mSeq := q, mState := StateDelivered\<rparr>))
    | OpMarkRead c \<Rightarrow> (\<lambda>i. map_option (abs_read c) (f i))
    | _ \<Rightarrow> f)"

lemma abs_read_fields [simp]: "mID (abs_read c m) = mID m" "mConv (abs_read c m) = mConv m"
  by (simp_all add: abs_read_def)

section \<open>The operations on messages refine it\<close>

lemma message_of_eqI:
  assumes "store_ok s" and "\<And>i m. f i = Some m \<longleftrightarrow> m \<in> set (conv_msgs s (mConv m)) \<and> mID m = i"
  shows "message_of s = f"
proof
  fix i
  have "message_of s i = Some m \<longleftrightarrow> f i = Some m" for m by (simp add: message_of_Some [OF assms(1)] assms(2))
  then show "message_of s i = f i" by (metis option.exhaust)
qed

lemma message_of_same:
  assumes "stMsgs s' = stMsgs s"
  shows "message_of s' = message_of s"
proof -
  have "conv_msgs s' = conv_msgs s" using assms by (intro ext) (simp add: conv_msgs_def)
  with assms show ?thesis by (intro ext) (simp only: message_of_def)
qed

text \<open>One message of a conversation replaced by another version of it.\<close>

lemma message_of_replace:
  assumes s: "store_ok s" "store_ok s'" and loc: "locate i (stMsgs s) = Some (c, k)"
    and msgs: "\<And>c'. conv_msgs s' c' = (if c' = c then l else conv_msgs s c')"
    and l: "mset l = add_mset m (mset (take k (conv_msgs s c) @ drop (Suc k) (conv_msgs s c)))"
    and m: "mID m = i" "mConv m = c"
  shows "message_of s' = (message_of s)(i \<mapsto> m)"
proof (rule message_of_eqI [OF s(2)])
  fix j x
  note at = locate_conv [OF s(1) loc]
  let ?rest = "take k (conv_msgs s c) @ drop (Suc k) (conv_msgs s c)"
  have parts: "mset (conv_msgs s c) = add_mset (conv_msgs s c ! k) (mset ?rest)"
    by (rule mset_remove_nth [OF at(1), symmetric])
  have sets: "set (conv_msgs s c) = insert (conv_msgs s c ! k) (set ?rest)" "set l = insert m (set ?rest)"
    using parts l by (metis set_mset_add_mset_insert set_mset_mset)+
  have "distinct (map mID (conv_msgs s c))" by (rule store_okD(3) [OF s(1)])
  then have "mID (conv_msgs s c ! k) \<notin> mID ` set ?rest"
    using distinct_map_mset [of "conv_msgs s c" "conv_msgs s c ! k # ?rest" mID] parts by auto
  then have other: "mID y \<noteq> i" if "y \<in> set ?rest" for y using that at(2) by (metis image_eqI)
  have elsewhere: "mID y \<noteq> i" if "y \<in> set (conv_msgs s c')" "c' \<noteq> c" for y c'
  proof
    assume "mID y = i"
    moreover have "mConv y = c'" by (rule store_okD(4) [OF s(1) that(1)])
    ultimately have "message_of s i = Some y" using that(1) by (simp add: message_of_Some [OF s(1)])
    moreover have "message_of s i = Some (conv_msgs s c ! k)" using at by (simp add: message_of_Some [OF s(1)])
    ultimately show False using at(3) \<open>mConv y = c'\<close> that(2) by simp
  qed
  show "((message_of s)(i \<mapsto> m)) j = Some x \<longleftrightarrow> x \<in> set (conv_msgs s' (mConv x)) \<and> mID x = j"
    using at m other elsewhere by (auto simp: message_of_Some [OF s(1)] msgs sets)
qed

lemma message_of_set_state:
  assumes "store_ok s"
  shows "message_of (fst (set_state s i st)) = abs_step (OpSetState i st) (message_of s)"
proof (cases "locate i (stMsgs s)")
  case None
  then show ?thesis by (simp add: set_state_def abs_step_def message_of_def)
next
  case (Some ck)
  obtain c k where ck: "locate i (stMsgs s) = Some (c, k)" using Some by (cases ck) simp
  note at = locate_conv [OF assms ck]
  let ?m = "(conv_msgs s c ! k)\<lparr>mState := st\<rparr>"
  have "stMsgs (fst (set_state s i st)) = AList.update c ((conv_msgs s c)[k := ?m]) (stMsgs s)"
    using ck by (simp add: set_state_def Let_def append_state_def)
  then have msgs: "conv_msgs (fst (set_state s i st)) c' = (if c' = c then (conv_msgs s c)[k := ?m] else conv_msgs s c')" for c'
    by (rule conv_msgs_update)
  have "(conv_msgs s c)[k := ?m] = take k (conv_msgs s c) @ ?m # drop (Suc k) (conv_msgs s c)"
    by (rule upd_conv_take_nth_drop [OF at(1)])
  then have "mset ((conv_msgs s c)[k := ?m]) = add_mset ?m (mset (take k (conv_msgs s c) @ drop (Suc k) (conv_msgs s c)))"
    by simp
  from message_of_replace [OF assms store_ok_set_state [OF assms] ck msgs this] at
  show ?thesis by (simp add: abs_step_def message_of_def ck)
qed

lemma message_of_confirm:
  assumes "store_ok s"
  shows "message_of (fst (confirm s i q)) = abs_step (OpConfirm i q) (message_of s)"
proof (cases "locate i (stMsgs s)")
  case None
  then have "message_of s i = None" by (simp add: message_of_def)
  moreover have "message_of (fst (confirm s i q)) = message_of s"
    by (rule message_of_same) (simp add: confirm_def None Let_def)
  ultimately show ?thesis by (simp add: abs_step_def)
next
  case (Some ck)
  obtain c k where ck: "locate i (stMsgs s) = Some (c, k)" using Some by (cases ck) simp
  note at = locate_conv [OF assms ck]
  let ?m = "(conv_msgs s c ! k)\<lparr>mSeq := q, mState := StateDelivered\<rparr>"
  let ?rest = "take k (conv_msgs s c) @ drop (Suc k) (conv_msgs s c)"
  have "stMsgs (fst (confirm s i q)) = AList.update c (insert_ordered ?rest ?m) (stMsgs s)"
    using ck by (simp add: confirm_def Let_def)
  then have msgs: "conv_msgs (fst (confirm s i q)) c' = (if c' = c then insert_ordered ?rest ?m else conv_msgs s c')" for c'
    by (rule conv_msgs_update)
  have "mset (insert_ordered ?rest ?m) = add_mset ?m (mset ?rest)" by simp
  from message_of_replace [OF assms store_ok_confirm [OF assms] ck msgs this] at
  show ?thesis by (simp add: abs_step_def message_of_def ck)
qed

lemma message_of_append:
  assumes "store_ok s"
  shows "message_of (fst (append_message now s m)) = abs_step (OpAppend now m) (message_of s)"
proof (rule message_of_eqI [OF store_ok_append_message [OF assms]])
  fix i x
  have fl: "fileable s m \<longleftrightarrow> mID m \<noteq> '''' \<and> mConv m \<noteq> '''' \<and> message_of s (mID m) = None"
    by (simp add: fileable_def have_message_of [OF assms])
  have none: "y \<in> set (conv_msgs s c) \<Longrightarrow> mID y = j \<Longrightarrow> message_of s j \<noteq> None" for y c j
    using store_okD(4) [OF assms] message_of_Some [OF assms] by (metis option.distinct(1))
  show "abs_step (OpAppend now m) (message_of s) i = Some x
      \<longleftrightarrow> x \<in> set (conv_msgs (fst (append_message now s m)) (mConv x)) \<and> mID x = i"
    by (auto simp: abs_step_def conv_msgs_append fl message_of_Some [OF assms] dest: none)
qed

lemma message_of_mark_read:
  assumes "store_ok s"
  shows "message_of (fst (mark_read s c)) = abs_step (OpMarkRead c) (message_of s)"
proof (rule message_of_eqI [OF store_ok_mark_read [OF assms]])
  fix i x
  have msgs: "conv_msgs (fst (mark_read s c)) c' = (if c' = c then map (abs_read c) (conv_msgs s c) else conv_msgs s c')" for c'
  proof -
    have "conv_msgs (fst (mark_read s c)) c' = (if c' = c then map (\<lambda>m. m\<lparr>mRead := True\<rparr>) (conv_msgs s c) else conv_msgs s c')"
      by (auto simp: mark_read_def Let_def append_read_def conv_msgs_def get_or_def split: option.splits)
    also have "map (\<lambda>m. m\<lparr>mRead := True\<rparr>) (conv_msgs s c) = map (abs_read c) (conv_msgs s c)"
      using store_okD(4) [OF assms] by (auto simp: abs_read_def)
    finally show ?thesis .
  qed
  show "abs_step (OpMarkRead c) (message_of s) i = Some x
      \<longleftrightarrow> x \<in> set (conv_msgs (fst (mark_read s c)) (mConv x)) \<and> mID x = i"
  proof -
    have "map_option (abs_read c) (message_of s i) = Some x
        \<longleftrightarrow> (\<exists>y. message_of s i = Some y \<and> abs_read c y = x)" by auto
    also have "\<dots> \<longleftrightarrow> (\<exists>y. y \<in> set (conv_msgs s (mConv y)) \<and> mID y = i \<and> abs_read c y = x)"
      by (simp add: message_of_Some [OF assms])
    also have "\<dots> \<longleftrightarrow> (\<exists>y. y \<in> set (conv_msgs s (mConv x)) \<and> mID y = i \<and> abs_read c y = x)"
      using store_okD(4) [OF assms] by (metis abs_read_fields(2))
    also have "\<dots> \<longleftrightarrow> x \<in> abs_read c ` set (conv_msgs s (mConv x)) \<and> mID x = i"
      by (metis (no_types, lifting) abs_read_fields(1) imageE imageI)
    also have "abs_read c ` set (conv_msgs s (mConv x)) = set (conv_msgs (fst (mark_read s c)) (mConv x))"
    proof (cases "mConv x = c")
      case False
      then have "abs_read c y = y" if "y \<in> set (conv_msgs s (mConv x))" for y
        using store_okD(4) [OF assms that] by (simp add: abs_read_def)
      with False show ?thesis by (simp add: msgs)
    qed (simp add: msgs)
    finally show ?thesis by (simp add: abs_step_def)
  qed
qed

text \<open>
  C6: the store is a map of messages. Seen as a map from ids to messages, a well-formed store does under each of its
  operations what the map does, and shows every conversation as exactly the map's messages of it, in order
  and each once.
\<close>

theorem store_refines_map:
  assumes "store_ok s"
  shows "message_of (store_step e fresh s op) = abs_step op (message_of s)
    \<and> set (conv_msgs s c) = {m. message_of s (mID m) = Some m \<and> mConv m = c}
    \<and> ordered_by less_message (conv_msgs s c) \<and> distinct (map mID (conv_msgs s c))"
proof -
  have "message_of (store_step e fresh s op) = abs_step op (message_of s)"
  proof (cases op)
    case (OpAppend now m)
    then show ?thesis by (simp add: store_step_def message_of_append [OF assms])
  next
    case (OpSetState i st)
    then show ?thesis by (simp add: store_step_def message_of_set_state [OF assms])
  next
    case (OpConfirm i q)
    then show ?thesis by (simp add: store_step_def message_of_confirm [OF assms])
  next
    case (OpMarkRead c)
    then show ?thesis by (simp add: store_step_def message_of_mark_read [OF assms])
  qed (simp_all add: store_step_def abs_step_def, (rule message_of_same,
       simp add: set_presence_def block_peer_def set_self_def join_room_def leave_room_def
         set_notify_prefs_def save_identity_def save_prefs_def Let_def case_prod_beta split: option.splits)+)
  moreover have "set (conv_msgs s c) = {m. message_of s (mID m) = Some m \<and> mConv m = c}"
    using store_okD(4) [OF assms] by (auto simp: message_of_Some [OF assms])
  ultimately show ?thesis using store_okD(2,3) [OF assms] by blast
qed

theorem store_refines_map_witness:
  "message_of (store_step demo_id_env ''0'' memo_store (OpAppend 9 (memo ''a'' 1 5))) ''a'' = Some (filed_message 9 (memo ''a'' 1 5))"
proof -
  have "message_of memo_store ''a'' = None" by code_simp
  with conjunct1 [OF store_refines_map [OF memo_store_ok, of demo_id_env "''0''" "OpAppend 9 (memo ''a'' 1 5)" undefined]]
  show ?thesis by (simp add: abs_step_def memo_def zero_message_def)
qed

end
