(* ===== verification/Delivery.thy ===== *)
theory Delivery
  imports DaemonProperties StoreRefinement
begin

text \<open>
  What becomes of a message a client writes: filed, sent or queued, resent when the server is back, and
  delivered when the server says so. The states of the messages are followed through the map the store refines.
\<close>

section \<open>The states along a send\<close>

lemma message_of_set_msg_state:
  "store_ok (dmStore d) \<Longrightarrow> message_of (dmStore (set_msg_state d i st)) = abs_step (OpSetState i st) (message_of (dmStore d))"
  by (simp add: set_msg_state_def case_prod_beta message_of_set_state split: option.splits)

lemma path_message_of_ok: "store_ok (dmStore d) \<Longrightarrow> store_ok (dmStore (set_msg_state d i st))"
  by (simp add: set_msg_state_def case_prod_beta store_ok_set_state split: option.splits)

lemma message_of_send_message:
  assumes "store_ok (dmStore d)"
  shows "message_of (dmStore (send_message d m))
      = (if dmConn d \<and> 0 < dmTakes d then abs_step (OpSetState (mID m) StateSending) (message_of (dmStore d)) else message_of (dmStore d))"
    and "dmWire (send_message d m) = (if dmConn d \<and> 0 < dmTakes d then dmWire d @ [msg_frame m] else dmWire d)"
  using assms by (simp_all add: send_message_def wire_write_def message_of_set_msg_state)

text \<open>What the flush writes: a prefix of the queue, as long as the wire takes frames.\<close>

lemma flush_list_wire:
  "dmWire (flush_list d ms) = dmWire d @ (if dmConn d then map msg_frame (take (dmTakes d) ms) else [])"
proof (induction ms arbitrary: d)
  case (Cons m ms)
  show ?case
    using Cons.IH [of "set_msg_state (d\<lparr>dmWire := dmWire d @ [msg_frame m], dmTakes := dmTakes d - 1\<rparr>) (mID m) StateSending"]
    by (cases "dmTakes d") (auto simp: wire_write_def)
qed simp

definition sent_states :: "message list \<Rightarrow> abs_store \<Rightarrow> abs_store" where
  "sent_states ms f = (\<lambda>i. if i \<in> mID ` set ms then map_option (\<lambda>m. m\<lparr>mState := StateSending\<rparr>) (f i) else f i)"

lemma sent_states_Cons:
  "sent_states ms (abs_step (OpSetState (mID m) StateSending) f) = sent_states (m # ms) f"
  by (auto simp: sent_states_def abs_step_def fun_eq_iff map_option_case split: option.splits)

lemma flush_list_states:
  assumes "store_ok (dmStore d)" and "dmConn d"
  shows "message_of (dmStore (flush_list d ms)) = sent_states (take (dmTakes d) ms) (message_of (dmStore d))"
  using assms
proof (induction ms arbitrary: d)
  case Nil
  then show ?case by (simp add: sent_states_def)
next
  case (Cons m ms)
  show ?case
  proof (cases "dmTakes d")
    case 0
    then show ?thesis by (simp add: wire_write_def sent_states_def)
  next
    case (Suc n)
    let ?d = "d\<lparr>dmWire := dmWire d @ [msg_frame m], dmTakes := n\<rparr>"
    have "message_of (dmStore (flush_list (set_msg_state ?d (mID m) StateSending) ms))
        = sent_states (take n ms) (message_of (dmStore (set_msg_state ?d (mID m) StateSending)))"
      using Cons.IH [of "set_msg_state ?d (mID m) StateSending"] Cons.prems by (simp add: path_message_of_ok)
    also have "\<dots> = sent_states (take (Suc n) (m # ms)) (message_of (dmStore d))"
      using Cons.prems by (simp add: message_of_set_msg_state sent_states_Cons)
    finally show ?thesis using Suc Cons.prems by (simp add: wire_write_def)
  qed
qed

lemma composed_filed: "wNow w \<noteq> zero_time \<Longrightarrow> filed_message now (composed w d c b) = composed w d c b"
  unfolding filed_message_def by (intro message.equality) (simp_all add: composed_def)

lemma daemon_send_Inr:
  assumes "daemon_send w d conv body = (d1, Inr m)"
  shows "m = composed w d conv (trim_right_space body)"
    and "d1 = send_message (emit (with_dstore d (fst (append_message (wNow w) (dmStore d) m)))
        ((event_of event_message)\<lparr>evConv := conv, evMsg := Some m\<rparr>)) m"
    and "conv \<noteq> ''''" and "trim_space (trim_right_space body) \<noteq> ''''"
  using assms by (auto simp: daemon_send_def Let_def split: if_splits prod.splits option.splits)

text \<open>
  C11: a queued message is not forgotten. When the server has sent the end of the backlog, the client writes the
  messages of its queue, in order, as far as the link takes them; those are being sent, and every other
  message is as it was, so that what the link did not take is still queued.
\<close>

theorem queue_flushed:
  assumes "store_ok (dmStore d)" and "dmConn d" and "q = take (dmTakes d) (queued (dmStore d) '''')"
  shows "dmWire (got_synced d f) = dmWire d @ map msg_frame q
    \<and> (\<forall>i m. message_of (dmStore d) i = Some m \<longrightarrow>
          message_of (dmStore (got_synced d f)) i = Some (if i \<in> mID ` set q then m\<lparr>mState := StateSending\<rparr> else m))
    \<and> (length (queued (dmStore d) '''') \<le> dmTakes d \<longrightarrow> q = queued (dmStore d) '''')"
proof -
  let ?d = "save_cursor (advance d (fCursor f))"
  have "dmStore (got_synced d f) = dmStore (flush_list ?d (queued (dmStore d) ''''))"
    "dmWire (got_synced d f) = dmWire (flush_list ?d (queued (dmStore d) ''''))"
    by (simp_all add: got_synced_def flush_queue_def)
  with flush_list_states [of ?d "queued (dmStore d) ''''"] flush_list_wire [of ?d "queued (dmStore d) ''''"] assms
  show ?thesis by (auto simp: sent_states_def)
qed

definition up_daemon :: daemon where
  "up_daemon = spoke\<lparr>dmConn := True, dmConnected := True, dmTakes := 5\<rparr>"

definition spoke_facts :: "daemon \<Rightarrow> bool" where
  "spoke_facts d \<longleftrightarrow> map mBody (queued (dmStore d) '''') = [''hi''] \<and> length (queued (dmStore d) '''') = 1 \<and> \<not> dmConn d \<and> dmWire d = []"

lemma spoke_queued: "spoke_facts spoke"
  by code_simp

theorem queue_flushed_witness:
  "map fBody (dmWire (got_synced up_daemon (zero_frame\<lparr>fType := frame_synced, fCursor := 4\<rparr>))) = [''hi'']"
proof -
  let ?f = "zero_frame\<lparr>fType := frame_synced, fCursor := 4\<rparr>"
  have up: "dmConn up_daemon" "dmStore up_daemon = dmStore spoke" "dmTakes up_daemon = 5" "dmWire up_daemon = []"
    and q: "map mBody (queued (dmStore spoke) '''') = [''hi'']" "length (queued (dmStore spoke) '''') = 1"
    using spoke_queued by (simp_all add: up_daemon_def spoke_facts_def)
  have ok: "store_ok (dmStore up_daemon)" using spoke_ok up(2) by (simp add: daemon_ok_def)
  have "take 5 (queued (dmStore spoke) '''') = queued (dmStore spoke) ''''" using q(2) by simp
  then have "dmWire (got_synced up_daemon ?f) = map msg_frame (queued (dmStore spoke) '''')"
    using conjunct1 [OF queue_flushed [OF ok up(1) refl, of ?f]] up by simp
  then show ?thesis using q(1) by (simp add: comp_def)
qed

lemma queued_mem:
  assumes "store_ok s" and "message_of s i = Some m" and "is_queued m"
  shows "m \<in> set (queued s '''')"
  using assms by (auto simp: queued_def message_of_Some all_msgs_iff [OF store_okD(1)])

lemma message_of_got_seq:
  assumes "store_ok (dmStore d)"
  shows "message_of (dmStore (got_seq d f)) = abs_step (OpConfirm (fID f) (fSeq f)) (message_of (dmStore d))"
  using message_of_confirm [OF assms, of "fID f" "fSeq f"]
  by (simp add: got_seq_def Let_def case_prod_beta split: option.splits)

text \<open>
  C10: the life of a message. A message a person writes is filed in the cache and, when there is a link, written to it, as
  being sent; otherwise nothing is written. Either way it is in the queue that is written again, until the
  server answers with its sequence number: then it is delivered, under that number, and its text is unchanged.
\<close>

theorem send_lifecycle:
  assumes ok: "store_ok (dmStore d)" and snd: "daemon_send w d conv body = (d1, Inr m)"
    and fresh: "\<not> have_message (dmStore d) (mID m)" and now: "wNow w \<noteq> zero_time"
  shows "dmWire d1 = dmWire d @ (if dmConn d \<and> 0 < dmTakes d then [msg_frame m] else [])
    \<and> message_of (dmStore d1) (mID m) = Some (if dmConn d \<and> 0 < dmTakes d then m\<lparr>mState := StateSending\<rparr> else m)
    \<and> mConv m = conv \<and> mFrom m = iID (stSelf (dmStore d)) \<and> mID m \<in> mID ` set (queued (dmStore d1) '''')
    \<and> (\<forall>w' f. fType f = frame_seq \<and> fID f = mID m \<longrightarrow>
          message_of (dmStore (apply_frame w' d1 f)) (mID m) = Some (m\<lparr>mSeq := fSeq f, mState := StateDelivered\<rparr>))"
proof -
  let ?s = "fst (append_message (wNow w) (dmStore d) m)"
  let ?d = "emit (with_dstore d ?s) ((event_of event_message)\<lparr>evConv := conv, evMsg := Some m\<rparr>)"
  let ?up = "dmConn d \<and> 0 < dmTakes d"
  note out = daemon_send_Inr [OF snd]
  have m: "mID m \<noteq> ''''" "mConv m = conv" "mFrom m = iID (stSelf (dmStore d))" "mMine m" "mState m = StateQueued"
    using out(1) by (simp_all add: composed_def new_message_id_def zero_message_def)
  have filed: "filed_message (wNow w) m = m" using out(1) composed_filed [OF now] by simp
  have "message_of (dmStore d) (mID m) = None" using fresh have_message_of [OF ok] by blast
  then have in_s: "message_of ?s (mID m) = Some m"
    using m out(3) by (simp add: message_of_append [OF ok] abs_step_def filed)
  have ok_d: "store_ok (dmStore ?d)" by (simp add: store_ok_append_message [OF ok])
  have fields: "dmStore ?d = ?s" "dmConn ?d = dmConn d" "dmTakes ?d = dmTakes d" "dmWire ?d = dmWire d" by simp_all
  have wire: "dmWire d1 = dmWire d @ (if ?up then [msg_frame m] else [])"
    unfolding out(2) using message_of_send_message(2) [OF ok_d, of m] by simp
  have of_m: "message_of (dmStore d1) (mID m) = Some (if ?up then m\<lparr>mState := StateSending\<rparr> else m)"
    unfolding out(2) using message_of_send_message(1) [OF ok_d, of m] in_s by (simp add: abs_step_def)
  have ok1: "store_ok (dmStore d1)"
    unfolding out(2) using ok_d by (simp add: send_message_def wire_write_def path_message_of_ok)
  have "is_queued (if ?up then m\<lparr>mState := StateSending\<rparr> else m)" using m by (simp add: is_queued_def)
  from imageI [OF queued_mem [OF ok1 of_m this], of mID] have "mID m \<in> mID ` set (queued (dmStore d1) '''')"
    by (simp split: if_splits)
  moreover have "message_of (dmStore (apply_frame w' d1 f)) (mID m) = Some (m\<lparr>mSeq := fSeq f, mState := StateDelivered\<rparr>)"
    if "fType f = frame_seq \<and> fID f = mID m" for w' f
    using that of_m by (simp add: apply_frame_def frame_type_defs message_of_got_seq [OF ok1] abs_step_def)
  ultimately show ?thesis using wire of_m m by blast
qed

theorem send_lifecycle_witness:
  "\<exists>m. daemon_send dev_world dev_daemon ''room:lobby'' ''hi'' = (spoke, Inr m) \<and> message_of (dmStore spoke) (mID m) = Some m"
proof -
  have "(case snd (daemon_send dev_world dev_daemon ''room:lobby'' ''hi'') of Inl e \<Rightarrow> False
      | Inr m \<Rightarrow> \<not> have_message (dmStore dev_daemon) (mID m)) \<and> \<not> dmConn dev_daemon" by code_simp
  then obtain m where m: "daemon_send dev_world dev_daemon ''room:lobby'' ''hi'' = (spoke, Inr m)"
    "\<not> have_message (dmStore dev_daemon) (mID m)" "\<not> dmConn dev_daemon"
    unfolding spoke_def by (cases "daemon_send dev_world dev_daemon ''room:lobby'' ''hi''") (auto split: sum.splits)
  have "wNow dev_world \<noteq> zero_time" "store_ok (dmStore dev_daemon)"
    using dev_daemon_ok by (simp_all add: dev_world_def zero_time_def daemon_ok_def)
  from send_lifecycle [OF this(2) m(1,2) this(1)] m show ?thesis by auto
qed

end
