(* ===== verification/FileProperties.thy ===== *)
theory FileProperties
  imports DaemonProperties
begin

text \<open>
  A file between two clients: the frames \<open>pushFile\<close> writes are the chunks of the file in order and a done
  frame, and a receiver that takes those frames ends with the same file.
\<close>

section \<open>The frames of a file\<close>

function chunks :: "transfer \<Rightarrow> nat list \<Rightarrow> nat \<Rightarrow> frame list" where
  "chunks t bs off = (if length bs \<le> off then [done_frame t off]
     else chunk_frame t off (take chunk_size (drop off bs))
       # chunks t bs (off + length (take chunk_size (drop off bs))))"
  by pat_completeness auto
termination
  by (relation "measure (\<lambda>(t, bs, off). length bs - off)") (auto simp: chunk_size_def)

declare chunks.simps [simp del]

text \<open>\<open>pushFile\<close> to its end, which it reaches within as many iterations as there are frames.\<close>

fun push_all :: "world \<Rightarrow> nat \<Rightarrow> daemon \<Rightarrow> push \<Rightarrow> daemon \<times> push option" where
  "push_all w 0 d p = (d, Some p)"
| "push_all w (Suc n) d p = (case push_step w d p of
     (d', None) \<Rightarrow> (d', None)
   | (d', Some p') \<Rightarrow> push_all w n d' p')"

lemma chunks_length: "off \<le> length bs \<Longrightarrow> length (chunks t bs off) \<le> (length bs - off) div chunk_size + 2"
proof (induction t bs off rule: chunks.induct)
  case (1 t bs off)
  show ?case
  proof (cases "length bs = off")
    case True
    then show ?thesis by (simp add: chunks.simps)
  next
    case False
    with 1 have less: "\<not> length bs \<le> off" "off < length bs" by simp_all
    show ?thesis
    proof (cases "length bs - off \<le> chunk_size")
      case True
      with less have "off + length (take chunk_size (drop off bs)) = length bs" by simp
      with less(1) show ?thesis by (subst chunks.simps) (simp add: chunks.simps [of t bs "length bs"] del: length_take length_drop)
    next
      case False
      then have eq: "length (take chunk_size (drop off bs)) = chunk_size" "off + chunk_size \<le> length bs" by simp_all
      have "length (chunks t bs (off + chunk_size)) \<le> (length bs - (off + chunk_size)) div chunk_size + 2"
        using 1(1) [OF less(1)] eq by simp
      also have "\<dots> + 1 = (length bs - off) div chunk_size + 2"
        using False eq(2) by (simp add: div_if [of "length bs - off"] chunk_size_def diff_diff_left)
      finally show ?thesis using less(1) eq(1) by (subst chunks.simps) (simp del: length_take length_drop)
    qed
  qed
qed

section \<open>The sender\<close>

lemma emit_transfer_wire: "dmWire (emit_transfer d t) = dmWire d" "xfer_get (emit_transfer d t) i = xfer_get d i"
  by (simp_all add: xfer_get_def)

lemma push_step_chunk:
  assumes "puTransfer p = t" and "xfer_get d (tID t) = Some cur" and "tState cur = TransferRunning"
    and "file_content (dmFS d) (tPath t) = Some bs" and "dmConn d" and "0 < dmTakes d"
    and "take chunk_size (drop (puOff p) bs) = c" and "c \<noteq> []"
  shows "push_step w d p =
    (if progress_interval < wNow w - puLast p
     then (emit_transfer (d\<lparr>dmWire := dmWire d @ [chunk_frame t (puOff p) c], dmTakes := dmTakes d - 1,
        dmXfers := AList.update (tID t) (set_done (puOff p + length c) cur) (dmXfers d)\<rparr>) (set_done (puOff p + length c) cur),
        Some (p\<lparr>puOff := puOff p + length c, puLast := wNow w\<rparr>))
     else (d\<lparr>dmWire := dmWire d @ [chunk_frame t (puOff p) c], dmTakes := dmTakes d - 1,
        dmXfers := AList.update (tID t) (set_done (puOff p + length c) cur) (dmXfers d)\<rparr>,
        Some (p\<lparr>puOff := puOff p + length c\<rparr>)))"
  using assms by (simp add: push_step_def Let_def wire_write_def xfer_update_def xfer_get_def del: take_eq_Nil)

lemma push_all_frames:
  assumes "xfer_get d (tID t) = Some cur" and "tState cur = TransferRunning" and "file_content (dmFS d) (tPath t) = Some bs"
    and "dmConn d" and "length (chunks t bs (puOff p)) \<le> dmTakes d" and "length (chunks t bs (puOff p)) \<le> n"
    and "puTransfer p = t" and "puOff p \<le> length bs"
  shows "\<exists>d' cur'. push_all w n d p = (d', None) \<and> dmWire d' = dmWire d @ chunks t bs (puOff p)
    \<and> xfer_get d' (tID t) = Some cur' \<and> tState cur' = TransferDone \<and> tDone cur' = int (length bs)"
  using assms
proof (induction "length bs - puOff p" arbitrary: d p cur n rule: less_induct)
  case less
  let ?off = "puOff p"
  have n: "0 < n" "0 < dmTakes d" using less.prems(5,6) by (subst (asm) (1 2) chunks.simps, simp split: if_splits)+
  obtain k where k: "n = Suc k" using n(1) by (cases n) auto
  show ?case
  proof (cases "?off = length bs")
    case True
    then have "chunks t bs ?off = [done_frame t ?off]" by (simp add: chunks.simps)
    with True less.prems n(2) show ?thesis
      by (simp add: k push_step_def Let_def wire_write_def xfer_update_def xfer_get_def emit_transfer_def finish_push_def)
  next
    case False
    let ?c = "take chunk_size (drop ?off bs)"
    let ?d = "d\<lparr>dmWire := dmWire d @ [chunk_frame t ?off ?c], dmTakes := dmTakes d - 1,
      dmXfers := AList.update (tID t) (set_done (?off + length ?c) cur) (dmXfers d)\<rparr>"
    from False less.prems(8) have lt: "?off < length bs" by simp
    then have c: "?c \<noteq> []" by (simp add: chunk_size_def)
    have chunks: "chunks t bs ?off = chunk_frame t ?off ?c # chunks t bs (?off + length ?c)"
      using lt by (subst chunks.simps) simp
    note eq = push_step_chunk [OF less.prems(7,1-4) n(2) refl c, of w]
    obtain d' p' where step: "push_step w d p = (d', Some p')" and d': "d' = ?d \<or> (\<exists>t'. d' = emit_transfer ?d t')"
      and p': "puOff p' = ?off + length ?c" "puTransfer p' = t"
    proof (cases "progress_interval < wNow w - puLast p")
      case True
      then show ?thesis
        by (intro that [OF eq [unfolded if_P [OF True]]]) (use less.prems(7) in auto)
    next
      case False
      then show ?thesis
        by (intro that [OF eq [unfolded if_not_P [OF False]]]) (use less.prems(7) in auto)
    qed
    have fields: "dmFS d' = dmFS d" "dmConn d' = dmConn d" "dmTakes d' = dmTakes d - 1"
      "dmWire d' = dmWire d @ [chunk_frame t ?off ?c]" "xfer_get d' (tID t) = Some (set_done (?off + length ?c) cur)"
      using d' by (auto simp: xfer_get_def)
    have "\<exists>d'' cur'. push_all w k d' p' = (d'', None) \<and> dmWire d'' = dmWire d' @ chunks t bs (puOff p')
        \<and> xfer_get d'' (tID t) = Some cur' \<and> tState cur' = TransferDone \<and> tDone cur' = int (length bs)"
    proof (rule less.hyps)
      show "length bs - puOff p' < length bs - puOff p" using lt c p'(1) by (simp add: chunk_size_def)
      show "xfer_get d' (tID t) = Some (set_done (?off + length ?c) cur)" by (rule fields)
      show "tState (set_done (?off + length ?c) cur) = TransferRunning" using less.prems(2) by (simp add: set_done_def)
      show "file_content (dmFS d') (tPath t) = Some bs" "dmConn d'" using less.prems fields by simp_all
      have "Suc (length (chunks t bs (puOff p'))) = length (chunks t bs ?off)" unfolding chunks p'(1) by simp
      then show "length (chunks t bs (puOff p')) \<le> dmTakes d'" "length (chunks t bs (puOff p')) \<le> k"
        using less.prems(5,6) unfolding fields(3) k by arith+
      show "puTransfer p' = t" "puOff p' \<le> length bs" using p' lt by simp_all
    qed
    with fields(4) p'(1) chunks step show ?thesis by (simp add: k)
  qed
qed

section \<open>The receiver\<close>

definition receives :: "daemon \<Rightarrow> transfer_id \<Rightarrow> string \<Rightarrow> nat list \<Rightarrow> nat \<Rightarrow> bool" where
  "receives d i path bs off \<longleftrightarrow> (\<exists>t. xfer_get d i = Some t \<and> receiving t \<and> tID t = i \<and> tPath t = path
     \<and> tSize t = int (length bs) \<and> tDone t = int off) \<and> file_handle d i = Some path
     \<and> map_of (fsFiles (dmFS d)) path = Some (take off bs) \<and> path \<notin> set (fsNoWrite (dmFS d)) \<and> path \<notin> set (fsNoRead (dmFS d))"

lemma emit_throttled_same:
  "xfer_get (emit_throttled w d t) i = xfer_get d i" "file_handle (emit_throttled w d t) i = file_handle d i"
  "dmFS (emit_throttled w d t) = dmFS d"
  by (simp_all add: xfer_get_def file_handle_def)

lemma apply_chunk: "apply_frame w d (chunk_frame t off bs) = got_chunk w d (chunk_frame t off bs)"
  by (simp add: apply_frame_def chunk_frame_def frame_type_defs)

lemma apply_done: "apply_frame w d (done_frame t off) = got_done w d (done_frame t off)"
  by (simp add: apply_frame_def done_frame_def frame_type_defs)

lemma receives_chunk:
  assumes "receives d i path bs off" and "tID t = i" and "off \<le> length bs"
    and "c = take chunk_size (drop off bs)"
  shows "receives (got_chunk w d (chunk_frame t off c)) i path bs (off + length c)"
proof -
  obtain u where u: "xfer_get d i = Some u" "receiving u" "tID u = i" "tPath u = path"
    "tSize u = int (length bs)" "tDone u = int off" using assms(1) by (auto simp: receives_def)
  let ?d = "append_file d path c"
  have len: "off + length c \<le> length bs" using assms(3,4) by simp
  then have fits: "\<not> tSize u < tDone u + int (length c)" using u(5,6) by simp
  have at: "file_handle d i = Some path" "path \<notin> set (fsNoWrite (dmFS d))" using assms(1) by (simp_all add: receives_def)
  have step: "got_chunk w d (chunk_frame t off c)
      = emit_throttled w (?d\<lparr>dmXfers := AList.update i (add_done (length c) u) (dmXfers ?d)\<rparr>) (add_done (length c) u)"
    using u(1,2,6) fits assms(2) at
    by (simp add: got_chunk_def chunk_frame_def receiving_def xfer_update_def xfer_get_def)
  have "map_of (fsFiles (dmFS d)) path = Some (take off bs)" using assms(1) by (simp add: receives_def)
  moreover have "take off bs @ c = take (off + length c) bs"
    unfolding assms(4) take_add by (simp add: min_def)
  ultimately have fs: "map_of (fsFiles (dmFS ?d)) path = Some (take (off + length c) bs)"
    "fsNoWrite (dmFS ?d) = fsNoWrite (dmFS d)" "fsNoRead (dmFS ?d) = fsNoRead (dmFS d)"
    by (simp_all add: append_file_def)
  show ?thesis
    unfolding step receives_def emit_throttled_same
    using assms(1) u fs by (auto simp: receives_def xfer_get_def file_handle_def add_done_def receiving_def)
qed

lemma receives_done:
  assumes "receives d i path bs (length bs)" and "tID t = i"
    and "\<And>u. xfer_get d i = Some u \<Longrightarrow> tSHA256 u = '''' \<or> tSHA256 u = wSha w bs"
  shows "\<exists>u. xfer_get (got_done w d (done_frame t off)) i = Some u \<and> tState u = TransferDone \<and> tDone u = int (length bs)
    \<and> map_of (fsFiles (dmFS (got_done w d (done_frame t off)))) path = Some bs"
proof -
  obtain u where u: "xfer_get d i = Some u" "receiving u" "tID u = i" "tPath u = path"
    "tSize u = int (length bs)" using assms(1) by (auto simp: receives_def)
  have "digest_ok w (fst (take_file d i)) u"
    using assms(1) assms(3) [OF u(1)] u(4) by (auto simp: digest_ok_def file_sha256_def file_content_def receives_def)
  then have "got_done w d (done_frame t off) = system_message w
      (emit_transfer ((fst (take_file d i))\<lparr>dmXfers := AList.update i (finish_receive u) (dmXfers d)\<rparr>) (finish_receive u))
      (tConv (finish_receive u)) (''saved '' @ tName (finish_receive u) @ '' to '' @ tPath (finish_receive u))"
    using u(1,2) assms(2)
    by (simp add: got_done_def done_frame_def receiving_def xfer_get_def xfer_update_def finish_receive_def Let_def)
  then show ?thesis
    using assms(1) u by (auto simp: xfer_get_def finish_receive_def receives_def)
qed

lemma got_chunk_digest:
  assumes "xfer_get d i = Some u" and "xfer_get (got_chunk w d f) i = Some u'"
  shows "tSHA256 u' = tSHA256 u"
  using assms
  by (auto simp: got_chunk_def xfer_get_def xfer_update_def add_done_def fail_update_def emit_throttled_same
      split: option.splits if_splits prod.splits)

lemma receives_all:
  assumes "receives d i path bs off" and "tID t = i" and "off \<le> length bs"
    and "\<And>u. xfer_get d i = Some u \<Longrightarrow> tSHA256 u = '''' \<or> tSHA256 u = wSha w bs"
  shows "\<exists>u. xfer_get (foldl (apply_frame w) d (chunks t bs off)) i = Some u \<and> tState u = TransferDone
    \<and> tDone u = int (length bs) \<and> map_of (fsFiles (dmFS (foldl (apply_frame w) d (chunks t bs off)))) path = Some bs"
  using assms
proof (induction t bs off arbitrary: d rule: chunks.induct)
  case (1 t bs off)
  show ?case
  proof (cases "length bs \<le> off")
    case True
    with 1 have "off = length bs" by simp
    with 1(2,3,5) receives_done [of d i path bs t w off] show ?thesis by (simp add: chunks.simps apply_done)
  next
    case False
    let ?c = "take chunk_size (drop off bs)"
    let ?d = "got_chunk w d (chunk_frame t off ?c)"
    have r: "receives ?d i path bs (off + length ?c)" by (rule receives_chunk [OF 1(2-4) refl])
    have "\<exists>u. xfer_get (foldl (apply_frame w) ?d (chunks t bs (off + length ?c))) i = Some u \<and> tState u = TransferDone
      \<and> tDone u = int (length bs) \<and> map_of (fsFiles (dmFS (foldl (apply_frame w) ?d (chunks t bs (off + length ?c))))) path = Some bs"
    proof (rule 1(1) [OF False r 1(3)])
      show "off + length ?c \<le> length bs" using 1(4) by simp
      show "tSHA256 u = '''' \<or> tSHA256 u = wSha w bs" if "xfer_get ?d i = Some u" for u
        using 1(2,5) got_chunk_digest [OF _ that] by (auto simp: receives_def)
    qed
    then show ?thesis
      by (subst (1 2) chunks.simps) (use False in \<open>simp only: if_False foldl_Cons apply_chunk\<close>)
  qed
qed

lemma unique_path_new:
  assumes "unique_path fs dir (safe_base_name name) = Inr (path, fs')"
  shows "\<not> fs_exists fs path" "fs' = fs\<lparr>fsFiles := AList.update path [] (fsFiles fs)\<rparr>"
    "\<exists>j. path = unique_candidate dir (safe_base_name name) j"
proof -
  have "unique_loop 999 fs dir (safe_base_name name) 1 = Inr (path, fs')"
    using assms by (simp add: unique_path_def split: if_splits)
  from unique_loop_fresh [OF this] show "\<not> fs_exists fs path" "fs' = fs\<lparr>fsFiles := AList.update path [] (fsFiles fs)\<rparr>"
    "\<exists>j. path = unique_candidate dir (safe_base_name name) j" by auto
qed

text \<open>What accepting leaves: a file that was not there before, empty and open, and a running transfer.\<close>

lemma accept_receives:
  assumes "daemon_accept w b i = (b', None)" and "xfer_get b i = Some u" and "tID u = i" and "fsNoRead (dmFS b) = []"
    and "tSize u = int (length bs)"
  shows "\<exists>path. receives b' i path bs 0 \<and> \<not> fs_exists (dmFS b) path
    \<and> (\<exists>j. path = unique_candidate (wDownload w) (safe_base_name (tName u)) j)
    \<and> (\<forall>u'. xfer_get b' i = Some u' \<longrightarrow> tSHA256 u' = tSHA256 u \<and> tPath u' = path)"
proof -
  have inc: "tIncoming u" "tState u = TransferIncoming"
    using assms(1,2) by (auto simp: daemon_accept_def split: if_splits)
  obtain path fs' where up: "unique_path (dmFS b) (wDownload w) (safe_base_name (tName u)) = Inr (path, fs')"
    and writes: "path \<notin> set (fsNoWrite fs')"
    using assms(1,2) inc by (auto simp: daemon_accept_def Let_def split: sum.splits prod.splits if_splits)
  note new = unique_path_new [OF up]
  let ?d = "(open_file (b\<lparr>dmFS := fs'\<rparr>) i path)\<lparr>dmXfers := AList.update i (run_update path u) (dmXfers b)\<rparr>"
  have "b' = fst (wire_write (emit_transfer ?d (run_update path u)) (accept_frame ((run_update path u)\<lparr>tID := i\<rparr>)))"
    using assms(1,2) inc up writes
    by (auto simp: daemon_accept_def Let_def xfer_update_def xfer_get_def split: prod.splits bool.splits)
  then have "dmXfers b' = AList.update i (run_update path u) (dmXfers b)" "dmOpen b' = AList.update i path (dmOpen b)" "dmFS b' = fs'"
    by (simp_all add: open_file_def)
  with assms(3-5) inc new writes show ?thesis
    by (intro exI [of _ path])
       (auto simp: receives_def xfer_get_def file_handle_def receiving_def run_update_def fs_exists_def)
qed

text \<open>
  C5: a file arrives whole. A sender whose offer is accepted reads the file to its end and ends with the transfer done; the
  frames it writes, handed to a receiver that accepted the offer, leave the whole file there, byte for byte and no
  other, under a name that was free, and the transfer done. The sender takes as many iterations, and frames,
  as the file has chunks and at most two more.
\<close>

theorem file_arrives:
  assumes sender: "xfer_get a i = Some t" "tID t = i" "\<not> tIncoming t" "tState t = TransferOffered"
      "file_content (dmFS a) (tPath t) = Some bs" "dmConn a" "length bs div chunk_size + 2 \<le> dmTakes a" "dmPush a = []"
    and receiver: "xfer_get b i = Some u" "tID u = i" "tSize u = int (length bs)" "fsNoRead (dmFS b) = []"
      "tSHA256 u = '''' \<or> tSHA256 u = wSha w bs"
    and accepted: "daemon_accept w' b i = (b', None)" "fTransfer f = i"
  shows "\<exists>p a' cur fs v. dmPush (got_accept w'' a f) = [p]
    \<and> push_all w'' (length bs div chunk_size + 2) (got_accept w'' a f) p = (a', None)
    \<and> dmWire a' = dmWire a @ fs \<and> xfer_get a' i = Some cur \<and> tState cur = TransferDone \<and> tDone cur = int (length bs)
    \<and> xfer_get (foldl (apply_frame w) b' fs) i = Some v \<and> tState v = TransferDone
    \<and> (\<exists>path. map_of (fsFiles (dmFS (foldl (apply_frame w) b' fs))) path = Some bs \<and> \<not> fs_exists (dmFS b) path)"
proof -
  let ?t = "set_xfer_state TransferRunning t" and ?p = "\<lparr>puTransfer = set_xfer_state TransferRunning t, puOff = 0, puLast = wNow w''\<rparr>"
  let ?a = "got_accept w'' a f"
  have t: "tID ?t = i" "tPath ?t = tPath t" "tState ?t = TransferRunning" using sender(2) by (simp_all add: set_xfer_state_def)
  have fields: "dmPush ?a = [?p]" "xfer_get ?a i = Some ?t" "dmFS ?a = dmFS a" "dmConn ?a = dmConn a"
      "dmTakes ?a = dmTakes a" "dmWire ?a = dmWire a"
    using sender accepted(2) t by (simp_all add: got_accept_def start_push_def xfer_update_def xfer_get_def)
  have len: "length (chunks ?t bs 0) \<le> length bs div chunk_size + 2" using chunks_length [of 0 bs ?t] by simp
  obtain a' cur where push: "push_all w'' (length bs div chunk_size + 2) ?a ?p = (a', None)" "dmWire a' = dmWire a @ chunks ?t bs 0"
      "xfer_get a' i = Some cur" "tState cur = TransferDone" "tDone cur = int (length bs)"
    using push_all_frames [of ?a ?t ?t bs ?p "length bs div chunk_size + 2" w''] fields t sender(5,6,7) len by auto
  obtain path where path: "receives b' i path bs 0" "\<not> fs_exists (dmFS b) path"
      "\<And>u'. xfer_get b' i = Some u' \<Longrightarrow> tSHA256 u' = tSHA256 u"
    using accept_receives [OF accepted(1) receiver(1,2,4,3)] by auto
  obtain v where "xfer_get (foldl (apply_frame w) b' (chunks ?t bs 0)) i = Some v" "tState v = TransferDone"
      "map_of (fsFiles (dmFS (foldl (apply_frame w) b' (chunks ?t bs 0)))) path = Some bs"
    using receives_all [OF path(1) t(1), of w] path(3) receiver(5) by auto
  with push path(2) fields(1) show ?thesis by blast
qed

definition demo_out :: transfer where
  "demo_out = (new_transfer (\<lambda>e. '''') 1 ''x'' (direct_conv dev_id) dev_id ''f.txt'' 3 False TransferOffered)\<lparr>tPath := ''/f.txt''\<rparr>"

definition demo_in :: transfer where
  "demo_in = new_transfer (\<lambda>e. '''') 1 ''x'' (direct_conv dev_id) dev_id ''f.txt'' 3 True TransferIncoming"

definition pusher :: daemon where
  "pusher = dev_daemon\<lparr>dmConn := True, dmTakes := 4, dmFS := dev_fs\<lparr>fsFiles := [(''/f.txt'', [1, 2, 3])]\<rparr>, dmXfers := [(''x'', demo_out)]\<rparr>"

definition taker :: daemon where
  "taker = dev_daemon\<lparr>dmConn := True, dmTakes := 4, dmXfers := [(''x'', demo_in)]\<rparr>"

definition taken :: "daemon \<times> transfer_error option \<Rightarrow> bool" where
  "taken r \<longleftrightarrow> snd r = None"

lemma taker_accepts: "taken (daemon_accept dev_world taker ''x'')"
  by code_simp

theorem file_arrives_witness:
  "\<exists>p a' cur. push_all dev_world 2 (got_accept dev_world pusher (zero_frame\<lparr>fType := frame_accept, fTransfer := ''x''\<rparr>)) p = (a', None)
     \<and> xfer_get a' ''x'' = Some cur \<and> tState cur = TransferDone"
proof -
  let ?f = "zero_frame\<lparr>fType := frame_accept, fTransfer := ''x''\<rparr>" and ?bs = "[1, 2, 3 :: nat]"
  have acc: "daemon_accept dev_world taker ''x'' = (fst (daemon_accept dev_world taker ''x''), None)"
    using taker_accepts by (simp add: taken_def prod_eq_iff)
  have bs: "length ?bs div chunk_size + 2 = 2" by (simp add: chunk_size_def)
  have sender: "xfer_get pusher ''x'' = Some demo_out" "tID demo_out = ''x''" "\<not> tIncoming demo_out" "tState demo_out = TransferOffered"
      "file_content (dmFS pusher) (tPath demo_out) = Some ?bs" "dmConn pusher" "length ?bs div chunk_size + 2 \<le> dmTakes pusher" "dmPush pusher = []"
    by (simp_all add: pusher_def demo_out_def new_transfer_def file_content_def dev_fs_def xfer_get_def chunk_size_def
        dev_daemon_def new_daemon_def)
  have receiver: "xfer_get taker ''x'' = Some demo_in" "tID demo_in = ''x''" "tSize demo_in = int (length ?bs)" "fsNoRead (dmFS taker) = []"
      "tSHA256 demo_in = '''' \<or> tSHA256 demo_in = wSha dev_world ?bs"
    by (simp_all add: taker_def demo_in_def new_transfer_def dev_fs_def xfer_get_def dev_daemon_def new_daemon_def)
  have "fTransfer ?f = ''x''" by simp
  from file_arrives [OF sender receiver acc this, of dev_world] show ?thesis unfolding bs by blast
qed

text \<open>
  C18: nobody sends more than they offered. Whatever chunk arrives, a file changes only if it is the one open for
  that transfer, which this client accepted and is running; it gains exactly the chunk's bytes at its end, where the
  transfer stands, and no more than what was offered; the transfer's count moves by as much. Anything else is not written.
\<close>

theorem chunk_bounded:
  "map_of (fsFiles (dmFS (got_chunk w d f))) p = map_of (fsFiles (dmFS d)) p
   \<or> (\<exists>t old. xfer_get d (fTransfer f) = Some t \<and> receiving t \<and> file_handle d (fTransfer f) = Some p
        \<and> fOffset f = tDone t \<and> tDone t + int (length (fData f)) \<le> tSize t
        \<and> map_of (fsFiles (dmFS d)) p = Some old \<and> map_of (fsFiles (dmFS (got_chunk w d f))) p = Some (old @ fData f)
        \<and> xfer_get (got_chunk w d f) (fTransfer f) = Some (add_done (length (fData f)) t))"
proof (cases "xfer_get d (fTransfer f)")
  case None
  then show ?thesis by (simp add: got_chunk_def)
next
  case (Some t)
  show ?thesis
  proof (cases "receiving t \<and> (\<exists>q. file_handle d (fTransfer f) = Some q \<and> q \<notin> set (fsNoWrite (dmFS d)))
      \<and> fOffset f = tDone t \<and> tDone t + int (length (fData f)) \<le> tSize t")
    case True
    then obtain q where q: "file_handle d (fTransfer f) = Some q" "q \<notin> set (fsNoWrite (dmFS d))" by blast
    let ?d = "append_file d q (fData f)"
    have step: "got_chunk w d f = emit_throttled w
        (?d\<lparr>dmXfers := AList.update (fTransfer f) (add_done (length (fData f)) t) (dmXfers ?d)\<rparr>) (add_done (length (fData f)) t)"
      using True Some q by (simp add: got_chunk_def receiving_def xfer_update_def xfer_get_def)
    have "xfer_get (got_chunk w d f) (fTransfer f) = Some (add_done (length (fData f)) t)"
      unfolding step emit_throttled_same by (simp add: xfer_get_def)
    moreover have "dmFS (got_chunk w d f) = dmFS ?d" unfolding step emit_throttled_same by simp
    ultimately show ?thesis
      using True Some q by (cases "map_of (fsFiles (dmFS d)) q"; cases "p = q") (simp_all add: append_file_def)
  next
    case False
    then have "dmFS (got_chunk w d f) = dmFS d"
      using Some by (auto simp: got_chunk_def receiving_def split: option.splits)
    then show ?thesis by simp
  qed
qed

section \<open>The push ends\<close>

lemma push_step_fs: "dmFS (fst (push_step w d p)) = dmFS d"
  by (simp add: push_step_def Let_def case_prod_beta split: option.splits bool.splits)

lemma failed_not_running:
  "xfer_get (fst (fail_transfer d i why)) i = Some cur \<Longrightarrow> tState cur \<noteq> TransferRunning"
  by (auto simp: xfer_get_def fail_update_def split: option.splits)

lemma push_step_ended:
  assumes "push_step w d p = (d', None)" and "xfer_get d' (tID (puTransfer p)) = Some cur"
  shows "tState cur \<noteq> TransferRunning"
  using assms failed_not_running
  by (auto simp: push_step_def Let_def case_prod_beta xfer_update_def finish_push_def emit_transfer_wire wire_write_frame
      split: option.splits if_splits bool.splits) (auto simp: xfer_get_def finish_push_def)

lemma push_step_file:
  "push_step w d p = (d', Some p') \<Longrightarrow> \<exists>bs. file_content (dmFS d) (tPath (puTransfer p)) = Some bs"
  by (cases "file_content (dmFS d) (tPath (puTransfer p))") (auto simp: push_step_def Let_def split: option.splits if_splits)

lemma push_step_goes_on:
  assumes "push_step w d p = (d', Some p')" and "file_content (dmFS d) (tPath (puTransfer p)) = Some bs"
  shows "puTransfer p' = puTransfer p" and "puOff p' = puOff p + min chunk_size (length bs - puOff p)" and "puOff p < length bs"
  using assms by (auto simp: push_step_def Let_def case_prod_beta chunk_size_def min.commute split: option.splits if_splits bool.splits)

lemma push_all_ends:
  "(case file_content (dmFS d) (tPath (puTransfer p)) of None \<Rightarrow> 0
      | Some bs \<Rightarrow> (length bs - puOff p + chunk_size - 1) div chunk_size) < n \<Longrightarrow>
   \<exists>d'. push_all w n d p = (d', None) \<and> (\<forall>cur. xfer_get d' (tID (puTransfer p)) = Some cur \<longrightarrow> tState cur \<noteq> TransferRunning)"
proof (induction n arbitrary: d p)
  case (Suc n)
  obtain d1 r where step: "push_step w d p = (d1, r)" by (cases "push_step w d p")
  show ?case
  proof (cases r)
    case None
    with step push_step_ended [of w d p d1] show ?thesis by simp
  next
    case (Some p1)
    then have s: "push_step w d p = (d1, Some p1)" using step by simp
    then obtain bs where bs: "file_content (dmFS d) (tPath (puTransfer p)) = Some bs" using push_step_file by blast
    note on = push_step_goes_on [OF s bs]
    have "dmFS d1 = dmFS d" using push_step_fs [of w d p] s by simp
    then have bs1: "file_content (dmFS d1) (tPath (puTransfer p1)) = Some bs" using bs on(1) by simp
    have "(length bs - puOff p1 + chunk_size - 1) div chunk_size < n"
    proof (cases "chunk_size \<le> length bs - puOff p")
      case True
      then have "length bs - puOff p + chunk_size - 1 = (length bs - puOff p1 + chunk_size - 1) + chunk_size"
        using on(2) by (simp add: chunk_size_def)
      then have "(length bs - puOff p + chunk_size - 1) div chunk_size = Suc ((length bs - puOff p1 + chunk_size - 1) div chunk_size)"
        by (simp only: div_add_self2) (simp add: chunk_size_def)
      with Suc.prems bs show ?thesis by simp
    next
      case False
      then have "length bs - puOff p1 = 0" using on(2) by simp
      moreover have "0 < (length bs - puOff p + chunk_size - 1) div chunk_size"
        using on(3) by (simp add: div_greater_zero_iff chunk_size_def)
      ultimately show ?thesis using Suc.prems bs by (simp add: chunk_size_def)
    qed
    with Suc.IH [of p1 d1] bs1 on(1) show ?thesis by (simp add: s)
  qed
qed simp

text \<open>
  C33: a push ends. In whatever state the daemon is, whatever the table says and the link does, the loop that reads a
  file and sends it returns after at most as many iterations as the file has chunks and two more, and does not
  leave its transfer running.
\<close>

theorem push_ends:
  "\<exists>d'. push_all w (length (case file_content (dmFS d) (tPath (puTransfer p)) of None \<Rightarrow> [] | Some bs \<Rightarrow> bs) div chunk_size + 2) d p = (d', None)
    \<and> \<not> (\<exists>cur. xfer_get d' (tID (puTransfer p)) = Some cur \<and> tState cur = TransferRunning)"
proof -
  have "(l - x + chunk_size - 1) div chunk_size \<le> (l + chunk_size) div chunk_size" for l x by (rule div_le_mono) simp
  then have "(l - x + chunk_size - 1) div chunk_size < l div chunk_size + 2" for l x
    by (metis div_add_self2 chunk_size_def le_imp_less_Suc add_2_eq_Suc' Suc_eq_plus1 numeral_eq_Suc zero_neq_numeral)
  then have few: "(case file_content (dmFS d) (tPath (puTransfer p)) of None \<Rightarrow> 0
      | Some bs \<Rightarrow> (length bs - puOff p + chunk_size - 1) div chunk_size)
      < length (case file_content (dmFS d) (tPath (puTransfer p)) of None \<Rightarrow> [] | Some bs \<Rightarrow> bs) div chunk_size + 2"
    by (simp split: option.splits)
  from push_all_ends [OF few] show ?thesis by auto
qed

section \<open>Accepting a file\<close>

text \<open>
  C32: what accepting can come to. A transfer that is not there, not incoming or not waiting is refused and nothing
  changes; so it is when there is no free name or the file cannot be made; otherwise a new file of a safe name in
  the download directory is open and the transfer runs, or the link is gone, the handle is closed and
  the transfer has failed.
\<close>

theorem accept_outcomes:
  assumes "table d"
  shows "case daemon_accept w d i of
      (d', Some NoSuchTransfer) \<Rightarrow> d' = d \<and> xfer_get d i = None
    | (d', Some (NotAcceptable st)) \<Rightarrow> d' = d \<and> (\<exists>t. xfer_get d i = Some t \<and> tState t = st \<and> (\<not> tIncoming t \<or> st \<noteq> TransferIncoming))
    | (d', Some (NoPath e)) \<Rightarrow> d' = d \<and> unique_path (dmFS d) (wDownload w) (safe_base_name (tName (the (xfer_get d i)))) = Inl e
    | (d', Some OpenFailed) \<Rightarrow> dmXfers d' = dmXfers d \<and> dmOpen d' = dmOpen d \<and> dmWire d' = dmWire d
    | (d', Some (TransferFailedWith why)) \<Rightarrow> file_handle d' i = None \<and> (\<exists>t. xfer_get d' i = Some t \<and> tState t = TransferFailed \<and> tError t = why)
        \<and> \<not> (dmConn d \<and> 0 < dmTakes d)
    | (d', None) \<Rightarrow> (\<exists>t path j. xfer_get d' i = Some t \<and> receiving t \<and> tPath t = path \<and> file_handle d' i = Some path \<and> tDone t = 0
        \<and> path = unique_candidate (wDownload w) (safe_base_name (tName t)) j \<and> safe_name (safe_base_name (tName t))
        \<and> \<not> fs_exists (dmFS d) path \<and> map_of (fsFiles (dmFS d')) path = Some [])
    | _ \<Rightarrow> False"
proof (cases "xfer_get d i")
  case None
  then show ?thesis by (simp add: daemon_accept_def)
next
  case (Some t)
  have id: "tID t = i" using assms Some by (simp add: table_def table_okD(2) xfer_get_def)
  show ?thesis
  proof (cases "tIncoming t \<and> tState t = TransferIncoming")
    case False
    then show ?thesis using Some by (auto simp: daemon_accept_def)
  next
    case inc: True
    show ?thesis
    proof (cases "unique_path (dmFS d) (wDownload w) (safe_base_name (tName t))")
      case (Inl e)
      with Some inc show ?thesis by (simp add: daemon_accept_def)
    next
      case (Inr pf)
      obtain path fs' where up: "unique_path (dmFS d) (wDownload w) (safe_base_name (tName t)) = Inr (path, fs')" using Inr by (cases pf) simp
      note new = unique_path_new [OF up]
      let ?d = "(open_file (d\<lparr>dmFS := fs'\<rparr>) i path)\<lparr>dmXfers := AList.update i (run_update path t) (dmXfers d)\<rparr>"
      let ?e = "emit_transfer ?d (run_update path t)"
      let ?f = "accept_frame ((run_update path t)\<lparr>tID := i\<rparr>)"
      have upd: "xfer_update (open_file (d\<lparr>dmFS := fs'\<rparr>) i path) i (run_update path) = (?d, Some (run_update path t))"
        using Some by (simp add: xfer_update_def xfer_get_def)
      have acc: "daemon_accept w d i = (if path \<in> set (fsNoWrite fs') then (d\<lparr>dmFS := fs'\<rparr>, Some OpenFailed)
          else (case wire_write ?e ?f of (d3, True) \<Rightarrow> (d3, None)
           | (d3, False) \<Rightarrow> (case fail_transfer d3 i ''the server connection dropped'' of (d4, _, e) \<Rightarrow> (d4, Some e))))"
        using Some inc by (simp add: daemon_accept_def up upd Let_def)
      show ?thesis
      proof (cases "path \<in> set (fsNoWrite fs')")
        case True
        then show ?thesis unfolding acc by simp
      next
        case False
        show ?thesis
        proof (cases "dmConn d \<and> 0 < dmTakes d")
          case True
          then have "wire_write ?e ?f = (fst (wire_write ?e ?f), True)" by (simp add: wire_write_def open_file_def)
          with False have acc': "daemon_accept w d i = (fst (wire_write ?e ?f), None)"
            unfolding acc by (cases "wire_write ?e ?f") simp
          have "xfer_get (fst (wire_write ?e ?f)) i = Some (run_update path t)" "file_handle (fst (wire_write ?e ?f)) i = Some path"
            "dmFS (fst (wire_write ?e ?f)) = fs'"
            by (simp_all add: xfer_get_def file_handle_def open_file_def)
          with acc' inc new safe_name_safe_base_name show ?thesis by (auto simp: receiving_def run_update_def)
        next
          case gone: False
          then have "wire_write ?e ?f = (?e, False)" by (auto simp: wire_write_def open_file_def)
          with False have acc': "daemon_accept w d i = (fst (fail_transfer ?e i ''the server connection dropped''),
              Some (snd (snd (fail_transfer ?e i ''the server connection dropped''))))"
            unfolding acc by (simp add: case_prod_beta)
          have "snd (snd (fail_transfer ?e i ''the server connection dropped'')) = TransferFailedWith ''the server connection dropped''"
            by (simp add: fail_transfer_def xfer_update_def take_file_def)
          with gone acc' show ?thesis by (simp add: xfer_get_def file_handle_def fail_update_def)
        qed
      qed
    qed
  qed
qed

lemma safe_name_f: "safe_name ''f.txt''"
  by code_simp

theorem accept_outcomes_witness:
  "\<exists>t path. xfer_get (fst (daemon_accept dev_world taker ''x'')) ''x'' = Some t \<and> receiving t \<and> tPath t = path \<and> \<not> fs_exists (dmFS taker) path"
proof -
  have "table taker" by (simp add: taker_def table_def table_ok_def transfer_ok_def demo_in_def new_transfer_def dev_daemon_def
      new_daemon_def receiving_def safe_name_f max_transfer_bytes_def map_ok_def)
  from accept_outcomes [OF this, where w = dev_world and i = "''x''"] taker_accepts show ?thesis
    by (cases "daemon_accept dev_world taker ''x''") (auto simp: taken_def)
qed

end
