(* ===== verification/RpcProperties.thy ===== *)
theory RpcProperties
  imports DaemonProperties
begin

text \<open>
  The properties of the front-end interface of the client daemon: the shape of its answers, one answer per
  request, and every event to every front end.
\<close>

section \<open>What a call answers\<close>

text \<open>The result each method promises, and whether a request's parameters were decoded.\<close>

fun result_fits :: "rpc_call \<Rightarrow> rpc_result \<Rightarrow> bool" where
  "result_fits Ping v = (case v of Pong _ \<Rightarrow> True | _ \<Rightarrow> False)"
| "result_fits StatusGet v = (case v of StatusIs _ \<Rightarrow> True | _ \<Rightarrow> False)"
| "result_fits IdentityGet v = (case v of IdentityIs _ \<Rightarrow> True | _ \<Rightarrow> False)"
| "result_fits (IdentitySet _) v = (case v of IdentityIs _ \<Rightarrow> True | _ \<Rightarrow> False)"
| "result_fits (PresenceSet _) v = (case v of IdentityIs _ \<Rightarrow> True | _ \<Rightarrow> False)"
| "result_fits PeersList v = (case v of PeersAre _ \<Rightarrow> True | _ \<Rightarrow> False)"
| "result_fits (ConvGet _) v = (case v of ViewIs _ \<Rightarrow> True | _ \<Rightarrow> False)"
| "result_fits (MessagesList _) v = (case v of MessagesAre _ \<Rightarrow> True | _ \<Rightarrow> False)"
| "result_fits (MessagesSend _) v = (case v of MessageIs _ \<Rightarrow> True | _ \<Rightarrow> False)"
| "result_fits (MessagesRead _) v = (case v of CountIs n \<Rightarrow> 0 \<le> n | _ \<Rightarrow> False)"
| "result_fits (FilesOffer _) v = (case v of TransferIs _ \<Rightarrow> True | _ \<Rightarrow> False)"
| "result_fits FilesList v = (case v of TransfersAre _ \<Rightarrow> True | _ \<Rightarrow> False)"
| "result_fits NotifyGet v = (case v of PrefsAre _ \<Rightarrow> True | _ \<Rightarrow> False)"
| "result_fits (NotifySet _) v = (case v of PrefsAre _ \<Rightarrow> True | _ \<Rightarrow> False)"
| "result_fits (UnknownMethod _) v = False"
| "result_fits c v = (if c = ConvList \<or> c = RoomsList then (case v of ConvsAre _ \<Rightarrow> True | _ \<Rightarrow> False)
     else (case v of OkIs _ _ \<Rightarrow> True | _ \<Rightarrow> False))"

definition undecoded :: "string + 'a \<Rightarrow> bool" where
  "undecoded p \<longleftrightarrow> (case p of Inl _ \<Rightarrow> True | Inr _ \<Rightarrow> False)"

fun params_bad :: "rpc_call \<Rightarrow> bool" where
  "params_bad (IdentitySet p) = undecoded p"
| "params_bad (PresenceSet p) = undecoded p"
| "params_bad (PeersBlock p) = undecoded p"
| "params_bad (ConvGet p) = undecoded p"
| "params_bad (MessagesList p) = undecoded p"
| "params_bad (MessagesSend p) = undecoded p"
| "params_bad (MessagesRead p) = undecoded p"
| "params_bad (TypingSet p) = undecoded p"
| "params_bad (RoomsJoin p) = undecoded p"
| "params_bad (RoomsLeave p) = undecoded p"
| "params_bad (FilesOffer p) = undecoded p"
| "params_bad (FilesAccept p) = undecoded p"
| "params_bad (FilesDecline p) = undecoded p"
| "params_bad (NotifySet p) = undecoded p"
| "params_bad _ = False"

definition is_unknown :: "rpc_call \<Rightarrow> bool" where
  "is_unknown c \<longleftrightarrow> (case c of UnknownMethod _ \<Rightarrow> True | _ \<Rightarrow> False)"

definition answer_fits :: "rpc_call \<Rightarrow> rpc_response \<Rightarrow> bool" where
  "answer_fits c resp \<longleftrightarrow> (case resp of
      Inr v \<Rightarrow> result_fits c v \<and> \<not> params_bad c \<and> \<not> is_unknown c
    | Inl (code, why) \<Rightarrow> (if is_unknown c then code = err_no_method
        else if params_bad c then code = err_bad_params else code = err_app))"

lemmas answer_cases = answer_fits_def undecoded_def is_unknown_def fail_app_def

lemma answers:
  "answer_fits (IdentitySet (Inr i)) (snd (identity_set w r i))"
  "answer_fits (PresenceSet (Inr p)) (snd (presence_set w r p))"
  "answer_fits (PeersBlock (Inr (pi, b))) (snd (peers_block r pi b))"
  "answer_fits (ConvGet (Inr conv)) (snd (conv_get w r conv))"
  "answer_fits (MessagesSend (Inr (conv, body))) (snd (messages_send w r conv body))"
  "answer_fits (RoomsJoin (Inr name)) (snd (rooms_join w r name))"
  "answer_fits (RoomsLeave (Inr name)) (snd (rooms_leave w r name))"
  "answer_fits (FilesOffer (Inr (conv, path))) (snd (files_offer w r conv path))"
  "answer_fits (FilesAccept (Inr ti)) (snd (files_answer r de))"
  "answer_fits (FilesDecline (Inr (ti, reason))) (snd (files_answer r de))"
  "answer_fits (NotifySet (Inr np)) (snd (notify_set r np))"
  by (auto simp: answer_cases identity_set_def presence_set_def peers_block_def conv_get_def messages_send_def
      rooms_join_def rooms_leave_def files_offer_def files_answer_def notify_set_def
      split: prod.splits option.splits sum.splits bool.splits)

lemma dispatch_answers:
  assumes "store_ok (dstore r)"
  shows "answer_fits c (snd (dispatch w r c))"
proof (cases c)
  case (MessagesRead p)
  have "0 \<le> snd (mark_read (dstore r) conv)" for conv
    using store_okD(8) [OF assms, of conv] by (simp add: mark_read_def Let_def)
  then show ?thesis
    using MessagesRead by (auto simp: dispatch_def decoded_def bad_params_def answer_cases messages_read_def
        case_prod_beta split: sum.splits)
qed (auto simp: dispatch_def decoded_def bad_params_def answers split: sum.splits, auto simp: answer_cases)


definition dev_rpc :: rpc where
  "dev_rpc = accept_front_end True (accept_front_end True (new_rpc dev_daemon '''' ''chat.sock'') 1) 2"

lemma dev_rpc_store: "store_ok (dstore dev_rpc)"
  using dev_daemon_ok by (simp add: dev_rpc_def accept_front_end_def new_rpc_def dstore_def on_event_def daemon_ok_def)


section \<open>One answer per request, every event to everyone\<close>

definition is_reply :: "nat \<times> rpc_out \<Rightarrow> bool" where
  "is_reply o1 \<longleftrightarrow> (case snd o1 of Reply _ _ \<Rightarrow> True | Notify _ \<Rightarrow> False)"

definition replies :: "rpc \<Rightarrow> (nat \<times> rpc_out) list" where
  "replies r = filter is_reply (rpOut r)"

definition told :: "rpc \<Rightarrow> nat \<Rightarrow> rpc_out list" where
  "told r c = map snd (filter (\<lambda>o1. fst o1 = c \<and> \<not> is_reply o1) (rpOut r))"

lemma broadcast_fields [simp]:
  "rpDaemon (broadcast r ev) = rpDaemon r" "rpStuck (broadcast r ev) = rpStuck r" "rpVersion (broadcast r ev) = rpVersion r"
  "replies (broadcast r ev) = replies r" "reads_on (broadcast r ev) = reads_on r"
  by (auto simp: broadcast_def replies_def is_reply_def reads_on_def fun_eq_iff filter_empty_conv)

lemma broadcasts_fields [simp]:
  "rpDaemon (foldl broadcast r evs) = rpDaemon r" "rpStuck (foldl broadcast r evs) = rpStuck r"
  "replies (foldl broadcast r evs) = replies r" "reads_on (foldl broadcast r evs) = reads_on r"
  by (induction evs arbitrary: r) simp_all

lemma daemon_field [simp]: "replies (r\<lparr>rpDaemon := d\<rparr>) = replies r" "reads_on (r\<lparr>rpDaemon := d\<rparr>) = reads_on r"
  by (simp_all add: replies_def reads_on_def fun_eq_iff)

lemma with_daemon_fields [simp]:
  "replies (with_daemon r d) = replies r" "reads_on (with_daemon r d) = reads_on r" "rpDaemon (with_daemon r d) = d"
  "replies (with_rstore r s) = replies r" "reads_on (with_rstore r s) = reads_on r"
  by (simp_all add: with_daemon_def with_rstore_def)

lemma replies_dispatch [simp]: "replies (fst (dispatch w r c)) = replies r"
  by (cases c)
    (simp_all add: dispatch_def decoded_def bad_params_def identity_set_def presence_set_def peers_block_def conv_get_def
      messages_send_def messages_read_def rooms_join_def rooms_leave_def files_offer_def files_answer_def notify_set_def
      fail_app_def case_prod_beta split: sum.splits option.splits bool.splits)

lemma reads_on_dispatch [simp]: "reads_on (fst (dispatch w r c)) = reads_on r"
  by (cases c)
    (simp_all add: dispatch_def decoded_def bad_params_def identity_set_def presence_set_def peers_block_def conv_get_def
      messages_send_def messages_read_def rooms_join_def rooms_leave_def files_offer_def files_answer_def notify_set_def
      fail_app_def case_prod_beta split: sum.splits option.splits bool.splits)

text \<open>
  C21: one answer to each request. To a front end that reads, a request with an id is answered exactly once, with that id and
  what dispatching gives; a request without one and an empty line not at all; a line that is not a request
  with a parse error and no id. Nobody else is answered anything.
\<close>

theorem one_reply:
  assumes "reads_on r c"
  shows "replies (handle_line w r c l) = replies r @ (case l of EmptyLine \<Rightarrow> []
      | NotARequest e \<Rightarrow> [(c, Reply None (Inl (err_parse, Because e)))]
      | RequestLine None rc \<Rightarrow> []
      | RequestLine (Some i) rc \<Rightarrow> [(c, Reply (Some i) (snd (dispatch w r rc)))])"
proof (cases l)
  case (RequestLine i rc)
  have "replies (reply r' c i resp) = replies r' @ [(c, Reply i resp)]" if "reads_on r' c" for r' i resp
    using that by (simp add: reply_def replies_def is_reply_def)
  then show ?thesis
    using RequestLine assms by (simp add: handle_line_def case_prod_beta split: option.splits)
qed (use assms in \<open>simp_all add: handle_line_def replies_def is_reply_def\<close>)

theorem one_reply_witness:
  "replies (handle_line dev_world dev_rpc 1 (RequestLine (Some ''7'') Ping)) = [(1, Reply (Some ''7'') (Inr (Pong ''0.2.0'')))]"
proof -
  have "reads_on dev_rpc 1" "replies dev_rpc = []" "snd (dispatch dev_world dev_rpc Ping) = Inr (Pong ''0.2.0'')"
    by (simp_all add: dev_rpc_def accept_front_end_def new_rpc_def reads_on_def replies_def dispatch_def)
  with one_reply [of dev_rpc 1 dev_world "RequestLine (Some ''7'') Ping"] show ?thesis by simp
qed

lemma filter_one: "distinct ks \<Longrightarrow> c \<in> set ks \<Longrightarrow> filter (\<lambda>k. P k \<and> c = k) ks = (if P c then [c] else [])"
  by (induction ks) (auto simp: filter_empty_conv)

text \<open>
  Every event reaches every front end. When the daemon has taken a step, each connected front end that reads has been
  sent the events of that step, all of them, in order and once, and stays connected; one that has stopped reading
  is dropped once there is an event, and the others do not wait for it.
\<close>

theorem events_fan_out:
  assumes "distinct (rpConns r)" and "c \<in> set (rpConns r)" and "dmEvents d' = dmEvents (rpDaemon r) @ evs"
  shows "told (with_daemon r d') c = told r c @ (if reads_on r c then map Notify evs else [])
    \<and> (c \<in> set (rpConns (with_daemon r d')) \<longleftrightarrow> reads_on r c \<or> evs = [])"
proof -
  have one: "told (broadcast x ev) c = told x c @ (if reads_on x c then [Notify ev] else [])"
    if "distinct (rpConns x)" "c \<in> set (rpConns x)" for x ev
  proof -
    have "filter (\<lambda>o1. fst o1 = c \<and> \<not> is_reply o1) (map (\<lambda>k. (k, Notify ev)) ks) = map (\<lambda>k. (k, Notify ev)) (filter ((=) c) ks)" for ks
      by (induction ks) (auto simp: is_reply_def)
    moreover have "filter ((=) c) (filter (reads_on x) (rpConns x)) = (if reads_on x c then [c] else [])"
      using filter_one [OF that, of "reads_on x"] by simp
    ultimately show ?thesis by (simp add: told_def broadcast_def)
  qed
  have "told (foldl broadcast x evs) c = told x c @ (if reads_on x c then map Notify evs else [])
      \<and> (c \<in> set (rpConns (foldl broadcast x evs)) \<longleftrightarrow> reads_on x c \<or> evs = [])"
    if "distinct (rpConns x)" "c \<in> set (rpConns x)" for x
    using that
  proof (induction evs arbitrary: x)
    case (Cons ev evs)
    show ?case
    proof (cases "reads_on x c")
      case True
      with Cons.prems have "distinct (rpConns (broadcast x ev))" "c \<in> set (rpConns (broadcast x ev))"
        by (simp_all add: broadcast_def)
      from Cons.IH [OF this] one [OF Cons.prems, of ev] True show ?thesis by simp
    next
      case False
      have "told (foldl broadcast y es) c = told y c \<and> c \<notin> set (rpConns (foldl broadcast y es))" if "c \<notin> set (rpConns y)" for y es
        using that by (induction es arbitrary: y) (auto simp: broadcast_def told_def filter_empty_conv)
      moreover have "c \<notin> set (rpConns (broadcast x ev))" using False by (simp add: broadcast_def)
      ultimately show ?thesis using one [OF Cons.prems, of ev] False by simp
    qed
  qed simp
  from this [of "r\<lparr>rpDaemon := d'\<rparr>"] assms show ?thesis
    by (simp add: with_daemon_def told_def reads_on_def)
qed

theorem events_fan_out_witness:
  "told (with_daemon dev_rpc (emit (on_event dev_daemon) (event_of event_peers))) 2 = [Notify (event_of event_peers)]"
proof -
  have r: "rpConns dev_rpc = [1, 2]" "rpDaemon dev_rpc = on_event dev_daemon" "told dev_rpc 2 = []" "reads_on dev_rpc 2"
    by (simp_all add: dev_rpc_def accept_front_end_def new_rpc_def told_def reads_on_def)
  have "dmEvents (emit (on_event dev_daemon) (event_of event_peers)) = dmEvents (rpDaemon dev_rpc) @ [event_of event_peers]"
    by (simp add: r emit_def on_event_def)
  from events_fan_out [OF _ _ this, of 2] r show ?thesis by simp
qed

end
