(* ===== verification/FormatProperties.thy ===== *)
theory FormatProperties
  imports Transfers Beacon
begin

text \<open>
  The properties of what the programs put on the wire and on the local network, and of the names they give files.
\<close>

section \<open>Frames\<close>

lemma base256: "256 * q1 + r0 = n \<Longrightarrow> 256 * q2 + r1 = q1 \<Longrightarrow> 256 * q3 + r2 = q2 \<Longrightarrow>
    q3 * 16777216 + r2 * 65536 + r1 * 256 + r0 = (n :: nat)"
  by simp

lemma be32_inverse: "n < 2 ^ 32 \<Longrightarrow> be32_value (be32_bytes n) = n"
proof -
  assume n: "n < 2 ^ 32"
  have "n div 256 div 256 div 256 * 16777216 + n div 256 div 256 mod 256 * 65536 + n div 256 mod 256 * 256 + n mod 256 = n"
    by (rule base256) (rule mult_div_mod_eq)+
  moreover have "n div 65536 = n div 256 div 256" "n div 16777216 = n div 256 div 256 div 256"
    by (simp_all add: div_mult2_eq [symmetric])
  moreover have "n div 256 div 256 div 256 mod 256 = n div 256 div 256 div 256"
    using n by (intro mod_less) (simp add: div_mult2_eq [symmetric] less_mult_imp_div_less)
  ultimately show ?thesis unfolding be32_bytes_def be32_value.simps by (simp only:)
qed

lemma be32_surj:
  assumes "length hs = 4" and "\<forall>b \<in> set hs. b < 256"
  shows "be32_bytes (be32_value hs) = hs"
proof -
  obtain a b c d where hs: "hs = [a, b, c, d]" using assms(1) by (auto simp: numeral_eq_Suc length_Suc_conv)
  with assms(2) have lt: "a < 256" "b < 256" "c < 256" "d < 256" by auto
  define n where "n = be32_value hs"
  have n: "n = ((a * 256 + b) * 256 + c) * 256 + d" by (simp add: n_def hs)
  have "n div 256 = (a * 256 + b) * 256 + c" "n div 256 div 256 = a * 256 + b" "n div 256 div 256 div 256 = a"
    using lt by (simp_all add: n)
  moreover have "n div 65536 = n div 256 div 256" "n div 16777216 = n div 256 div 256 div 256"
    by (simp_all add: div_mult2_eq [symmetric])
  ultimately have "n div 16777216 = a" "n div 65536 = a * 256 + b" "n div 256 = (a * 256 + b) * 256 + c" by simp_all
  moreover have "n mod 256 = d" unfolding n mod_mult_self3 using lt(4) by (rule mod_less)
  moreover have "((a * 256 + b) * 256 + c) mod 256 = c" "(a * 256 + b) mod 256 = b"
    unfolding mod_mult_self3 using lt by simp_all
  ultimately have "be32_bytes n = [a, b, c, d]" using lt(1) unfolding be32_bytes_def by (simp only: mod_less)
  then show ?thesis by (simp add: n_def hs)
qed

definition codes :: "(frame \<Rightarrow> nat list option) \<Rightarrow> (nat list \<Rightarrow> frame option) \<Rightarrow> frame \<Rightarrow> bool" where
  "codes enc dec f \<longleftrightarrow> (case enc f of None \<Rightarrow> False | Some body \<Rightarrow> body \<noteq> [] \<and> length body \<le> max_frame \<and> dec body = Some f)"

definition written :: "(frame \<Rightarrow> nat list option) \<Rightarrow> frame \<Rightarrow> nat list" where
  "written enc f = (case write_frame enc f of Inl _ \<Rightarrow> [] | Inr bs \<Rightarrow> bs)"

lemma written_eq: "codes enc dec f \<Longrightarrow> \<exists>body. enc f = Some body \<and> written enc f = be32_bytes (length body) @ body
    \<and> body \<noteq> [] \<and> length body \<le> max_frame \<and> dec body = Some f"
  by (auto simp: codes_def written_def write_frame_def split: option.splits)

lemma length_be32 [simp]: "length (be32_bytes n) = 4"
  by (simp add: be32_bytes_def)

lemma read_written:
  assumes "codes enc dec f"
  shows "read_frame dec (written enc f @ rest) = Inr (f, rest)"
    and "n < length (written enc f) \<Longrightarrow> read_frame dec (take n (written enc f)) = Inl ShortRead"
proof -
  obtain body where b: "written enc f = be32_bytes (length body) @ body" "body \<noteq> []" "length body \<le> max_frame" "dec body = Some f"
    using written_eq [OF assms] by blast
  have v: "be32_value (be32_bytes (length body)) = length body" by (rule be32_inverse) (use b(3) in \<open>simp add: max_frame_def\<close>)
  show "read_frame dec (written enc f @ rest) = Inr (f, rest)" using b v by (simp add: read_frame_def)
  show "read_frame dec (take n (written enc f)) = Inl ShortRead" if "n < length (written enc f)"
    using b v that by (auto simp: read_frame_def not_less)
qed

text \<open>
  C16: frames survive the stream. What a reader makes of the bytes of frames written one after the other, cut anywhere, is a
  prefix of those frames, each as it was written, and then a short read: never a frame nobody wrote, and all
  of them when nothing is cut.
\<close>

theorem stream_roundtrip:
  assumes "\<forall>f \<in> set fs. codes enc dec f" and "bs = concat (map (written enc) fs)"
  shows "(\<exists>k. read_frames dec (take n bs) = (take k fs, ShortRead)) \<and> read_frames dec bs = (fs, ShortRead)"
proof -
  have short: "read_frames dec [] = ([], ShortRead)" by (simp add: read_frames.simps read_frame_def)
  have cut: "\<exists>k. read_frames dec (take n (concat (map (written enc) fs))) = (take k fs, ShortRead)" for n
    using assms(1)
  proof (induction fs arbitrary: n)
    case (Cons f fs)
    then have f: "codes enc dec f" by simp
    show ?case
    proof (cases "n < length (written enc f)")
      case True
      then have "read_frames dec (take n (concat (map (written enc) (f # fs)))) = ([], ShortRead)"
        using read_written(2) [OF f True] by (subst read_frames.simps) simp
      then show ?thesis by (intro exI [of _ 0]) simp
    next
      case False
      obtain k where k: "read_frames dec (take (n - length (written enc f)) (concat (map (written enc) fs))) = (take k fs, ShortRead)"
        using Cons.IH Cons.prems by (meson list.set_intros(2))
      have "read_frames dec (take n (concat (map (written enc) (f # fs)))) = (f # take k fs, ShortRead)"
        using False read_written(1) [OF f] k by (subst read_frames.simps) simp
      then show ?thesis by (intro exI [of _ "Suc k"]) simp
    qed
  qed (simp add: short)
  have "read_frames dec (concat (map (written enc) fs)) = (fs, ShortRead)"
    using assms(1)
  proof (induction fs)
    case (Cons f fs)
    then show ?case using read_written(1) [of enc dec f] by (subst read_frames.simps) simp
  qed (simp add: short)
  with cut assms(2) show ?thesis by blast
qed

definition toy_enc :: "frame \<Rightarrow> nat list option" where
  "toy_enc f = Some (if fType f = frame_ping then [1] else [2])"

definition toy_dec :: "nat list \<Rightarrow> frame option" where
  "toy_dec bs = Some (if bs = [1] then frame_of frame_ping else frame_of frame_pong)"

theorem stream_roundtrip_witness:
  "read_frames toy_dec (concat (map (written toy_enc) [frame_of frame_ping, frame_of frame_pong])) = ([frame_of frame_ping, frame_of frame_pong], ShortRead)"
proof -
  have "\<forall>f \<in> set [frame_of frame_ping, frame_of frame_pong]. codes toy_enc toy_dec f"
    by (simp add: codes_def toy_enc_def toy_dec_def max_frame_def frame_type_defs)
  from stream_roundtrip [OF this refl, of 0] show ?thesis by blast
qed

text \<open>
  What a read takes. From a stream of bytes a frame is read exactly when the stream starts with a length that is
  not zero and within the limit, that many bytes follow, and they decode; then those bytes are what was taken, and
  everything after them is left for the next read.
\<close>

theorem read_frame_exact:
  assumes "\<forall>b \<in> set inp. b < 256"
  shows "read_frame dec inp = Inr (f, rest) \<longleftrightarrow>
    (\<exists>body. inp = be32_bytes (length body) @ body @ rest \<and> body \<noteq> [] \<and> length body \<le> max_frame \<and> dec body = Some f)"
proof
  assume r: "read_frame dec inp = Inr (f, rest)"
  let ?n = "be32_value (take 4 inp)" and ?body = "take (be32_value (take 4 inp)) (drop 4 inp)"
  from r have c: "4 \<le> length inp" "?n \<noteq> 0" "?n \<le> max_frame" "?n \<le> length (drop 4 inp)" "dec ?body = Some f" "rest = drop ?n (drop 4 inp)"
    by (auto simp: read_frame_def split: if_splits option.splits)
  have "\<forall>b \<in> set (take 4 inp). b < 256" using assms by (auto dest: in_set_takeD)
  then have "be32_bytes ?n = take 4 inp" using c(1) by (intro be32_surj) simp_all
  moreover have len: "length ?body = ?n" using c(4) by simp
  moreover have "inp = take 4 inp @ ?body @ drop ?n (drop 4 inp)" by (simp only: append_take_drop_id)
  ultimately have "inp = be32_bytes (length ?body) @ ?body @ rest" unfolding c(6) by metis
  moreover have "?body \<noteq> []" "length ?body \<le> max_frame" using c(2,3) len by auto
  ultimately show "\<exists>body. inp = be32_bytes (length body) @ body @ rest \<and> body \<noteq> [] \<and> length body \<le> max_frame \<and> dec body = Some f"
    using c(5) by blast
next
  assume "\<exists>body. inp = be32_bytes (length body) @ body @ rest \<and> body \<noteq> [] \<and> length body \<le> max_frame \<and> dec body = Some f"
  then obtain body where b: "inp = be32_bytes (length body) @ body @ rest" "body \<noteq> []" "length body \<le> max_frame" "dec body = Some f"
    by blast
  have "be32_value (be32_bytes (length body)) = length body" by (rule be32_inverse) (use b(3) in \<open>simp add: max_frame_def\<close>)
  with b show "read_frame dec inp = Inr (f, rest)" by (simp add: read_frame_def)
qed

theorem read_frame_exact_witness: "read_frame toy_dec [0, 0, 0, 1, 1, 7] = Inr (frame_of frame_ping, [7])"
proof -
  have "\<forall>b \<in> set [0, 0, 0, 1, 1, 7 :: nat]. b < 256" by simp
  from read_frame_exact [OF this, of toy_dec "frame_of frame_ping" "[7]"] show ?thesis
    by (auto simp: be32_bytes_def toy_dec_def max_frame_def intro: exI [of _ "[1]"])
qed

section \<open>Discovery\<close>

text \<open>
  A server leaves once. In every run of the beacon over packets, clock ticks and updates, the caller is told that a server
  left only after it was told that the server appeared, and between two such calls it is told that it appeared again.
\<close>

theorem beacon_left_once:
  assumes "s = \<lparr>brBeacon = b, brIfaces = ifs, brSelf = self, brHeard = [], brLast = [], brCalls = [], brSent = sent, brStopped = False\<rparr>"
    and "brCalls (foldl (beacon_step enc dec) s es) = xs @ Left i # ys"
  shows "(\<exists>a. Appeared a \<in> set xs \<and> aID a = i)
    \<and> (\<forall>us vs. xs = us @ Left i # vs \<longrightarrow> (\<exists>a. Appeared a \<in> set vs \<and> aID a = i))"
proof -
  have s: "beacon_inv s" "brCalls s = []" "\<not> beacon_known s i" by (simp_all add: assms(1) beacon_inv_def beacon_known_def)
  from beacon_discovery.left_after_appeared [OF s assms(2)]
    beacon_discovery.left_once [OF s(1,2), where xs = us and i = i and ys = vs and zs = ys and es = es for us vs] assms(2)
  show ?thesis by fastforce
qed

definition heard_ann :: announcement where
  "heard_ann = zero_announcement\<lparr>aVersion := 2, aID := replicate 32 (CHR ''0''), aPort := 47772, aAddr := ''10.0.0.9:47772'', aHeard := 5\<rparr>"

definition heard_run :: beacon_run where
  "heard_run = \<lparr>brBeacon = new_beacon '''', brIfaces = [], brSelf = ''me'', brHeard = [], brLast = [], brCalls = [], brSent = [], brStopped = False\<rparr>"

definition heard_events :: "beacon_event list" where
  "heard_events = [Packet 5 (bytes_of beacon_magic) (Some ''10.0.0.9''), TakeHeard, SweepTick 60000000000]"

theorem beacon_left_once_witness:
  "\<exists>a. Appeared a \<in> set [Appeared heard_ann] \<and> aID a = replicate 32 (CHR ''0'')"
proof -
  have "brCalls (foldl (beacon_step (\<lambda>a. None) (\<lambda>b. Some heard_ann)) heard_run heard_events)
      = [Appeared heard_ann] @ Left (replicate 32 (CHR ''0'')) # []"
    by code_simp
  from beacon_left_once [OF heard_run_def this] show ?thesis by blast
qed

text \<open>
  C39: an announcement arrives as it was sent, and from where it was sent. A packet the beacon makes fits its limit and is read as
  the announcement, its names cut to their length, at the address the packet came from and the port announced; a
  packet from anybody never gives any other address.
\<close>

theorem beacon_roundtrip:
  assumes "encode_beacon enc a = Some pkt" and "\<And>b. enc (on_wire a) = Some b \<Longrightarrow> dec b = Some (on_wire a)" and "ann_valid a"
  shows "length pkt \<le> beacon_max_packet
    \<and> parse_beacon dec now pkt (Some ip) = Some ((ann_clean a)\<lparr>aHeard := now, aAddr := join_host_port ip (aPort a)\<rparr>)
    \<and> (\<forall>dec' p x. parse_beacon dec' now p (Some ip) = Some x \<longrightarrow> aAddr x = join_host_port ip (aPort x))"
  using encode_beacon_bounds [OF assms(1)] parse_encode_beacon [OF assms, where now = now and ip = ip] parse_beacon_address
  by fastforce

definition ann_enc :: "announcement \<Rightarrow> nat list option" where "ann_enc a = Some [7]"

definition ann_dec :: "nat list \<Rightarrow> announcement option" where "ann_dec bs = Some (on_wire heard_ann)"

theorem beacon_roundtrip_witness:
  "\<exists>pkt. encode_beacon ann_enc heard_ann = Some pkt
     \<and> parse_beacon ann_dec 9 pkt (Some ''10.0.0.9'') = Some ((ann_clean heard_ann)\<lparr>aHeard := 9, aAddr := join_host_port ''10.0.0.9'' (aPort heard_ann)\<rparr>)"
proof -
  have e: "encode_beacon ann_enc heard_ann = Some (bytes_of beacon_magic @ [7])"
    by (simp add: encode_beacon_def ann_enc_def Let_def beacon_max_packet_def beacon_magic_def bytes_of_def)
  have v: "ann_valid heard_ann" by code_simp
  have "ann_dec b = Some (on_wire heard_ann)" if "ann_enc (on_wire heard_ann) = Some b" for b by (simp add: ann_dec_def)
  from beacon_roundtrip [where dec = ann_dec, OF e this v, where now = 9 and ip = "''10.0.0.9''"] e show ?thesis by blast
qed

end
