(* ===== verification/Restart.thy ===== *)
theory Restart
  imports StoreRefinement StoreDisk
begin

text \<open>
  What a store on disk gives back when it is opened again. Every operation that changes a message writes one line to the
  journal of its conversation; reading the lines back changes the messages loaded so far as the
  operation changed the store's, up to what the journal does not keep: whether a message was read.
\<close>

section \<open>What the journal keeps of a message\<close>

definition settled :: "bool \<Rightarrow> message_state \<Rightarrow> message_state" where
  "settled mine st = (if mine \<and> st = StateSending then StateQueued else st)"

definition strip :: "message \<Rightarrow> message" where
  "strip m = m\<lparr>mState := settled (mMine m) (mState m), mRead := False\<rparr>"

definition restate :: "message_state \<Rightarrow> message \<Rightarrow> message" where
  "restate st m = m\<lparr>mState := settled (mMine m) st\<rparr>"

definition replace :: "uint64 \<Rightarrow> message \<Rightarrow> message" where
  "replace q m = m\<lparr>mSeq := q, mState := StateDelivered\<rparr>"

lemma strip_fields [simp]:
  "mID (strip m) = mID m" "mConv (strip m) = mConv m" "message_key (strip m) = message_key m"
  "strip (strip m) = strip m" "strip (m\<lparr>mRead := b\<rparr>) = strip m"
  by (simp_all add: strip_def settled_def message_key_def)

lemma strip_changes:
  "strip (m\<lparr>mState := st\<rparr>) = restate st (strip m)"
  "strip (m\<lparr>mSeq := q\<rparr>) = (strip m)\<lparr>mSeq := q\<rparr>" "restate StateDelivered (m\<lparr>mSeq := q\<rparr>) = replace q m"
  by (simp_all add: strip_def restate_def replace_def settled_def)

lemma strip_amend:
  "strip (amend sc m) = m\<lparr>mSeq := (case map_of (scSeqs sc) (mID m) of Some q \<Rightarrow> q | None \<Rightarrow> mSeq m),
     mState := settled (mMine m) (case map_of (scStates sc) (mID m) of Some st \<Rightarrow> st | None \<Rightarrow> mState m), mRead := False\<rparr>"
  by (simp add: amend_def strip_def requeue_def amend_state_def amend_seq_def settled_def Let_def split: option.splits)

lemma amend_fields [simp]: "mID (amend sc m) = mID m" "mConv (amend sc m) = mConv m"
  by (simp_all add: amend_def requeue_def amend_state_def amend_seq_def Let_def split: option.splits)

section \<open>The lines the operations write\<close>

definition journal :: "store \<Rightarrow> conv_id \<Rightarrow> log_line option list" where
  "journal s c = get_or [] (dkHistory (stDisk s)) (history_path c)"

definition state_line :: "message_id \<Rightarrow> message_state \<Rightarrow> log_line" where
  "state_line i st = zero_line\<lparr>lKind := ''s'', lID := i, lState := st\<rparr>"

definition seq_line :: "message_id \<Rightarrow> uint64 \<Rightarrow> log_line" where
  "seq_line i q = zero_line\<lparr>lKind := ''q'', lID := i, lSeq := q, lState := StateDelivered\<rparr>"

definition msg_line :: "message \<Rightarrow> log_line" where
  "msg_line m = zero_line\<lparr>lKind := ''m'', lMsg := Some m\<rparr>"

definition read_line :: log_line where
  "read_line = zero_line\<lparr>lKind := ''r''\<rparr>"

definition log_of :: "store \<Rightarrow> store_op \<Rightarrow> (conv_id \<times> log_line) option" where
  "log_of s op = (case op of
      OpAppend now m \<Rightarrow> (if fileable s m then Some (mConv m, msg_line (filed_message now m)) else None)
    | OpSetState i st \<Rightarrow> map_option (\<lambda>m. (mConv m, state_line i st)) (message_of s i)
    | OpConfirm i q \<Rightarrow> map_option (\<lambda>m. (mConv m, seq_line i q)) (message_of s i)
    | OpMarkRead c \<Rightarrow> (if 0 < unread s c then Some (c, read_line) else None)
    | _ \<Rightarrow> None)"

definition logged :: "store \<Rightarrow> (conv_id \<times> log_line) option \<Rightarrow> (string \<times> log_line option list) list" where
  "logged s cl = (case cl of None \<Rightarrow> dkHistory (stDisk s)
     | Some (c, l) \<Rightarrow> AList.update (history_path c) (journal s c @ [Some l]) (dkHistory (stDisk s)))"

definition on_disk :: "store \<Rightarrow> bool" where
  "on_disk s \<longleftrightarrow> stDir s \<noteq> '''' \<and> dkRefuses (stDisk s) = [] \<and> dkUnreadable (stDisk s) = []
     \<and> dkRoster (stDisk s) \<noteq> Unreadable \<and> dkRoster (stDisk s) \<noteq> Corrupt
     \<and> dkPrefs (stDisk s) \<noteq> Unreadable \<and> dkPrefs (stDisk s) \<noteq> Corrupt
     \<and> dkIdentity (stDisk s) \<noteq> Unreadable \<and> dkIdentity (stDisk s) \<noteq> Corrupt"

lemma append_log_disk:
  assumes "on_disk s"
  shows "dkHistory (stDisk (fst (append_log s c l))) = logged s (Some (c, l))" and "on_disk (fst (append_log s c l))"
  using assms by (simp_all add: append_log_def disk_err_def logged_def journal_def on_disk_def)

lemma on_disk_msgs [simp]:
  "on_disk (s\<lparr>stMsgs := ms\<rparr>) = on_disk s" "on_disk (s\<lparr>stMsgs := ms, stNextSeq := q\<rparr>) = on_disk s"
  "on_disk (s\<lparr>stUnread := us, stMsgs := ms\<rparr>) = on_disk s" "on_disk (file_message s m) = on_disk s"
  "logged (s\<lparr>stMsgs := ms\<rparr>) = logged s" "logged (s\<lparr>stMsgs := ms, stNextSeq := q\<rparr>) = logged s"
  "logged (s\<lparr>stUnread := us, stMsgs := ms\<rparr>) = logged s" "logged (file_message s m) = logged s"
  by (auto simp: on_disk_def logged_def journal_def file_message_def fun_eq_iff split: option.splits)

lemma save_roster_disk:
  "on_disk s \<Longrightarrow> on_disk (save_roster s) \<and> dkHistory (stDisk (save_roster s)) = dkHistory (stDisk s)"
  by (simp add: save_roster_def disk_err_def on_disk_def)

lemma save_prefs_disk:
  "on_disk s \<Longrightarrow> on_disk (fst (save_prefs s)) \<and> dkHistory (stDisk (fst (save_prefs s))) = dkHistory (stDisk s)"
  by (simp add: save_prefs_def disk_err_def on_disk_def)

lemma save_identity_disk:
  "on_disk s \<Longrightarrow> on_disk (fst (save_identity e fresh s i)) \<and> dkHistory (stDisk (fst (save_identity e fresh s i))) = dkHistory (stDisk s)"
  by (simp add: save_identity_def disk_err_def on_disk_def)

lemma on_disk_fields [simp]:
  "on_disk (s\<lparr>stPeers := ps\<rparr>) = on_disk s" "on_disk (s\<lparr>stNotify := np\<rparr>) = on_disk s" "on_disk (s\<lparr>stSelf := i\<rparr>) = on_disk s"
  "on_disk (s\<lparr>stNextSeq := q\<rparr>) = on_disk s"
  by (simp_all add: on_disk_def)

lemma locate_message_of:
  assumes "store_ok s"
  shows "message_of s i = (case locate i (stMsgs s) of None \<Rightarrow> None | Some (c, k) \<Rightarrow> Some (conv_msgs s c ! k))"
    and "locate i (stMsgs s) = Some (c, k) \<Longrightarrow> mConv (conv_msgs s c ! k) = c"
  using locate_conv(3) [OF assms] by (simp_all add: message_of_def)

text \<open>Every operation keeps the disk as it should be and writes its line.\<close>

lemma store_step_disk:
  assumes ok: "store_ok s" and disk: "on_disk s"
  shows "dkHistory (stDisk (store_step e fresh s op)) = logged s (log_of s op) \<and> on_disk (store_step e fresh s op)"
proof (cases op)
  case (OpAppend now m)
  show ?thesis
  proof (cases "fileable s m")
    case True
    then have "store_step e fresh s op = fst (append_log (file_message s (filed_message now m)) (mConv m) (msg_line (filed_message now m)))"
      using disk OpAppend
      by (simp add: store_step_def append_message_def fileable_def on_disk_def append_line_def msg_line_def filed_message_def
          Let_def case_prod_beta)
    with True OpAppend append_log_disk [of "file_message s (filed_message now m)"] disk show ?thesis by (simp add: log_of_def)
  next
    case False
    then have "store_step e fresh s op = s" using OpAppend by (auto simp: store_step_def append_message_def fileable_def)
    with False OpAppend disk show ?thesis by (simp add: log_of_def logged_def)
  qed
next
  case (OpSetState i st)
  show ?thesis
  proof (cases "locate i (stMsgs s)")
    case None
    with OpSetState disk show ?thesis by (simp add: store_step_def set_state_def log_of_def message_of_def logged_def)
  next
    case (Some ck)
    then obtain c k where ck: "locate i (stMsgs s) = Some (c, k)" by (cases ck) simp
    let ?s = "s\<lparr>stMsgs := AList.update c ((conv_msgs s c)[k := (conv_msgs s c ! k)\<lparr>mState := st\<rparr>]) (stMsgs s)\<rparr>"
    have "store_step e fresh s op = fst (append_log ?s c (state_line i st))"
      using disk OpSetState ck locate_message_of(2) [OF ok ck]
      by (simp add: store_step_def set_state_def on_disk_def append_state_def state_line_def Let_def)
    with OpSetState ck locate_message_of [OF ok] append_log_disk [of ?s] disk show ?thesis by (simp add: log_of_def)
  qed
next
  case (OpConfirm i q)
  show ?thesis
  proof (cases "locate i (stMsgs s)")
    case None
    with OpConfirm disk show ?thesis by (simp add: store_step_def confirm_def log_of_def message_of_def logged_def)
  next
    case (Some ck)
    then obtain c k where ck: "locate i (stMsgs s) = Some (c, k)" by (cases ck) simp
    let ?s = "s\<lparr>stMsgs := AList.update c (insert_ordered (take k (conv_msgs s c) @ drop (Suc k) (conv_msgs s c))
       ((conv_msgs s c ! k)\<lparr>mSeq := q, mState := StateDelivered\<rparr>)) (stMsgs s), stNextSeq := bump_seq (stNextSeq s) q\<rparr>"
    have "store_step e fresh s op = fst (append_log ?s c (seq_line i q))"
      using disk OpConfirm ck locate_message_of(2) [OF ok ck]
      by (simp add: store_step_def confirm_def on_disk_def seq_line_def Let_def)
    with OpConfirm ck locate_message_of [OF ok] append_log_disk [of ?s] disk show ?thesis by (simp add: log_of_def)
  qed
next
  case (OpMarkRead c)
  let ?s = "s\<lparr>stUnread := AList.delete c (stUnread s), stMsgs := (case map_of (stMsgs s) c of None \<Rightarrow> stMsgs s
     | Some l \<Rightarrow> AList.update c (map (\<lambda>m. m\<lparr>mRead := True\<rparr>) l) (stMsgs s))\<rparr>"
  have dir: "stDir s \<noteq> ''''" using disk by (simp add: on_disk_def)
  show ?thesis
  proof (cases "0 < unread s c")
    case True
    then have "store_step e fresh s op = fst (append_log ?s c read_line)"
      using OpMarkRead dir by (simp add: store_step_def mark_read_def append_read_def read_line_def Let_def)
    moreover have "log_of s op = Some (c, read_line)" using True OpMarkRead by (simp add: log_of_def)
    moreover have "on_disk ?s" "logged ?s = logged s" using disk by (auto simp: on_disk_def logged_def journal_def fun_eq_iff split: option.splits)
    ultimately show ?thesis using append_log_disk [of ?s c read_line] by (simp only: simp_thms)
  next
    case False
    then have "store_step e fresh s op = ?s" using OpMarkRead by (simp add: store_step_def mark_read_def Let_def)
    with False OpMarkRead disk show ?thesis by (simp add: log_of_def logged_def on_disk_def)
  qed
next
  case (OpPutPeer p)
  with disk save_roster_disk show ?thesis by (simp add: store_step_def put_peer_def log_of_def logged_def Let_def)
next
  case (OpSetPresence now i pr)
  with disk save_roster_disk show ?thesis
    by (simp add: store_step_def set_presence_def put_peer_def log_of_def logged_def Let_def)
next
  case (OpBlock i b)
  with disk save_roster_disk show ?thesis
    by (simp add: store_step_def block_peer_def log_of_def logged_def Let_def split: option.splits)
next
  case (OpSetSelf i)
  with disk save_identity_disk show ?thesis
    by (simp add: store_step_def set_self_def log_of_def logged_def Let_def case_prod_beta)
next
  case (OpJoin r)
  with disk save_identity_disk show ?thesis
    by (simp add: store_step_def join_room_def log_of_def logged_def Let_def case_prod_beta)
next
  case (OpLeave r)
  with disk save_identity_disk show ?thesis
    by (simp add: store_step_def leave_room_def log_of_def logged_def Let_def case_prod_beta)
next
  case (OpPrefs p)
  with disk save_prefs_disk show ?thesis
    by (simp add: store_step_def set_notify_prefs_def log_of_def logged_def Let_def case_prod_beta)
qed

section \<open>Reading the lines back\<close>

definition kept :: "store \<Rightarrow> conv_id \<Rightarrow> abs_store" where
  "kept s c i = (case message_of s i of Some m \<Rightarrow> (if mConv m = c then Some (strip m) else None) | None \<Rightarrow> None)"

definition line_on :: "log_line \<Rightarrow> abs_store \<Rightarrow> abs_store" where
  "line_on l f =
    (if lKind l = ''m'' then f(mID (the (lMsg l)) \<mapsto> strip (the (lMsg l)))
     else if lKind l = ''s'' then (\<lambda>j. if j = lID l then map_option (restate (lState l)) (f j) else f j)
     else if lKind l = ''q'' then (\<lambda>j. if j = lID l then map_option (replace (lSeq l)) (f j) else f j)
     else f)"

lemma line_on_simps [simp]:
  "line_on (msg_line m) f = f(mID m \<mapsto> strip m)"
  "line_on (state_line i st) f = (\<lambda>j. if j = i then map_option (restate st) (f j) else f j)"
  "line_on (seq_line i q) f = (\<lambda>j. if j = i then map_option (replace q) (f j) else f j)"
  "line_on read_line f = f"
  by (auto simp: line_on_def msg_line_def state_line_def seq_line_def read_line_def zero_line_def fun_eq_iff)

lemma kept_same: "stMsgs t = stMsgs s \<Longrightarrow> kept t c = kept s c"
  using message_of_same [of t s] by (simp add: kept_def fun_eq_iff)

lemma insert_ordered_not_Nil [simp]: "insert_ordered l m \<noteq> []"
  using set_insert_ordered [of l m] by (metis empty_not_insert list.set(1))

lemma kept_step:
  assumes ok: "store_ok s"
  shows "kept (store_step e fresh s op) c = (case log_of s op of None \<Rightarrow> kept s c
     | Some (c', l) \<Rightarrow> (if c' = c then line_on l (kept s c) else kept s c))"
proof -
  have eq: "kept t c = (\<lambda>i. case f i of Some m \<Rightarrow> (if mConv m = c then Some (strip m) else None) | None \<Rightarrow> None)"
    if "message_of t = f" for t f using that by (auto simp: kept_def)
  show ?thesis
  proof (cases op)
    case (OpAppend now m)
    have fl: "fileable s m \<longleftrightarrow> mID m \<noteq> '''' \<and> mConv m \<noteq> '''' \<and> message_of s (mID m) = None"
      by (simp add: fileable_def have_message_of [OF ok])
    show ?thesis
      unfolding OpAppend using eq [OF message_of_append [OF ok, of now m]]
      by (auto simp: store_step_def log_of_def abs_step_def kept_def fl filed_message_def fun_eq_iff)
  next
    case (OpSetState i st)
    show ?thesis
      unfolding OpSetState using eq [OF message_of_set_state [OF ok, of i st]]
      by (auto simp: store_step_def log_of_def abs_step_def kept_def strip_changes fun_eq_iff split: option.splits)
  next
    case (OpConfirm i q)
    show ?thesis
      unfolding OpConfirm using eq [OF message_of_confirm [OF ok, of i q]]
      by (auto simp: store_step_def log_of_def abs_step_def kept_def strip_changes fun_eq_iff split: option.splits)
  next
    case (OpMarkRead c')
    show ?thesis
      unfolding OpMarkRead using eq [OF message_of_mark_read [OF ok, of c']]
      by (auto simp: store_step_def log_of_def abs_step_def kept_def abs_read_def fun_eq_iff split: option.splits)
  qed (simp_all add: log_of_def store_step_def, (rule kept_same,
       simp add: set_presence_def block_peer_def set_self_def join_room_def leave_room_def
         set_notify_prefs_def save_identity_def save_prefs_def Let_def case_prod_beta split: option.splits)+)
qed

abbreviation loaded :: "scan \<Rightarrow> conv_id \<Rightarrow> message list" where
  "loaded sc c \<equiv> conv_msgs (scStore sc) c"

definition scan_ok :: "store \<Rightarrow> scan \<Rightarrow> conv_id \<Rightarrow> bool" where
  "scan_ok st sc c \<longleftrightarrow> distinct (map mID (loaded sc c)) \<and> ordered_by less_message (loaded sc c)
     \<and> (\<forall>m \<in> set (loaded sc c). mConv m = c)
     \<and> (\<forall>i. map_of (scStates sc) i \<noteq> None \<or> map_of (scSeqs sc) i \<noteq> None \<longrightarrow> i \<in> mID ` set (loaded sc c))
     \<and> scConv sc = (if loaded sc c = [] then '''' else c)
     \<and> (\<forall>c'. c' \<noteq> c \<longrightarrow> loaded sc c' = conv_msgs st c')"

definition scanned :: "scan \<Rightarrow> conv_id \<Rightarrow> abs_store" where
  "scanned sc c i = map_option (strip \<circ> amend sc) (map_of (map (\<lambda>m. (mID m, m)) (loaded sc c)) i)"

lemma scanned_Some:
  assumes "distinct (map mID (loaded sc c))"
  shows "scanned sc c i = Some x \<longleftrightarrow> (\<exists>m \<in> set (loaded sc c). mID m = i \<and> strip (amend sc m) = x)"
proof -
  have "distinct (map fst (map (\<lambda>m. (mID m, m)) (loaded sc c)))" using assms by (simp add: comp_def)
  from map_of_eq_Some_iff [OF this, of i] show ?thesis by (auto simp: scanned_def)
qed

lemma scanned_None: "scanned sc c i = None \<longleftrightarrow> i \<notin> mID ` set (loaded sc c)"
  by (force simp: scanned_def map_of_eq_None_iff)

lemma scanned_eqI:
  assumes "distinct (map mID (loaded sc c))"
    and "\<And>i x. f i = Some x \<longleftrightarrow> (\<exists>m \<in> set (loaded sc c). mID m = i \<and> strip (amend sc m) = x)"
  shows "scanned sc c = f"
proof
  fix i
  have "scanned sc c i = Some x \<longleftrightarrow> f i = Some x" for x by (simp add: scanned_Some [OF assms(1)] assms(2))
  then show "scanned sc c i = f i" by (metis option.exhaust)
qed

lemma scan_message:
  assumes ok: "scan_ok st sc c" and m: "mConv m = c" "c \<noteq> ''''" "mID m \<noteq> ''''" "mID m \<notin> mID ` set (loaded sc c)"
  shows "scan_ok st (load_line sc (Some (msg_line m))) c \<and> scanned (load_line sc (Some (msg_line m))) c = line_on (msg_line m) (scanned sc c)"
proof -
  let ?sc = "load_line sc (Some (msg_line m))"
  have sc: "?sc = sc\<lparr>scConv := c, scStore := load_message (scStore sc) m\<rparr>"
    using m by (simp add: load_line_def msg_line_def zero_line_def)
  have loaded: "loaded ?sc c' = (if c' = c then insert_ordered (loaded sc c) m else loaded sc c')" for c'
    using m by (simp add: sc load_message_def conv_msgs_def)
  have ids: "distinct (map mID (loaded ?sc c))"
  proof -
    have "mset (map mID (loaded ?sc c)) = mset (map mID (m # loaded sc c))" by (simp add: loaded)
    then show ?thesis using ok m(4) by (metis distinct.simps(2) list.simps(9) list.set_map mset_eq_imp_distinct_iff scan_ok_def)
  qed
  have amend: "amend ?sc = amend sc" by (intro ext) (simp add: sc amend_def)
  have fresh: "map_of (scStates sc) (mID m) = None" "map_of (scSeqs sc) (mID m) = None" using ok m(4) by (auto simp: scan_ok_def)
  then have strip: "strip (amend sc m) = strip m" by (simp add: strip_amend) (simp add: strip_def)
  have fields: "scStates ?sc = scStates sc" "scSeqs ?sc = scSeqs sc" "scConv ?sc = c" by (simp_all add: sc)
  have "ordered_by less_message (loaded ?sc c)" using ok by (simp add: loaded scan_ok_def ordered_insert)
  moreover have "set (loaded ?sc c) = insert m (set (loaded sc c))" "loaded ?sc c \<noteq> []" by (simp_all add: loaded)
  moreover have "\<forall>c'. c' \<noteq> c \<longrightarrow> loaded ?sc c' = conv_msgs st c'" using ok by (simp add: loaded scan_ok_def)
  ultimately have "scan_ok st ?sc c"
    using ok ids m(1) unfolding scan_ok_def fields by auto
  moreover have "scanned ?sc c = (scanned sc c)(mID m \<mapsto> strip m)"
  proof (rule scanned_eqI [OF ids])
    fix i x
    have d: "distinct (map mID (loaded sc c))" using ok by (simp add: scan_ok_def)
    show "((scanned sc c)(mID m \<mapsto> strip m)) i = Some x \<longleftrightarrow> (\<exists>m \<in> set (loaded ?sc c). mID m = i \<and> strip (amend ?sc m) = x)"
    proof -
      have "\<forall>y \<in> set (loaded sc c). mID y \<noteq> mID m" using m(4) by (metis imageI)
      then show ?thesis using strip by (auto simp: scanned_Some [OF d] loaded amend)
    qed
  qed
  ultimately show ?thesis by simp
qed

lemma scan_amend:
  assumes ok: "scan_ok st sc c" and i: "i \<in> mID ` set (loaded sc c)"
  shows "scan_ok st (load_line sc (Some (state_line i s1))) c
      \<and> scanned (load_line sc (Some (state_line i s1))) c = line_on (state_line i s1) (scanned sc c)"
    and "scan_ok st (load_line sc (Some (seq_line i q))) c
      \<and> scanned (load_line sc (Some (seq_line i q))) c = line_on (seq_line i q) (scanned sc c)"
proof -
  have d: "distinct (map mID (loaded sc c))" using ok by (simp add: scan_ok_def)
  let ?a = "load_line sc (Some (state_line i s1))" and ?b = "load_line sc (Some (seq_line i q))"
  have a: "?a = sc\<lparr>scStates := AList.update i s1 (scStates sc)\<rparr>"
    by (simp add: load_line_def state_line_def zero_line_def)
  have b: "?b = sc\<lparr>scSeqs := AList.update i q (scSeqs sc), scStates := AList.update i StateDelivered (scStates sc),
      scStore := (scStore sc)\<lparr>stNextSeq := bump_seq (stNextSeq (scStore sc)) q\<rparr>\<rparr>"
    by (simp add: load_line_def seq_line_def zero_line_def)
  have loaded: "loaded ?a c' = loaded sc c'" "loaded ?b c' = loaded sc c'" for c' by (simp_all add: a b conv_msgs_def)
  have fields: "scStates ?a = AList.update i s1 (scStates sc)" "scSeqs ?a = scSeqs sc" "scConv ?a = scConv sc"
    "scStates ?b = AList.update i StateDelivered (scStates sc)" "scSeqs ?b = AList.update i q (scSeqs sc)" "scConv ?b = scConv sc"
    by (simp_all add: a b)
  have sa: "strip (amend ?a m) = (if mID m = i then restate s1 (strip (amend sc m)) else strip (amend sc m))" for m
    by (simp add: strip_amend a restate_def)
  have sb: "strip (amend ?b m) = (if mID m = i then replace q (strip (amend sc m)) else strip (amend sc m))" for m
    by (simp add: strip_amend b replace_def settled_def)
  have "scanned ?a c = line_on (state_line i s1) (scanned sc c)"
  proof (rule scanned_eqI)
    show "distinct (map mID (loaded ?a c))" using d by (simp add: loaded)
    show "line_on (state_line i s1) (scanned sc c) j = Some x \<longleftrightarrow> (\<exists>m \<in> set (loaded ?a c). mID m = j \<and> strip (amend ?a m) = x)" for j x
      by (auto simp: loaded sa scanned_Some [OF d])
  qed
  then show "scan_ok st ?a c \<and> scanned ?a c = line_on (state_line i s1) (scanned sc c)"
    using ok i unfolding scan_ok_def loaded fields by auto
  have "scanned ?b c = line_on (seq_line i q) (scanned sc c)"
  proof (rule scanned_eqI)
    show "distinct (map mID (loaded ?b c))" using d by (simp add: loaded)
    show "line_on (seq_line i q) (scanned sc c) j = Some x \<longleftrightarrow> (\<exists>m \<in> set (loaded ?b c). mID m = j \<and> strip (amend ?b m) = x)" for j x
      by (auto simp: loaded sb scanned_Some [OF d])
  qed
  then show "scan_ok st ?b c \<and> scanned ?b c = line_on (seq_line i q) (scanned sc c)"
    using ok i unfolding scan_ok_def loaded fields by auto
qed

lemma scan_read:
  assumes "scan_ok st sc c"
  shows "scan_ok st (load_line sc (Some read_line)) c \<and> scanned (load_line sc (Some read_line)) c = scanned sc c"
proof -
  have "load_line sc (Some read_line) = sc\<lparr>scRead := True\<rparr>" by (simp add: load_line_def read_line_def zero_line_def)
  then show ?thesis
    using assms by (simp add: scan_ok_def scanned_def fun_eq_iff) (auto simp: map_option_case strip_amend split: option.splits)
qed

section \<open>The journals of a store that runs\<close>

definition op_within :: "conv_id set \<Rightarrow> store_op \<Rightarrow> bool" where
  "op_within C op \<longleftrightarrow> (case op of OpAppend now m \<Rightarrow> mConv m \<in> C | OpMarkRead c \<Rightarrow> c \<in> C | _ \<Rightarrow> True)"

definition files_of :: "store \<Rightarrow> string set" where
  "files_of s = set (map fst (dkHistory (stDisk s)))"

definition persisted :: "conv_id set \<Rightarrow> store \<Rightarrow> bool" where
  "persisted C s \<longleftrightarrow> store_ok s \<and> on_disk s \<and> (\<forall>i m. message_of s i = Some m \<longrightarrow> mConv m \<in> C)
     \<and> map_ok (dkHistory (stDisk s)) \<and> files_of s \<subseteq> history_path ` C
     \<and> (\<forall>st c. c \<in> C \<longrightarrow> conv_msgs st c = [] \<longrightarrow>
          scan_ok st (scan_log st (journal s c)) c \<and> scanned (scan_log st (journal s c)) c = kept s c)"

lemma scan_log_snoc: "scan_log st (ls @ [l]) = load_line (scan_log st ls) l"
  by (simp add: scan_log_def)

lemma scan_log_Nil: "conv_msgs st c = [] \<Longrightarrow> scan_ok st (scan_log st []) c \<and> scanned (scan_log st []) c = (\<lambda>i. None)"
  by (auto simp: scan_log_def scan_ok_def scanned_def ordered_by_def)

lemma log_of_within:
  assumes "persisted C s" and "op_within C op" and "log_of s op = Some (c, l)"
  shows "c \<in> C"
  using assms by (cases op) (auto simp: log_of_def op_within_def persisted_def split: if_splits)

lemma log_line_scan:
  assumes s: "persisted C s" and st: "conv_msgs st c = []" and l: "log_of s op = Some (c, l)" and c: "c \<in> C"
  shows "scan_ok st (load_line (scan_log st (journal s c)) (Some l)) c
    \<and> scanned (load_line (scan_log st (journal s c)) (Some l)) c = line_on l (kept s c)"
proof -
  have ok: "store_ok s" using s by (simp add: persisted_def)
  let ?sc = "scan_log st (journal s c)"
  have sc: "scan_ok st ?sc c" "scanned ?sc c = kept s c" using s st c by (auto simp: persisted_def)
  have known: "i \<in> mID ` set (loaded ?sc c)" if "message_of s i = Some m" "mConv m = c" for i m
    using that scanned_None [of ?sc c i] by (auto simp: sc(2) kept_def)
  show ?thesis
  proof (cases op)
    case (OpAppend now m)
    then have m: "fileable s m" "c = mConv m" "l = msg_line (filed_message now m)" using l by (auto simp: log_of_def split: if_splits)
    then have "message_of s (mID m) = None" using have_message_of [OF ok] by (auto simp: fileable_def)
    then have "mID m \<notin> mID ` set (loaded ?sc c)" using scanned_None [of ?sc c "mID m"] by (simp add: sc(2) kept_def)
    then have f: "mConv (filed_message now m) = c" "c \<noteq> ''''" "mID (filed_message now m) \<noteq> ''''"
      "mID (filed_message now m) \<notin> mID ` set (loaded ?sc c)"
      using m by (simp_all add: fileable_def filed_message_def)
    show ?thesis using scan_message [OF sc(1) f] unfolding m(3) sc(2) .
  next
    case (OpSetState i s1)
    then obtain m where m: "message_of s i = Some m" "c = mConv m" "l = state_line i s1" using l by (auto simp: log_of_def)
    show ?thesis using scan_amend(1) [OF sc(1) known [OF m(1) m(2) [symmetric]], of s1] unfolding m(3) sc(2) .
  next
    case (OpConfirm i q)
    then obtain m where m: "message_of s i = Some m" "c = mConv m" "l = seq_line i q" using l by (auto simp: log_of_def)
    show ?thesis using scan_amend(2) [OF sc(1) known [OF m(1) m(2) [symmetric]], of q] unfolding m(3) sc(2) .
  next
    case (OpMarkRead c')
    then have "l = read_line" using l by (auto simp: log_of_def split: if_splits)
    with scan_read [OF sc(1)] show ?thesis by (simp add: sc(2))
  qed (use l in \<open>simp_all add: log_of_def\<close>)
qed

lemma persisted_step:
  assumes inj: "inj_on history_path C" and s: "persisted C s" and op: "op_within C op"
  shows "persisted C (store_step e fresh s op)"
proof -
  let ?t = "store_step e fresh s op"
  have ok: "store_ok s" "on_disk s" "map_ok (dkHistory (stDisk s))" "files_of s \<subseteq> history_path ` C" using s by (simp_all add: persisted_def)
  note disk = store_step_disk [OF ok(1,2), of e fresh op]
  have hist: "dkHistory (stDisk ?t) = logged s (log_of s op)" using disk by blast
  have "map_ok (dkHistory (stDisk ?t))" unfolding hist using ok(3) by (simp add: logged_def split: option.splits)
  moreover have "files_of ?t \<subseteq> history_path ` C"
    using ok(4) log_of_within [OF s op] unfolding files_of_def hist
    by (auto simp: logged_def dom_update split: option.splits)
  moreover have "\<forall>i m. message_of ?t i = Some m \<longrightarrow> mConv m \<in> C"
  proof (intro allI impI)
    fix i m
    assume m: "message_of ?t i = Some m"
    then have "kept ?t (mConv m) i \<noteq> None" by (simp add: kept_def)
    then have "kept s (mConv m) i \<noteq> None \<or> (\<exists>l. log_of s op = Some (mConv m, l))"
      using kept_step [OF ok(1), of e fresh op "mConv m"] by (auto split: option.splits if_splits)
    then consider x where "message_of s i = Some x" "mConv x = mConv m" | l where "log_of s op = Some (mConv m, l)"
      by (auto simp: kept_def split: option.splits if_splits)
    then show "mConv m \<in> C"
    proof cases
      case 1
      with s show ?thesis unfolding persisted_def by metis
    qed (rule log_of_within [OF s op])
  qed
  moreover have "scan_ok st (scan_log st (journal ?t c)) c \<and> scanned (scan_log st (journal ?t c)) c = kept ?t c"
    if c: "c \<in> C" "conv_msgs st c = []" for st c
  proof (cases "log_of s op")
    case None
    then have "journal ?t c = journal s c" by (simp add: journal_def hist logged_def)
    moreover have "kept ?t c = kept s c" using None by (simp add: kept_step [OF ok(1)])
    ultimately show ?thesis using s c by (simp add: persisted_def)
  next
    case (Some cl)
    then obtain c' l where l: "log_of s op = Some (c', l)" by (cases cl) simp
    have c': "c' \<in> C" by (rule log_of_within [OF s op l])
    show ?thesis
    proof (cases "c' = c")
      case True
      then have "journal ?t c = journal s c @ [Some l]" by (simp add: journal_def hist logged_def l)
      moreover have "kept ?t c = line_on l (kept s c)" using True by (simp add: kept_step [OF ok(1)] l)
      ultimately show ?thesis using log_line_scan [OF s c(2) _ c(1)] l True by (simp add: scan_log_snoc)
    next
      case False
      then have "history_path c' \<noteq> history_path c" using inj c' c(1) by (auto dest: inj_onD)
      then have "journal ?t c = journal s c" by (simp add: journal_def hist logged_def l)
      moreover have "kept ?t c = kept s c" using False by (simp add: kept_step [OF ok(1)] l)
      ultimately show ?thesis using s c by (simp add: persisted_def)
    qed
  qed
  ultimately show ?thesis
    using store_ok_step [OF ok(1)] disk unfolding persisted_def by blast
qed

section \<open>Opening the store again\<close>

lemma strip_list_unique:
  assumes "ordered_by less_message l1" "ordered_by less_message l2" "distinct (map mID l1)" "distinct (map mID l2)"
    and "strip ` set l1 = strip ` set l2"
  shows "map strip l1 = map strip l2"
proof (rule message_order.ordered_unique)
  have key: "map message_key (map strip l) = map message_key l" for l by (simp add: comp_def)
  show "ordered_by less_message (map strip l1)" "ordered_by less_message (map strip l2)"
    using assms(1,2) ordered_keys [OF key] by blast+
  have "map mID (map strip l) = map mID l" for l by (simp add: comp_def)
  then have d: "distinct (map mID (map strip l1))" "distinct (map mID (map strip l2))" using assms(3,4) by (simp_all only:)
  then have "distinct (map strip l1)" "distinct (map strip l2)" by (auto simp only: distinct_map)
  with assms(5) show "mset (map strip l1) = mset (map strip l2)" by (metis list.set_map set_eq_iff_mset_eq_distinct)
  show "a = b" if "a \<in> set (map strip l1)" "b \<in> set (map strip l1)" "\<not> less_message a b" "\<not> less_message b a" for a b
    using that less_message_total [of a b] d(1) by (auto simp only: distinct_map dest: inj_onD)
qed

definition gives_back :: "store \<Rightarrow> store \<Rightarrow> conv_id \<Rightarrow> bool" where
  "gives_back s t c \<longleftrightarrow> ordered_by less_message (conv_msgs t c) \<and> distinct (map mID (conv_msgs t c))
     \<and> strip ` set (conv_msgs t c) = strip ` set (conv_msgs s c)"

lemma kept_set:
  assumes "store_ok s"
  shows "strip ` set (conv_msgs s c) = {x. kept s c (mID x) = Some x}"
proof -
  have "kept s c i = Some x \<longleftrightarrow> (\<exists>m. m \<in> set (conv_msgs s c) \<and> mID m = i \<and> x = strip m)" for i x
  proof -
    have "kept s c i = Some x \<longleftrightarrow> (\<exists>m. message_of s i = Some m \<and> mConv m = c \<and> x = strip m)"
      by (auto simp: kept_def split: option.splits)
    then show ?thesis using store_okD(4) [OF assms] by (auto simp: message_of_Some [OF assms])
  qed
  then show ?thesis by auto
qed

lemma finish_log_gives:
  assumes ok: "scan_ok st sc c" and c: "c \<noteq> ''''" and s: "store_ok s" "scanned sc c = kept s c"
  shows "gives_back s (finish_log sc) c" and "c' \<noteq> c \<Longrightarrow> conv_msgs (finish_log sc) c' = conv_msgs st c'"
    and "stDisk (finish_log sc) = stDisk (scStore sc)"
proof -
  let ?l0 = "loaded sc c" and ?l1 = "map (amend sc) (loaded sc c)"
  let ?l2 = "if list_ex (reseqs sc) ?l0 then sort_by less_message ?l1 else ?l1"
  have d: "distinct (map mID ?l0)" "ordered_by less_message ?l0" using ok by (simp_all add: scan_ok_def)
  have msgs: "conv_msgs (finish_log sc) c' = (if c' = c then ?l2 else loaded sc c')" for c'
  proof (cases "?l0 = []")
    case True
    with ok have "finish_log sc = scStore sc" by (simp add: finish_log_def scan_ok_def)
    with True show ?thesis by simp
  next
    case False
    with ok have "scConv sc = c" by (simp add: scan_ok_def)
    with c show ?thesis by (simp add: finish_log_def Let_def conv_msgs_def)
  qed
  have "ordered_by less_message ?l2"
  proof (cases "list_ex (reseqs sc) ?l0")
    case True
    then show ?thesis by (simp add: message_order.ordered_sort)
  next
    case False
    then have "map message_key ?l1 = map message_key ?l0"
      by (auto simp: list_ex_iff reseqs_def message_key_def amend_def requeue_def amend_state_def amend_seq_def Let_def split: option.splits)
    with False ordered_keys d(2) show ?thesis by (metis (mono_tags, lifting))
  qed
  moreover have "distinct (map mID ?l2)"
  proof -
    have "mset (map mID ?l2) = mset (map mID ?l0)" by (simp add: comp_def image_mset.compositionality)
    with d(1) show ?thesis by (metis mset_eq_imp_distinct_iff)
  qed
  moreover have "strip ` set ?l2 = strip ` set (conv_msgs s c)"
    unfolding kept_set [OF s(1)] s(2) [symmetric] by (auto simp: scanned_Some [OF d(1)])
  ultimately show "gives_back s (finish_log sc) c" by (simp add: gives_back_def msgs)
  show "conv_msgs (finish_log sc) c' = conv_msgs st c'" if "c' \<noteq> c" using that ok by (simp add: msgs scan_ok_def)
  show "stDisk (finish_log sc) = stDisk (scStore sc)" by (simp add: finish_log_def Let_def)
qed

lemma scan_log_disk [simp]: "stDisk (scStore (scan_log st ls)) = stDisk st"
proof (induction ls rule: rev_induct)
  case (snoc l ls)
  then show ?case by (simp add: scan_log_snoc load_line_def load_message_def split: option.splits)
qed (simp add: scan_log_def)

text \<open>The counter ends at or past every number a journal gives.\<close>

definition scan_seqs :: "scan \<Rightarrow> bool" where
  "scan_seqs sc \<longleftrightarrow> seq_ok (scStore sc) \<and> (\<forall>i q. map_of (scSeqs sc) i = Some q \<longrightarrow> q \<le> stNextSeq (scStore sc))"

lemma scan_seqs_log: "seq_ok st \<Longrightarrow> scan_seqs (scan_log st ls)"
proof (induction ls rule: rev_induct)
  case (snoc l ls)
  let ?sc = "scan_log st ls"
  have IH: "scan_seqs ?sc" using snoc by simp
  have "scan_seqs (sc\<lparr>scConv := c, scStore := load_message (scStore sc) m\<rparr>)" if "scan_seqs sc" for sc c m
    using that by (auto simp: scan_seqs_def seq_ok_def load_message_def conv_msgs_def intro: bump_seq_ge order_trans [OF _ bump_seq_ge(1)])
  moreover have "scan_seqs (sc\<lparr>scSeqs := AList.update i q (scSeqs sc), scStates := ss,
      scStore := (scStore sc)\<lparr>stNextSeq := bump_seq (stNextSeq (scStore sc)) q\<rparr>\<rparr>)" if "scan_seqs sc" for sc i q ss
    using that by (auto simp: scan_seqs_def seq_ok_def conv_msgs_def intro: bump_seq_ge order_trans [OF _ bump_seq_ge(1)] split: if_splits)
  moreover have "scan_seqs (sc\<lparr>scStates := ss\<rparr>)" "scan_seqs (sc\<lparr>scRead := b\<rparr>)" if "scan_seqs sc" for sc ss b
    using that by (simp_all add: scan_seqs_def)
  ultimately show ?case using IH by (simp add: scan_log_snoc load_line_def split: option.splits)
qed (simp add: scan_log_def scan_seqs_def)

lemma seq_ok_load_log: "seq_ok st \<Longrightarrow> seq_ok (load_log st ls)"
proof -
  assume "seq_ok st"
  then have sc: "scan_seqs (scan_log st ls)" (is "scan_seqs ?sc") by (rule scan_seqs_log)
  have "mSeq (amend ?sc m) \<le> stNextSeq (scStore ?sc)" if "m \<in> set (loaded ?sc c)" for m c
    using sc that by (auto simp: scan_seqs_def seq_ok_def amend_def requeue_def amend_state_def amend_seq_def Let_def split: option.splits)
  with sc show ?thesis
    by (auto simp: load_log_def finish_log_def seq_ok_def scan_seqs_def conv_msgs_def Let_def split: if_splits)
qed

lemma load_files_give:
  assumes inj: "inj_on history_path C" "'''' \<notin> C" and s: "persisted C s" and ns: "distinct ns" "set ns \<subseteq> history_path ` C"
    and t: "dkHistory (stDisk t) = dkHistory (stDisk s)" "dkUnreadable (stDisk t) = []" "seq_ok t"
    and free: "\<And>c. c \<in> C \<Longrightarrow> history_path c \<in> set ns \<Longrightarrow> conv_msgs t c = []"
  shows "\<exists>r. load_files t ns = (r, None) \<and> seq_ok r
    \<and> (\<forall>c. if c \<in> C \<and> history_path c \<in> set ns then gives_back s r c else conv_msgs r c = conv_msgs t c)"
  using ns t free
proof (induction ns arbitrary: t)
  case (Cons n ns)
  obtain c0 where c0: "c0 \<in> C" "n = history_path c0" using Cons.prems(2) by auto
  let ?t = "load_log t (journal s c0)"
  have sc: "scan_ok t (scan_log t (journal s c0)) c0" "scanned (scan_log t (journal s c0)) c0 = kept s c0"
    using s c0 Cons.prems(6) [of c0] by (auto simp: persisted_def)
  have ne: "c0 \<noteq> ''''" using inj(2) c0(1) by auto
  have ok: "store_ok s" using s by (simp add: persisted_def)
  have t': "gives_back s ?t c0" "\<And>c. c \<noteq> c0 \<Longrightarrow> conv_msgs ?t c = conv_msgs t c" "stDisk ?t = stDisk t" "seq_ok ?t"
    using finish_log_gives [OF sc(1) ne ok sc(2)] seq_ok_load_log [OF Cons.prems(5)] by (simp_all add: load_log_def)
  have other: "c = c0" if "c \<in> C" "history_path c = n" for c using that inj(1) c0 by (auto dest: inj_onD)
  have "\<exists>r. load_files ?t ns = (r, None) \<and> seq_ok r
    \<and> (\<forall>c. if c \<in> C \<and> history_path c \<in> set ns then gives_back s r c else conv_msgs r c = conv_msgs ?t c)"
  proof (rule Cons.IH)
    show "conv_msgs ?t c = []" if "c \<in> C" "history_path c \<in> set ns" for c
    proof -
      have "c \<noteq> c0" using that Cons.prems(1) c0(2) by auto
      with t'(2) Cons.prems(6) [of c] that show ?thesis by simp
    qed
  qed (use Cons.prems t' in simp_all)
  then obtain r where r: "load_files ?t ns = (r, None)" "seq_ok r"
    "\<And>c. if c \<in> C \<and> history_path c \<in> set ns then gives_back s r c else conv_msgs r c = conv_msgs ?t c" by blast
  have "load_files t (n # ns) = (r, None)"
    using r(1) Cons.prems(3,4) by (simp add: journal_def c0(2))
  moreover have "if c \<in> C \<and> history_path c \<in> set (n # ns) then gives_back s r c else conv_msgs r c = conv_msgs t c" for c
  proof (cases "c = c0")
    case True
    have "conv_msgs r c0 = conv_msgs ?t c0" using r(3) [of c0] Cons.prems(1) c0 by simp
    then have "gives_back s r c0" using t'(1) by (simp add: gives_back_def)
    with True c0 show ?thesis by simp
  next
    case False
    with other r(3) [of c] t'(2) [of c] show ?thesis by auto
  qed
  ultimately show ?case using r(2) by blast
qed simp

lemma history_path_is_history [simp]: "is_history (history_path c)"
  by (simp add: is_history_def history_path_def trim_suffix_def)

lemma load_history_gives:
  assumes inj: "inj_on history_path C" "'''' \<notin> C" and s: "persisted C s"
    and t: "dkHistory (stDisk t) = dkHistory (stDisk s)" "dkUnreadable (stDisk t) = []" "stMsgs t = []"
  shows "\<exists>r. load_history t = (r, None) \<and> (\<forall>c. map strip (conv_msgs r c) = map strip (conv_msgs s c)) \<and> seq_ok r"
proof -
  have none: "conv_msgs t c = []" for c using t(3) by (simp add: conv_msgs_def)
  have ok: "store_ok s" using s by (simp add: persisted_def)
  let ?fs = "map fst (dkHistory (stDisk s))" and ?ns = "sort_by less_string (filter is_history (map fst (dkHistory (stDisk t))))"
  have files: "set ?fs \<subseteq> history_path ` C" "distinct ?fs" using s by (simp_all add: persisted_def files_of_def map_ok_def)
  then have "filter is_history ?fs = ?fs" by (auto simp: filter_id_conv)
  then have ns: "set ?ns = set ?fs" "mset ?ns = mset ?fs" unfolding t(1) by simp_all
  have "distinct ?ns" using files(2) ns(2) by (metis mset_eq_imp_distinct_iff)
  then obtain r where r: "load_files t ?ns = (r, None)" "seq_ok r"
    "\<And>c. if c \<in> C \<and> history_path c \<in> set ?ns then gives_back s r c else conv_msgs r c = conv_msgs t c"
    using load_files_give [OF inj s _ _ t(1,2), of ?ns] files(1) ns(1) none by (auto simp: seq_ok_def)
  have "gives_back s r c" for c
  proof (cases "c \<in> C \<and> history_path c \<in> set ?ns")
    case True
    with r(3) [of c] show ?thesis by simp
  next
    case False
    then have r0: "conv_msgs r c = []" using r(3) [of c] none by (auto split: if_splits)
    have "conv_msgs s c = []"
    proof (cases "c \<in> C")
      case True
      with False ns(1) have "history_path c \<notin> set ?fs" by blast
      then have "map_of (dkHistory (stDisk s)) (history_path c) = None" by (simp add: map_of_eq_None_iff)
      then have "journal s c = []" by (simp add: journal_def get_or_def)
      moreover have "scanned (scan_log t (journal s c)) c = kept s c"
        using s True none [of c] unfolding persisted_def by blast
      ultimately have "scanned (scan_log t []) c = kept s c" by simp
      then have "kept s c = (\<lambda>i. None)" using scan_log_Nil [OF none, of c] by simp
      then show ?thesis using kept_set [OF ok, of c] by simp
    next
      case False
      show ?thesis
      proof (rule ccontr)
        assume "conv_msgs s c \<noteq> []"
        then obtain m where m: "m \<in> set (conv_msgs s c)" by (cases "conv_msgs s c") auto
        then have "message_of s (mID m) = Some m" "mConv m = c" using store_okD(4) [OF ok m] by (simp_all add: message_of_Some [OF ok])
        with s False show False by (auto simp: persisted_def)
      qed
    qed
    with r0 show ?thesis by (simp add: gives_back_def ordered_by_def)
  qed
  then have "map strip (conv_msgs r c) = map strip (conv_msgs s c)" for c
    using strip_list_unique store_okD(2,3) [OF ok] by (simp add: gives_back_def)
  moreover have "load_history t = (r, None)" using r(1) by (simp add: load_history_def)
  ultimately show ?thesis using r(2) by blast
qed

lemma load_roster_reads:
  "dkRoster (stDisk t) \<noteq> Unreadable \<Longrightarrow> dkRoster (stDisk t) \<noteq> Corrupt \<Longrightarrow>
     \<exists>t'. load_roster t = (t', None) \<and> stDisk t' = stDisk t \<and> stMsgs t' = stMsgs t"
  by (cases "dkRoster (stDisk t)") (simp_all add: load_roster_def)

lemma load_prefs_reads:
  "dkPrefs (stDisk t) \<noteq> Unreadable \<Longrightarrow> dkPrefs (stDisk t) \<noteq> Corrupt \<Longrightarrow>
     \<exists>t'. load_prefs t = (t', None) \<and> stDisk t' = stDisk t \<and> stMsgs t' = stMsgs t"
  by (cases "dkPrefs (stDisk t)") (simp_all add: load_prefs_def)

lemma new_store_reads:
  assumes disk: "on_disk s"
  shows "\<exists>t. dkHistory (stDisk t) = dkHistory (stDisk s) \<and> dkUnreadable (stDisk t) = [] \<and> stMsgs t = []
    \<and> (\<forall>r. load_history t = (r, None) \<longrightarrow> new_store e fresh (stDir s) (stDisk s) = (Some r, None))"
proof -
  have d: "stDir s \<noteq> ''''" "dkRefuses (stDisk s) = []" "dkUnreadable (stDisk s) = []" using disk by (simp_all add: on_disk_def)
  obtain d1 i err where li: "load_identity e fresh (stDisk s) = (d1, i, err)" by (rule prod_cases3)
  then have ident: "load_identity e fresh (stDisk s) = (d1, i, None)" "dkHistory d1 = dkHistory (stDisk s)"
    "dkUnreadable d1 = []" "dkRoster d1 = dkRoster (stDisk s)" "dkPrefs d1 = dkPrefs (stDisk s)"
    using disk by (auto simp: load_identity_def mint_identity_def on_disk_def Let_def split: file_content.splits if_splits)
  let ?s0 = "\<lparr>stDir = stDir s, stSelf = i, stPeers = [], stMsgs = [], stSeen = [], stUnread = [],
      stNotify = default_notify_prefs, stNextSeq = 0, stDisk = d1\<rparr>"
  obtain s1 where s1: "load_roster ?s0 = (s1, None)" "stDisk s1 = d1" "stMsgs s1 = []"
    using load_roster_reads [of ?s0] disk ident(4) by (auto simp: on_disk_def)
  obtain s2 where s2: "load_prefs s1 = (s2, None)" "stDisk s2 = d1" "stMsgs s2 = []"
    using load_prefs_reads [of s1] disk ident(5) s1(2,3) by (auto simp: on_disk_def)
  have "new_store e fresh (stDir s) (stDisk s) = (Some r, None)" if "load_history s2 = (r, None)" for r
    using d ident(1) s1(1) s2(1) that by (simp add: new_store_def)
  with s2 ident(2,3) show ?thesis by (intro exI [of _ s2]) simp
qed

lemma new_store_empty:
  assumes "dir \<noteq> ''''" and "new_store e fresh dir empty_disk = (Some s0, None)"
  shows "persisted C s0" and "stDir s0 = dir"
proof -
  have s0: "stMsgs s0 = []" "stPeers s0 = []" "stSeen s0 = []" "stUnread s0 = []" "stNextSeq s0 = 0" "dkHistory (stDisk s0) = []"
    "stDir s0 = dir" "dkRefuses (stDisk s0) = []" "dkUnreadable (stDisk s0) = []" "dkRoster (stDisk s0) = Absent"
    "dkPrefs (stDisk s0) = Absent" "\<exists>i. dkIdentity (stDisk s0) = Content i"
    using assms by (auto simp: new_store_def load_identity_def mint_identity_def load_roster_def load_prefs_def load_history_def
        empty_disk_def Let_def split: if_splits)
  then have ok: "store_ok s0" by (simp add: store_ok_defs conv_msgs_def have_message_def unread_def peers_ok_def ordered_by_def)
  have none: "message_of s0 i = None" for i
  proof -
    have "conv_msgs s0 c = []" for c using s0(1) by (simp add: conv_msgs_def)
    then show ?thesis using message_of_Some [OF ok, of i] by (cases "message_of s0 i") auto
  qed
  have "on_disk s0" using s0 assms(1) by (auto simp: on_disk_def)
  moreover have "journal s0 c = []" for c using s0(6) by (simp add: journal_def get_or_def)
  ultimately show "persisted C s0"
    using ok s0(6) scan_log_Nil none by (auto simp: persisted_def files_of_def kept_def)
  show "stDir s0 = dir" by (rule s0)
qed

lemma store_step_dir: "stDir (store_step e fresh s op) = stDir s"
proof (cases op)
  case (OpAppend now m)
  then show ?thesis by (simp add: store_step_def append_message_def Let_def case_prod_beta append_line_def file_message_fields)
next
  case (OpSetState i st)
  then show ?thesis by (simp add: store_step_def set_state_def Let_def append_state_def split: option.splits)
next
  case (OpConfirm i q)
  then show ?thesis by (simp add: store_step_def confirm_def Let_def split: option.splits)
next
  case (OpMarkRead c)
  then show ?thesis by (simp add: store_step_def mark_read_def Let_def append_read_def)
qed (simp_all add: store_step_def put_peer_def set_presence_def block_peer_def set_self_def join_room_def leave_room_def
    set_notify_prefs_def save_roster_def save_identity_def save_prefs_def Let_def case_prod_beta split: option.splits)

text \<open>
  C4: a restart loses nothing. A store begun on an empty disk, after any operations on conversations whose
  files have different names, opens again, and shows every conversation with the same messages in the same order:
  each with its text, sender, time, sequence number and state, a message that was being sent as queued. Only whether
  a message was read may differ. The counter goes on from no number that is taken.
\<close>

theorem restart_keeps_history:
  assumes "inj_on history_path C" and "'''' \<notin> C" and "dir \<noteq> ''''" and "new_store e fresh dir empty_disk = (Some s0, None)"
    and "\<forall>op \<in> set ops. op_within C op" and "s = foldl (store_step e fresh) s0 ops"
  shows "\<exists>s'. new_store e' fresh' dir (stDisk s) = (Some s', None)
    \<and> (\<forall>c. map strip (conv_msgs s' c) = map strip (conv_msgs s c))
    \<and> (\<forall>c. \<forall>m \<in> set (conv_msgs s' c). mSeq m \<le> stNextSeq s')"
proof -
  have "persisted C (foldl (store_step e fresh) s0 ops) \<and> stDir (foldl (store_step e fresh) s0 ops) = dir"
    using assms(5)
  proof (induction ops rule: rev_induct)
    case (snoc op ops)
    then show ?case using persisted_step [OF assms(1), of _ op e fresh] by (simp add: store_step_dir)
  qed (use new_store_empty [OF assms(3,4)] in simp)
  then have s: "persisted C s" "stDir s = dir" by (simp_all add: assms(6))
  then have disk: "on_disk s" by (simp add: persisted_def)
  obtain t where t: "dkHistory (stDisk t) = dkHistory (stDisk s)" "dkUnreadable (stDisk t) = []" "stMsgs t = []"
    and open_t: "\<And>r. load_history t = (r, None) \<Longrightarrow> new_store e' fresh' (stDir s) (stDisk s) = (Some r, None)"
    using new_store_reads [OF disk] by blast
  obtain r where r: "load_history t = (r, None)" "\<And>c. map strip (conv_msgs r c) = map strip (conv_msgs s c)" "seq_ok r"
    using load_history_gives [OF assms(1,2) s(1) t] by blast
  with open_t [OF r(1)] s(2) show ?thesis by (auto simp: seq_ok_def)
qed

definition kept_store :: store where
  "kept_store = the (fst (new_store demo_id_env ''0'' ''/d'' empty_disk))"

definition kept_ops :: "store_op list" where
  "kept_ops = [OpAppend 9 sending_memo, OpSetState ''a'' StateSending, OpAppend 9 (memo ''b'' 3 6)]"

definition opened :: "store option \<times> store_error option \<Rightarrow> bool" where
  "opened r \<longleftrightarrow> fst r \<noteq> None \<and> snd r = None"

lemma kept_store_opened: "opened (new_store demo_id_env ''0'' ''/d'' empty_disk)"
  by code_simp

lemma kept_store_ids:
  "map mID (conv_msgs (foldl (store_step demo_id_env ''0'') kept_store kept_ops) ''room:a'') = [''b'', ''a'']"
  by code_simp

theorem restart_keeps_history_witness:
  "\<exists>s'. new_store demo_id_env ''0'' ''/d'' (stDisk (foldl (store_step demo_id_env ''0'') kept_store kept_ops)) = (Some s', None)
     \<and> map mID (conv_msgs s' ''room:a'') = [''b'', ''a'']"
proof -
  let ?s = "foldl (store_step demo_id_env ''0'') kept_store kept_ops"
  have new: "new_store demo_id_env ''0'' ''/d'' empty_disk = (Some kept_store, None)"
    using kept_store_opened by (auto simp: opened_def kept_store_def prod_eq_iff)
  have ops: "\<forall>op \<in> set kept_ops. op_within {''room:a''} op"
    by (simp add: kept_ops_def op_within_def sending_memo_def memo_def zero_message_def)
  obtain s' where s': "new_store demo_id_env ''0'' ''/d'' (stDisk ?s) = (Some s', None)"
    "map strip (conv_msgs s' ''room:a'') = map strip (conv_msgs ?s ''room:a'')"
    using restart_keeps_history [OF _ _ _ new ops refl, where e' = demo_id_env and fresh' = "''0''"] by auto
  have ids: "map mID (map strip l) = map mID l" for l by (simp add: comp_def)
  have "map mID (conv_msgs s' ''room:a'') = map mID (map strip (conv_msgs s' ''room:a''))" by (rule ids [symmetric])
  also have "\<dots> = map mID (conv_msgs ?s ''room:a'')" unfolding s'(2) by (rule ids)
  also have "\<dots> = [''b'', ''a'']" by (rule kept_store_ids)
  finally have "map mID (conv_msgs s' ''room:a'') = [''b'', ''a'']" .
  with s'(1) show ?thesis by (intro exI [of _ s'] conjI)
qed

end
