(* ===== verification/Divergences.thy ===== *)
theory Divergences
  imports Restart FileProperties RpcProperties ServerFacts
begin

text \<open>
  Where the code does something other than what its comments, documents or tests say, or than it means to: each
  lemma shows the behaviour of the model on such an input, most of them for every such input.
\<close>

section \<open>The store's files\<close>

lemma dot_is_folded: "history_path ''room:v1.2'' = history_path ''room:v1_2''"
  by code_simp

lemma rooms_share_a_file: "history_path (''room:'' @ [CHR 0xC3, CHR 0xA9]) = history_path (''room:'' @ [CHR 0xC3, CHR 0xA8])"
  by code_simp

text \<open>A preference that is on by default and switched off is on again after a restart.\<close>

lemma mentions_come_back:
  assumes "dkPrefs (stDisk t) = Content (prefs_fields p)" and "stNotify t = default_notify_prefs"
  shows "nMentions (stNotify (fst (load_prefs t)))"
  using assms by (simp add: load_prefs_def prefs_fields_def default_notify_prefs_def set_pref_def)

text \<open>A read line stands for the whole file: what was filed after it is read too.\<close>

lemma read_line_reads_later:
  assumes "scRead sc" and "m \<in> set (conv_msgs (finish_log sc) (scConv sc))" and "scConv sc \<noteq> ''''"
  shows "mRead m"
  using assms by (auto simp: finish_log_def conv_msgs_def amend_def Let_def split: if_splits)

section \<open>The server\<close>

text \<open>A presence frame with a nickname and a colour changes neither.\<close>

lemma presence_keeps_nick:
  assumes "peer_of (svStore s) (ccPeer c) = Some p" and "ccPeer c \<noteq> ''''"
  shows "map_option pNick (peer_of (svStore (on_presence now s c f)) (ccPeer c)) = Some (pNick p)"
proof -
  have "svStore (broadcast_peer t i) = svStore t" for t i by (rule sends_only_fields(1)) simp
  then have "svStore (on_presence now s c f)
      = fst (put_peer (svStore s) (zero_peer\<lparr>pID := ccPeer c, pPresence := presence_valid (fPresence f), pLastSeen := now\<rparr>))"
    by (simp add: on_presence_def Let_def with_store_def)
  with assms show ?thesis by (simp add: peer_of_def put_peer_peers merge_peer_fields get_or_def zero_peer_def)
qed

section \<open>The client\<close>

text \<open>An offer with the id of a transfer in the table takes its place, whoever's that was.\<close>

lemma offer_overwrites:
  assumes "fTransfer f \<noteq> ''''" "fFrom f \<noteq> ''''" "0 \<le> fSize f" "fSize f \<le> max_transfer_bytes"
    and "\<not> blocked (dmStore d) (fFrom f)" and "xfer_active d (fFrom f) < max_open_transfers"
  shows "xfer_get (got_offer w d f) (fTransfer f) = Some (incoming w f)"
proof -
  have "tID (incoming w f) = fTransfer f" by (simp add: incoming_def new_transfer_def Let_def)
  then show ?thesis
    using assms by (auto simp: got_offer_def Let_def xfer_get_def xfer_put_def not_less not_le)
qed

text \<open>A done frame completes an incoming transfer nobody accepted.\<close>

lemma done_without_accept:
  assumes "xfer_get d (fTransfer f) = Some t" and "tIncoming t" and "tState t = TransferIncoming" and "tPath t = ''''"
  shows "\<exists>u. xfer_get (got_done w d f) (fTransfer f) = Some u \<and> tState u = TransferDone \<and> tPath u = ''''"
  using assms
  by (simp add: got_done_def digest_ok_def xfer_get_def xfer_update_def finish_receive_def Let_def)

text \<open>Declining a transfer that is done removes the file it left.\<close>

lemma decline_removes_saved:
  assumes "xfer_get d i = Some t" and "tIncoming t" and "tState t = TransferDone" and "tPath t \<noteq> ''''"
  shows "map_of (fsFiles (dmFS (fst (daemon_decline w d i r)))) (tPath t) = None"
  using assms by (simp add: daemon_decline_def cancel_transfer_def xfer_update_def xfer_get_def Let_def case_prod_beta
      remove_file_def)

text \<open>A file whose checksum was wrong is removed, but its transfer keeps the path, and declining it removes what is there then.\<close>

lemma failed_keeps_path:
  assumes "xfer_get d (fTransfer f) = Some t" and "tIncoming t" and "\<not> digest_ok w (fst (take_file d (fTransfer f))) t"
  shows "\<exists>u. xfer_get (got_done w d f) (fTransfer f) = Some u \<and> tState u = TransferFailed \<and> tPath u = tPath t"
  using assms by (simp add: got_done_def xfer_get_def fail_update_def Let_def)

text \<open>A refusal from the server leaves the message it is about in the queue.\<close>

lemma refusal_keeps_queue: "dmStore (apply_frame w d (f\<lparr>fType := frame_error\<rparr>)) = dmStore d"
  by (simp add: apply_frame_def frame_type_defs got_error_def)

lemma backoff_past_ten: "foldl (\<lambda>t woken. next_wait woken t) first_wait (replicate 6 False) = 16 * second_ns"
  by code_simp

lemma ipv6_bracketed_twice: "normalize_addr ''[::1]'' = ''[[::1]]:47772''"
  by code_simp

text \<open>A message whose line cannot be written is reported as not sent, and is queued.\<close>

lemma unsaved_is_queued:
  assumes "daemon_send w d conv body = (d1, Inl (StoreFailed DiskError))" and "store_ok (dmStore d)"
  shows "\<exists>m :: message. have_message (dmStore d1) (mID m) \<and> mConv m = conv \<and> mState m = StateQueued"
proof -
  let ?m = "composed w d conv (trim_right_space body)"
  have "conv \<noteq> ''''" "d1 = with_dstore d (fst (append_message (wNow w) (dmStore d) ?m))"
    using assms(1) by (auto simp: daemon_send_def Let_def split: if_splits prod.splits option.splits)
  moreover have "mID ?m \<noteq> ''''" "mConv ?m = conv" "mState ?m = StateQueued"
    by (simp_all add: composed_def new_message_id_def)
  ultimately show ?thesis by (intro exI [of _ ?m]) (auto simp: have_append fileable_def)
qed

end
