(* ===== verification/Client.thy ===== *)
theory Client
  imports Rpc
begin

text \<open>
  The model of \<open>chat/client.go\<close>: the front ends' side of the local socket. A call is a goroutine that
  writes a request and waits on a channel of its own; the model names the channel by the call's id. \<open>clWaiting\<close>
  are the calls that wait, \<open>clPending\<close> the ids of the map \<open>pending\<close>, \<open>clChan\<close> the channels that hold an
  answer. Dialling, the lines of the daemon and the passing of time are inputs. The methods are given over
  any way of asking the daemon, because the front ends need no more of it.
\<close>

section \<open>Numbers in JSON\<close>

text \<open>What \<open>encoding/json\<close> makes of a natural number: the nearest \<open>float64\<close>, ties to even.\<close>

fun bit_length :: "nat \<Rightarrow> nat" where
  "bit_length n = (if n = 0 then 0 else Suc (bit_length (n div 2)))"

declare bit_length.simps [simp del]

definition round_even :: "nat \<Rightarrow> nat \<Rightarrow> nat" where
  "round_even n d = (let q = n div d; r = n mod d
     in if 2 * r < d then q else if d < 2 * r then Suc q else if even q then q else Suc q)"

definition float64 :: "nat \<Rightarrow> nat" where
  "float64 n = (if bit_length n \<le> 53 then n
     else (let d = 2 ^ (bit_length n - 53) in round_even n d * d))"

datatype json_value =
  JFloat int | JNumber "int option" | JInt int | JInt64 int | JUint64 uint64 | JOther

definition json_number :: "json_value \<Rightarrow> uint64 option" where
  "json_number v = (case v of
      JFloat n \<Rightarrow> Some (word_of_int n)
    | JNumber u \<Rightarrow> map_option word_of_int u
    | JInt n \<Rightarrow> Some (word_of_int n)
    | JInt64 n \<Rightarrow> Some (word_of_int n)
    | JUint64 n \<Rightarrow> Some n
    | JOther \<Rightarrow> None)"

section \<open>State\<close>

definition err_closed :: int where "err_closed = - 32001"

datatype call_outcome = Returned rpc_response | TimedOut

text \<open>
  A connection is a number. \<open>clReaders\<close> are the connections whose read loop runs, \<open>clRedial\<close> the wait of
  the redialling goroutine, if there is one. \<open>clSent\<close>, \<open>clEvents\<close>, \<open>clStates\<close> and \<open>clDone\<close> are logs: the requests
  written, the calls of the event handler and of the state handler, and the calls that have returned.
\<close>

record client =
  clSocket :: string
  clConn :: "nat option"
  clReaders :: "nat list"
  clPending :: "uint64 list"
  clWaiting :: "uint64 list"
  clChan :: "(uint64 \<times> rpc_response) list"
  clNext :: uint64
  clSink :: bool
  clOnState :: bool
  clRedialOn :: bool
  clClosed :: bool
  clUp :: bool
  clRedial :: "int option"
  clSent :: "(nat \<times> uint64 \<times> rpc_call) list"
  clEvents :: "event list"
  clStates :: "bool list"
  clDone :: "(uint64 \<times> call_outcome) list"

definition zero_client :: "string \<Rightarrow> client" where
  "zero_client socket = \<lparr>clSocket = socket, clConn = None, clReaders = [], clPending = [], clWaiting = [], clChan = [],
     clNext = 0, clSink = False, clOnState = False, clRedialOn = False, clClosed = False, clUp = False, clRedial = None,
     clSent = [], clEvents = [], clStates = [], clDone = []\<rparr>"

section \<open>Connecting\<close>

definition dial_error :: "client \<Rightarrow> string \<Rightarrow> string" where
  "dial_error c e = ''chat: dial '' @ clSocket c @ '': '' @ e @ '' (is comms-chat-lan-clientd running?)''"

text \<open>\<open>connect\<close>, over the outcome of dialling: the text of an error or the new connection.\<close>

definition client_connect :: "client \<Rightarrow> string + nat \<Rightarrow> client \<times> string option" where
  "client_connect c outcome = (case outcome of
      Inl e \<Rightarrow> (c, Some (dial_error c e))
    | Inr k \<Rightarrow> (c\<lparr>clConn := Some k, clUp := True, clReaders := clReaders c @ [k]\<rparr>, None))"

definition dial :: "string \<Rightarrow> string \<Rightarrow> string + nat \<Rightarrow> string + client" where
  "dial socket default_socket outcome =
    (let c = zero_client (if socket = '''' then default_socket else socket) in
     case client_connect c outcome of
       (_, Some e) \<Rightarrow> Inl e
     | (c', None) \<Rightarrow> Inr c')"

text \<open>
  \<open>DialWait\<close>, over the outcomes of dialling and the time after each; with no outcome left it is
  still trying.
\<close>

fun dial_wait :: "string \<Rightarrow> string \<Rightarrow> gotime \<Rightarrow> (string + nat) list \<Rightarrow> gotime list \<Rightarrow> (string + client) option" where
  "dial_wait socket default_socket deadline (o1 # os) (t # ts) =
     (case dial socket default_socket o1 of
        Inr c \<Rightarrow> Some (Inr c)
      | Inl e \<Rightarrow> (if \<not> t < deadline then Some (Inl e) else dial_wait socket default_socket deadline os ts))"
| "dial_wait socket default_socket deadline _ _ = None"

definition client_connected :: "client \<Rightarrow> bool" where
  "client_connected c \<longleftrightarrow> clUp c \<and> \<not> clClosed c"

definition auto_reconnect :: "client \<Rightarrow> client" where
  "auto_reconnect c = c\<lparr>clOnState := True, clRedialOn := True\<rparr>"

definition close_client :: "client \<Rightarrow> client" where
  "close_client c = c\<lparr>clClosed := True, clConn := None\<rparr>"

definition on_client_event :: "client \<Rightarrow> client" where
  "on_client_event c = c\<lparr>clSink := True\<rparr>"

definition tell_state :: "client \<Rightarrow> bool \<Rightarrow> client" where
  "tell_state c up = (if clOnState c then c\<lparr>clStates := clStates c @ [up]\<rparr> else c)"

section \<open>Calls\<close>

definition closed_response :: rpc_response where
  "closed_response = Inl (err_closed, Because ''comms-chat-lan-clientd: the connection closed'')"

definition call_timeout :: "string \<Rightarrow> int" where
  "call_timeout m = (if m = ''files.offer'' then 300 * second_ns else 20 * second_ns)"

text \<open>
  \<open>call\<close> up to its wait: the client after it and the error it returns at once, if any. \<open>werr\<close> is the
  error of writing the request.
\<close>

definition start_call :: "client \<Rightarrow> rpc_call \<Rightarrow> string option \<Rightarrow> client \<times> string option" where
  "start_call c rc werr =
    (if clClosed c then (c, Some ''chat: the client is closed'')
     else (let i = clNext c + 1; c1 = c\<lparr>clNext := i\<rparr> in
       case clConn c1 of
         None \<Rightarrow> (c1, Some ''chat: not connected to comms-chat-lan-clientd'')
       | Some k \<Rightarrow>
          (case werr of
             Some e \<Rightarrow> (c1\<lparr>clPending := removeAll i (clPending c1)\<rparr>, Some e)
           | None \<Rightarrow> (c1\<lparr>clPending := removeAll i (clPending c1) @ [i], clWaiting := clWaiting c1 @ [i],
                clSent := clSent c1 @ [(k, i, rc)]\<rparr>, None))))"

text \<open>The two ends of the wait: an answer is in the channel, or the timer has fired.\<close>

definition take_answer :: "client \<Rightarrow> uint64 \<Rightarrow> client" where
  "take_answer c i = (if i \<notin> set (clWaiting c) then c
     else (case map_of (clChan c) i of
         None \<Rightarrow> c
       | Some resp \<Rightarrow> c\<lparr>clWaiting := removeAll i (clWaiting c), clChan := AList.delete i (clChan c),
            clDone := clDone c @ [(i, Returned resp)]\<rparr>))"

definition time_out :: "client \<Rightarrow> uint64 \<Rightarrow> client" where
  "time_out c i = (if i \<notin> set (clWaiting c) then c
     else c\<lparr>clWaiting := removeAll i (clWaiting c), clPending := removeAll i (clPending c),
       clChan := AList.delete i (clChan c), clDone := clDone c @ [(i, TimedOut)]\<rparr>)"

section \<open>Reading\<close>

definition deliver :: "client \<Rightarrow> json_value \<Rightarrow> rpc_response \<Rightarrow> client" where
  "deliver c v resp = (case json_number v of
      None \<Rightarrow> c
    | Some i \<Rightarrow> (if i \<in> set (clPending c)
        then c\<lparr>clPending := removeAll i (clPending c), clChan := AList.update i resp (clChan c)\<rparr> else c))"

text \<open>
  One line of the daemon: nothing, something that is not JSON of either form, an event with what its
  parameters decode to, or a response.
\<close>

datatype client_line = BlankLine | BadLine | EventLine string event | ResponseLine json_value rpc_response

definition client_read :: "client \<Rightarrow> client_line \<Rightarrow> client" where
  "client_read c l = (case l of
      BlankLine \<Rightarrow> c
    | BadLine \<Rightarrow> c
    | EventLine method ev \<Rightarrow> (if clSink c then c\<lparr>clEvents := clEvents c @ [ev\<lparr>evKind := method\<rparr>]\<rparr> else c)
    | ResponseLine v resp \<Rightarrow> deliver c v resp)"

definition release_all :: "client \<Rightarrow> client" where
  "release_all c = c\<lparr>clPending := [], clUp := False,
     clChan := clChan c @ map (\<lambda>i. (i, closed_response)) (filter (\<lambda>i. map_of (clChan c) i = None) (clPending c))\<rparr>"

definition first_redial :: int where "first_redial = 100000000"

definition dropped :: "client \<Rightarrow> nat \<Rightarrow> client" where
  "dropped c k =
    (if clConn c \<noteq> Some k then c
     else (let c1 = release_all c in
       if clClosed c1 then c1
       else (let c2 = tell_state c1 False in
         if clRedialOn c2 then c2\<lparr>clRedial := Some first_redial\<rparr> else c2)))"

text \<open>A read loop ends: the connection broke, or a line was too long.\<close>

definition reader_ends :: "client \<Rightarrow> nat \<Rightarrow> client" where
  "reader_ends c k = (if k \<in> set (clReaders c) then dropped (c\<lparr>clReaders := removeAll k (clReaders c)\<rparr>) k else c)"

text \<open>One turn of \<open>redial\<close>, after its sleep.\<close>

definition next_redial :: "int \<Rightarrow> int" where
  "next_redial t = (if t < 5 * second_ns then t * 2 else t)"

definition redial_turn :: "client \<Rightarrow> string + nat \<Rightarrow> client" where
  "redial_turn c outcome = (case clRedial c of
      None \<Rightarrow> c
    | Some t \<Rightarrow>
       (if clClosed c then c\<lparr>clRedial := None\<rparr>
        else (case client_connect c outcome of
            (c1, Some _) \<Rightarrow> c1\<lparr>clRedial := Some (next_redial t)\<rparr>
          | (c1, None) \<Rightarrow> tell_state (c1\<lparr>clRedial := None\<rparr>) True)))"

section \<open>The client as a machine\<close>

datatype client_event =
  StartCall rpc_call "string option"
| TakeAnswer uint64
| TimeOut uint64
| ReadLine nat client_line
| ReaderEnds nat
| RedialTurn "string + nat"
| SetHandler
| SetReconnect
| CloseClient

definition client_step :: "client \<Rightarrow> client_event \<Rightarrow> client" where
  "client_step c e = (case e of
      StartCall rc werr \<Rightarrow> fst (start_call c rc werr)
    | TakeAnswer i \<Rightarrow> take_answer c i
    | TimeOut i \<Rightarrow> time_out c i
    | ReadLine k l \<Rightarrow> (if k \<in> set (clReaders c) then client_read c l else c)
    | ReaderEnds k \<Rightarrow> reader_ends c k
    | RedialTurn outcome \<Rightarrow> redial_turn c outcome
    | SetHandler \<Rightarrow> on_client_event c
    | SetReconnect \<Rightarrow> auto_reconnect c
    | CloseClient \<Rightarrow> close_client c)"

end
