(* ===== verification/Numbers.thy ===== *)
theory Numbers
  imports GoStrings
begin

text \<open>
  Reading decimal numbers, as \<open>strconv.ParseInt\<close> in base ten at 64 bits and \<open>strconv.Atoi\<close> do, and that
  they read back what \<open>strconv.Itoa\<close> writes. The window's preferences, the server's port and the
  client's request identifiers share it.
\<close>

definition is_digit :: "char \<Rightarrow> bool" where
  "is_digit c \<longleftrightarrow> 48 \<le> (of_char c :: nat) \<and> of_char c \<le> (57 :: nat)"

definition digits_value :: "string \<Rightarrow> nat" where
  "digits_value s = foldl (\<lambda>a c. a * 10 + (of_char c - 48)) 0 s"

definition parse_int64 :: "string \<Rightarrow> int option" where
  "parse_int64 s =
    (let neg = (s \<noteq> '''' \<and> hd s = CHR ''-'');
         ds = (if s \<noteq> '''' \<and> (hd s = CHR ''-'' \<or> hd s = CHR ''+'') then tl s else s);
         n = (if neg then - int (digits_value ds) else int (digits_value ds))
     in if ds \<noteq> '''' \<and> list_all is_digit ds \<and> - (2 ^ 63) \<le> n \<and> n < 2 ^ 63 then Some n else None)"

lemma digit_char: "n < 10 \<Longrightarrow> (of_char (char_of (48 + n) :: char) :: nat) = 48 + n"
  by simp

lemma digits_value_decimal [simp]: "digits_value (decimal n) = n"
proof (induction n rule: decimal.induct)
  case (1 n)
  show ?case
  proof (cases "n < 10")
    case True
    then show ?thesis by (simp add: decimal.simps [of n] digits_value_def)
  next
    case False
    with 1 have "foldl (\<lambda>a c. a * 10 + (of_char c - 48)) 0 (decimal (n div 10)) = n div 10" by (simp add: digits_value_def)
    then show ?thesis using False digit_char [of "n mod 10"] by (simp add: decimal.simps [of n] digits_value_def)
  qed
qed

lemma decimal_digits: "decimal n \<noteq> '''' \<and> list_all is_digit (decimal n)"
proof (induction n rule: decimal.induct)
  case (1 n)
  then show ?case using digit_char [of n] digit_char [of "n mod 10"]
    by (cases "n < 10") (simp_all add: decimal.simps [of n] is_digit_def)
qed

lemma parse_int64_decimal:
  assumes "- (2 ^ 63) \<le> i" "i < 2 ^ 63"
  shows "parse_int64 (decimal_int i) = Some i"
proof -
  have "is_digit (hd (decimal (nat i)))" using decimal_digits [of "nat i"] by (cases "decimal (nat i)") auto
  hence "hd (decimal (nat i)) \<noteq> CHR ''-''" "hd (decimal (nat i)) \<noteq> CHR ''+''" by (auto simp: is_digit_def)
  thus ?thesis using assms decimal_digits by (auto simp: parse_int64_def decimal_int_def Let_def)
qed

end
