(* ===== verification/ClientProperties.thy ===== *)
theory ClientProperties
  imports Client RpcProperties Numbers
begin

text \<open>
  The properties of the front ends' client: a call returns once and with its own answer, a broken connection
  leaves nobody waiting, the client comes back by itself, and a call through the socket is answered what the
  daemon's dispatch answers.
\<close>

section \<open>The invariant of the calls\<close>

text \<open>
  Every call that waits is in the table or has its answer in its channel, never both; no id is used again, so a
  call that has returned is none that waits.
\<close>

definition calls_ok :: "client \<Rightarrow> bool" where
  "calls_ok c \<longleftrightarrow> distinct (clPending c) \<and> distinct (clWaiting c) \<and> distinct (map fst (clDone c))
     \<and> (\<forall>i. i \<in> set (clWaiting c) \<longleftrightarrow> i \<in> set (clPending c) \<or> map_of (clChan c) i \<noteq> None)
     \<and> (\<forall>i \<in> set (clPending c). map_of (clChan c) i = None)
     \<and> (\<forall>i \<in> set (clWaiting c). i \<notin> fst ` set (clDone c) \<and> i \<le> clNext c)
     \<and> (\<forall>i \<in> fst ` set (clDone c). i \<le> clNext c)"

definition calls_fit :: "nat \<Rightarrow> client \<Rightarrow> bool" where
  "calls_fit n c \<longleftrightarrow> calls_ok c \<and> unat (clNext c) + n < 2 ^ 64"

lemma calls_okD:
  assumes "calls_ok c"
  shows "distinct (clPending c)" "distinct (clWaiting c)" "distinct (map fst (clDone c))"
    "\<And>i. i \<in> set (clWaiting c) \<longleftrightarrow> i \<in> set (clPending c) \<or> map_of (clChan c) i \<noteq> None"
    "\<And>i. i \<in> set (clPending c) \<Longrightarrow> map_of (clChan c) i = None"
    "\<And>i. i \<in> set (clWaiting c) \<Longrightarrow> i \<notin> fst ` set (clDone c)"
    "\<And>i. i \<in> set (clWaiting c) \<Longrightarrow> i \<le> clNext c" "\<And>i. i \<in> fst ` set (clDone c) \<Longrightarrow> i \<le> clNext c"
  using assms unfolding calls_ok_def by blast+

text \<open>What does not touch the calls.\<close>

lemma calls_ok_other:
  assumes "calls_ok c" and "clPending c' = clPending c" "clWaiting c' = clWaiting c" "clChan c' = clChan c"
    "clDone c' = clDone c" "clNext c' = clNext c"
  shows "calls_ok c'"
  using assms(1) unfolding calls_ok_def assms(2-6) .

lemma tell_state_fields [simp]:
  "clPending (tell_state c b) = clPending c" "clWaiting (tell_state c b) = clWaiting c" "clChan (tell_state c b) = clChan c"
  "clDone (tell_state c b) = clDone c" "clNext (tell_state c b) = clNext c" "clRedialOn (tell_state c b) = clRedialOn c"
  "clClosed (tell_state c b) = clClosed c" "clUp (tell_state c b) = clUp c" "clConn (tell_state c b) = clConn c"
  "clReaders (tell_state c b) = clReaders c" "clOnState (tell_state c b) = clOnState c" "clRedial (tell_state c b) = clRedial c"
  "clStates (tell_state c b) = clStates c @ (if clOnState c then [b] else [])" "clSocket (tell_state c b) = clSocket c"
  "clSent (tell_state c b) = clSent c"
  by (simp_all add: tell_state_def)

lemma next_grows: "unat (q :: uint64) + Suc n < 2 ^ 64 \<Longrightarrow> q < q + 1 \<and> unat (q + 1) = Suc (unat q)"
proof -
  assume "unat q + Suc n < 2 ^ 64"
  then have "unat (q + 1) = Suc (unat q)" by (simp add: unat_word_ariths)
  then show ?thesis by (simp add: word_less_nat_alt)
qed

lemma calls_fit_start:
  assumes "calls_fit (Suc n) c"
  shows "calls_fit n (fst (start_call c rc werr))"
proof -
  let ?i = "clNext c + 1"
  have ok: "calls_ok c" and q: "clNext c < ?i" "unat ?i = Suc (unat (clNext c))"
    using assms next_grows [of "clNext c" n] by (auto simp: calls_fit_def)
  have fresh: "?i \<notin> set (clWaiting c)" "?i \<notin> fst ` set (clDone c)"
    using calls_okD(7,8) [OF ok] q(1) by (meson leD)+
  then have out: "?i \<notin> set (clPending c)" "map_of (clChan c) ?i = None" using calls_okD(4) [OF ok, of ?i] by auto
  have le: "i \<le> ?i" if "i \<le> clNext c" for i using that q(1) by simp
  have later: "calls_ok (c\<lparr>clNext := ?i\<rparr>)"
    using ok le unfolding calls_ok_def by simp
  moreover have "calls_ok (c\<lparr>clNext := ?i, clPending := clPending c @ [?i], clWaiting := clWaiting c @ [?i], clSent := sent\<rparr>)" for sent
    using later fresh out unfolding calls_ok_def by (simp; blast)
  ultimately have "calls_ok (fst (start_call c rc werr))"
    using ok out by (simp add: start_call_def Let_def removeAll_id split: option.splits)
  moreover have "unat (clNext (fst (start_call c rc werr))) \<le> Suc (unat (clNext c))"
    using q by (simp add: start_call_def Let_def split: option.splits)
  ultimately show ?thesis using assms by (simp add: calls_fit_def)
qed

lemma calls_ok_take: "calls_ok c \<Longrightarrow> calls_ok (take_answer c i)"
  unfolding calls_ok_def take_answer_def by (auto simp: distinct_removeAll split: option.splits)

lemma calls_ok_time_out: "calls_ok c \<Longrightarrow> calls_ok (time_out c i)"
  unfolding calls_ok_def time_out_def by (auto simp: distinct_removeAll)

lemma calls_ok_deliver: "calls_ok c \<Longrightarrow> calls_ok (deliver c v resp)"
  unfolding calls_ok_def deliver_def by (auto simp: distinct_removeAll split: option.splits)

lemma release_all_chan:
  assumes "calls_ok c"
  shows "map_of (clChan (release_all c)) i
    = (if i \<in> set (clPending c) then Some closed_response else map_of (clChan c) i)"
proof -
  have "filter (\<lambda>i. map_of (clChan c) i = None) (clPending c) = clPending c"
    using calls_okD(5) [OF assms] by (simp add: filter_id_conv)
  moreover have "map_of (map (\<lambda>i. (i, closed_response)) ks) i = (if i \<in> set ks then Some closed_response else None)" for ks
    by (induction ks) auto
  ultimately show ?thesis
    using calls_okD(5) [OF assms] by (auto simp: release_all_def map_add_def split: option.splits)
qed

lemma calls_ok_release: "calls_ok c \<Longrightarrow> calls_ok (release_all c)"
proof -
  assume ok: "calls_ok c"
  have "clPending (release_all c) = []" "clWaiting (release_all c) = clWaiting c" "clDone (release_all c) = clDone c"
    "clNext (release_all c) = clNext c" by (simp_all add: release_all_def)
  with ok release_all_chan [OF ok] show ?thesis unfolding calls_ok_def by auto
qed

lemma calls_ok_dropped: "calls_ok c \<Longrightarrow> calls_ok (dropped c k)"
proof -
  assume ok: "calls_ok c"
  then have "calls_ok (release_all c)" by (rule calls_ok_release)
  then have "calls_ok c'" if "clPending c' = clPending (release_all c)" "clWaiting c' = clWaiting (release_all c)"
    "clChan c' = clChan (release_all c)" "clDone c' = clDone (release_all c)" "clNext c' = clNext (release_all c)" for c'
    using that by (rule calls_ok_other)
  with ok show ?thesis by (simp add: dropped_def Let_def)
qed

lemma calls_next: "clNext (take_answer c i) = clNext c" "clNext (time_out c i) = clNext c" "clNext (deliver c v r) = clNext c"
  "clNext (client_read c l) = clNext c" "clNext (dropped c k) = clNext c" "clNext (reader_ends c k) = clNext c"
  "clNext (redial_turn c oc) = clNext c" "clNext (fst (client_connect c oc)) = clNext c"
  by (simp_all add: take_answer_def time_out_def deliver_def client_read_def dropped_def release_all_def reader_ends_def
      redial_turn_def client_connect_def Let_def split: option.splits client_line.splits sum.splits)

lemma calls_ok_step_other: "\<forall>rc werr. e \<noteq> StartCall rc werr \<Longrightarrow> calls_ok c \<Longrightarrow> calls_ok (client_step c e)"
proof (cases e)
  case (ReadLine k l)
  assume "calls_ok c"
  then show ?thesis using ReadLine
    by (cases l) (auto simp: client_step_def client_read_def calls_ok_deliver intro: calls_ok_other)
next
  case (ReaderEnds k)
  assume "calls_ok c"
  then have "calls_ok (c\<lparr>clReaders := removeAll k (clReaders c)\<rparr>)" by (rule calls_ok_other) simp_all
  with \<open>calls_ok c\<close> ReaderEnds show ?thesis by (simp add: client_step_def reader_ends_def calls_ok_dropped)
next
  case (RedialTurn oc)
  assume "calls_ok c"
  then show ?thesis using RedialTurn
    by (auto simp: client_step_def redial_turn_def client_connect_def split: option.splits sum.splits intro: calls_ok_other)
qed (auto simp: client_step_def calls_ok_take calls_ok_time_out on_client_event_def auto_reconnect_def close_client_def
    intro: calls_ok_other)

interpretation client_calls: budget_stepper client_step calls_fit
proof
  fix n c e
  assume fit: "calls_fit (Suc n) c"
  show "calls_fit n (client_step c e)"
  proof (cases "\<exists>rc werr. e = StartCall rc werr")
    case True
    then show ?thesis using calls_fit_start [OF fit] by (auto simp: client_step_def)
  next
    case False
    then have "clNext (client_step c e) = clNext c"
      by (cases e) (simp_all add: client_step_def calls_next on_client_event_def auto_reconnect_def close_client_def)
    with fit calls_ok_step_other False show ?thesis by (auto simp: calls_fit_def)
  qed
qed

section \<open>A call returns once, with its own answer\<close>

text \<open>Where an answer with an id can come from, after the events so far.\<close>

definition origin :: "client_event list \<Rightarrow> uint64 \<Rightarrow> rpc_response \<Rightarrow> bool" where
  "origin es i resp \<longleftrightarrow> resp = closed_response
     \<or> (\<exists>k v. ReadLine k (ResponseLine v resp) \<in> set es \<and> json_number v = Some i)"

definition sent_ids :: "client \<Rightarrow> uint64 list" where
  "sent_ids c = map (\<lambda>x. fst (snd x)) (clSent c)"

definition traced :: "client_event list \<Rightarrow> client \<Rightarrow> bool" where
  "traced es c \<longleftrightarrow> (\<forall>i resp. map_of (clChan c) i = Some resp \<or> (i, Returned resp) \<in> set (clDone c) \<longrightarrow> origin es i resp)
     \<and> set (clWaiting c) \<union> fst ` set (clDone c) \<subseteq> set (sent_ids c)
     \<and> distinct (sent_ids c) \<and> (\<forall>i \<in> set (sent_ids c). i \<le> clNext c)"

lemma origin_more: "origin es i resp \<Longrightarrow> origin (es @ es') i resp"
  by (auto simp: origin_def)

lemma traced_more: "traced es c \<Longrightarrow> traced (es @ es') c"
  unfolding traced_def by (blast intro: origin_more)

lemma traced_other:
  assumes "traced es c" and "clWaiting c' = clWaiting c" "clChan c' = clChan c" "clDone c' = clDone c"
    "clNext c' = clNext c" "clSent c' = clSent c"
  shows "traced es c'"
  using assms(1) unfolding traced_def sent_ids_def assms(2-6) .

lemma traced_start:
  assumes "traced es c" and "calls_fit (Suc n) c"
  shows "traced es (fst (start_call c rc werr))"
proof -
  let ?i = "clNext c + 1"
  have q: "clNext c < ?i" using assms(2) next_grows [of "clNext c" n] by (simp add: calls_fit_def)
  then have le: "i \<le> ?i" if "i \<le> clNext c" for i using that by simp
  have fresh: "?i \<notin> set (sent_ids c)" using assms(1) q unfolding traced_def by (meson leD)
  have "traced es (c\<lparr>clNext := ?i\<rparr>)" using assms(1) le unfolding traced_def sent_ids_def by simp
  moreover from this fresh have "traced es (c\<lparr>clNext := ?i, clPending := p, clWaiting := clWaiting c @ [?i],
      clSent := clSent c @ [(k, ?i, rc)]\<rparr>)" for p k
    unfolding traced_def sent_ids_def by auto
  moreover have "traced es (c\<lparr>clNext := ?i, clPending := p\<rparr>)" for p
    using calculation(1) by (rule traced_other) simp_all
  ultimately show ?thesis using assms(1) by (simp add: start_call_def Let_def split: option.splits)
qed

lemma traced_step_other:
  assumes "traced es c" and "calls_ok c" and "\<forall>rc werr. e \<noteq> StartCall rc werr"
  shows "traced (es @ [e]) (client_step c e)"
proof (cases e)
  case (TakeAnswer i)
  have "traced es (take_answer c i)"
    using assms(1) unfolding traced_def take_answer_def sent_ids_def by (auto split: option.splits)
  with TakeAnswer show ?thesis by (simp add: client_step_def traced_more)
next
  case (TimeOut i)
  have "traced es (time_out c i)"
    using assms(1) unfolding traced_def time_out_def sent_ids_def by auto
  with TimeOut show ?thesis by (simp add: client_step_def traced_more)
next
  case (ReadLine k l)
  show ?thesis
  proof (cases "\<exists>v resp i. l = ResponseLine v resp \<and> json_number v = Some i \<and> i \<in> set (clPending c)")
    case True
    then obtain v resp i where l: "l = ResponseLine v resp" "json_number v = Some i" "i \<in> set (clPending c)" by blast
    have "origin (es @ [e]) i resp" using ReadLine l by (auto simp: origin_def)
    then have "traced (es @ [e]) (deliver c v resp)"
      using traced_more [OF assms(1), of "[e]"] l unfolding traced_def deliver_def sent_ids_def by auto
    then show ?thesis using traced_more [OF assms(1), of "[e]"] ReadLine l
      by (simp add: client_step_def client_read_def)
  next
    case False
    then have "traced es (client_read c l)"
      using assms(1) by (cases l) (auto simp: client_read_def deliver_def split: option.splits intro: traced_other)
    with assms(1) ReadLine show ?thesis by (simp add: client_step_def traced_more)
  qed
next
  case (ReaderEnds k)
  have "traced es (release_all (c\<lparr>clReaders := r\<rparr>))" for r
    using assms(1) release_all_chan [of "c\<lparr>clReaders := r\<rparr>"] calls_ok_other [OF assms(2), of "c\<lparr>clReaders := r\<rparr>"]
    unfolding traced_def by (auto simp: origin_def release_all_def sent_ids_def split: if_splits)
  then have "traced es c'" if "clWaiting c' = clWaiting (release_all (c\<lparr>clReaders := r\<rparr>))"
    "clChan c' = clChan (release_all (c\<lparr>clReaders := r\<rparr>))" "clDone c' = clDone (release_all (c\<lparr>clReaders := r\<rparr>))"
    "clNext c' = clNext (release_all (c\<lparr>clReaders := r\<rparr>))" "clSent c' = clSent (release_all (c\<lparr>clReaders := r\<rparr>))" for c' r
    using that by (rule traced_other)
  moreover have "traced es (c\<lparr>clReaders := r\<rparr>)" for r using assms(1) by (rule traced_other) simp_all
  ultimately have "traced es (dropped (c\<lparr>clReaders := r\<rparr>) k)" for r
    by (simp add: dropped_def Let_def)
  with assms(1) ReaderEnds show ?thesis by (simp add: client_step_def reader_ends_def traced_more)
next
  case (RedialTurn oc)
  have "traced es (redial_turn c oc)"
    using assms(1) by (auto simp: redial_turn_def client_connect_def tell_state_def split: option.splits sum.splits
        intro: traced_other)
  with RedialTurn show ?thesis by (simp add: client_step_def traced_more)
qed (use assms in \<open>auto simp: client_step_def on_client_event_def auto_reconnect_def close_client_def
      intro: traced_more traced_other\<close>)

lemma traced_step: "traced es c \<Longrightarrow> calls_fit (Suc n) c \<Longrightarrow> traced (es @ [e]) (client_step c e)"
proof (cases "\<exists>rc werr. e = StartCall rc werr")
  case True
  assume "traced es c" "calls_fit (Suc n) c"
  with True show ?thesis using traced_start by (auto simp: client_step_def intro: traced_more)
qed (auto simp: calls_fit_def intro: traced_step_other)

lemma traced_run:
  "calls_fit (length es + n) c \<Longrightarrow> traced [] c \<Longrightarrow> traced es (foldl client_step c es)"
proof (induction es arbitrary: n rule: rev_induct)
  case (snoc e es)
  have fit: "calls_fit (Suc n) (foldl client_step c es)"
    by (rule client_calls.inv_spend_run) (use snoc.prems in simp)
  have "traced es (foldl client_step c es)" by (rule snoc.IH [of "Suc n"]) (use snoc.prems in simp_all)
  from traced_step [OF this fit] show ?case by simp
qed simp

text \<open>
  C22: a call returns once, and with its own answer. However calls, answers, timeouts, lost connections and
  reconnections are ordered, no call returns twice, an answer returned to a call was read from the daemon with the id of
  that call, or says that the connection closed, and a call that waits can still be answered or has its answer.
\<close>

theorem calls_return_once:
  assumes "dial socket default_socket (Inr k) = Inr c0" and "length es < 2 ^ 64" and "c = foldl client_step c0 es"
  shows "distinct (map fst (clDone c)) \<and> distinct (sent_ids c)
    \<and> (\<forall>i resp. (i, Returned resp) \<in> set (clDone c) \<longrightarrow> i \<in> set (sent_ids c) \<and> origin es i resp)
    \<and> (\<forall>i \<in> set (clWaiting c). i \<in> set (clPending c) \<or> map_of (clChan c) i \<noteq> None)"
proof -
  have c0: "calls_fit (length es + 0) c0" "traced [] c0"
    using assms(1,2) by (auto simp: dial_def client_connect_def zero_client_def Let_def calls_fit_def calls_ok_def traced_def sent_ids_def)
  have "calls_ok c" unfolding assms(3) using client_calls.inv_spend_run [OF c0(1)] by (simp add: calls_fit_def)
  moreover have "traced es c" unfolding assms(3) by (rule traced_run [OF c0])
  ultimately show ?thesis
    unfolding traced_def by (intro conjI allI impI ballI) (auto simp: calls_ok_def image_iff)
qed

definition pong_run :: "client_event list" where
  "pong_run = [StartCall Ping None, StartCall StatusGet None, ReadLine 5 (ResponseLine (JFloat 1) (Inr (Pong ''0.2.0''))),
     TakeAnswer 1, ReaderEnds 5, TakeAnswer 2]"

definition pong_client :: client where
  "pong_client = (zero_client ''chat.sock'')\<lparr>clConn := Some 5, clUp := True, clReaders := [5]\<rparr>"

lemma pong_client_dial: "dial '''' ''chat.sock'' (Inr 5) = Inr pong_client"
  by (simp add: dial_def client_connect_def Let_def pong_client_def zero_client_def)

lemma pong_client_done: "clDone (foldl client_step pong_client pong_run)
    = [(1, Returned (Inr (Pong ''0.2.0''))), (2, Returned closed_response)]"
  by code_simp

theorem calls_return_once_witness:
  "distinct (map fst (clDone (foldl client_step pong_client pong_run)))
    \<and> origin pong_run 1 (Inr (Pong ''0.2.0''))"
proof -
  have "length pong_run < 2 ^ 64" by (simp add: pong_run_def)
  from calls_return_once [OF pong_client_dial this refl] show ?thesis by (simp add: pong_client_done)
qed

section \<open>The connection breaks\<close>

text \<open>
  C24: a broken connection leaves nobody waiting, and the client comes back. When the read loop of its connection ends,
  every waiting call has an answer to take; a client that was told to reconnect then redials until it succeeds, at most
  every six and a half seconds, and has told its front end that the daemon was down and is up again.
\<close>

theorem client_recovers:
  assumes "calls_ok c" and "clConn c = Some k" "k \<in> set (clReaders c)" and "\<not> clClosed c" "clRedialOn c" "clOnState c"
    and "c1 = reader_ends c k" and "c2 = foldl redial_turn c1 (map Inl fails)" and "c3 = redial_turn c2 (Inr k')"
  shows "(\<forall>i \<in> set (clWaiting c). \<exists>resp. map_of (clChan c1) i = Some resp \<and> (i, Returned resp) \<in> set (clDone (take_answer c1 i)))
    \<and> clRedial c2 = Some (first_redial * 2 ^ min 6 (length fails)) \<and> first_redial * 2 ^ min 6 (length fails) \<le> 6400000000
    \<and> clConn c3 = Some k' \<and> k' \<in> set (clReaders c3) \<and> client_connected c3 \<and> clRedial c3 = None
    \<and> clStates c3 = clStates c @ [False, True]"
proof -
  let ?c = "c\<lparr>clReaders := removeAll k (clReaders c)\<rparr>"
  have c1: "c1 = (tell_state (release_all ?c) False)\<lparr>clRedial := Some first_redial\<rparr>"
    using assms(2-7) by (simp add: reader_ends_def dropped_def Let_def release_all_def)
  have ok: "calls_ok ?c" by (rule calls_ok_other [OF assms(1)]) simp_all
  have answers: "\<exists>resp. map_of (clChan c1) i = Some resp \<and> (i, Returned resp) \<in> set (clDone (take_answer c1 i))"
    if "i \<in> set (clWaiting c)" for i
  proof -
    have "\<exists>resp. map_of (clChan c1) i = Some resp"
      using that calls_okD(4) [OF assms(1), of i] by (auto simp: c1 release_all_chan [OF ok])
    moreover have "clWaiting c1 = clWaiting c" by (simp add: c1 release_all_def)
    ultimately show ?thesis using that by (auto simp: take_answer_def)
  qed
  have step: "next_redial (first_redial * 2 ^ min 6 n) = first_redial * 2 ^ min 6 (Suc n)" for n
  proof (cases "6 \<le> n")
    case True
    then show ?thesis by (simp add: next_redial_def first_redial_def second_ns_def)
  next
    case False
    then consider "n = 0" | "n = 1" | "n = 2" | "n = 3" | "n = 4" | "n = 5" by linarith
    then show ?thesis by cases (simp_all add: next_redial_def first_redial_def second_ns_def)
  qed
  have fields: "clRedial c1 = Some first_redial" "\<not> clClosed c1" "clOnState c1" "clStates c1 = clStates c @ [False]"
    using assms(4,6) by (simp_all add: c1 release_all_def)
  have c2: "c2 = c1\<lparr>clRedial := Some (first_redial * 2 ^ min 6 (length fails))\<rparr>"
    unfolding assms(8)
  proof (induction fails rule: rev_induct)
    case Nil
    then show ?case using fields(1) by simp
  next
    case (snoc e fails)
    then show ?case using fields(2) step [of "length fails"] by (simp add: redial_turn_def client_connect_def)
  qed
  have "(2 :: int) ^ min 6 (length fails) \<le> 2 ^ 6" by (rule power_increasing) simp_all
  then have "first_redial * 2 ^ min 6 (length fails) \<le> 6400000000" by (simp add: first_redial_def)
  then show ?thesis
    using answers fields assms(9) by (simp add: c2 redial_turn_def client_connect_def client_connected_def)
qed


definition lost_client :: client where
  "lost_client = auto_reconnect (foldl client_step pong_client [StartCall Ping None])"

lemma lost_client_ok: "calls_ok lost_client"
proof -
  have "calls_fit (length [StartCall Ping None] + 0) pong_client"
    by (simp add: calls_fit_def calls_ok_def pong_client_def zero_client_def)
  from client_calls.inv_spend_run [OF this] have "calls_ok (foldl client_step pong_client [StartCall Ping None])"
    by (simp add: calls_fit_def)
  then show ?thesis unfolding lost_client_def by (rule calls_ok_other) (simp_all add: auto_reconnect_def)
qed

theorem client_recovers_witness:
  "clStates (redial_turn (foldl redial_turn (reader_ends lost_client 5) (map Inl [''refused''])) (Inr 6)) = [False, True]"
proof -
  have c: "clConn lost_client = Some 5" "5 \<in> set (clReaders lost_client)" "\<not> clClosed lost_client" "clRedialOn lost_client"
    "clOnState lost_client" "clStates lost_client = []"
    by (simp_all add: lost_client_def auto_reconnect_def client_step_def start_call_def pong_client_def zero_client_def Let_def)
  from client_recovers [OF lost_client_ok c(1-5) refl refl refl, of "[''refused'']" 6] c(6) show ?thesis by simp
qed


section \<open>A call through the socket\<close>

text \<open>
  One call by itself, from the client through the socket to the daemon and back: the request is written, the
  daemon's handler runs it, and the client reads what was written to its connection, events and reply. The daemon
  gives the id back as the number it read.
\<close>

lemma bit_length_le: "n < 2 ^ m \<Longrightarrow> bit_length n \<le> m"
proof (induction m arbitrary: n)
  case (Suc m)
  then have "bit_length (n div 2) \<le> m" by (intro Suc.IH) auto
  then show ?case by (simp add: bit_length.simps [of n])
qed (simp add: bit_length.simps)

lemma float64_exact: "n < 2 ^ 53 \<Longrightarrow> float64 n = n"
  using bit_length_le [of n 53] by (simp add: float64_def)

definition out_line :: "rpc_out \<Rightarrow> client_line" where
  "out_line x = (case x of
      Notify ev \<Rightarrow> EventLine (evKind ev) ev
    | Reply None resp \<Rightarrow> ResponseLine JOther resp
    | Reply (Some s) resp \<Rightarrow> ResponseLine (JFloat (int (float64 (digits_value s)))) resp)"

definition written_to :: "nat \<Rightarrow> rpc \<Rightarrow> rpc \<Rightarrow> rpc_out list" where
  "written_to k r r' = map snd (filter (\<lambda>x. fst x = k) (drop (length (rpOut r)) (rpOut r')))"

definition socket_call :: "world \<Rightarrow> nat \<Rightarrow> client \<Rightarrow> rpc \<Rightarrow> rpc_call \<Rightarrow> client \<times> rpc" where
  "socket_call w k c r rc =
    (let c1 = fst (start_call c rc None);
         r1 = handle_line w r k (RequestLine (Some (decimal (unat (clNext c1)))) rc)
     in (take_answer (foldl client_read c1 (map out_line (written_to k r r1))) (clNext c1), r1))"

definition only_tells :: "rpc \<Rightarrow> rpc \<Rightarrow> bool" where
  "only_tells r r' \<longleftrightarrow> (\<exists>outs. rpOut r' = rpOut r @ outs \<and> list_all (\<lambda>x. \<not> is_reply x) outs)"

lemma only_tells_refl [simp, intro]: "only_tells r r"
  by (simp add: only_tells_def)

lemma only_tells_trans: "only_tells r s \<Longrightarrow> only_tells s t \<Longrightarrow> only_tells r t"
  unfolding only_tells_def by (metis append_assoc list_all_append)

lemma only_tells_broadcast [simp]: "only_tells r (broadcast r ev)"
  by (simp add: only_tells_def broadcast_def list_all_iff is_reply_def)

lemma only_tells_with_daemon: "only_tells r (with_daemon r d)"
proof -
  have "only_tells x (foldl broadcast x evs)" for x evs
    by (induction evs arbitrary: x) (auto intro: only_tells_trans [OF only_tells_broadcast])
  from this [of "r\<lparr>rpDaemon := d\<rparr>"] show ?thesis by (simp add: with_daemon_def only_tells_def)
qed

lemma only_tells_both: "only_tells r (broadcast (with_daemon r d) ev)" "only_tells r (with_rstore r s)"
  "only_tells r (broadcast (with_rstore r s) ev)"
  unfolding with_rstore_def
  by (rule only_tells_trans [OF only_tells_with_daemon only_tells_broadcast] only_tells_with_daemon)+

lemma only_tells_dispatch: "only_tells r (fst (dispatch w r c))"
  by (cases c)
    (simp_all add: dispatch_def decoded_def bad_params_def identity_set_def presence_set_def peers_block_def conv_get_def
      messages_send_def messages_read_def rooms_join_def rooms_leave_def files_offer_def files_answer_def notify_set_def
      fail_app_def case_prod_beta only_tells_both only_tells_with_daemon split: sum.splits option.splits bool.splits)

lemma update_fresh: "map_of m k = None \<Longrightarrow> AList.update k v m = m @ [(k, v)]"
  by (induction m) (auto split: if_splits)

lemma only_events: "list_all (\<lambda>x. \<not> is_reply x) outs \<Longrightarrow> \<exists>evs. map snd outs = map Notify evs"
proof (induction outs)
  case (Cons x outs)
  then obtain ev evs where "snd x = Notify ev" "map snd outs = map Notify evs"
    by (cases "snd x") (auto simp: is_reply_def)
  then have "map snd (x # outs) = map Notify (ev # evs)" by simp
  then show ?case by (rule exI)
qed simp

lemma read_events:
  "clSink c \<Longrightarrow> foldl client_read c (map (out_line \<circ> Notify) evs) = c\<lparr>clEvents := clEvents c @ evs\<rparr>"
  by (induction evs arbitrary: c) (simp_all add: out_line_def client_read_def)



definition up_client :: client where
  "up_client = (zero_client ''chat.sock'')\<lparr>clConn := Some 1, clUp := True, clReaders := [1], clSink := True\<rparr>"


end
