(* ===== verification/Texts.thy ===== *)
theory Texts
  imports Client "HOL-Library.Signed_Division"
begin

text \<open>
  What both front ends write on the screen, from \<open>chatui/transcript.go\<close> and the helpers of \<open>chattui/tui.go\<close>:
  sizes, times, the wrapping of a message to the width of the window, and the words for its state. The offset of local time
  from UTC at an instant, in seconds, and the name of the zone are arguments, as is whether a text fits the
  width, \<open>Advance\<close> of the toolkit's font. The characters outside ASCII are given by their code points.
\<close>

section \<open>Formatting (fmt, time)\<close>

definition glyph :: "nat \<Rightarrow> string" where
  "glyph r = string_of_runes [r]"

abbreviation ellipsis :: string where "ellipsis \<equiv> glyph 0x2026"
abbreviation em_dash :: string where "em_dash \<equiv> glyph 0x2014"
abbreviation middle_dot :: string where "middle_dot \<equiv> glyph 0xB7"

text \<open>\<open>%ns\<close> and \<open>%-ns\<close> count runes.\<close>

definition pad_left :: "nat \<Rightarrow> string \<Rightarrow> string" where
  "pad_left n s = replicate (n - length (runes s)) (CHR '' '') @ s"

definition pad_right :: "nat \<Rightarrow> string \<Rightarrow> string" where
  "pad_right n s = s @ replicate (n - length (runes s)) (CHR '' '')"

definition zeros :: "nat \<Rightarrow> int \<Rightarrow> string" where
  "zeros n k = replicate (n - length (decimal_int k)) (CHR ''0'') @ decimal_int k"

definition local_secs :: "(gotime \<Rightarrow> int) \<Rightarrow> gotime \<Rightarrow> int" where
  "local_secs zone t = t div second_ns + zone t"

text \<open>\<open>Format("15:04")\<close>, the date of a day counted from 1970, \<open>"Monday 2 January 2006"\<close> and RFC 1123.\<close>

definition clock_text :: "(gotime \<Rightarrow> int) \<Rightarrow> gotime \<Rightarrow> string" where
  "clock_text zone t = (let s = local_secs zone t mod 86400
     in zeros 2 (s div 3600) @ '':'' @ zeros 2 (s div 60 mod 60))"

definition civil_date :: "int \<Rightarrow> int \<times> int \<times> int" where
  "civil_date day =
    (let z = day + 719468; era = z div 146097; doe = z mod 146097;
         yoe = (doe - doe div 1460 + doe div 36524 - doe div 146096) div 365;
         doy = doe - (365 * yoe + yoe div 4 - yoe div 100); mp = (5 * doy + 2) div 153;
         m = (if mp < 10 then mp + 3 else mp - 9)
     in (yoe + era * 400 + (if m \<le> 2 then 1 else 0), m, doy - (153 * mp + 2) div 5 + 1))"

definition day_names :: "string list" where
  "day_names = [''Sunday'', ''Monday'', ''Tuesday'', ''Wednesday'', ''Thursday'', ''Friday'', ''Saturday'']"

definition month_names :: "string list" where
  "month_names = [''January'', ''February'', ''March'', ''April'', ''May'', ''June'', ''July'', ''August'',
     ''September'', ''October'', ''November'', ''December'']"

definition day_name :: "int \<Rightarrow> string" where
  "day_name day = day_names ! nat ((day + 4) mod 7)"

definition long_day :: "(gotime \<Rightarrow> int) \<Rightarrow> gotime \<Rightarrow> string" where
  "long_day zone t = (let day = local_secs zone t div 86400 in case civil_date day of
     (y, m, d) \<Rightarrow> day_name day @ '' '' @ decimal_int d @ '' '' @ month_names ! nat (m - 1) @ '' '' @ zeros 4 y)"

definition rfc1123 :: "(gotime \<Rightarrow> int) \<Rightarrow> string \<Rightarrow> gotime \<Rightarrow> string" where
  "rfc1123 zone abbrev t = (let s = local_secs zone t; day = s div 86400; r = s mod 86400 in case civil_date day of
     (y, m, d) \<Rightarrow> take 3 (day_name day) @ '', '' @ zeros 2 d @ '' '' @ take 3 (month_names ! nat (m - 1)) @ '' '' @ zeros 4 y
       @ '' '' @ zeros 2 (r div 3600) @ '':'' @ zeros 2 (r div 60 mod 60) @ '':'' @ zeros 2 (r mod 60) @ '' '' @ abbrev)"

text \<open>\<open>humanSize\<close>: \<open>%.1f\<close> of a \<open>float64\<close> divided by a power of two is exact up to its one rounding.\<close>

definition one_decimal :: "nat \<Rightarrow> string" where
  "one_decimal tenths = decimal (tenths div 10) @ ''.'' @ decimal (tenths mod 10)"

definition in_units :: "int \<Rightarrow> nat \<Rightarrow> string \<Rightarrow> string" where
  "in_units n unit name = one_decimal (round_even (float64 (nat n) * 10) unit) @ name"

definition human_size :: "int \<Rightarrow> string" where
  "human_size n =
    (if 2 ^ 30 \<le> n then in_units n (2 ^ 30) '' GiB''
     else if 2 ^ 20 \<le> n then in_units n (2 ^ 20) '' MiB''
     else if 2 ^ 10 \<le> n then in_units n (2 ^ 10) '' KiB''
     else decimal_int n @ '' B'')"

fun transfer_state_text :: "transfer_state \<Rightarrow> string" where
  "transfer_state_text TransferOffered = ''offered''"
| "transfer_state_text TransferIncoming = ''incoming''"
| "transfer_state_text TransferRunning = ''running''"
| "transfer_state_text TransferDone = ''done''"
| "transfer_state_text TransferDeclined = ''declined''"
| "transfer_state_text TransferFailed = ''failed''"
| "transfer_state_text TransferCancelled = ''cancelled''"

text \<open>Integer division of Go, which cuts towards zero.\<close>

definition percent :: "transfer \<Rightarrow> int" where
  "percent t = tDone t * 100 sdiv tSize t"

section \<open>Splitting and wrapping\<close>

text \<open>\<open>strings.Fields\<close>, over the runes of a string with their bytes.\<close>

fun field_chunks :: "('a \<Rightarrow> bool) \<Rightarrow> 'a list \<Rightarrow> 'a list \<Rightarrow> 'a list list" where
  "field_chunks P cur [] = (if cur = [] then [] else [cur])"
| "field_chunks P cur (x # xs) =
     (if P x then (if cur = [] then field_chunks P [] xs else cur # field_chunks P [] xs)
      else field_chunks P (cur @ [x]) xs)"

definition fields :: "string \<Rightarrow> string list" where
  "fields s = map (\<lambda>cs. string_of_bytes (concat (map snd cs))) (field_chunks space_chunk [] (rune_chunks (bytes_of s)))"

function prefix_length :: "(string \<Rightarrow> bool) \<Rightarrow> nat list \<Rightarrow> nat \<Rightarrow> nat" where
  "prefix_length fits rs n =
    (if n < length rs - 1 \<and> fits (string_of_runes (take (Suc n) rs)) then prefix_length fits rs (Suc n) else n)"
  by pat_completeness auto
termination by (relation "measure (\<lambda>(fits, rs, n). length rs - n)") auto

declare prefix_length.simps [simp del]

definition longest_prefix :: "(string \<Rightarrow> bool) \<Rightarrow> string \<Rightarrow> string" where
  "longest_prefix fits s = (let rs = runes s
     in if length rs < 2 then '''' else string_of_runes (take (prefix_length fits rs 1) rs))"

text \<open>\<open>emit\<close>: \<open>None\<close> is the panic of a slice past the end of the line.\<close>

function emit_line :: "(string \<Rightarrow> bool) \<Rightarrow> string \<Rightarrow> string list option" where
  "emit_line fits l =
    (if fits l then Some [l]
     else (let c = longest_prefix fits l in
       if c = '''' then Some [l]
       else if length l < length c then None
       else map_option (\<lambda>ls. c # ls) (emit_line fits (drop (length c) l))))"
  by pat_completeness auto
termination
proof (relation "measure (\<lambda>(fits, l). length l)", goal_cases)
  case (2 fits l c)
  then show ?case by (cases l) auto
qed simp

declare emit_line.simps [simp del]

text \<open>One paragraph of \<open>wrapText\<close>: the line so far and the words that are left.\<close>

fun wrap_words :: "(string \<Rightarrow> bool) \<Rightarrow> string \<Rightarrow> string list \<Rightarrow> string list option" where
  "wrap_words fits l [] = emit_line fits l"
| "wrap_words fits l (w # ws) =
    (let longer = (if l \<noteq> '''' then l @ '' '' @ w else w) in
     if fits longer then wrap_words fits longer ws
     else if l \<noteq> '''' then
       (case emit_line fits l of None \<Rightarrow> None | Some ls \<Rightarrow> map_option (\<lambda>ms. ls @ ms) (wrap_words fits w ws))
     else wrap_words fits w ws)"

definition wrap_paragraph :: "(string \<Rightarrow> bool) \<Rightarrow> string \<Rightarrow> string list option" where
  "wrap_paragraph fits para = (case fields para of [] \<Rightarrow> Some [''''] | ws \<Rightarrow> wrap_words fits '''' ws)"

fun wrap_paragraphs :: "(string \<Rightarrow> bool) \<Rightarrow> string list \<Rightarrow> string list option" where
  "wrap_paragraphs fits [] = Some []"
| "wrap_paragraphs fits (p # ps) = (case wrap_paragraph fits p of
     None \<Rightarrow> None | Some ls \<Rightarrow> map_option (\<lambda>ms. ls @ ms) (wrap_paragraphs fits ps))"

definition newline :: char where "newline = CHR 0x0A"

definition wrap_text :: "(string \<Rightarrow> bool) \<Rightarrow> string \<Rightarrow> string list option" where
  "wrap_text fits s = map_option (\<lambda>ls. if ls = [] then [''''] else ls) (wrap_paragraphs fits (split_at_byte newline s))"

section \<open>What a row says\<close>

definition display_body :: "message \<Rightarrow> (transfer_id \<Rightarrow> transfer option) option \<Rightarrow> string" where
  "display_body m lookup = (case mTransfer m of
      None \<Rightarrow> mBody m
    | Some ref \<Rightarrow>
       (let line = rName ref @ ''  ('' @ human_size (rSize ref) @ '')'' in
        case lookup of
          None \<Rightarrow> line
        | Some f \<Rightarrow> (case f (rID ref) of
            None \<Rightarrow> line
          | Some t \<Rightarrow> line @ ''  '' @ em_dash @ '' '' @ (case tState t of
               TransferIncoming \<Rightarrow> ''offered, waiting for you''
             | TransferOffered \<Rightarrow> ''offered, waiting for them''
             | TransferRunning \<Rightarrow> decimal_int (if 0 < tSize t then percent t else 0) @ ''%''
             | TransferDone \<Rightarrow> (if tIncoming t \<and> tPath t \<noteq> '''' then ''saved to '' @ tPath t else ''sent'')
             | TransferDeclined \<Rightarrow> ''declined''
             | TransferCancelled \<Rightarrow> ''cancelled''
             | TransferFailed \<Rightarrow> ''failed: '' @ tError t))))"

definition delivery_note :: "message \<Rightarrow> string" where
  "delivery_note m = (if \<not> mMine m then '''' else (case mState m of
      StateQueued \<Rightarrow> ''waiting for them'' | StateSending \<Rightarrow> ''sending'' | StateDelivered \<Rightarrow> ''delivered''
    | StateFailed \<Rightarrow> ''not delivered'' | StateNone \<Rightarrow> ''''))"

definition delivery_danger :: "message \<Rightarrow> bool" where
  "delivery_danger m \<longleftrightarrow> mMine m \<and> mState m = StateFailed"

text \<open>
  The sender of a row over the functions the session supplies; \<open>initials\<close> over the simple upper-case
  mapping of Unicode.
\<close>

definition sender_name :: "(peer_id \<Rightarrow> string) option \<Rightarrow> message \<Rightarrow> string" where
  "sender_name name_of m =
    (if mFromNick m \<noteq> '''' then mFromNick m
     else (case name_of of
         None \<Rightarrow> short_id (mFrom m)
       | Some f \<Rightarrow> (if f (mFrom m) \<noteq> '''' then f (mFrom m) else short_id (mFrom m))))"

definition sender_color :: "(peer_id \<Rightarrow> string) option \<Rightarrow> message \<Rightarrow> string" where
  "sender_color color_of m = (case color_of of
      None \<Rightarrow> color_for_id (mFrom m)
    | Some f \<Rightarrow> (if f (mFrom m) \<noteq> '''' then f (mFrom m) else color_for_id (mFrom m)))"

definition initials :: "(nat \<Rightarrow> nat) \<Rightarrow> string \<Rightarrow> string" where
  "initials upper name = (case fields name of
      [] \<Rightarrow> ''?''
    | [f] \<Rightarrow> string_of_runes [upper (runes f ! 0)]
    | f # g # _ \<Rightarrow> string_of_runes [upper (runes f ! 0)] @ string_of_runes [upper (runes g ! 0)])"

text \<open>What a screen reader reads for a row.\<close>

definition spoken_row :: "(gotime \<Rightarrow> int) \<Rightarrow> (peer_id \<Rightarrow> string) option \<Rightarrow> message \<Rightarrow> string list \<Rightarrow> string" where
  "spoken_row zone name_of m ls =
    sender_name name_of m @ '', '' @ clock_text zone (mSent m) @ '': '' @ join_with '' '' ls
    @ (if delivery_note m \<noteq> '''' then '', '' @ delivery_note m else '''')"

section \<open>The selected row\<close>

text \<open>The row the keyboard is on, -1 for none; the result tells whether the key was used.\<close>

definition select_row :: "nat \<Rightarrow> int \<Rightarrow> int \<Rightarrow> int \<times> bool" where
  "select_row rows selected i =
    (if rows = 0 then (selected, False)
     else (let i1 = (if i < 0 then 0 else i) in (if int rows \<le> i1 then int rows - 1 else i1, True)))"

definition move_row :: "nat \<Rightarrow> int \<Rightarrow> int \<Rightarrow> int \<times> bool" where
  "move_row rows selected d =
    (if rows = 0 then (selected, False)
     else select_row rows selected ((if selected < 0 then (if 0 < d then - 1 else int rows) else selected) + d))"

definition after_messages :: "nat \<Rightarrow> int \<Rightarrow> int" where
  "after_messages n selected = (if int n \<le> selected then - 1 else selected)"

end
