(* ===== verification/TextProperties.thy ===== *)
theory TextProperties
  imports Texts
begin

text \<open>
  The property of the wrapping of messages: nothing of a message is lost between its lines, and every line fits.
  The proof follows the code on the runes of the text: \<open>spells\<close> says which runes a string is made of.
\<close>

section \<open>Texts made of runes\<close>

definition spells :: "nat list \<Rightarrow> string \<Rightarrow> bool" where
  "spells rs s \<longleftrightarrow> (\<forall>r \<in> set rs. valid_rune r) \<and> s = string_of_runes rs"

text \<open>Valid UTF-8: decoding and encoding again gives the text back.\<close>

definition valid_utf8 :: "string \<Rightarrow> bool" where
  "valid_utf8 s \<longleftrightarrow> string_of_runes (runes s) = s"

lemma spells_runes: "spells rs s \<Longrightarrow> runes s = rs"
  by (simp add: spells_def runes_string_of_runes)

lemma spells_valid: "valid_utf8 s \<Longrightarrow> spells (runes s) s"
  using runes_valid [of s] by (simp add: spells_def valid_utf8_def)

lemma string_of_runes_append [simp]: "string_of_runes (xs @ ys) = string_of_runes xs @ string_of_runes ys"
  by (simp add: string_of_runes_def string_of_bytes_def)


lemma string_of_no_runes [simp]: "string_of_runes [] = ''''"
  by (simp add: string_of_runes_def string_of_bytes_def)

lemma spells_empty: "spells rs s \<Longrightarrow> s = '''' \<longleftrightarrow> rs = []"
  by (simp add: spells_def)

lemma spells_append: "spells xs s \<Longrightarrow> spells ys t \<Longrightarrow> spells (xs @ ys) (s @ t)"
  by (auto simp: spells_def)

lemma spells_take: "spells rs s \<Longrightarrow> spells (take n rs) (string_of_runes (take n rs))"
  by (auto simp: spells_def dest: in_set_takeD)

lemma spells_cut:
  assumes "spells rs s"
  shows "s = string_of_runes (take n rs) @ string_of_runes (drop n rs)" "spells (drop n rs) (drop (length (string_of_runes (take n rs))) s)"
proof -
  show s: "s = string_of_runes (take n rs) @ string_of_runes (drop n rs)"
    using assms string_of_runes_append [of "take n rs" "drop n rs"] by (simp add: spells_def)
  show "spells (drop n rs) (drop (length (string_of_runes (take n rs))) s)"
    using assms by (subst s) (auto simp: spells_def dest: in_set_dropD)
qed

section \<open>Lines\<close>

text \<open>What the lines of a text are made of, and that each fits or cannot be cut.\<close>

definition lines_of :: "(string \<Rightarrow> bool) \<Rightarrow> nat list list \<Rightarrow> string list \<Rightarrow> bool" where
  "lines_of fits rss ls \<longleftrightarrow> list_all2 spells rss ls \<and> (\<forall>l \<in> set ls. fits l \<or> length (runes l) \<le> 1)"

lemma lines_of_append: "lines_of fits a ls \<Longrightarrow> lines_of fits b ms \<Longrightarrow> lines_of fits (a @ b) (ls @ ms)"
  by (auto simp: lines_of_def list_all2_appendI)

lemma prefix_length_ok:
  assumes "n < length rs" and "n = 1 \<or> fits (string_of_runes (take n rs))"
  shows "n \<le> prefix_length fits rs n \<and> prefix_length fits rs n < length rs
    \<and> (prefix_length fits rs n = 1 \<or> fits (string_of_runes (take (prefix_length fits rs n) rs)))"
  using assms
proof (induction fits rs n rule: prefix_length.induct)
  case (1 fits rs n)
  show ?case
  proof (cases "n < length rs - 1 \<and> fits (string_of_runes (take (Suc n) rs))")
    case True
    then have "Suc n < length rs" by linarith
    with 1(1) [OF True] True have "Suc n \<le> prefix_length fits rs (Suc n) \<and> prefix_length fits rs (Suc n) < length rs
      \<and> (prefix_length fits rs (Suc n) = 1 \<or> fits (string_of_runes (take (prefix_length fits rs (Suc n)) rs)))"
      by blast
    moreover have "prefix_length fits rs n = prefix_length fits rs (Suc n)"
      using True by (subst prefix_length.simps) simp
    ultimately show ?thesis by simp
  next
    case False
    then have "prefix_length fits rs n = n" by (subst prefix_length.simps) (simp only: if_False)
    with 1(2,3) show ?thesis by simp
  qed
qed

lemma emit_line_ok: "spells rs l \<Longrightarrow> \<exists>rss ls. emit_line fits l = Some ls \<and> lines_of fits rss ls \<and> concat rss = rs"
proof (induction "length rs" arbitrary: rs l rule: less_induct)
  case less
  note l = less.prems
  show ?case
  proof (cases "fits l \<or> length rs \<le> 1")
    case True
    then have "emit_line fits l = Some [l]"
      using spells_runes [OF l] by (subst emit_line.simps) (auto simp: longest_prefix_def)
    moreover have "lines_of fits [rs] [l]"
      using True l spells_runes [OF l] by (auto simp: lines_of_def)
    ultimately show ?thesis by force
  next
    case False
    define n where "n = prefix_length fits rs 1"
    have n: "1 \<le> n" "n < length rs" "n = 1 \<or> fits (string_of_runes (take n rs))"
      using prefix_length_ok [of 1 rs fits] False by (auto simp: n_def)
    let ?c = "string_of_runes (take n rs)" and ?l = "drop (length (string_of_runes (take n rs))) l"
    have c: "longest_prefix fits l = ?c" "?c \<noteq> ''''"
      using False n spells_runes [OF l] by (auto simp: longest_prefix_def n_def)
    have fits_in: "\<not> length l < length ?c" using spells_cut(1) [OF l, of n] by (metis length_append le_add1 not_less)
    have "length (drop n rs) < length rs" using n(1,2) by simp
    from less.hyps [OF this spells_cut(2) [OF l, of n]]
    obtain rss ls where rest: "emit_line fits ?l = Some ls" "lines_of fits rss ls" "concat rss = drop n rs" by blast
    have "emit_line fits l = Some (?c # ls)"
      using False c fits_in rest(1) by (subst emit_line.simps) (simp add: Let_def)
    moreover have "lines_of fits [take n rs] [?c]"
      using n(3) spells_take [OF l, of n] spells_runes [OF spells_take [OF l, of n]] by (auto simp: lines_of_def)
    then have "lines_of fits (take n rs # rss) (?c # ls)" using lines_of_append [OF _ rest(2)] by fastforce
    moreover have "concat (take n rs # rss) = rs" using rest(3) by simp
    ultimately show ?thesis by blast
  qed
qed

section \<open>Words\<close>

abbreviation letters :: "nat list \<Rightarrow> nat list" where
  "letters rs \<equiv> filter (\<lambda>r. \<not> is_space r) rs"


lemma spells_space: "spells [32] '' ''"
proof -
  have "string_of_runes [32] = '' ''" by code_simp
  then show ?thesis by (simp add: spells_def valid_rune_def)
qed

lemma wrap_words_ok:
  "spells rl l \<Longrightarrow> list_all2 spells rws ws \<Longrightarrow>
   \<exists>rss ls. wrap_words fits l ws = Some ls \<and> lines_of fits rss ls \<and> letters (concat rss) = letters (rl @ concat rws)"
proof (induction ws arbitrary: rl l rws)
  case Nil
  then show ?case using emit_line_ok [OF Nil(1), of fits] by auto
next
  case (Cons w ws)
  from Cons.prems(2) obtain rw rest where r: "rws = rw # rest" "spells rw w" "list_all2 spells rest ws"
    by (auto simp: list_all2_Cons2)
  have empty: "l = '''' \<longleftrightarrow> rl = []" using spells_empty [OF Cons.prems(1)] .
  let ?long = "if l \<noteq> '''' then l @ '' '' @ w else w" and ?rlong = "if rl \<noteq> [] then rl @ [32] @ rw else rw"
  have long: "spells ?rlong ?long" "letters ?rlong = letters (rl @ rw)"
    using empty Cons.prems(1) r(2) spells_append [OF spells_append [OF Cons.prems(1) spells_space] r(2)]
    by (auto simp: is_space_def)
  consider (fits) "fits ?long" | (cut) "\<not> fits ?long" "l \<noteq> ''''" | (first) "\<not> fits ?long" "l = ''''" by blast
  then show ?case
  proof cases
    case fits
    with Cons.IH [OF long(1) r(3)] long(2) r(1) show ?thesis by (auto simp: Let_def)
  next
    case cut
    from emit_line_ok [OF Cons.prems(1), of fits]
    obtain as ls where a: "emit_line fits l = Some ls" "lines_of fits as ls" "concat as = rl" by blast
    from Cons.IH [OF r(2,3)] obtain bs ms where b: "wrap_words fits w ws = Some ms" "lines_of fits bs ms"
      "letters (concat bs) = letters (rw @ concat rest)" by blast
    have "wrap_words fits l (w # ws) = Some (ls @ ms)" using cut a(1) b(1) by (simp add: Let_def)
    moreover have "letters (concat (as @ bs)) = letters (rl @ concat rws)" using a(3) b(3) r(1) by simp
    ultimately show ?thesis using lines_of_append [OF a(2) b(2)] by blast
  next
    case first
    with Cons.IH [OF r(2,3)] empty r(1) show ?thesis by (auto simp: Let_def)
  qed
qed

lemma field_chunks_letters: "concat (field_chunks P cur xs) = cur @ filter (\<lambda>x. \<not> P x) xs"
  by (induction P cur xs rule: field_chunks.induct) auto

lemma field_chunks_map: "field_chunks P (map f cur) (map f xs) = map (map f) (field_chunks (P \<circ> f) cur xs)"
proof (induction xs arbitrary: cur)
  case (Cons x xs)
  show ?case using Cons.IH [of "[]"] Cons.IH [of "cur @ [x]"] by simp
qed simp

lemma fields_spell:
  assumes "spells rs s"
  shows "list_all2 spells (field_chunks is_space [] rs) (fields s)"
proof -
  have valid: "\<forall>r \<in> set rs. valid_rune r" and s: "s = string_of_runes rs" using assms by (auto simp: spells_def)
  have bytes: "bytes_of s = concat (map encode_rune rs)"
    using encode_bytes by (auto simp: s string_of_runes_def intro!: bytes_of_string_of_bytes)
  let ?f = "\<lambda>r. (r, encode_rune r)"
  have chunks: "rune_chunks (bytes_of s) = map ?f rs" using chunks_encode [OF valid] bytes by simp
  have pred: "space_chunk \<circ> ?f = is_space" by (auto simp: space_chunk_def)
  have "fields s = map (\<lambda>cs. string_of_bytes (concat (map snd (map ?f cs)))) (field_chunks is_space [] rs)"
    using field_chunks_map [of space_chunk ?f "[]" rs] by (simp add: fields_def chunks pred)
  then have f: "fields s = map string_of_runes (field_chunks is_space [] rs)"
    by (simp add: string_of_runes_def comp_def)
  have "set (concat (field_chunks is_space [] rs)) \<subseteq> set rs" unfolding field_chunks_letters by auto
  with valid have "\<forall>x \<in> set (field_chunks is_space [] rs). \<forall>r \<in> set x. valid_rune r" by auto
  then show ?thesis by (auto simp: f list_all2_conv_all_nth spells_def)
qed

lemma wrap_paragraph_ok:
  assumes "spells rs s"
  shows "\<exists>rss ls. wrap_paragraph fits s = Some ls \<and> lines_of fits rss ls \<and> letters (concat rss) = letters rs"
proof (cases "fields s")
  case Nil
  with fields_spell [OF assms] have "field_chunks is_space [] rs = []" by simp
  then have "letters rs = []" using field_chunks_letters [of is_space "[]" rs] by simp
  moreover have "lines_of fits [[]] ['''']" by (auto simp: lines_of_def spells_def runes_def bytes_of_def rune_chunks.simps)
  ultimately show ?thesis using Nil by (force simp: wrap_paragraph_def)
next
  case (Cons w ws)
  have "spells [] ''''" by (simp add: spells_def)
  from wrap_words_ok [OF this fields_spell [OF assms], of fits]
  show ?thesis using Cons by (auto simp: wrap_paragraph_def field_chunks_letters)
qed

section \<open>Paragraphs\<close>

lemma newline_byte: "newline \<in> set (string_of_runes [r]) \<longleftrightarrow> r = 10"
proof -
  have "10 \<in> set (encode_rune r) \<longleftrightarrow> r = 10"
    by (auto simp: encode_rune_def encode_valid_def rune_error_def valid_rune_def)
  moreover have "newline \<in> char_of ` set (encode_rune r) \<longleftrightarrow> 10 \<in> set (encode_rune r)"
  proof -
    have ten: "char_of (10::nat) = newline" "of_char newline = (10::nat)" by code_simp+
    have "b = 10" if "newline = char_of b" "b < 256" for b :: nat
    proof -
      have "of_char newline = b" unfolding that(1) using that(2) by simp
      with ten(2) show ?thesis by simp
    qed
    then show ?thesis using encode_bytes [of r] ten(1) by (metis (no_types, lifting) image_iff)
  qed
  ultimately show ?thesis by (simp add: string_of_runes_def string_of_bytes_def)
qed

lemma split_append:
  "c \<notin> set xs \<Longrightarrow> split_at_byte c (xs @ ys) = (xs @ hd (split_at_byte c ys)) # tl (split_at_byte c ys)"
proof (induction xs)
  case Nil
  have "split_at_byte c ys \<noteq> []" by (cases ys) (auto split: list.splits)
  then show ?case by simp
qed auto

lemma split_spells:
  "spells rs s \<Longrightarrow> \<exists>rss. list_all2 spells rss (split_at_byte newline s) \<and> letters (concat rss) = letters rs"
proof (induction rs arbitrary: s)
  case Nil
  then show ?case by (auto simp: spells_def intro: exI [of _ "[[]]"])
next
  case (Cons r rs)
  let ?t = "string_of_runes rs"
  have s: "s = string_of_runes [r] @ ?t" and r: "valid_rune r" and t: "spells rs ?t"
    using Cons.prems string_of_runes_append [of "[r]" rs] by (auto simp: spells_def)
  from Cons.IH [OF t] obtain rss where rss: "list_all2 spells rss (split_at_byte newline ?t)" "letters (concat rss) = letters rs"
    by blast
  show ?case
  proof (cases "r = 10")
    case True
    have "string_of_runes [10] = [newline]" by code_simp
    with True have "string_of_runes [r] = [newline]" by simp
    then have "split_at_byte newline s = '''' # split_at_byte newline ?t" by (simp add: s)
    moreover have "spells [] ''''" by (simp add: spells_def)
    ultimately have "list_all2 spells ([] # rss) (split_at_byte newline s)" using rss(1) by simp
    moreover have "letters (concat ([] # rss)) = letters (r # rs)" using True rss(2) by (simp add: is_space_def)
    ultimately show ?thesis by blast
  next
    case False
    then have split: "split_at_byte newline s = (string_of_runes [r] @ hd (split_at_byte newline ?t)) # tl (split_at_byte newline ?t)"
      using split_append newline_byte [of r] by (simp add: s)
    have "split_at_byte newline ?t \<noteq> []" by (cases ?t) (auto split: list.splits)
    then obtain u us where u: "split_at_byte newline ?t = u # us" by (cases "split_at_byte newline ?t") auto
    with rss(1) obtain x xs where x: "rss = x # xs" "spells x u" "list_all2 spells xs us" by (auto simp: list_all2_Cons2)
    have "spells [r] (string_of_runes [r])" using r by (simp add: spells_def)
    then have "spells ([r] @ x) (string_of_runes [r] @ u)" using x(2) by (rule spells_append)
    then have "list_all2 spells ((r # x) # xs) (split_at_byte newline s)" using split u x(3) by simp
    moreover have "letters (concat ((r # x) # xs)) = letters (r # rs)" using rss(2) x(1) by simp
    ultimately show ?thesis by blast
  qed
qed

lemma wrap_paragraphs_ok:
  "list_all2 spells ps ss \<Longrightarrow>
   \<exists>rss ls. wrap_paragraphs fits ss = Some ls \<and> lines_of fits rss ls \<and> letters (concat rss) = letters (concat ps)"
proof (induction rule: list_all2_induct)
  case Nil
  have "lines_of fits [] []" by (simp add: lines_of_def)
  then show ?case by force
next
  case (Cons p ps s ss)
  from wrap_paragraph_ok [OF Cons(1), of fits] obtain as ls
    where a: "wrap_paragraph fits s = Some ls" "lines_of fits as ls" "letters (concat as) = letters p" by blast
  from Cons.IH obtain bs ms
    where b: "wrap_paragraphs fits ss = Some ms" "lines_of fits bs ms" "letters (concat bs) = letters (concat ps)" by blast
  have "wrap_paragraphs fits (s # ss) = Some (ls @ ms)" using a(1) b(1) by simp
  moreover have "letters (concat (as @ bs)) = letters (concat (p # ps))" using a(3) b(3) by simp
  ultimately show ?case using lines_of_append [OF a(2) b(2)] by blast
qed

definition visible :: "string \<Rightarrow> nat list" where
  "visible s = letters (runes s)"

lemma lines_visible: "lines_of fits rss ls \<Longrightarrow> concat (map visible ls) = letters (concat rss)"
proof -
  assume "lines_of fits rss ls"
  then have "list_all2 spells rss ls" by (simp add: lines_of_def)
  then show ?thesis by (induction rule: list_all2_induct) (auto simp: visible_def spells_runes)
qed

text \<open>
  C29: nothing of a message is lost on the screen. For any font and any width, wrapping a text of valid UTF-8 ends without a
  panic; its lines hold, in order, every character of the text that is not white space, and nothing else
  visible; and every line fits the width, unless it is a single character that does not fit by itself.
\<close>

theorem wrap_keeps_all:
  assumes "valid_utf8 s"
  shows "\<exists>ls. wrap_text fits s = Some ls \<and> ls \<noteq> [] \<and> concat (map visible ls) = visible s
    \<and> (\<forall>l \<in> set ls. fits l \<or> length (runes l) \<le> 1)"
proof -
  from split_spells [OF spells_valid [OF assms]]
  obtain ps where ps: "list_all2 spells ps (split_at_byte newline s)" "letters (concat ps) = visible s"
    by (auto simp: visible_def)
  from wrap_paragraphs_ok [OF ps(1), of fits] obtain rss ls
    where ls: "wrap_paragraphs fits (split_at_byte newline s) = Some ls" "lines_of fits rss ls"
      "letters (concat rss) = letters (concat ps)" by blast
  have no_runes: "runes '''' = []" by (simp add: runes_def bytes_of_def rune_chunks.simps)
  have "concat (map visible ls) = visible s" using lines_visible [OF ls(2)] ls(3) ps(2) by simp
  then show ?thesis using ls(1,2) by (auto simp: wrap_text_def lines_of_def visible_def no_runes)
qed

theorem wrap_keeps_all_witness:
  "\<exists>ls. wrap_text (\<lambda>l. length l \<le> 5) ''see below'' = Some ls \<and> concat (map visible ls) = visible ''see below''"
proof -
  have "valid_utf8 ''see below''" unfolding valid_utf8_def by code_simp
  from wrap_keeps_all [OF this, of "\<lambda>l. length l \<le> 5"] show ?thesis by blast
qed

end
