(* ===== verification/Methods.thy ===== *)
theory Methods
  imports Texts RpcProperties
begin

text \<open>
  The typed methods of \<open>chat/client.go\<close> over an interface: a way of asking a daemon, which gives a
  result or the text of an error and the daemon after it. The locale \<open>answering\<close> is what the front ends rely
  on, that a result has the kind its method promises; the daemon's dispatch is shown to satisfy it.
\<close>

section \<open>Asking\<close>

type_synonym 'd asker = "'d \<Rightarrow> rpc_call \<Rightarrow> 'd \<times> (string + rpc_result)"

text \<open>\<open>call\<close> with the decoding of its result; a result of another kind does not decode.\<close>

definition wrong_kind :: string where "wrong_kind = ''json: cannot unmarshal''"

definition ask_for :: "(rpc_result \<Rightarrow> 'a option) \<Rightarrow> 'd asker \<Rightarrow> 'd \<Rightarrow> rpc_call \<Rightarrow> 'd \<times> (string + 'a)" where
  "ask_for get ask d c = (case ask d c of
      (d', Inl e) \<Rightarrow> (d', Inl e)
    | (d', Inr v) \<Rightarrow> (d', case get v of None \<Rightarrow> Inl wrong_kind | Some x \<Rightarrow> Inr x))"

definition to_pong :: "rpc_result \<Rightarrow> string option" where
  "to_pong v = (case v of Pong s \<Rightarrow> Some s | _ \<Rightarrow> None)"
definition to_status :: "rpc_result \<Rightarrow> daemon_status option" where
  "to_status v = (case v of StatusIs s \<Rightarrow> Some s | _ \<Rightarrow> None)"
definition to_identity :: "rpc_result \<Rightarrow> identity option" where
  "to_identity v = (case v of IdentityIs i \<Rightarrow> Some i | _ \<Rightarrow> None)"
definition to_peers :: "rpc_result \<Rightarrow> peer list option" where
  "to_peers v = (case v of PeersAre l \<Rightarrow> Some l | _ \<Rightarrow> None)"
definition to_convs :: "rpc_result \<Rightarrow> conversation list option" where
  "to_convs v = (case v of ConvsAre l \<Rightarrow> Some l | _ \<Rightarrow> None)"
definition to_view :: "rpc_result \<Rightarrow> conv_view option" where
  "to_view v = (case v of ViewIs x \<Rightarrow> Some x | _ \<Rightarrow> None)"
definition to_messages :: "rpc_result \<Rightarrow> message list option" where
  "to_messages v = (case v of MessagesAre l \<Rightarrow> Some l | _ \<Rightarrow> None)"
definition to_message :: "rpc_result \<Rightarrow> message option" where
  "to_message v = (case v of MessageIs m \<Rightarrow> Some m | _ \<Rightarrow> None)"
definition to_count :: "rpc_result \<Rightarrow> int option" where
  "to_count v = (case v of CountIs n \<Rightarrow> Some n | _ \<Rightarrow> None)"
definition to_room :: "rpc_result \<Rightarrow> string option" where
  "to_room v = (case v of OkIs ok room \<Rightarrow> Some room | _ \<Rightarrow> None)"
definition to_nothing :: "rpc_result \<Rightarrow> unit option" where
  "to_nothing v = Some ()"
definition to_transfer :: "rpc_result \<Rightarrow> transfer option" where
  "to_transfer v = (case v of TransferIs t \<Rightarrow> Some t | _ \<Rightarrow> None)"
definition to_transfers :: "rpc_result \<Rightarrow> transfer list option" where
  "to_transfers v = (case v of TransfersAre l \<Rightarrow> Some l | _ \<Rightarrow> None)"
definition to_prefs :: "rpc_result \<Rightarrow> notify_prefs option" where
  "to_prefs v = (case v of PrefsAre p \<Rightarrow> Some p | _ \<Rightarrow> None)"

lemmas to_defs = to_pong_def to_status_def to_identity_def to_peers_def to_convs_def to_view_def to_messages_def
  to_message_def to_count_def to_room_def to_nothing_def to_transfer_def to_transfers_def to_prefs_def

section \<open>The methods\<close>

definition cli_ping :: "'d asker \<Rightarrow> 'd \<Rightarrow> 'd \<times> (string + string)" where
  "cli_ping ask d = ask_for to_pong ask d Ping"
definition cli_status :: "'d asker \<Rightarrow> 'd \<Rightarrow> 'd \<times> (string + daemon_status)" where
  "cli_status ask d = ask_for to_status ask d StatusGet"
definition cli_identity :: "'d asker \<Rightarrow> 'd \<Rightarrow> 'd \<times> (string + identity)" where
  "cli_identity ask d = ask_for to_identity ask d IdentityGet"
definition cli_set_identity :: "'d asker \<Rightarrow> 'd \<Rightarrow> identity \<Rightarrow> 'd \<times> (string + identity)" where
  "cli_set_identity ask d i = ask_for to_identity ask d (IdentitySet (Inr i))"
definition cli_set_presence :: "'d asker \<Rightarrow> 'd \<Rightarrow> presence \<Rightarrow> 'd \<times> (string + identity)" where
  "cli_set_presence ask d p = ask_for to_identity ask d (PresenceSet (Inr p))"
definition cli_peers :: "'d asker \<Rightarrow> 'd \<Rightarrow> 'd \<times> (string + peer list)" where
  "cli_peers ask d = ask_for to_peers ask d PeersList"
definition cli_block :: "'d asker \<Rightarrow> 'd \<Rightarrow> peer_id \<Rightarrow> bool \<Rightarrow> 'd \<times> (string + unit)" where
  "cli_block ask d i b = ask_for to_nothing ask d (PeersBlock (Inr (i, b)))"
definition cli_conversations :: "'d asker \<Rightarrow> 'd \<Rightarrow> 'd \<times> (string + conversation list)" where
  "cli_conversations ask d = ask_for to_convs ask d ConvList"
definition cli_conversation :: "'d asker \<Rightarrow> 'd \<Rightarrow> conv_id \<Rightarrow> 'd \<times> (string + conv_view)" where
  "cli_conversation ask d c = ask_for to_view ask d (ConvGet (Inr c))"
definition cli_messages :: "'d asker \<Rightarrow> 'd \<Rightarrow> conv_id \<Rightarrow> int \<Rightarrow> 'd \<times> (string + message list)" where
  "cli_messages ask d c limit = ask_for to_messages ask d (MessagesList (Inr (c, limit)))"
definition cli_send :: "'d asker \<Rightarrow> 'd \<Rightarrow> conv_id \<Rightarrow> string \<Rightarrow> 'd \<times> (string + message)" where
  "cli_send ask d c body = ask_for to_message ask d (MessagesSend (Inr (c, body)))"
definition cli_mark_read :: "'d asker \<Rightarrow> 'd \<Rightarrow> conv_id \<Rightarrow> 'd \<times> (string + int)" where
  "cli_mark_read ask d c = ask_for to_count ask d (MessagesRead (Inr c))"
definition cli_set_typing :: "'d asker \<Rightarrow> 'd \<Rightarrow> conv_id \<Rightarrow> bool \<Rightarrow> 'd \<times> (string + unit)" where
  "cli_set_typing ask d c on = ask_for to_nothing ask d (TypingSet (Inr (c, on)))"
definition cli_rooms :: "'d asker \<Rightarrow> 'd \<Rightarrow> 'd \<times> (string + conversation list)" where
  "cli_rooms ask d = ask_for to_convs ask d RoomsList"
definition cli_join_room :: "'d asker \<Rightarrow> 'd \<Rightarrow> string \<Rightarrow> 'd \<times> (string + string)" where
  "cli_join_room ask d name = ask_for to_room ask d (RoomsJoin (Inr name))"
definition cli_leave_room :: "'d asker \<Rightarrow> 'd \<Rightarrow> string \<Rightarrow> 'd \<times> (string + unit)" where
  "cli_leave_room ask d name = ask_for to_nothing ask d (RoomsLeave (Inr name))"
definition cli_offer_file :: "'d asker \<Rightarrow> 'd \<Rightarrow> conv_id \<Rightarrow> string \<Rightarrow> 'd \<times> (string + transfer)" where
  "cli_offer_file ask d c path = ask_for to_transfer ask d (FilesOffer (Inr (c, path)))"
definition cli_accept_file :: "'d asker \<Rightarrow> 'd \<Rightarrow> transfer_id \<Rightarrow> 'd \<times> (string + unit)" where
  "cli_accept_file ask d i = ask_for to_nothing ask d (FilesAccept (Inr i))"
definition cli_decline_file :: "'d asker \<Rightarrow> 'd \<Rightarrow> transfer_id \<Rightarrow> string \<Rightarrow> 'd \<times> (string + unit)" where
  "cli_decline_file ask d i reason = ask_for to_nothing ask d (FilesDecline (Inr (i, reason)))"
definition cli_transfers :: "'d asker \<Rightarrow> 'd \<Rightarrow> 'd \<times> (string + transfer list)" where
  "cli_transfers ask d = ask_for to_transfers ask d FilesList"
definition cli_notify_prefs :: "'d asker \<Rightarrow> 'd \<Rightarrow> 'd \<times> (string + notify_prefs)" where
  "cli_notify_prefs ask d = ask_for to_prefs ask d NotifyGet"
definition cli_set_notify_prefs :: "'d asker \<Rightarrow> 'd \<Rightarrow> notify_prefs \<Rightarrow> 'd \<times> (string + notify_prefs)" where
  "cli_set_notify_prefs ask d p = ask_for to_prefs ask d (NotifySet (Inr p))"

lemmas cli_defs = cli_ping_def cli_status_def cli_identity_def cli_set_identity_def cli_set_presence_def cli_peers_def
  cli_block_def cli_conversations_def cli_conversation_def cli_messages_def cli_send_def cli_mark_read_def
  cli_set_typing_def cli_rooms_def cli_join_room_def cli_leave_room_def cli_offer_file_def cli_accept_file_def
  cli_decline_file_def cli_transfers_def cli_notify_prefs_def cli_set_notify_prefs_def

text \<open>\<open>WhereTo\<close>.\<close>

definition where_to :: "string \<Rightarrow> bool \<Rightarrow> bool \<Rightarrow> string" where
  "where_to server connected up =
    (if \<not> up then ''clientd is not answering''
     else if connected \<and> server \<noteq> '''' then ''on '' @ server
     else if connected then ''connected''
     else if server \<noteq> '''' then ''offline '' @ em_dash @ '' cached''
     else ''looking for a server'' @ ellipsis)"

section \<open>What the front ends rely on\<close>

text \<open>
  \<open>get_fits\<close> says that reading a result off cannot fail where the result is of the method's kind: the
  methods above pair each call with the reader of its kind.
\<close>

locale answering =
  fixes ask :: "'d asker" and inv :: "'d \<Rightarrow> bool"
  assumes ask_fits: "inv d \<Longrightarrow> ask d c = (d', Inr v) \<Longrightarrow> result_fits c v"
    and ask_inv: "inv d \<Longrightarrow> inv (fst (ask d c))"
begin

lemma ask_for_inv: "inv d \<Longrightarrow> inv (fst (ask_for get ask d c))"
  using ask_inv [of d c] by (auto simp: ask_for_def split: prod.splits sum.splits)

lemma ask_for_fits:
  "inv d \<Longrightarrow> (\<And>v. result_fits c v \<Longrightarrow> get v \<noteq> None) \<Longrightarrow> snd (ask_for get ask d c) = Inl e \<Longrightarrow> snd (ask d c) = Inl e"
  using ask_fits [of d c] by (fastforce simp: ask_for_def split: prod.splits sum.splits option.splits)

end

text \<open>The daemon's dispatch, asked by one front end at one moment; \<open>text\<close> words the errors that keep their value.\<close>

definition ask_daemon :: "world \<Rightarrow> (error_detail \<Rightarrow> string) \<Rightarrow> rpc asker" where
  "ask_daemon w wording r c = (fst (dispatch w r c), (case snd (dispatch w r c) of
      Inl (code, detail) \<Rightarrow> Inl (wording detail) | Inr v \<Rightarrow> Inr v))"


text \<open>A request moves the cache along the operations of the store, so it keeps the cache well formed.\<close>

lemma dstore_fields [simp]:
  "dstore (with_daemon r d) = dmStore d" "dstore (with_rstore r s) = s" "dstore (broadcast r ev) = dstore r"
  by (simp_all add: dstore_def with_rstore_def)

lemma path_dispatch: "store_path (dstore r) (dstore (fst (dispatch w r c)))"
proof -
  note paths = path_daemon_send [of "rpDaemon r" w] path_daemon_presence [of "rpDaemon r" w] path_daemon_join [of "rpDaemon r" w]
    path_daemon_leave [of "rpDaemon r" w] path_daemon_offer [of "rpDaemon r" w] path_daemon_accept [of "rpDaemon r" w]
    path_daemon_decline [of "rpDaemon r" w]

  have typing: "dmStore (daemon_typing d conv on) = dmStore d" for d conv on by (simp add: daemon_typing_def)
  have ready: "dmStore (readvertise (with_dstore d s)) = s" for d s by (simp add: readvertise_def)
  show ?thesis
  proof (cases c)
    case (IdentitySet p)
    show ?thesis
    proof (cases p)
      case (Inr i)
      then show ?thesis using IdentitySet
        by (simp add: dispatch_def decoded_def identity_set_def fail_app_def case_prod_beta ready split: option.splits)
    qed (use IdentitySet in \<open>simp add: dispatch_def decoded_def bad_params_def\<close>)
  next
    case (PresenceSet p)
    then show ?thesis using paths(2)
      by (simp add: dispatch_def decoded_def bad_params_def presence_set_def fail_app_def case_prod_beta dstore_def
          split: sum.splits option.splits)
  next
    case (PeersBlock p)
    then show ?thesis
      by (auto simp: dispatch_def decoded_def bad_params_def peers_block_def fail_app_def case_prod_beta split: sum.splits bool.splits)
  next
    case (MessagesSend p)
    then show ?thesis using paths(1)
      by (simp add: dispatch_def decoded_def bad_params_def messages_send_def fail_app_def case_prod_beta dstore_def
          split: sum.splits option.splits)
  next
    case (RoomsJoin p)
    then show ?thesis using paths(3)
      by (simp add: dispatch_def decoded_def bad_params_def rooms_join_def fail_app_def case_prod_beta dstore_def
          split: sum.splits option.splits)
  next
    case (RoomsLeave p)
    then show ?thesis using paths(4)
      by (simp add: dispatch_def decoded_def bad_params_def rooms_leave_def fail_app_def case_prod_beta dstore_def
          split: sum.splits option.splits)
  next
    case (FilesOffer p)
    then show ?thesis using paths(5)
      by (simp add: dispatch_def decoded_def bad_params_def files_offer_def fail_app_def case_prod_beta dstore_def
          split: sum.splits option.splits)
  next
    case (FilesAccept p)
    then show ?thesis using paths(6)
      by (simp add: dispatch_def decoded_def bad_params_def files_answer_def fail_app_def case_prod_beta dstore_def
          split: sum.splits option.splits)
  next
    case (FilesDecline p)
    then show ?thesis using paths(7)
      by (simp add: dispatch_def decoded_def bad_params_def files_answer_def fail_app_def case_prod_beta dstore_def
          split: sum.splits option.splits)
  next
    case (NotifySet p)
    then show ?thesis
      by (auto simp: dispatch_def decoded_def bad_params_def notify_set_def fail_app_def case_prod_beta
          split: sum.splits option.splits)
  next
    case (MessagesRead p)
    then show ?thesis
      by (auto simp: dispatch_def decoded_def bad_params_def messages_read_def case_prod_beta split: sum.splits)
  qed (simp_all add: dispatch_def decoded_def bad_params_def conv_get_def fail_app_def typing dstore_def [of r]
      split: sum.splits option.splits)
qed

definition asks_ok :: "rpc \<Rightarrow> bool" where
  "asks_ok r \<longleftrightarrow> store_ok (dstore r)"

interpretation local_daemon: answering "ask_daemon w wording" asks_ok
proof unfold_locales
  fix d c d' v
  assume "asks_ok d" and ask: "ask_daemon w wording d c = (d', Inr v)"
  then have "answer_fits c (snd (dispatch w d c))" by (simp add: asks_ok_def dispatch_answers)
  moreover have "snd (dispatch w d c) = Inr v" using ask by (auto simp: ask_daemon_def split: sum.splits)
  ultimately show "result_fits c v" by (simp add: answer_fits_def)
next
  fix d c
  assume "asks_ok d"
  then show "asks_ok (fst (ask_daemon w wording d c))"
    using path_store_ok [OF path_dispatch] by (simp add: asks_ok_def ask_daemon_def)
qed

end
