(* ===== verification/Tui.thy ===== *)
theory Tui
  imports Methods
begin

text \<open>
  The model of \<open>chattui/tui.go\<close>, the terminal front end, over any way of asking a daemon. What the widgets show is part
  of the state; what the toolkit calls back is an input, or, where one of its functions calls back at once, a
  function of \<open>terminal\<close>. A job is what \<open>post\<close> queues for the screen's goroutine, from a goroutine of its
  own, so in any order; a piece of work is a goroutine of its own. Each is run by a step of its own. How far the transcript is scrolled is not modelled.
\<close>

section \<open>State\<close>

text \<open>
  \<open>tmAdded n\<close> is the index the list's changed function is called with when an item is added to \<open>n\<close> others,
  \<open>tmMoved i j\<close> the one when the current item is set from \<open>i\<close> to \<open>j\<close>; \<open>tmTextSet\<close> tells whether setting the text
  of the composer calls its changed function. \<open>tmEscape\<close> is \<open>tview.Escape\<close>.
\<close>

record terminal =
  tmNow :: gotime
  tmZone :: "gotime \<Rightarrow> int"
  tmZoneName :: "gotime \<Rightarrow> string"
  tmEscape :: "string \<Rightarrow> string"
  tmAdded :: "nat \<Rightarrow> nat option"
  tmMoved :: "nat \<Rightarrow> nat \<Rightarrow> nat option"
  tmTextSet :: bool

datatype tui_job =
  JobMessages conv_id | JobPeers | JobHeadline | JobTransfer "transfer option" | JobNotify string string
| JobState bool | JobConvs | JobNote string

datatype tui_work = WorkRead conv_id | WorkOffer conv_id string | WorkTyping conv_id bool

datatype tui_panel = TextPanel string string | JoinPrompt

datatype tui_focus = OnInput | OnList | OnLog | OnPanel

record 'd tui =
  tuBack :: 'd
  tuList :: "(string \<times> string) list"
  tuItem :: nat
  tuLog :: string
  tuLogTitle :: string
  tuInput :: string
  tuStatus :: string
  tuHeadline :: string
  tuPanel :: "tui_panel option"
  tuFocus :: tui_focus
  tuConvs :: "conversation list"
  tuCurrent :: conv_id
  tuSelf :: identity
  tuWhere :: string
  tuTyping :: "(conv_id \<times> peer_id list) list"
  tuNames :: "(peer_id \<times> string) list"
  tuUp :: bool
  tuLastTyping :: gotime
  tuJobs :: "tui_job list"
  tuWork :: "tui_work list"
  tuBells :: nat
  tuStopped :: bool

definition new_tui :: "'d \<Rightarrow> 'd tui" where
  "new_tui d = \<lparr>tuBack = d, tuList = [], tuItem = 0, tuLog = '''', tuLogTitle = '''', tuInput = '''', tuStatus = '''',
     tuHeadline = '''', tuPanel = None, tuFocus = OnInput, tuConvs = [], tuCurrent = '''', tuSelf = zero_identity,
     tuWhere = '''', tuTyping = [], tuNames = [], tuUp = True, tuLastTyping = zero_time, tuJobs = [], tuWork = [],
     tuBells = 0, tuStopped = False\<rparr>"

definition tui_call :: "('d \<Rightarrow> 'd \<times> 'r) \<Rightarrow> 'd tui \<Rightarrow> 'd tui \<times> 'r" where
  "tui_call f u = (u\<lparr>tuBack := fst (f (tuBack u))\<rparr>, snd (f (tuBack u)))"

definition post_job :: "'d tui \<Rightarrow> tui_job \<Rightarrow> 'd tui" where
  "post_job u j = u\<lparr>tuJobs := tuJobs u @ [j]\<rparr>"

definition start_work :: "'d tui \<Rightarrow> tui_work \<Rightarrow> 'd tui" where
  "start_work u k = u\<lparr>tuWork := tuWork u @ [k]\<rparr>"

definition tui_note :: "terminal \<Rightarrow> 'd tui \<Rightarrow> string \<Rightarrow> 'd tui" where
  "tui_note tm u s = u\<lparr>tuLog := tuLog u @ ''[gray]'' @ clock_text (tmZone tm) (tmNow tm) @ ''[-] '' @ s @ [newline]\<rparr>"

definition note_error :: "terminal \<Rightarrow> 'd tui \<Rightarrow> string \<Rightarrow> 'd tui" where
  "note_error tm u e = tui_note tm u (''[red]'' @ e)"

section \<open>Texts\<close>

definition remove_peer :: "peer_id list \<Rightarrow> peer_id \<Rightarrow> peer_id list" where
  "remove_peer l i = filter (\<lambda>p. p \<noteq> i) l"

definition tcell_hex :: "string \<Rightarrow> string" where
  "tcell_hex s = (if length s = 7 \<and> s ! 0 = CHR ''#'' then s else ''white'')"

definition bullet_color :: "presence \<Rightarrow> string" where
  "bullet_color p = (if presence_valid p = presence_online then ''green'' else if presence_valid p = presence_away then ''yellow''
     else if presence_valid p = presence_busy then ''red'' else ''gray'')"

definition conv_title :: "conversation \<Rightarrow> string" where
  "conv_title c =
    (if cRoom c = '''' then ''['' @ bullet_color (cPresence c) @ '']'' @ glyph 0x2022 @ ''[-] '' @ cTitle c
     else ''[blue]#[-] '' @ cRoom c)
    @ (if 0 < cUnread c then ''  [::b]('' @ decimal_int (cUnread c) @ '')[-::-]'' else '''')"

definition blank_newline :: "char \<Rightarrow> char" where
  "blank_newline c = (if c = newline then CHR '' '' else c)"

definition conv_subtitle :: "conversation \<Rightarrow> string" where
  "conv_subtitle c =
    (let line = trim_space (map blank_newline (cLast c)) in
     if line = '''' \<and> 0 < cMembers c then ''  '' @ decimal_int (cMembers c) @ '' here''
     else ''  '' @ (if 28 < length (runes line) then string_of_runes (take 27 (runes line)) @ ellipsis else line))"

definition name_in :: "(peer_id \<times> string) list \<Rightarrow> peer_id \<Rightarrow> string" where
  "name_in names i = (case map_of names i of Some n \<Rightarrow> n | None \<Rightarrow> short_id i)"

definition delivery_mark :: "message_state \<Rightarrow> string" where
  "delivery_mark st = (case st of
      StateQueued \<Rightarrow> '' [yellow](waiting)[-]'' | StateSending \<Rightarrow> '' [gray](sending)[-]''
    | StateFailed \<Rightarrow> '' [red](not delivered)[-]'' | StateDelivered \<Rightarrow> '' [green]'' @ glyph 0x2713 @ ''[-]''
    | StateNone \<Rightarrow> '''')"

definition message_line :: "terminal \<Rightarrow> message \<Rightarrow> peer_id \<Rightarrow> (peer_id \<times> string) list \<Rightarrow> string" where
  "message_line tm m self names =
    (let stamp = clock_text (tmZone tm) (mSent m) in
     if mSystem m then ''[gray]'' @ stamp @ ''  '' @ middle_dot @ '' '' @ mBody m @ ''[-]'' @ [newline]
     else (let who = (if mFromNick m = '''' then name_in names (mFrom m) else mFromNick m);
         mark = (if mFrom m = self \<or> mMine m then delivery_mark (mState m) else '''');
         body = (case mTransfer m of None \<Rightarrow> tmEscape tm (mBody m)
           | Some ref \<Rightarrow> ''[::b]'' @ tmEscape tm (rName ref) @ ''[-::-]  '' @ human_size (rSize ref))
       in ''[gray]'' @ stamp @ ''[-] ['' @ tcell_hex (color_for_id (mFrom m)) @ ''::b]'' @ who @ ''[-::-]  '' @ body @ mark
         @ [newline]))"

text \<open>The transcript, with a line for each new day.\<close>

definition day_rule :: "string \<Rightarrow> string" where
  "day_rule day = [newline] @ ''[gray]'' @ concat (replicate 4 (glyph 0x2500)) @ '' '' @ day @ '' ''
     @ concat (replicate 4 (glyph 0x2500)) @ ''[-]'' @ [newline]"

fun transcript_from :: "terminal \<Rightarrow> peer_id \<Rightarrow> (peer_id \<times> string) list \<Rightarrow> string \<Rightarrow> message list \<Rightarrow> string" where
  "transcript_from tm self names last_day [] = ''''"
| "transcript_from tm self names last_day (m # ms) =
     (let day = long_day (tmZone tm) (mSent m)
      in (if day \<noteq> last_day then day_rule day else '''') @ message_line tm m self names
        @ transcript_from tm self names day ms)"

definition transfer_line :: "transfer \<Rightarrow> string" where
  "transfer_line t =
    glyph (if tIncoming t then 0x2190 else 0x2192) @ '' '' @ pad_right 32 (tName t) @ '' '' @ pad_left 9 (human_size (tSize t)) @ ''  ''
    @ (if tState t = TransferRunning \<and> 0 < tSize t then decimal_int (percent t) @ ''%'' else transfer_state_text (tState t))
    @ (if tError t \<noteq> '''' then ''  [red]'' @ tError t @ ''[-]'' else '''')
    @ (if tState t = TransferIncoming then ''   [yellow]/accept or /decline[-]'' else '''')"

section \<open>Drawing\<close>

definition typing_text :: "(peer_id \<times> string) list \<Rightarrow> peer_id list \<Rightarrow> string" where
  "typing_text names who = (if who = [] then ''''
     else ''   [gray]'' @ join_with '', '' (sort_by less_string (map (name_in names) who)) @ '' is typing'' @ ellipsis @ ''[-]'')"

definition headline_text :: "conv_id \<Rightarrow> conv_view \<Rightarrow> string" where
  "headline_text conv v = '' [::b]'' @ cTitle (cvConv v) @ ''[-::-]''
    @ (if is_room conv then ''   '' @ decimal_int (cMembers (cvConv v)) @ '' here''
       else (case cvPeers v of
           [p] \<Rightarrow> ''   '' @ presence_valid (pPresence p) @ (if pAddr p \<noteq> '''' then ''   [gray]'' @ pAddr p @ ''[-]'' else '''')
         | _ \<Rightarrow> ''''))"

definition draw_headline :: "'d asker \<Rightarrow> 'd tui \<Rightarrow> 'd tui" where
  "draw_headline ask u =
    (let conv = tuCurrent u in
     if conv = '''' then u\<lparr>tuHeadline := ''''\<rparr>
     else (case tui_call (\<lambda>d. cli_conversation ask d conv) u of
         (u1, Inl e) \<Rightarrow> u1\<lparr>tuHeadline := ''''\<rparr>
       | (u1, Inr v) \<Rightarrow> u1\<lparr>tuHeadline := headline_text conv v @ typing_text (tuNames u1) (get_or [] (tuTyping u1) conv),
            tuLogTitle := '' '' @ cTitle (cvConv v) @ '' ''\<rparr>))"

definition tui_status_text :: "'d tui \<Rightarrow> string" where
  "tui_status_text u =
    (if \<not> tuUp u then '' [red]comms-chat-lan-clientd is not answering '' @ em_dash @ '' reconnecting'' @ ellipsis @ ''[-]''
     else '' ['' @ tcell_hex (iColor (tuSelf u)) @ ''::b]'' @ iNick (tuSelf u) @ ''[-::-]  '' @ presence_valid (iPresence (tuSelf u))
       @ ''  [gray]'' @ middle_dot @ ''[-]  '' @ tuWhere u
       @ ''   [gray]Ctrl+G keys and commands   Ctrl+N join a room   Ctrl+C quit[-]'')"

definition tui_draw_status :: "'d tui \<Rightarrow> 'd tui" where
  "tui_draw_status u = u\<lparr>tuStatus := tui_status_text u\<rparr>"

definition nothing_selected :: string where
  "nothing_selected = [newline] @ ''  Nothing selected yet.'' @ [newline, newline]
     @ ''  Peers appear in the list on the left a few seconds after they'' @ [newline]
     @ ''  start. [::b]Ctrl+N[-::-] joins a room; [::b]Ctrl+G[-::-] lists every key and command.''"

definition tui_reload_messages :: "'d asker \<Rightarrow> terminal \<Rightarrow> 'd tui \<Rightarrow> 'd tui" where
  "tui_reload_messages ask tm u =
    (if tuCurrent u = '''' then u\<lparr>tuLog := nothing_selected\<rparr>
     else (case tui_call (\<lambda>d. cli_messages ask d (tuCurrent u) 500) u of
         (u1, Inl e) \<Rightarrow> note_error tm u1 e
       | (u1, Inr ms) \<Rightarrow> u1\<lparr>tuLog := transcript_from tm (iID (tuSelf u1)) (tuNames u1) '''' ms\<rparr>))"

section \<open>The list of conversations\<close>

definition tui_select_index :: "'d asker \<Rightarrow> terminal \<Rightarrow> 'd tui \<Rightarrow> nat \<Rightarrow> 'd tui" where
  "tui_select_index ask tm u i =
    (if length (tuConvs u) \<le> i then u
     else (let conv = cID (tuConvs u ! i) in
       if conv = tuCurrent u then u
       else start_work (draw_headline ask (tui_reload_messages ask tm (u\<lparr>tuCurrent := conv\<rparr>))) (WorkRead conv)))"

definition called_back :: "'d asker \<Rightarrow> terminal \<Rightarrow> 'd tui \<Rightarrow> nat option \<Rightarrow> 'd tui" where
  "called_back ask tm u cb = (case cb of None \<Rightarrow> u | Some i \<Rightarrow> tui_select_index ask tm u i)"

definition set_current_item :: "'d asker \<Rightarrow> terminal \<Rightarrow> 'd tui \<Rightarrow> nat \<Rightarrow> 'd tui" where
  "set_current_item ask tm u i = called_back ask tm (u\<lparr>tuItem := i\<rparr>) (tmMoved tm (tuItem u) i)"

definition add_item :: "'d asker \<Rightarrow> terminal \<Rightarrow> 'd tui \<Rightarrow> conversation \<Rightarrow> 'd tui" where
  "add_item ask tm u c = called_back ask tm (u\<lparr>tuList := tuList u @ [(conv_title c, conv_subtitle c)]\<rparr>)
     (tmAdded tm (length (tuList u)))"

text \<open>The last index of a conversation, as the loop over the list leaves it.\<close>

definition row_of_conv :: "conv_id \<Rightarrow> conversation list \<Rightarrow> nat option" where
  "row_of_conv i cs = find (\<lambda>k. cID (cs ! k) = i) (rev [0 ..< length cs])"

definition names_of :: "peer list \<Rightarrow> (peer_id \<times> string) list" where
  "names_of ps = foldl (\<lambda>m p. AList.update (pID p) (display_name p) m) [] ps"

definition show_convs :: "'d asker \<Rightarrow> terminal \<Rightarrow> 'd tui \<Rightarrow> conversation list \<Rightarrow> peer list \<Rightarrow> 'd tui" where
  "show_convs ask tm u cs ps =
    (let current = tuCurrent u;
         u1 = u\<lparr>tuConvs := cs, tuNames := names_of ps, tuList := [], tuItem := 0\<rparr>;
         u2 = foldl (add_item ask tm) u1 cs
     in (case row_of_conv current cs of
          Some k \<Rightarrow> set_current_item ask tm u2 k
        | None \<Rightarrow> (if cs \<noteq> [] \<and> current = '''' then tui_select_index ask tm (set_current_item ask tm u2 0) 0 else u2)))"

definition tui_reload_convs :: "'d asker \<Rightarrow> terminal \<Rightarrow> 'd tui \<Rightarrow> 'd tui" where
  "tui_reload_convs ask tm u = (case tui_call (cli_conversations ask) u of
      (u1, Inl e) \<Rightarrow> note_error tm u1 e
    | (u1, Inr cs) \<Rightarrow> (case tui_call (cli_peers ask) u1 of
          (u2, Inl e) \<Rightarrow> show_convs ask tm u2 cs []
        | (u2, Inr ps) \<Rightarrow> show_convs ask tm u2 cs ps))"

definition tui_select_conv :: "'d asker \<Rightarrow> terminal \<Rightarrow> 'd tui \<Rightarrow> conv_id \<Rightarrow> 'd tui" where
  "tui_select_conv ask tm u i = (case find (\<lambda>k. cID (tuConvs u ! k) = i) [0 ..< length (tuConvs u)] of
      None \<Rightarrow> u | Some k \<Rightarrow> set_current_item ask tm u k)"

definition tui_move_selection :: "'d asker \<Rightarrow> terminal \<Rightarrow> 'd tui \<Rightarrow> int \<Rightarrow> 'd tui" where
  "tui_move_selection ask tm u delta =
    (let n = length (tuList u) in
     if n = 0 then u else set_current_item ask tm u (nat ((int (tuItem u) + delta + int n) mod int n)))"

definition tui_load_identity :: "'d asker \<Rightarrow> 'd tui \<Rightarrow> 'd tui" where
  "tui_load_identity ask u = (case tui_call (cli_identity ask) u of
      (u1, Inl e) \<Rightarrow> u1 | (u1, Inr i) \<Rightarrow> u1\<lparr>tuSelf := i\<rparr>)"

definition tui_load_where :: "'d asker \<Rightarrow> 'd tui \<Rightarrow> 'd tui" where
  "tui_load_where ask u = (case tui_call (cli_status ask) u of
      (u1, Inl e) \<Rightarrow> u1 | (u1, Inr st) \<Rightarrow> u1\<lparr>tuWhere := where_to (dsServer st) (dsConnected st) True\<rparr>)"

definition tui_reload_all :: "'d asker \<Rightarrow> terminal \<Rightarrow> 'd tui \<Rightarrow> 'd tui" where
  "tui_reload_all ask tm u = draw_headline ask (tui_draw_status
     (tui_reload_messages ask tm (tui_reload_convs ask tm (tui_load_where ask (tui_load_identity ask u)))))"


section \<open>Panels\<close>

definition lines_text :: "string list \<Rightarrow> string" where
  "lines_text ls = concat (map (\<lambda>l. l @ [newline]) ls)"

definition show_text :: "'d tui \<Rightarrow> string \<Rightarrow> string \<Rightarrow> 'd tui" where
  "show_text u title body = u\<lparr>tuPanel := Some (TextPanel (title @ '' '' @ em_dash @ '' Escape closes '') body), tuFocus := OnPanel\<rparr>"

definition close_panel :: "'d tui \<Rightarrow> 'd tui" where
  "close_panel u = u\<lparr>tuPanel := None, tuFocus := OnInput\<rparr>"

definition join_prompt :: "'d tui \<Rightarrow> 'd tui" where
  "join_prompt u = u\<lparr>tuPanel := Some JoinPrompt, tuFocus := OnPanel\<rparr>"

definition help_lines :: "string list" where
  "help_lines = [''[::b]Keys[-::-]'',
     ''  Tab / Shift+Tab   move between the composer, the list and the transcript'',
     ''  Alt+Up / Alt+Down previous / next conversation, without leaving the composer'',
     ''  Ctrl+U / Ctrl+D   scroll the transcript up / down'',
     ''  Ctrl+N            join a room'',
     ''  Ctrl+P            cycle presence: online, away, busy'',
     ''  Ctrl+G            this help'',
     ''  Ctrl+C            quit'',
     ''  Escape            close a panel'',
     '''',
     ''[::b]Commands[-::-]'',
     ''  /join <room>      join a room and open it'',
     ''  /leave [room]     leave a room (the current one by default)'',
     ''  /nick <name>      change the name the LAN sees'',
     ''  /who              the roster: who is here, and how'',
     ''  /send <path>      offer a file to the peer in this conversation'',
     ''  /accept [name]    accept the waiting file offer'',
     ''  /decline [name]   refuse it'',
     ''  /files            every transfer this daemon knows about'',
     ''  /status           what the daemon is doing'',
     ''  /quit             quit'',
     '''',
     ''[::b]What this is[-::-]'',
     ''  A LAN chat with one server on your own network and no accounts.'',
     ''  Enrolment is open, nothing is encrypted and nobody is authenticated:'',
     ''  anyone who can reach the server can join in and read what goes past.'',
     ''  See docs/security.md.'']"

definition show_help :: "'d tui \<Rightarrow> 'd tui" where
  "show_help u = show_text u '' Keys and commands '' (trim_space (lines_text help_lines))"

definition nobody_lines :: "string list" where
  "nobody_lines = [''Nobody else is here yet.'', '''',
     ''Everyone enrolled with the same server appears a few seconds after'',
     ''they start. If nobody ever appears, this machine may not have found'',
     ''the server: see /status, and docs/protocol.md.'']"

definition peer_line :: "peer \<Rightarrow> string" where
  "peer_line p = (if pBlocked p then ''x'' else '' '') @ '' ['' @ tcell_hex (pColor p) @ '']'' @ pad_right 24 (display_name p) @ ''[-]  ''
     @ pad_right 8 (presence_valid (pPresence p)) @ '' '' @ pad_right 21 (pAddr p) @ '' '' @ join_with '' '' (slice (pRooms p))
     @ [newline]"

definition peers_text :: "peer list \<Rightarrow> string" where
  "peers_text ps = (if ps = [] then join_with [newline] nobody_lines else concat (map peer_line ps)) @ [newline]
     @ ''x = blocked here: the server still relays them, this machine drops them.''"

definition show_peers :: "'d asker \<Rightarrow> terminal \<Rightarrow> 'd tui \<Rightarrow> 'd tui" where
  "show_peers ask tm u = (case tui_call (cli_peers ask) u of
      (u1, Inl e) \<Rightarrow> note_error tm u1 e
    | (u1, Inr ps) \<Rightarrow> show_text u1 '' Who is here '' (peers_text ps))"

definition transfers_text :: "transfer list \<Rightarrow> string" where
  "transfers_text l = (if l = [] then ''No files have been offered in either direction.''
     else concat (map (\<lambda>t. transfer_line t @ [newline] @ (if tPath t \<noteq> '''' then ''    '' @ tPath t @ [newline] else '''')) l))"

definition show_transfers :: "'d asker \<Rightarrow> terminal \<Rightarrow> 'd tui \<Rightarrow> 'd tui" where
  "show_transfers ask tm u = (case tui_call (cli_transfers ask) u of
      (u1, Inl e) \<Rightarrow> note_error tm u1 e
    | (u1, Inr l) \<Rightarrow> show_text u1 '' Files '' (transfers_text l))"

definition storage_text :: "string \<Rightarrow> string" where
  "storage_text dir = (if dir = '''' then ''memory (nothing is written to disk)'' else dir)"

definition daemon_text :: "terminal \<Rightarrow> daemon_status \<Rightarrow> string" where
  "daemon_text tm st = join_with [newline]
     [''version    '' @ dsVersion st, ''socket     '' @ dsSocket st, ''server     '' @ dsServer st,
      ''link       '' @ (if dsConnected st then ''connected'' else ''not connected '' @ em_dash @ '' showing what this machine already has''),
      ''discovery  '' @ dsDiscovery st, ''cursor     '' @ decimal (unat (dsCursor st)), ''storage    '' @ storage_text (dsDataDir st),
      ''people     '' @ decimal (dsPeers st) @ '' ('' @ decimal (dsOnline st) @ '' here now)'', ''front ends '' @ decimal (dsClients st),
      ''up since   '' @ rfc1123 (tmZone tm) (tmZoneName tm (dsStarted st)) (dsStarted st)]"

definition show_status :: "'d asker \<Rightarrow> terminal \<Rightarrow> 'd tui \<Rightarrow> 'd tui" where
  "show_status ask tm u = (case tui_call (cli_status ask) u of
      (u1, Inl e) \<Rightarrow> note_error tm u1 e
    | (u1, Inr st) \<Rightarrow> show_text u1 '' Daemon '' (daemon_text tm st))"

section \<open>Commands\<close>

definition half_second :: int where "half_second = 500000000"

definition tui_note_typing :: "terminal \<Rightarrow> 'd tui \<Rightarrow> bool \<Rightarrow> 'd tui" where
  "tui_note_typing tm u on =
    (if tuCurrent u = '''' then u
     else if on \<and> tmNow tm - tuLastTyping u < half_second then u
     else start_work (u\<lparr>tuLastTyping := tmNow tm\<rparr>) (WorkTyping (tuCurrent u) on))"

text \<open>The offer an answer is for: the last of the list, newest first, that waits and matches.\<close>

definition offer_matches :: "string \<Rightarrow> transfer \<Rightarrow> bool" where
  "offer_matches i t \<longleftrightarrow> tState t = TransferIncoming \<and> (i = '''' \<or> has_prefix (tID t) i \<or> tName t = i)"

definition chosen_offer :: "string \<Rightarrow> transfer list \<Rightarrow> transfer option" where
  "chosen_offer i l = find (offer_matches i) (rev l)"

definition answer_transfer :: "'d asker \<Rightarrow> terminal \<Rightarrow> 'd tui \<Rightarrow> bool \<Rightarrow> string \<Rightarrow> 'd tui" where
  "answer_transfer ask tm u yes i = (case tui_call (cli_transfers ask) u of
      (u1, Inl e) \<Rightarrow> note_error tm u1 e
    | (u1, Inr l) \<Rightarrow> (case chosen_offer i l of
          None \<Rightarrow> tui_note tm u1 ''[yellow]no file offer is waiting''
        | Some t \<Rightarrow> (case tui_call (\<lambda>d. if yes then cli_accept_file ask d (tID t) else cli_decline_file ask d (tID t) ''declined'') u1 of
              (u2, Inl e) \<Rightarrow> note_error tm u2 e
            | (u2, Inr _) \<Rightarrow> u2)))"

definition split_command :: "string \<Rightarrow> string \<times> string" where
  "split_command s = (case index_byte s (CHR '' '') of
      None \<Rightarrow> (s, '''')
    | Some i \<Rightarrow> (if 0 < i then (take i s, trim_space (drop (Suc i) s)) else (s, '''')))"

definition submit_message :: "'d asker \<Rightarrow> terminal \<Rightarrow> 'd tui \<Rightarrow> string \<Rightarrow> 'd tui" where
  "submit_message ask tm u s =
    (let conv = tuCurrent u in
     if conv = '''' then tui_note tm u ''[yellow]pick a conversation first (Tab, then the arrows)''
     else (case tui_call (\<lambda>d. cli_send ask d conv s) u of
         (u1, Inl e) \<Rightarrow> tui_note_typing tm (note_error tm u1 e) False
       | (u1, Inr m) \<Rightarrow> tui_note_typing tm u1 False))"

definition submit_join :: "'d asker \<Rightarrow> terminal \<Rightarrow> 'd tui \<Rightarrow> string \<Rightarrow> 'd tui" where
  "submit_join ask tm u arg =
    (if arg = '''' then tui_note tm u ''[yellow]usage: /join <room>''
     else (case tui_call (\<lambda>d. cli_join_room ask d arg) u of
         (u1, Inl e) \<Rightarrow> note_error tm u1 e
       | (u1, Inr room) \<Rightarrow> tui_select_conv ask tm (tui_reload_convs ask tm u1) (room_conv room)))"

definition submit_leave :: "'d asker \<Rightarrow> terminal \<Rightarrow> 'd tui \<Rightarrow> string \<Rightarrow> 'd tui" where
  "submit_leave ask tm u arg0 =
    (let arg = (if arg0 = '''' \<and> is_room (tuCurrent u) then conv_room (tuCurrent u) else arg0) in
     if arg = '''' then tui_note tm u ''[yellow]usage: /leave <room>''
     else (case tui_call (\<lambda>d. cli_leave_room ask d arg) u of
         (u1, Inl e) \<Rightarrow> note_error tm u1 e
       | (u1, Inr _) \<Rightarrow> tui_reload_convs ask tm u1))"

definition submit_nick :: "'d asker \<Rightarrow> terminal \<Rightarrow> 'd tui \<Rightarrow> string \<Rightarrow> 'd tui" where
  "submit_nick ask tm u arg =
    (if arg = '''' then tui_note tm u ''[yellow]usage: /nick <name>''
     else (case tui_call (\<lambda>d. cli_set_identity ask d ((tuSelf u)\<lparr>iNick := arg\<rparr>)) u of
         (u1, Inl e) \<Rightarrow> note_error tm u1 e
       | (u1, Inr i) \<Rightarrow> tui_draw_status (u1\<lparr>tuSelf := i\<rparr>)))"

definition submit_send :: "terminal \<Rightarrow> 'd tui \<Rightarrow> string \<Rightarrow> 'd tui" where
  "submit_send tm u arg =
    (if arg = '''' then tui_note tm u ''[yellow]usage: /send <path to a file>''
     else if tuCurrent u = '''' \<or> is_room (tuCurrent u) then tui_note tm u ''[yellow]files go to one peer, not to a room''
     else start_work u (WorkOffer (tuCurrent u) arg))"

definition submit :: "'d asker \<Rightarrow> terminal \<Rightarrow> 'd tui \<Rightarrow> string \<Rightarrow> 'd tui" where
  "submit ask tm u s =
    (if \<not> has_prefix s ''/'' then submit_message ask tm u s
     else (case split_command s of (cmd, arg) \<Rightarrow>
       (if cmd = ''/help'' \<or> cmd = ''/?'' then show_help u
        else if cmd = ''/join'' then submit_join ask tm u arg
        else if cmd = ''/leave'' then submit_leave ask tm u arg
        else if cmd = ''/nick'' then submit_nick ask tm u arg
        else if cmd = ''/who'' then show_peers ask tm u
        else if cmd = ''/send'' then submit_send tm u arg
        else if cmd = ''/accept'' \<or> cmd = ''/decline'' then answer_transfer ask tm u (cmd = ''/accept'') arg
        else if cmd = ''/files'' then show_transfers ask tm u
        else if cmd = ''/status'' then show_status ask tm u
        else if cmd = ''/quit'' then u\<lparr>tuStopped := True\<rparr>
        else tui_note tm u (''[yellow]no such command: '' @ cmd @ ''  (/help)''))))"

section \<open>Keys\<close>

definition next_presence :: "presence \<Rightarrow> presence" where
  "next_presence p = (if p = presence_online then presence_away else if p = presence_away then presence_busy else presence_online)"

definition cycle_presence :: "'d asker \<Rightarrow> terminal \<Rightarrow> 'd tui \<Rightarrow> 'd tui" where
  "cycle_presence ask tm u = (case tui_call (\<lambda>d. cli_set_presence ask d (next_presence (iPresence (tuSelf u)))) u of
      (u1, Inr i) \<Rightarrow> tui_draw_status (u1\<lparr>tuSelf := i\<rparr>)
    | (u1, Inl e) \<Rightarrow> note_error tm u1 e)"

definition focus_order :: "tui_focus list" where
  "focus_order = [OnInput, OnList, OnLog]"

definition cycle_focus :: "'d tui \<Rightarrow> int \<Rightarrow> 'd tui" where
  "cycle_focus u dir =
    (let k = (case tuFocus u of OnList \<Rightarrow> 1 | OnLog \<Rightarrow> 2 | _ \<Rightarrow> 0)
     in u\<lparr>tuFocus := focus_order ! nat ((k + dir + 3) mod 3)\<rparr>)"

datatype tui_key = CtrlC | Tab | BackTab | CtrlN | CtrlG | CtrlP | CtrlU | CtrlD | AltUp | AltDown | OtherKey

definition tui_keys :: "'d asker \<Rightarrow> terminal \<Rightarrow> 'd tui \<Rightarrow> tui_key \<Rightarrow> 'd tui" where
  "tui_keys ask tm u k = (case k of
      CtrlC \<Rightarrow> u\<lparr>tuStopped := True\<rparr>
    | Tab \<Rightarrow> cycle_focus u 1
    | BackTab \<Rightarrow> cycle_focus u (- 1)
    | CtrlN \<Rightarrow> join_prompt u
    | CtrlG \<Rightarrow> show_help u
    | CtrlP \<Rightarrow> cycle_presence ask tm u
    | CtrlU \<Rightarrow> u
    | CtrlD \<Rightarrow> u
    | AltUp \<Rightarrow> tui_move_selection ask tm u (- 1)
    | AltDown \<Rightarrow> tui_move_selection ask tm u 1
    | OtherKey \<Rightarrow> u)"

text \<open>The composer: its text has changed, and the line is entered.\<close>

definition input_changed :: "terminal \<Rightarrow> 'd tui \<Rightarrow> string \<Rightarrow> 'd tui" where
  "input_changed tm u s = tui_note_typing tm (u\<lparr>tuInput := s\<rparr>) (s \<noteq> '''')"

definition input_entered :: "'d asker \<Rightarrow> terminal \<Rightarrow> 'd tui \<Rightarrow> 'd tui" where
  "input_entered ask tm u =
    (let s = trim_space (tuInput u);
         u1 = (if tmTextSet tm then input_changed tm u '''' else u\<lparr>tuInput := ''''\<rparr>)
     in if s = '''' then u1 else submit ask tm u1 s)"

definition prompt_done :: "'d asker \<Rightarrow> terminal \<Rightarrow> 'd tui \<Rightarrow> bool \<Rightarrow> string \<Rightarrow> 'd tui" where
  "prompt_done ask tm u enter s =
    (if enter \<and> trim_space s \<noteq> '''' then submit ask tm (close_panel u) (''/join '' @ trim_space s) else close_panel u)"

section \<open>Events, jobs and work\<close>

definition tui_on_event :: "'d tui \<Rightarrow> event \<Rightarrow> 'd tui" where
  "tui_on_event u ev =
    (if evKind ev = event_message \<or> evKind ev = event_state then post_job u (JobMessages (evConv ev))
     else if evKind ev = event_peers then post_job u JobPeers
     else if evKind ev = event_typing then
       (let who = remove_peer (get_or [] (tuTyping u) (evConv ev)) (evPeer ev) @ (if evTyping ev then [evPeer ev] else [])
        in post_job (u\<lparr>tuTyping := AList.update (evConv ev) who (tuTyping u)\<rparr>) JobHeadline)
     else if evKind ev = event_transfer then post_job u (JobTransfer (evTransfer ev))
     else if evKind ev = event_notify then post_job u (JobNotify (evTitle ev) (evBody ev))
     else u)"

text \<open>The state handler \<open>Run\<close> gives to \<open>AutoReconnect\<close>.\<close>

definition tui_on_state :: "'d tui \<Rightarrow> bool \<Rightarrow> 'd tui" where
  "tui_on_state u up = post_job (u\<lparr>tuUp := up\<rparr>) (JobState up)"

definition run_tui_job :: "'d asker \<Rightarrow> terminal \<Rightarrow> 'd tui \<Rightarrow> tui_job \<Rightarrow> 'd tui" where
  "run_tui_job ask tm u j = (case j of
      JobMessages conv \<Rightarrow> (let u1 = tui_reload_convs ask tm u in if conv = tuCurrent u1 then tui_reload_messages ask tm u1 else u1)
    | JobPeers \<Rightarrow> draw_headline ask (tui_draw_status (tui_reload_convs ask tm u))
    | JobHeadline \<Rightarrow> draw_headline ask u
    | JobTransfer t \<Rightarrow> tui_reload_messages ask tm (case t of None \<Rightarrow> u | Some x \<Rightarrow> tui_note tm u (transfer_line x))
    | JobNotify title body \<Rightarrow> tui_note tm (u\<lparr>tuBells := tuBells u + 1\<rparr>) (''[yellow]'' @ title @ '':[-] '' @ body)
    | JobState up \<Rightarrow> tui_draw_status (if up then tui_reload_all ask tm u else u)
    | JobConvs \<Rightarrow> tui_reload_convs ask tm u
    | JobNote s \<Rightarrow> tui_note tm u s)"

definition run_tui_work :: "'d asker \<Rightarrow> 'd tui \<Rightarrow> tui_work \<Rightarrow> 'd tui" where
  "run_tui_work ask u k = (case k of
      WorkRead conv \<Rightarrow> (case tui_call (\<lambda>d. cli_mark_read ask d conv) u of
          (u1, Inl e) \<Rightarrow> u1 | (u1, Inr n) \<Rightarrow> post_job u1 JobConvs)
    | WorkOffer conv path \<Rightarrow> (case tui_call (\<lambda>d. cli_offer_file ask d conv path) u of
          (u1, Inl e) \<Rightarrow> post_job u1 (JobNote (''[red]'' @ e)) | (u1, Inr t) \<Rightarrow> u1)
    | WorkTyping conv on \<Rightarrow> fst (tui_call (\<lambda>d. cli_set_typing ask d conv on) u))"

datatype tui_event =
  TuiKey tui_key | TuiInput string | TuiEnter | TuiPrompt bool string | TuiSelect nat | TuiEscape
| TuiEvent event | TuiState bool | TuiRunJob nat | TuiRunWork nat

definition tui_step :: "'d asker \<Rightarrow> 'd tui \<Rightarrow> terminal \<times> tui_event \<Rightarrow> 'd tui" where
  "tui_step ask u te = (case te of (tm, e) \<Rightarrow> (case e of
      TuiKey k \<Rightarrow> tui_keys ask tm u k
    | TuiInput s \<Rightarrow> input_changed tm u s
    | TuiEnter \<Rightarrow> input_entered ask tm u
    | TuiPrompt enter s \<Rightarrow> (if tuPanel u = Some JoinPrompt then prompt_done ask tm u enter s else u)
    | TuiSelect i \<Rightarrow> tui_select_index ask tm (u\<lparr>tuItem := i\<rparr>) i
    | TuiEscape \<Rightarrow> (if tuPanel u = None then u else close_panel u)
    | TuiEvent ev \<Rightarrow> tui_on_event u ev
    | TuiState up \<Rightarrow> tui_on_state u up
    | TuiRunJob k \<Rightarrow> (if k < length (tuJobs u)
        then run_tui_job ask tm (u\<lparr>tuJobs := take k (tuJobs u) @ drop (Suc k) (tuJobs u)\<rparr>) (tuJobs u ! k) else u)
    | TuiRunWork k \<Rightarrow> (if k < length (tuWork u)
        then run_tui_work ask (u\<lparr>tuWork := take k (tuWork u) @ drop (Suc k) (tuWork u)\<rparr>) (tuWork u ! k) else u)))"

end
