(* ===== verification/Gui.thy ===== *)
theory Gui
  imports Methods Numbers
begin

text \<open>
  The model of the session of \<open>chatui/ui.go\<close>, the desktop front end, with \<open>chatui/notify.go\<close> and the preferences of
  \<open>chatui/dialogs.go\<close>, over any way of asking a daemon. What the widgets show is part of the state, what the
  toolkit calls back is an input; dialogs, toasts and opened files are logs. \<open>async\<close> starts a piece of work,
  which asks the daemon on a goroutine of its own and posts what to do with the answer; with no loop running the two
  follow each other at once.
\<close>

section \<open>State\<close>

text \<open>The desktop: the clock, whether the window is visible, the environment variable that suppresses toasts, the
  download directory, and whether setting the composer's text calls its input function.\<close>

record desktop =
  dkNow :: gotime
  dkVisible :: bool
  dkNoNotify :: string
  dkDownloads :: string
  dkTextSet :: bool

datatype gui_work =
  GuiSend conv_id string | GuiOffer conv_id string | GuiAccept transfer_id | GuiDecline transfer_id
| GuiRead conv_id | GuiReadQuietly conv_id | GuiJoin string | GuiLeave string | GuiBlock peer_id bool
| GuiPresence presence | GuiTyping conv_id bool | GuiSave notify_prefs identity

datatype gui_job =
  OnMessages conv_id | OnPeers | OnTyping conv_id peer_id bool | OnTransfer "transfer option" | OnNotify string string
| OnStatus string | OnUp bool | OnConvs | Sent "string option" | Offered "string option" | Answered string "string option"
| MarkedRead | Joined "string + string" | LeftRoom | Blocked "string option" | PresenceIs "string + identity"
| Saved "string + identity"

datatype gui_dialog =
  Info string string | Warn string string | ConfirmAccept string | ConfirmLeave string | PickFile conv_id | Panel string string

record 'd session =
  seBack :: 'd
  seCount :: nat
  seSelected :: int
  seScript :: "message list"
  seRow :: int
  seComposer :: string
  seTitle :: string
  seSubtitle :: string
  seOffer :: string
  seOfferShown :: bool
  seStatus :: "string \<times> string \<times> string"
  seMe :: "string \<times> string \<times> string"
  seTitled :: string
  seDialogs :: "gui_dialog list"
  seToasts :: "(string \<times> string) list"
  seOpened :: "string list"
  seSelf :: identity
  seConvs :: "conversation list"
  seCurrent :: conv_id
  sePeers :: "(peer_id \<times> peer) list"
  seTyping :: "(conv_id \<times> peer_id list) list"
  seTransfers :: "(transfer_id \<times> transfer) list"
  seUp :: bool
  seNote :: string
  seServer :: string
  seConnected :: bool
  seJobs :: "gui_job list"
  seWork :: "gui_work list"
  seLastTyping :: gotime
  seQuit :: bool

definition new_session :: "'d \<Rightarrow> 'd session" where
  "new_session d = \<lparr>seBack = d, seCount = 0, seSelected = - 1, seScript = [], seRow = - 1, seComposer = '''',
     seTitle = ''comms-chat-lan'', seSubtitle = ''Looking for people on this network'' @ ellipsis, seOffer = '''',
     seOfferShown = False, seStatus = ('''', '''', ''''), seMe = (ellipsis, '''', ''starting up''), seTitled = '''',
     seDialogs = [], seToasts = [], seOpened = [], seSelf = zero_identity, seConvs = [], seCurrent = '''', sePeers = [],
     seTyping = [], seTransfers = [], seUp = True, seNote = '''', seServer = '''', seConnected = False, seJobs = [],
     seWork = [], seLastTyping = zero_time, seQuit = False\<rparr>"

definition gui_call :: "('d \<Rightarrow> 'd \<times> 'r) \<Rightarrow> 'd session \<Rightarrow> 'd session \<times> 'r" where
  "gui_call f s = (s\<lparr>seBack := fst (f (seBack s))\<rparr>, snd (f (seBack s)))"

definition gui_post :: "'d session \<Rightarrow> gui_job \<Rightarrow> 'd session" where
  "gui_post s j = s\<lparr>seJobs := seJobs s @ [j]\<rparr>"

definition async :: "'d session \<Rightarrow> gui_work \<Rightarrow> 'd session" where
  "async s k = s\<lparr>seWork := seWork s @ [k]\<rparr>"

definition show_dialog :: "'d session \<Rightarrow> gui_dialog \<Rightarrow> 'd session" where
  "show_dialog s g = s\<lparr>seDialogs := seDialogs s @ [g]\<rparr>"

section \<open>People and files\<close>

definition peer_name :: "'d session \<Rightarrow> peer_id \<Rightarrow> string" where
  "peer_name s i = (if i = iID (seSelf s) then iNick (seSelf s)
     else (case map_of (sePeers s) i of Some p \<Rightarrow> display_name p | None \<Rightarrow> short_id i))"

definition peer_color :: "'d session \<Rightarrow> peer_id \<Rightarrow> string" where
  "peer_color s i = (if i = iID (seSelf s) \<and> iColor (seSelf s) \<noteq> '''' then iColor (seSelf s)
     else (case map_of (sePeers s) i of
         Some p \<Rightarrow> (if pColor p \<noteq> '''' then pColor p else color_for_id i)
       | None \<Rightarrow> color_for_id i))"

text \<open>The oldest offer of a conversation that waits, in one order of iteration over the transfers.\<close>

definition offer_in :: "conv_id \<Rightarrow> transfer \<Rightarrow> bool" where
  "offer_in conv t \<longleftrightarrow> tState t = TransferIncoming \<and> (conv = '''' \<or> tConv t = conv)"

definition older_offer :: "conv_id \<Rightarrow> transfer option \<Rightarrow> transfer \<Rightarrow> transfer option" where
  "older_offer conv best t = (if \<not> offer_in conv t then best
     else (case best of None \<Rightarrow> Some t | Some b \<Rightarrow> (if tAt t < tAt b then Some t else best)))"

definition pending_offer :: "'d session \<Rightarrow> conv_id \<Rightarrow> transfer option" where
  "pending_offer s conv = foldl (older_offer conv) None (map snd (seTransfers s))"

definition drop_peer :: "peer_id list \<Rightarrow> peer_id \<Rightarrow> peer_id list" where
  "drop_peer l i = filter (\<lambda>p. p \<noteq> i) l"

definition typing_names :: "'d session \<Rightarrow> conv_id \<Rightarrow> string" where
  "typing_names s conv = join_with '', '' (sort_by less_string (map (peer_name s) (get_or [] (seTyping s) conv)))"

section \<open>Drawing\<close>

definition presence_mark :: "presence \<Rightarrow> string" where
  "presence_mark p = (if presence_valid p = presence_online then glyph 0x2022 else if presence_valid p = presence_away then glyph 0x25E6
     else if presence_valid p = presence_busy then glyph 0x2298 else '' '')"

definition row_label :: "conversation \<Rightarrow> string" where
  "row_label c =
    (if cRoom c \<noteq> '''' then ''# '' @ cRoom c @ (if 0 < cMembers c then ''   '' @ decimal_int (cMembers c) @ '' here'' else '''')
     else presence_mark (cPresence c) @ '' '' @ cTitle c)
    @ (if 0 < cUnread c then ''   ('' @ decimal_int (cUnread c) @ '')'' else '''')"

definition conv_label :: "'d session \<Rightarrow> int \<Rightarrow> string" where
  "conv_label s i = (if i < 0 \<or> int (length (seConvs s)) \<le> i then '''' else row_label (seConvs s ! nat i))"

definition header_parts :: "conv_id \<Rightarrow> conv_view \<Rightarrow> string list" where
  "header_parts conv v =
    (if is_room conv then (decimal_int (cMembers (cvConv v)) @ '' here'')
         # (if cvPeers v \<noteq> [] then [join_with '', '' (sort_by less_string (map display_name (cvPeers v)))] else [])
     else (case cvPeers v of
         [p] \<Rightarrow> presence_valid (pPresence p) # (if pAddr p \<noteq> '''' then [pAddr p] else []) @ (if pBlocked p then [''blocked''] else [])
       | _ \<Rightarrow> []))"

definition subtitle_text :: "conv_id \<Rightarrow> conv_view \<Rightarrow> string \<Rightarrow> string" where
  "subtitle_text conv v who = join_with (''  '' @ middle_dot @ ''  '')
     (header_parts conv v @ (if who \<noteq> '''' then [who @ '' is typing'' @ ellipsis] else []))"

definition draw_header :: "'d asker \<Rightarrow> 'd session \<Rightarrow> 'd session" where
  "draw_header ask s =
    (let conv = seCurrent s in
     if conv = '''' then s\<lparr>seTitle := ''comms-chat-lan'',
         seSubtitle := ''Pick somebody on the left, or press Ctrl+N to join a room.''\<rparr>
     else (case gui_call (\<lambda>d. cli_conversation ask d conv) s of
         (s1, Inl e) \<Rightarrow> s1
       | (s1, Inr v) \<Rightarrow> s1\<lparr>seTitle := cTitle (cvConv v), seSubtitle := subtitle_text conv v (typing_names s1 conv)\<rparr>))"

definition here_now :: "peer \<Rightarrow> bool" where
  "here_now p \<longleftrightarrow> presence_valid (pPresence p) \<noteq> presence_offline"

definition status_parts :: "'d session \<Rightarrow> string \<times> string \<times> string" where
  "status_parts s =
    (if \<not> seUp s then (''comms-chat-lan-clientd is not answering '' @ em_dash @ '' reconnecting'' @ ellipsis, '''', '''')
     else (iNick (seSelf s) @ '' '' @ em_dash @ '' '' @ presence_valid (iPresence (seSelf s)),
       if sePeers s = [] then ''nobody else here yet''
       else decimal (length (filter here_now (map snd (sePeers s)))) @ '' here of '' @ decimal (length (sePeers s)) @ '' known'',
       if seNote s \<noteq> '''' then seNote s else ''not encrypted '' @ em_dash @ '' LAN only''))"

text \<open>The identity strip (\<open>identityBar.set\<close>) and the window's title.\<close>

definition identity_strip :: "identity \<Rightarrow> string \<Rightarrow> string \<times> string \<times> string" where
  "identity_strip self where_now = (if iNick self = '''' then ''(no name yet)'' else iNick self, iColor self, where_now)"

definition gui_draw_status :: "'d session \<Rightarrow> 'd session" where
  "gui_draw_status s = s\<lparr>seMe := identity_strip (seSelf s) (where_to (seServer s) (seConnected s) (seUp s)),
     seTitled := iNick (seSelf s) @ '' '' @ em_dash @ '' comms-chat-lan'', seStatus := status_parts s\<rparr>"

definition offer_text :: "'d session \<Rightarrow> transfer \<Rightarrow> string" where
  "offer_text s t = peer_name s (tPeer t) @ '' offers '' @ tName t @ '' ('' @ human_size (tSize t) @ '')''"

definition draw_offer_bar :: "'d session \<Rightarrow> 'd session" where
  "draw_offer_bar s = (case pending_offer s (seCurrent s) of
      None \<Rightarrow> s\<lparr>seOfferShown := False\<rparr>
    | Some t \<Rightarrow> s\<lparr>seOffer := offer_text s t, seOfferShown := True\<rparr>)"

section \<open>Loading\<close>

definition keyed :: "('v \<Rightarrow> 'k) \<Rightarrow> 'v list \<Rightarrow> ('k \<times> 'v) list" where
  "keyed key vs = foldl (\<lambda>m v. AList.update (key v) v m) [] vs"

definition gui_reload_peers :: "'d asker \<Rightarrow> 'd session \<Rightarrow> 'd session" where
  "gui_reload_peers ask s = (case gui_call (cli_peers ask) s of
      (s1, Inl e) \<Rightarrow> s1 | (s1, Inr ps) \<Rightarrow> s1\<lparr>sePeers := keyed pID ps\<rparr>)"

definition gui_reload_transfers :: "'d asker \<Rightarrow> 'd session \<Rightarrow> 'd session" where
  "gui_reload_transfers ask s = (case gui_call (cli_transfers ask) s of
      (s1, Inl e) \<Rightarrow> s1 | (s1, Inr ts) \<Rightarrow> draw_offer_bar (s1\<lparr>seTransfers := keyed tID ts\<rparr>))"

definition set_messages :: "'d session \<Rightarrow> message list \<Rightarrow> 'd session" where
  "set_messages s ms = s\<lparr>seScript := ms, seRow := after_messages (length ms) (seRow s)\<rparr>"

definition gui_reload_messages :: "'d asker \<Rightarrow> 'd session \<Rightarrow> 'd session" where
  "gui_reload_messages ask s =
    (if seCurrent s = '''' then set_messages s []
     else (case gui_call (\<lambda>d. cli_messages ask d (seCurrent s) 500) s of
         (s1, Inl e) \<Rightarrow> s1
       | (s1, Inr ms) \<Rightarrow> draw_offer_bar (set_messages s1 ms)))"

definition gui_select_index :: "'d asker \<Rightarrow> 'd session \<Rightarrow> int \<Rightarrow> 'd session" where
  "gui_select_index ask s i =
    (if i < 0 \<or> int (length (seConvs s)) \<le> i then s
     else (let conv = cID (seConvs s ! nat i) in
       if conv = seCurrent s then s
       else async (draw_header ask (gui_reload_messages ask (s\<lparr>seCurrent := conv, seSelected := i\<rparr>))) (GuiReadQuietly conv)))"

definition index_of_conv :: "conv_id \<Rightarrow> conversation list \<Rightarrow> int" where
  "index_of_conv i cs = (case find (\<lambda>k. cID (cs ! k) = i) (rev [0 ..< length cs]) of None \<Rightarrow> - 1 | Some k \<Rightarrow> int k)"

definition gui_reload_convs :: "'d asker \<Rightarrow> 'd session \<Rightarrow> 'd session" where
  "gui_reload_convs ask s = (case gui_call (cli_conversations ask) s of
      (s1, Inl e) \<Rightarrow> s1
    | (s1, Inr cs) \<Rightarrow>
       (let current = seCurrent s1;
            s2 = s1\<lparr>seConvs := cs, seCount := length cs, seSelected := index_of_conv current cs\<rparr>
        in if seSelected s2 < 0 \<and> current = '''' \<and> cs \<noteq> [] then gui_select_index ask (s2\<lparr>seSelected := 0\<rparr>) 0 else s2))"

definition gui_load_identity :: "'d asker \<Rightarrow> 'd session \<Rightarrow> 'd session" where
  "gui_load_identity ask s = (case gui_call (cli_identity ask) s of (s1, Inl e) \<Rightarrow> s1 | (s1, Inr i) \<Rightarrow> s1\<lparr>seSelf := i\<rparr>)"

definition gui_load_server :: "'d asker \<Rightarrow> 'd session \<Rightarrow> 'd session" where
  "gui_load_server ask s = (case gui_call (cli_status ask) s of
      (s1, Inl e) \<Rightarrow> s1 | (s1, Inr st) \<Rightarrow> s1\<lparr>seServer := dsServer st, seConnected := dsConnected st\<rparr>)"

definition gui_reload_all :: "'d asker \<Rightarrow> 'd session \<Rightarrow> 'd session" where
  "gui_reload_all ask s = gui_draw_status (draw_header ask (gui_reload_messages ask (gui_reload_convs ask
     (gui_reload_transfers ask (gui_reload_peers ask (gui_load_server ask (gui_load_identity ask s)))))))"


section \<open>Actions\<close>

definition gui_half_second :: int where "gui_half_second = 500000000"

definition gui_note_typing :: "desktop \<Rightarrow> 'd session \<Rightarrow> bool \<Rightarrow> 'd session" where
  "gui_note_typing dk s on =
    (if seCurrent s = '''' then s
     else if on \<and> dkNow dk - seLastTyping s < gui_half_second then s
     else async (s\<lparr>seLastTyping := dkNow dk\<rparr>) (GuiTyping (seCurrent s) on))"

definition composer_input :: "desktop \<Rightarrow> 'd session \<Rightarrow> string \<Rightarrow> 'd session" where
  "composer_input dk s x = gui_note_typing dk (s\<lparr>seComposer := x\<rparr>) (trim_space x \<noteq> '''')"

definition clear_composer :: "desktop \<Rightarrow> 'd session \<Rightarrow> 'd session" where
  "clear_composer dk s = (if dkTextSet dk then composer_input dk s '''' else s\<lparr>seComposer := ''''\<rparr>)"

definition gui_send :: "desktop \<Rightarrow> 'd session \<Rightarrow> 'd session" where
  "gui_send dk s =
    (let x = trim_space (seComposer s); conv = seCurrent s in
     if x = '''' then s
     else if conv = '''' then show_dialog s (Info ''Nowhere to send it'' ''Pick a conversation on the left, or press Ctrl+N to join a room.'')
     else async (gui_note_typing dk (clear_composer dk s) False) (GuiSend conv x))"

definition files_go_to_one :: string where
  "files_go_to_one = ''A file is offered to a single peer, who accepts or declines it. Pick a peer on the left rather than a room.''"

definition gui_attach :: "'d session \<Rightarrow> 'd session" where
  "gui_attach s = (if seCurrent s = '''' \<or> is_room (seCurrent s) then show_dialog s (Info ''Files go to one person'' files_go_to_one)
     else show_dialog s (PickFile (seCurrent s)))"

definition gui_accept_offer :: "'d session \<Rightarrow> 'd session" where
  "gui_accept_offer s = (case pending_offer s (seCurrent s) of None \<Rightarrow> s | Some t \<Rightarrow> async s (GuiAccept (tID t)))"

definition gui_decline_offer :: "'d session \<Rightarrow> 'd session" where
  "gui_decline_offer s = (case pending_offer s (seCurrent s) of None \<Rightarrow> s | Some t \<Rightarrow> async s (GuiDecline (tID t)))"

definition accept_question :: "desktop \<Rightarrow> 'd session \<Rightarrow> transfer \<Rightarrow> string" where
  "accept_question dk s t = tName t @ '' ('' @ human_size (tSize t) @ '') from '' @ peer_name s (tPeer t) @ ''.'' @ [newline, newline]
     @ ''It will be saved in '' @ dkDownloads dk @ ''.''"

definition activate_message :: "desktop \<Rightarrow> 'd session \<Rightarrow> message \<Rightarrow> 'd session" where
  "activate_message dk s m = (case mTransfer m of
      None \<Rightarrow> s
    | Some ref \<Rightarrow> (case map_of (seTransfers s) (rID ref) of
        None \<Rightarrow> s
      | Some t \<Rightarrow>
         (if tState t = TransferIncoming then show_dialog s (ConfirmAccept (accept_question dk s t))
          else if tState t = TransferDone \<and> tPath t \<noteq> '''' then s\<lparr>seOpened := seOpened s @ [''file://'' @ tPath t]\<rparr>
          else s)))"

text \<open>The answers to the two questions; the file picked.\<close>

definition accept_answered :: "'d session \<Rightarrow> bool \<Rightarrow> 'd session" where
  "accept_answered s yes = (if yes then gui_accept_offer s else gui_decline_offer s)"

definition leave_room_ask :: "'d session \<Rightarrow> 'd session" where
  "leave_room_ask s = (if \<not> is_room (seCurrent s)
     then show_dialog s (Info ''Not a room'' ''Leaving applies to a room. Pick one on the left first.'')
     else show_dialog s (ConfirmLeave (conv_room (seCurrent s))))"

definition leave_answered :: "'d session \<Rightarrow> string \<Rightarrow> bool \<Rightarrow> 'd session" where
  "leave_answered s room yes = (if yes then async s (GuiLeave room) else s)"

definition gui_conv_peer :: "conv_id \<Rightarrow> peer_id" where
  "gui_conv_peer c = (if is_room c \<or> \<not> has_prefix c ''peer:'' then '''' else trim_prefix c ''peer:'')"

definition set_blocked :: "'d session \<Rightarrow> bool \<Rightarrow> 'd session" where
  "set_blocked s b = (if gui_conv_peer (seCurrent s) = ''''
     then show_dialog s (Info ''Not a peer'' ''Blocking applies to one peer. Pick somebody on the left first.'')
     else async s (GuiBlock (gui_conv_peer (seCurrent s)) b))"

definition gui_mark_read :: "'d session \<Rightarrow> 'd session" where
  "gui_mark_read s = (if seCurrent s = '''' then s else async s (GuiRead (seCurrent s)))"

definition join_room_named :: "'d session \<Rightarrow> string \<Rightarrow> 'd session" where
  "join_room_named s field = (if trim_space field = '''' then s else async s (GuiJoin (trim_space field)))"

definition gui_move_selection :: "'d asker \<Rightarrow> 'd session \<Rightarrow> int \<Rightarrow> 'd session" where
  "gui_move_selection ask s d =
    (let n = int (length (seConvs s)) in
     if n = 0 then s
     else gui_select_index ask s (if seSelected s < 0 then 0 else (seSelected s + d + n) mod n))"

definition gui_select_conv :: "'d asker \<Rightarrow> 'd session \<Rightarrow> conv_id \<Rightarrow> 'd session" where
  "gui_select_conv ask s i = (case find (\<lambda>k. cID (seConvs s ! k) = i) [0 ..< length (seConvs s)] of
      None \<Rightarrow> s | Some k \<Rightarrow> gui_select_index ask s (int k))"

text \<open>
  Saving the preferences. The number of KiB is read by \<open>ParseInt\<close>, and multiplied at the width of 64 bits.
\<close>

definition times_kib :: "int \<Rightarrow> int" where
  "times_kib n = sint (word_of_int (n * 1024) :: 64 word)"

definition preferred_identity :: "identity \<Rightarrow> string \<Rightarrow> int \<Rightarrow> int \<Rightarrow> string \<Rightarrow> identity" where
  "preferred_identity self nick color_at presence_at kib =
    (let i1 = self\<lparr>iNick := trim_space nick\<rparr>;
         i2 = (if 0 \<le> color_at \<and> color_at < int (length avatar_palette) then i1\<lparr>iColor := avatar_palette ! nat color_at\<rparr> else i1);
         order = [presence_online, presence_away, presence_busy];
         i3 = (if 0 \<le> presence_at \<and> presence_at < 3 then i2\<lparr>iPresence := order ! nat presence_at\<rparr> else i2)
     in (case parse_int64 (trim_space kib) of
         Some n \<Rightarrow> (if 0 \<le> n then i3\<lparr>iAutoAccept := times_kib n\<rparr> else i3)
       | None \<Rightarrow> i3))"

definition save_preferences :: "'d session \<Rightarrow> identity \<Rightarrow> string \<Rightarrow> int \<Rightarrow> int \<Rightarrow> string \<Rightarrow> notify_prefs \<Rightarrow> 'd session" where
  "save_preferences s shown nick color_at presence_at kib np =
    async s (GuiSave np (preferred_identity shown nick color_at presence_at kib))"

text \<open>The name of a colour, the roster and the panel about the program.\<close>

definition color_words :: "(string \<times> string) list" where
  "color_words = [(''#2f6fd0'', ''Blue''), (''#0f8f6f'', ''Green''), (''#b5651d'', ''Amber''), (''#8b4fbf'', ''Violet''),
     (''#c0392b'', ''Red''), (''#1f8fa8'', ''Teal''), (''#7a8b1f'', ''Olive''), (''#d0507f'', ''Pink''), (''#4f5f8f'', ''Slate''),
     (''#a07000'', ''Bronze'')]"

definition color_name :: "string \<Rightarrow> string" where
  "color_name hex = get_or hex color_words hex"

definition less_name :: "peer \<Rightarrow> peer \<Rightarrow> bool" where
  "less_name p q \<longleftrightarrow> display_name p < display_name q"

definition person_text :: "peer \<Rightarrow> string" where
  "person_text p = display_name p @ '' '' @ em_dash @ '' '' @ presence_valid (pPresence p)
    @ (if pAddr p \<noteq> '''' then ''  at '' @ pAddr p else '''')
    @ (if slice (pRooms p) \<noteq> [] then ''  in #'' @ join_with '' #'' (slice (pRooms p)) else '''')
    @ (if pBlocked p then [newline] @ ''    blocked'' else '''') @ [newline]"

definition nobody_text :: string where
  "nobody_text = ''Everyone enrolled with the same server appears a few seconds after they start.'' @ [newline, newline]
    @ ''If nobody ever appears, this machine may not have found the server. ''
    @ ''Check the status bar, and if there is no server on this segment, start the daemon with -server <host>. See docs/protocol.md.''"

definition gui_show_peers :: "'d asker \<Rightarrow> 'd session \<Rightarrow> 'd session" where
  "gui_show_peers ask s = (case gui_call (cli_peers ask) s of
      (s1, Inl e) \<Rightarrow> show_dialog s1 (Warn ''The roster could not be read'' e)
    | (s1, Inr ps) \<Rightarrow> (if ps = [] then show_dialog s1 (Info ''Nobody else is here yet'' nobody_text)
        else show_dialog s1 (Panel ''Who is here'' (concat (map person_text (sort_by less_name ps))))))"

definition connected_word :: "bool \<Rightarrow> string" where
  "connected_word up = (if up then ''connected'' else ''not connected '' @ em_dash @ '' showing what this machine already has'')"

definition storage_name :: "string \<Rightarrow> string" where
  "storage_name dir = (if dir = '''' then ''memory (nothing is written to disk)'' else dir)"

definition about_daemon :: "daemon_status \<Rightarrow> string" where
  "about_daemon st = concat (map (\<lambda>l. l @ [newline])
    ['''', ''daemon      '' @ dsVersion st, ''server      '' @ dsServer st @ '' ('' @ connected_word (dsConnected st) @ '')'',
     ''discovery   '' @ dsDiscovery st, ''storage     '' @ storage_name (dsDataDir st), ''your id     '' @ pID (dsSelf st)])"

definition gui_show_about :: "'d asker \<Rightarrow> 'd session \<Rightarrow> 'd session" where
  "gui_show_about ask s = (case gui_call (cli_status ask) s of (s1, r) \<Rightarrow> show_dialog s1 (Panel ''About''
     (''comms-chat-lan'' @ [newline, newline] @ ''LAN chat with one server and no accounts.'' @ [newline]
      @ ''Built on uitoolkit '' @ em_dash @ '' https://github.com/codemodify/uitoolkit'' @ [newline]
      @ (case r of Inl e \<Rightarrow> '''' | Inr st \<Rightarrow> about_daemon st)
      @ [newline] @ ''The server announces itself with a UDP beacon of this application's own,'' @ [newline]
      @ ''not mDNS: this application's clients can find it, and avahi-browse cannot.'')))"

text \<open>The keys of the transcript, laid out for the messages it shows.\<close>

datatype row_key = RowUp | RowDown | RowHome | RowEnd | RowOpen

definition transcript_key :: "desktop \<Rightarrow> 'd session \<Rightarrow> row_key \<Rightarrow> 'd session" where
  "transcript_key dk s k =
    (let n = length (seScript s) in case k of
      RowUp \<Rightarrow> s\<lparr>seRow := fst (move_row n (seRow s) (- 1))\<rparr>
    | RowDown \<Rightarrow> s\<lparr>seRow := fst (move_row n (seRow s) 1)\<rparr>
    | RowHome \<Rightarrow> s\<lparr>seRow := fst (select_row n (seRow s) 0)\<rparr>
    | RowEnd \<Rightarrow> s\<lparr>seRow := fst (select_row n (seRow s) (int n - 1))\<rparr>
    | RowOpen \<Rightarrow> (if seRow s < 0 \<or> int n \<le> seRow s then s else activate_message dk s (seScript s ! nat (seRow s))))"

section \<open>Toasts (notify.go)\<close>

definition window_is_showing :: "'d session \<Rightarrow> string \<Rightarrow> bool" where
  "window_is_showing s title = (if seCurrent s = '''' then False
     else (case find (\<lambda>c. cID c = seCurrent s) (seConvs s) of None \<Rightarrow> False | Some c \<Rightarrow> cTitle c = title))"

definition gui_notify :: "'d asker \<Rightarrow> desktop \<Rightarrow> 'd session \<Rightarrow> string \<Rightarrow> string \<Rightarrow> 'd session" where
  "gui_notify ask dk s title body =
    (if dkNoNotify dk \<noteq> '''' then s
     else (case gui_call (cli_notify_prefs ask) s of (s1, r) \<Rightarrow>
       (if (case r of Inr np \<Rightarrow> \<not> nDesktop np | Inl e \<Rightarrow> False) then s1
        else if dkVisible dk \<and> window_is_showing s1 title then s1
        else s1\<lparr>seToasts := seToasts s1 @ [(title, body)]\<rparr>)))"

section \<open>Events, work and jobs\<close>

definition gui_on_event :: "'d session \<Rightarrow> event \<Rightarrow> 'd session" where
  "gui_on_event s ev =
    (if evKind ev = event_message \<or> evKind ev = event_state then gui_post s (OnMessages (evConv ev))
     else if evKind ev = event_peers then gui_post s OnPeers
     else if evKind ev = event_typing then gui_post s (OnTyping (evConv ev) (evPeer ev) (evTyping ev))
     else if evKind ev = event_transfer then gui_post s (OnTransfer (evTransfer ev))
     else if evKind ev = event_notify then gui_post s (OnNotify (evTitle ev) (evBody ev))
     else if evKind ev = event_status then gui_post s (OnStatus (evText ev))
     else s)"

text \<open>The error of a call whose result is not used.\<close>

definition error_of :: "string + 'a \<Rightarrow> string option" where
  "error_of r = (case r of Inl e \<Rightarrow> Some e | Inr v \<Rightarrow> None)"

definition read_quietly :: "'d asker \<Rightarrow> 'd session \<Rightarrow> conv_id \<Rightarrow> 'd session" where
  "read_quietly ask s conv = (if conv = '''' then s
     else (case gui_call (\<lambda>d. cli_mark_read ask d conv) s of (s1, Inl e) \<Rightarrow> s1 | (s1, Inr n) \<Rightarrow> gui_post s1 OnConvs))"

definition run_gui_work :: "'d asker \<Rightarrow> 'd session \<Rightarrow> gui_work \<Rightarrow> 'd session" where
  "run_gui_work ask s k = (case k of
      GuiSend conv x \<Rightarrow> (case gui_call (\<lambda>d. cli_send ask d conv x) s of (s1, r) \<Rightarrow> gui_post s1 (Sent (error_of r)))
    | GuiOffer conv path \<Rightarrow> (case gui_call (\<lambda>d. cli_offer_file ask d conv path) s of (s1, r) \<Rightarrow> gui_post s1 (Offered (error_of r)))
    | GuiAccept i \<Rightarrow> (case gui_call (\<lambda>d. cli_accept_file ask d i) s of (s1, r) \<Rightarrow>
        gui_post s1 (Answered ''The file was not accepted'' (error_of r)))
    | GuiDecline i \<Rightarrow> (case gui_call (\<lambda>d. cli_decline_file ask d i ''declined'') s of (s1, r) \<Rightarrow>
        gui_post s1 (Answered ''The file was not declined'' (error_of r)))
    | GuiRead conv \<Rightarrow> gui_post (fst (gui_call (\<lambda>d. cli_mark_read ask d conv) s)) MarkedRead
    | GuiReadQuietly conv \<Rightarrow> read_quietly ask s conv
    | GuiJoin name \<Rightarrow> (case gui_call (\<lambda>d. cli_join_room ask d name) s of (s1, r) \<Rightarrow> gui_post s1 (Joined r))
    | GuiLeave room \<Rightarrow> gui_post (fst (gui_call (\<lambda>d. cli_leave_room ask d room) s)) LeftRoom
    | GuiBlock i b \<Rightarrow> (case gui_call (\<lambda>d. cli_block ask d i b) s of (s1, r) \<Rightarrow> gui_post s1 (Blocked (error_of r)))
    | GuiPresence p \<Rightarrow> (case gui_call (\<lambda>d. cli_set_presence ask d p) s of (s1, r) \<Rightarrow> gui_post s1 (PresenceIs r))
    | GuiTyping conv on \<Rightarrow> fst (gui_call (\<lambda>d. cli_set_typing ask d conv on) s)
    | GuiSave np i \<Rightarrow> (case gui_call (\<lambda>d. cli_set_notify_prefs ask d np) s of
          (s1, Inl e) \<Rightarrow> gui_post s1 (Saved (Inl e))
        | (s1, Inr _) \<Rightarrow> (case gui_call (\<lambda>d. cli_set_identity ask d i) s1 of (s2, r) \<Rightarrow> gui_post s2 (Saved r))))"

definition typing_update :: "conv_id \<Rightarrow> peer_id \<Rightarrow> bool \<Rightarrow> 'd session \<Rightarrow> 'd session" where
  "typing_update conv i on s = s\<lparr>seTyping := AList.update conv
     (drop_peer (get_or [] (seTyping s) conv) i @ (if on then [i] else [])) (seTyping s)\<rparr>"

definition warned :: "'d session \<Rightarrow> string \<Rightarrow> string option \<Rightarrow> 'd session" where
  "warned s title err = (case err of None \<Rightarrow> s | Some e \<Rightarrow> show_dialog s (Warn title e))"

text \<open>What is done with the answers.\<close>

definition sent_done :: "'d asker \<Rightarrow> 'd session \<Rightarrow> string option \<Rightarrow> 'd session" where
  "sent_done ask s err = (case err of
      Some e \<Rightarrow> warned s ''The message was not sent'' err
    | None \<Rightarrow> gui_reload_convs ask (gui_reload_messages ask s))"

definition offered_done :: "'d asker \<Rightarrow> 'd session \<Rightarrow> string option \<Rightarrow> 'd session" where
  "offered_done ask s err = (case err of
      Some e \<Rightarrow> warned s ''The file was not offered'' err
    | None \<Rightarrow> gui_reload_messages ask (gui_reload_transfers ask s))"

definition answered_done :: "'d asker \<Rightarrow> 'd session \<Rightarrow> string \<Rightarrow> string option \<Rightarrow> 'd session" where
  "answered_done ask s title err = gui_reload_transfers ask (warned s title err)"

definition joined_done :: "'d asker \<Rightarrow> 'd session \<Rightarrow> string + string \<Rightarrow> 'd session" where
  "joined_done ask s r = (case r of
      Inl e \<Rightarrow> warned s ''The room was not joined'' (Some e)
    | Inr room \<Rightarrow> gui_select_conv ask (gui_reload_convs ask s) (room_conv room))"

definition left_done :: "'d asker \<Rightarrow> 'd session \<Rightarrow> 'd session" where
  "left_done ask s = draw_header ask (gui_reload_messages ask (gui_reload_convs ask (s\<lparr>seCurrent := ''''\<rparr>)))"

definition blocked_done :: "'d asker \<Rightarrow> 'd session \<Rightarrow> string option \<Rightarrow> 'd session" where
  "blocked_done ask s err = (case err of
      Some e \<Rightarrow> warned s ''The peer was not changed'' err
    | None \<Rightarrow> draw_header ask (gui_reload_convs ask (gui_reload_peers ask s)))"

definition presence_done :: "'d session \<Rightarrow> string + identity \<Rightarrow> 'd session" where
  "presence_done s r = (case r of
      Inl e \<Rightarrow> warned s ''Presence was not changed'' (Some e)
    | Inr i \<Rightarrow> gui_draw_status (s\<lparr>seSelf := i\<rparr>))"

definition saved_done :: "'d asker \<Rightarrow> 'd session \<Rightarrow> string + identity \<Rightarrow> 'd session" where
  "saved_done ask s r = (case r of
      Inl e \<Rightarrow> warned s ''Preferences were not saved'' (Some e)
    | Inr i \<Rightarrow> gui_reload_messages ask (gui_draw_status (s\<lparr>seSelf := i\<rparr>)))"

lemmas done_defs = sent_done_def offered_done_def answered_done_def joined_done_def left_done_def blocked_done_def
  presence_done_def saved_done_def

definition run_gui_job :: "'d asker \<Rightarrow> desktop \<Rightarrow> 'd session \<Rightarrow> gui_job \<Rightarrow> 'd session" where
  "run_gui_job ask dk s j = (case j of
      OnMessages conv \<Rightarrow> (let s1 = gui_reload_convs ask s in
        if conv = seCurrent s1 then async (gui_reload_messages ask s1) (GuiReadQuietly conv) else s1)
    | OnPeers \<Rightarrow> gui_draw_status (draw_header ask (gui_reload_convs ask (gui_reload_peers ask s)))
    | OnTyping conv i on \<Rightarrow> draw_header ask (typing_update conv i on s)
    | OnTransfer t \<Rightarrow> gui_reload_messages ask (draw_offer_bar
        (case t of None \<Rightarrow> s | Some x \<Rightarrow> s\<lparr>seTransfers := AList.update (tID x) x (seTransfers s)\<rparr>))
    | OnNotify title body \<Rightarrow> gui_notify ask dk s title body
    | OnStatus x \<Rightarrow> gui_draw_status (s\<lparr>seNote := x\<rparr>)
    | OnUp up \<Rightarrow> gui_draw_status (if up then gui_reload_all ask (s\<lparr>seUp := up\<rparr>) else s\<lparr>seUp := up\<rparr>)
    | OnConvs \<Rightarrow> gui_reload_convs ask s
    | Sent err \<Rightarrow> sent_done ask s err
    | Offered err \<Rightarrow> offered_done ask s err
    | Answered title err \<Rightarrow> answered_done ask s title err
    | MarkedRead \<Rightarrow> gui_reload_convs ask s
    | Joined r \<Rightarrow> joined_done ask s r
    | LeftRoom \<Rightarrow> left_done ask s
    | Blocked err \<Rightarrow> blocked_done ask s err
    | PresenceIs r \<Rightarrow> presence_done s r
    | Saved r \<Rightarrow> saved_done ask s r)"

datatype gui_event =
  GuiInput string | GuiSubmit | GuiAttach | GuiPicked conv_id string | GuiAcceptOffer | GuiDeclineOffer
| GuiActivate message | GuiAcceptAnswer bool | GuiLeaveAsk | GuiLeaveAnswer string bool | GuiSetBlocked bool
| GuiMarkRead | GuiJoinNamed string | GuiMove int | GuiSelect int | GuiSetPresence presence
| GuiPrefs identity string int int string notify_prefs | GuiShowPeers | GuiShowAbout | GuiRow row_key | GuiQuit
| GuiEvent event | GuiState bool | GuiRunJob nat | GuiRunWork nat

definition gui_step :: "'d asker \<Rightarrow> 'd session \<Rightarrow> desktop \<times> gui_event \<Rightarrow> 'd session" where
  "gui_step ask s de = (case de of (dk, e) \<Rightarrow> (case e of
      GuiInput x \<Rightarrow> composer_input dk s x
    | GuiSubmit \<Rightarrow> gui_send dk s
    | GuiAttach \<Rightarrow> gui_attach s
    | GuiPicked conv path \<Rightarrow> async s (GuiOffer conv path)
    | GuiAcceptOffer \<Rightarrow> gui_accept_offer s
    | GuiDeclineOffer \<Rightarrow> gui_decline_offer s
    | GuiActivate m \<Rightarrow> activate_message dk s m
    | GuiAcceptAnswer yes \<Rightarrow> accept_answered s yes
    | GuiLeaveAsk \<Rightarrow> leave_room_ask s
    | GuiLeaveAnswer room yes \<Rightarrow> leave_answered s room yes
    | GuiSetBlocked b \<Rightarrow> set_blocked s b
    | GuiMarkRead \<Rightarrow> gui_mark_read s
    | GuiJoinNamed x \<Rightarrow> join_room_named s x
    | GuiMove d \<Rightarrow> gui_move_selection ask s d
    | GuiSelect i \<Rightarrow> gui_select_index ask s i
    | GuiSetPresence p \<Rightarrow> async s (GuiPresence p)
    | GuiPrefs shown nick color_at presence_at kib np \<Rightarrow> save_preferences s shown nick color_at presence_at kib np
    | GuiShowPeers \<Rightarrow> gui_show_peers ask s
    | GuiShowAbout \<Rightarrow> gui_show_about ask s
    | GuiRow k \<Rightarrow> transcript_key dk s k
    | GuiQuit \<Rightarrow> s\<lparr>seQuit := True\<rparr>
    | GuiEvent ev \<Rightarrow> gui_on_event s ev
    | GuiState up \<Rightarrow> gui_post s (OnUp up)
    | GuiRunJob k \<Rightarrow> (if k < length (seJobs s)
        then run_gui_job ask dk (s\<lparr>seJobs := take k (seJobs s) @ drop (Suc k) (seJobs s)\<rparr>) (seJobs s ! k) else s)
    | GuiRunWork k \<Rightarrow> (if k < length (seWork s)
        then run_gui_work ask (s\<lparr>seWork := take k (seWork s) @ drop (Suc k) (seWork s)\<rparr>) (seWork s ! k) else s)))"

end
