(* ===== verification/FrontProperties.thy ===== *)
theory FrontProperties
  imports Tui Gui
begin

text \<open>
  The properties of the two front ends: after loading they show what the daemon holds, they answer the same offer,
  and they tell the daemon about typing at most twice a second.
\<close>

section \<open>Asking the daemon changes nothing\<close>

lemma reads [simp]:
  "cli_identity (ask_daemon w wd) r = (r, Inr (stSelf (dstore r)))"
  "cli_status (ask_daemon w wd) r = (r, Inr (status_of r))"
  "cli_peers (ask_daemon w wd) r = (r, Inr (peers (dstore r)))"
  "cli_conversations (ask_daemon w wd) r = (r, Inr (conversations (dstore r)))"
  "cli_messages (ask_daemon w wd) r c n = (r, Inr (messages (dstore r) c (nat n)))"
  "cli_transfers (ask_daemon w wd) r = (r, Inr (xfer_list (rpDaemon r)))"
  by (simp_all add: cli_defs to_defs ask_for_def ask_daemon_def dispatch_def decoded_def)

lemma reads_conv [simp]: "fst (cli_conversation (ask_daemon w wd) r c) = r"
  by (simp add: cli_defs ask_for_def ask_daemon_def dispatch_def decoded_def conv_get_def fail_app_def to_view_def
      split: option.splits)

section \<open>The terminal\<close>

text \<open>What drawing and the selection of a conversation leave alone.\<close>

definition tui_data :: "'d tui \<Rightarrow> 'd \<times> conversation list \<times> identity \<times> string \<times> (peer_id \<times> string) list \<times> bool \<times> (string \<times> string) list" where
  "tui_data u = (tuBack u, tuConvs u, tuSelf u, tuWhere u, tuNames u, tuUp u, tuList u)"

lemma tui_call_read: "fst (f (tuBack u)) = tuBack u \<Longrightarrow> tui_call f u = (u, snd (f (tuBack u)))"
  by (simp add: tui_call_def)

lemma data_headline [simp]: "tui_data (draw_headline (ask_daemon w wd) u) = tui_data u"
  by (auto simp: draw_headline_def Let_def tui_call_read tui_data_def split: sum.splits)

lemma data_messages [simp]: "tui_data (tui_reload_messages (ask_daemon w wd) tm u) = tui_data u"
  by (simp add: tui_reload_messages_def tui_call_read tui_data_def)

lemma data_select [simp]: "tui_data (tui_select_index (ask_daemon w wd) tm u i) = tui_data u"
proof -
  have "tui_data (start_work v k) = tui_data v" "tui_data (v\<lparr>tuCurrent := c\<rparr>) = tui_data v" for v :: "rpc tui" and k c
    by (simp_all add: start_work_def tui_data_def)
  then show ?thesis by (simp add: tui_select_index_def Let_def)
qed

lemma data_called [simp]: "tui_data (called_back (ask_daemon w wd) tm u cb) = tui_data u"
  by (simp add: called_back_def split: option.splits)

lemma data_item [simp]: "tui_data (set_current_item (ask_daemon w wd) tm u i) = tui_data u"
  by (simp add: set_current_item_def) (simp add: tui_data_def)

definition conv_rows :: "conversation list \<Rightarrow> (string \<times> string) list" where
  "conv_rows cs = map (\<lambda>c. (conv_title c, conv_subtitle c)) cs"

lemma data_add:
  "tui_data u = (d, cs, i, wh, ns, up, l) \<Longrightarrow>
   tui_data (foldl (add_item (ask_daemon w wd) tm) u xs) = (d, cs, i, wh, ns, up, l @ conv_rows xs)"
proof (induction xs arbitrary: u l)
  case (Cons x xs)
  have "tui_data (add_item (ask_daemon w wd) tm u x) = (d, cs, i, wh, ns, up, l @ [(conv_title x, conv_subtitle x)])"
    using Cons.prems by (simp add: add_item_def) (simp add: tui_data_def)
  from Cons.IH [OF this] show ?case by (simp add: conv_rows_def)
qed (simp add: conv_rows_def)

lemma data_convs:
  "tui_data (tui_reload_convs (ask_daemon w wd) tm u) =
    (let s = dstore (tuBack u) in (tuBack u, conversations s, tuSelf u, tuWhere u, names_of (peers s), tuUp u, conv_rows (conversations s)))"
proof -
  have "tui_data (show_convs (ask_daemon w wd) tm u cs ps) = (tuBack u, cs, tuSelf u, tuWhere u, names_of ps, tuUp u, conv_rows cs)" for cs ps
  proof -
    let ?u1 = "u\<lparr>tuConvs := cs, tuNames := names_of ps, tuList := [], tuItem := 0\<rparr>"
    have "tui_data ?u1 = (tuBack u, cs, tuSelf u, tuWhere u, names_of ps, tuUp u, [])" by (simp add: tui_data_def)
    define u2 where "u2 = foldl (add_item (ask_daemon w wd) tm) ?u1 cs"
    have "tui_data u2 = (tuBack u, cs, tuSelf u, tuWhere u, names_of ps, tuUp u, conv_rows cs)"
      using data_add [OF \<open>tui_data ?u1 = _\<close>, of w wd tm cs] unfolding u2_def by simp
    then show ?thesis unfolding show_convs_def Let_def u2_def [symmetric] by (simp split: option.splits)
  qed
  then show ?thesis by (simp add: tui_reload_convs_def tui_call_read Let_def)
qed


text \<open>The terminal shows the messages of the conversation it is on.\<close>

definition tui_shows_messages :: "terminal \<Rightarrow> rpc tui \<Rightarrow> bool" where
  "tui_shows_messages tm u \<longleftrightarrow> tuLog u = (if tuCurrent u = '''' then nothing_selected
     else transcript_from tm (iID (tuSelf u)) (tuNames u) '''' (messages (dstore (tuBack u)) (tuCurrent u) 500))"

lemma reload_shows_messages: "tui_shows_messages tm (tui_reload_messages (ask_daemon w wd) tm u)"
  by (simp add: tui_shows_messages_def tui_reload_messages_def tui_call_read)

lemma headline_keeps:
  "tuLog (draw_headline (ask_daemon w wd) u) = tuLog u" "tuCurrent (draw_headline (ask_daemon w wd) u) = tuCurrent u"
  "tuStatus (draw_headline (ask_daemon w wd) u) = tuStatus u"
  by (auto simp: draw_headline_def Let_def tui_call_read split: sum.splits)

lemma shows_messages_headline: "tui_shows_messages tm u \<Longrightarrow> tui_shows_messages tm (draw_headline (ask_daemon w wd) u)"
  using data_headline [of w wd u] by (simp add: tui_shows_messages_def headline_keeps tui_data_def)

definition terminal_shows :: "terminal \<Rightarrow> rpc tui \<Rightarrow> bool" where
  "terminal_shows tm v \<longleftrightarrow> (let s = dstore (tuBack v) in
     tuConvs v = conversations s \<and> tuList v = conv_rows (conversations s) \<and> tuSelf v = stSelf s
     \<and> tuNames v = names_of (peers s) \<and> tuWhere v = where_to (status_server (rpDaemon (tuBack v))) (dmConnected (rpDaemon (tuBack v))) True
     \<and> tuStatus v = tui_status_text v \<and> tui_shows_messages tm v)"



section \<open>The window\<close>

definition gui_data :: "'d session \<Rightarrow> 'd \<times> conversation list \<times> identity \<times> (peer_id \<times> peer) list \<times> (transfer_id \<times> transfer) list
    \<times> string \<times> bool \<times> bool \<times> string \<times> nat" where
  "gui_data s = (seBack s, seConvs s, seSelf s, sePeers s, seTransfers s, seServer s, seConnected s, seUp s, seNote s, seCount s)"

lemma gui_call_read: "fst (f (seBack s)) = seBack s \<Longrightarrow> gui_call f s = (s, snd (f (seBack s)))"
  by (simp add: gui_call_def)

lemma gui_data_bar [simp]: "gui_data (draw_offer_bar s) = gui_data s"
  by (simp add: draw_offer_bar_def gui_data_def split: option.splits)

lemma gui_data_header [simp]: "gui_data (draw_header (ask_daemon w wd) s) = gui_data s"
  by (auto simp: draw_header_def Let_def gui_call_read gui_data_def split: sum.splits)

lemma gui_data_messages [simp]: "gui_data (gui_reload_messages (ask_daemon w wd) s) = gui_data s"
proof -
  have "gui_data (set_messages x ms) = gui_data x" for x :: "rpc session" and ms by (simp add: set_messages_def gui_data_def)
  then show ?thesis by (simp add: gui_reload_messages_def gui_call_read)
qed

lemma gui_data_select [simp]: "gui_data (gui_select_index (ask_daemon w wd) s i) = gui_data s"
proof -
  have "gui_data (async x k) = gui_data x" "gui_data (x\<lparr>seCurrent := c, seSelected := j\<rparr>) = gui_data x" for x :: "rpc session" and k c j
    by (simp_all add: async_def gui_data_def)
  then show ?thesis by (simp add: gui_select_index_def Let_def)
qed

lemma gui_data_convs:
  "gui_data (gui_reload_convs (ask_daemon w wd) s) =
    (let cs = conversations (dstore (seBack s)) in
     (seBack s, cs, seSelf s, sePeers s, seTransfers s, seServer s, seConnected s, seUp s, seNote s, length cs))"
proof -
  let ?cs = "conversations (dstore (seBack s))"
  let ?s2 = "s\<lparr>seConvs := ?cs, seCount := length ?cs, seSelected := index_of_conv (seCurrent s) ?cs\<rparr>"
  have "gui_data (?s2\<lparr>seSelected := 0\<rparr>) = gui_data ?s2" by (simp add: gui_data_def)
  then have "gui_data (gui_reload_convs (ask_daemon w wd) s) = gui_data ?s2"
    by (simp add: gui_reload_convs_def gui_call_read Let_def)
  then show ?thesis by (simp add: gui_data_def Let_def)
qed

text \<open>The offer bar and the transcript are those of the conversation on the screen.\<close>

definition bar_shows :: "'d session \<Rightarrow> bool" where
  "bar_shows s \<longleftrightarrow> (case pending_offer s (seCurrent s) of
      None \<Rightarrow> \<not> seOfferShown s | Some t \<Rightarrow> seOfferShown s \<and> seOffer s = offer_text s t)"

definition window_shows_messages :: "rpc session \<Rightarrow> bool" where
  "window_shows_messages s \<longleftrightarrow>
    seScript s = (if seCurrent s = '''' then [] else messages (dstore (seBack s)) (seCurrent s) 500)"

lemma bar_cong:
  "seTransfers s' = seTransfers s \<Longrightarrow> seCurrent s' = seCurrent s \<Longrightarrow> seSelf s' = seSelf s \<Longrightarrow> sePeers s' = sePeers s \<Longrightarrow>
   seOfferShown s' = seOfferShown s \<Longrightarrow> seOffer s' = seOffer s \<Longrightarrow> bar_shows s' = bar_shows s"
  by (simp add: bar_shows_def pending_offer_def offer_text_def peer_name_def split: option.splits)

lemma bar_updates [simp]:
  "bar_shows (s\<lparr>seScript := x1\<rparr>) = bar_shows s" "bar_shows (s\<lparr>seRow := x2\<rparr>) = bar_shows s"
  "bar_shows (s\<lparr>seConvs := x3\<rparr>) = bar_shows s" "bar_shows (s\<lparr>seCount := x4\<rparr>) = bar_shows s"
  "bar_shows (s\<lparr>seSelected := x5\<rparr>) = bar_shows s" "bar_shows (s\<lparr>seMe := x6\<rparr>) = bar_shows s"
  "bar_shows (s\<lparr>seTitled := x7\<rparr>) = bar_shows s" "bar_shows (s\<lparr>seStatus := x8\<rparr>) = bar_shows s"
  by (rule bar_cong; simp)+

lemma bar_drawn: "bar_shows (draw_offer_bar s)"
  by (simp add: bar_shows_def draw_offer_bar_def pending_offer_def offer_text_def peer_name_def split: option.splits)

lemma window_messages: "window_shows_messages (gui_reload_messages (ask_daemon w wd) s)"
  by (simp add: window_shows_messages_def gui_reload_messages_def gui_call_read set_messages_def draw_offer_bar_def
      split: option.splits)

lemma window_bar: "seCurrent s \<noteq> '''' \<or> bar_shows s \<Longrightarrow> bar_shows (gui_reload_messages (ask_daemon w wd) s)"
  by (auto simp: gui_reload_messages_def gui_call_read bar_drawn set_messages_def)

lemma header_keeps:
  "seScript (draw_header (ask_daemon w wd) s) = seScript s" "seCurrent (draw_header (ask_daemon w wd) s) = seCurrent s"
  "seOffer (draw_header (ask_daemon w wd) s) = seOffer s" "seOfferShown (draw_header (ask_daemon w wd) s) = seOfferShown s"
  by (auto simp: draw_header_def Let_def gui_call_read split: sum.splits)

text \<open>Loading the conversations keeps the bar right if it was, or opens a conversation.\<close>

lemma convs_bar: "bar_shows s \<Longrightarrow> seCurrent (gui_reload_convs (ask_daemon w wd) s) \<noteq> '''' \<or> bar_shows (gui_reload_convs (ask_daemon w wd) s)"
proof -
  assume ok: "bar_shows s"
  let ?cs = "conversations (dstore (seBack s))"
  let ?s2 = "s\<lparr>seConvs := ?cs, seCount := length ?cs, seSelected := index_of_conv (seCurrent s) ?cs\<rparr>"
  have s2: "bar_shows ?s2" "bar_shows (?s2\<lparr>seSelected := 0\<rparr>)" using ok by simp_all
  have "seCurrent (gui_select_index (ask_daemon w wd) x 0) \<noteq> '''' \<or> gui_select_index (ask_daemon w wd) x 0 = x"
    if "seCurrent x = ''''" for x
  proof -
    have keep: "seCurrent (gui_reload_messages (ask_daemon w wd) y) = seCurrent y" for y
      by (simp add: gui_reload_messages_def gui_call_read set_messages_def draw_offer_bar_def split: option.splits)
    show ?thesis using that by (auto simp: gui_select_index_def Let_def async_def header_keeps keep)
  qed
  from this [of "?s2\<lparr>seSelected := 0\<rparr>"] s2 show ?thesis
    by (auto simp: gui_reload_convs_def gui_call_read Let_def)
qed

definition window_shows :: "rpc session \<Rightarrow> bool" where
  "window_shows v \<longleftrightarrow> (let s = dstore (seBack v) in
     seConvs v = conversations s \<and> seCount v = length (conversations s) \<and> seSelf v = stSelf s
     \<and> sePeers v = keyed pID (peers s) \<and> seTransfers v = keyed tID (xfer_list (rpDaemon (seBack v)))
     \<and> seServer v = status_server (rpDaemon (seBack v)) \<and> seConnected v = dmConnected (rpDaemon (seBack v))
     \<and> seStatus v = status_parts v \<and> seMe v = identity_strip (seSelf v) (where_to (seServer v) (seConnected v) (seUp v))
     \<and> window_shows_messages v \<and> bar_shows v)"



section \<open>The same offer\<close>

lemma less_transfer_lex:
  "less_transfer = (\<lambda>a b. - tAt a < - tAt b \<or> - tAt a = - tAt b \<and> tID a < tID b)"
  by (intro ext) (auto simp: less_transfer_def)

interpretation transfer_order: weak_order less_transfer
  unfolding less_transfer_lex by (intro weak_order_lex weak_order_key)

definition oldest_of :: "(transfer \<Rightarrow> bool) \<Rightarrow> transfer list \<Rightarrow> transfer option \<Rightarrow> bool" where
  "oldest_of P l r = (case r of
      None \<Rightarrow> list_all (\<lambda>t. \<not> P t) l
    | Some t \<Rightarrow> t \<in> set l \<and> P t \<and> list_all (\<lambda>x. P x \<longrightarrow> tAt t \<le> tAt x) l)"

lemma find_oldest:
  assumes "ordered_by less_transfer l"
  shows "oldest_of P l (find P (rev l))"
proof (cases "find P (rev l)")
  case None
  then have "\<forall>x \<in> set l. \<not> P x" by (simp add: find_None_iff)
  then show ?thesis using None by (simp add: oldest_of_def list_all_iff)
next
  case (Some t)
  then obtain k where k: "k < length l" "P (rev l ! k)" "t = rev l ! k" "\<And>j. j < k \<Longrightarrow> \<not> P (rev l ! j)"
    by (auto simp: find_Some_iff)
  have "tAt t \<le> tAt x" if x: "x \<in> set l" "P x" for x
  proof -
    from x(1) obtain j where j: "j < length l" "x = rev l ! j" by (metis in_set_conv_nth length_rev set_rev)
    with k(4) x(2) have "k \<le> j" by (metis not_less)
    show ?thesis
    proof (cases "k = j")
      case False
      with \<open>k \<le> j\<close> j have lt: "length l - Suc j < length l - Suc k" by linarith
      have nth: "rev l ! j = l ! (length l - Suc j)" "rev l ! k = l ! (length l - Suc k)"
        using j(1) k(1) by (simp_all add: rev_nth)
      have "\<not> less_transfer (l ! (length l - Suc k)) (l ! (length l - Suc j))"
        using assms lt k(1) unfolding ordered_by_def sorted_wrt_iff_nth_less by (metis diff_less zero_less_Suc length_pos_if_in_set x(1))
      then show ?thesis using k(3) j(2) nth by (auto simp: less_transfer_def split: if_splits)
    qed (use j k in simp)
  qed
  moreover have "t \<in> set l" using k(1,3) by (metis length_rev nth_mem set_rev)
  ultimately show ?thesis using Some k(2,3) by (auto simp: oldest_of_def list_all_iff)
qed

lemma older_oldest:
  "oldest_of (offer_in conv) seen best \<Longrightarrow> oldest_of (offer_in conv) (seen @ l) (foldl (older_offer conv) best l)"
proof (induction l arbitrary: seen best)
  case (Cons t l)
  have "oldest_of (offer_in conv) (seen @ [t]) (older_offer conv best t)"
    using Cons.prems by (auto simp: oldest_of_def older_offer_def list_all_iff split: option.splits)
  from Cons.IH [OF this] show ?case by simp
qed simp

text \<open>
  Both front ends answer the oldest offer. The offer \<open>/accept\<close> and \<open>/decline\<close> of the terminal act on is one that waits
  and matches the argument, and no other such offer is older; the offer the window's bar shows and its buttons answer
  is one that waits in the conversation on the screen, and none there is older, in whatever order the map of transfers is
  walked; each finds one exactly if there is one.
\<close>

theorem oldest_offer_answered:
  "oldest_of (offer_matches i) (xfer_list d) (chosen_offer i (xfer_list d))
   \<and> oldest_of (offer_in conv) (map snd (seTransfers s)) (pending_offer s conv)"
proof
  show "oldest_of (offer_matches i) (xfer_list d) (chosen_offer i (xfer_list d))"
    unfolding chosen_offer_def by (rule find_oldest) (simp add: xfer_list_def transfer_order.ordered_sort)
  show "oldest_of (offer_in conv) (map snd (seTransfers s)) (pending_offer s conv)"
    using older_oldest [of conv "[]" None "map snd (seTransfers s)"] by (simp add: pending_offer_def oldest_of_def)
qed

section \<open>Typing\<close>

text \<open>
  The contract of a throttle: a press does nothing, or is told and remembered; it is told as typing only half
  a second after the last one remembered.
\<close>

locale throttle =
  fixes time :: "'e \<Rightarrow> int" and press :: "'s \<Rightarrow> 'e \<Rightarrow> 's" and last_told :: "'s \<Rightarrow> int" and calls :: "'s \<Rightarrow> nat" and gap :: int
  assumes gap_pos: "0 < gap"
    and press_cases: "last_told (press s e) = last_told s \<and> calls (press s e) = calls s \<or> last_told (press s e) = time e
      \<and> (calls (press s e) = calls s \<or> calls (press s e) = Suc (calls s) \<and> gap \<le> time e - last_told s)"
begin

lemma pressed:
  assumes "sorted (map time es)" and "\<forall>e \<in> set es. a \<le> time e"
  shows "calls s \<le> calls (foldl press s es) \<and> (calls (foldl press s es) = calls s
    \<or> a + (int (calls (foldl press s es)) - int (calls s) - 1) * gap \<le> last_told (foldl press s es)
      \<and> last_told (foldl press s es) \<in> time ` set es)"
  using assms
proof (induction es rule: rev_induct)
  case (snoc e es)
  let ?s = "foldl press s es" and ?t = "press (foldl press s es) e"
  have IH: "calls s \<le> calls ?s" "calls ?s = calls s \<or> a + (int (calls ?s) - int (calls s) - 1) * gap \<le> last_told ?s
      \<and> last_told ?s \<in> time ` set es" and le: "\<forall>x \<in> set es. time x \<le> time e" and ae: "a \<le> time e"
    using snoc by (auto simp: sorted_append)
  consider (same) "last_told ?t = last_told ?s" "calls ?t = calls ?s" | (off) "last_told ?t = time e" "calls ?t = calls ?s"
    | (on) "last_told ?t = time e" "calls ?t = Suc (calls ?s)" "gap \<le> time e - last_told ?s"
    using press_cases [of ?s e] by blast
  then show ?case
  proof cases
    case same
    then show ?thesis using IH by auto
  next
    case off
    then show ?thesis using IH le by fastforce
  next
    case on
    show ?thesis
    proof (cases "calls ?s = calls s")
      case True
      then show ?thesis using on ae by simp
    next
      case False
      with IH(2) have "a + (int (calls ?s) - int (calls s) - 1) * gap + gap \<le> time e" using on(3) by linarith
      then have "a + (int (calls ?t) - int (calls s) - 1) * gap \<le> time e" using on(2) by (simp add: algebra_simps)
      then show ?thesis using on IH(1) by simp
    qed
  qed
qed simp

lemma rate:
  assumes "sorted (map time es)" and "\<forall>e \<in> set es. a \<le> time e \<and> time e \<le> b" and "a \<le> b"
  shows "int (calls (foldl press s es)) \<le> int (calls s) + 1 + (b - a) div gap"
proof -
  from assms(2) have "\<forall>e \<in> set es. a \<le> time e" by blast
  from pressed [OF assms(1) this, of s] show ?thesis
  proof (elim conjE disjE)
    assume "calls (foldl press s es) = calls s"
    then show ?thesis using gap_pos assms(3) by (simp add: pos_imp_zdiv_nonneg_iff)
  next
    let ?n = "int (calls (foldl press s es)) - int (calls s) - 1"
    assume "a + ?n * gap \<le> last_told (foldl press s es)" "last_told (foldl press s es) \<in> time ` set es"
    with assms(2) have "?n * gap \<le> b - a" by force
    then have "?n * gap div gap \<le> (b - a) div gap" using gap_pos by (intro zdiv_mono1)
    then show ?thesis using gap_pos by simp
  qed
qed

end


text \<open>The typing calls a front end has started.\<close>

definition is_typing_on :: "tui_work \<Rightarrow> bool" where
  "is_typing_on k \<longleftrightarrow> (case k of WorkTyping conv on \<Rightarrow> on | _ \<Rightarrow> False)"

definition tui_typed :: "'d tui \<Rightarrow> nat" where
  "tui_typed u = length (filter is_typing_on (tuWork u))"

definition gui_is_typing_on :: "gui_work \<Rightarrow> bool" where
  "gui_is_typing_on k \<longleftrightarrow> (case k of GuiTyping conv on \<Rightarrow> on | _ \<Rightarrow> False)"

definition gui_typed :: "'d session \<Rightarrow> nat" where
  "gui_typed s = length (filter gui_is_typing_on (seWork s))"

definition tui_press :: "'d tui \<Rightarrow> terminal \<times> string \<Rightarrow> 'd tui" where
  "tui_press u e = input_changed (fst e) u (snd e)"

definition gui_press :: "'d session \<Rightarrow> desktop \<times> string \<Rightarrow> 'd session" where
  "gui_press s e = composer_input (fst e) s (snd e)"

lemma tui_typing_effect:
  "tuLastTyping (tui_note_typing tm u on) = (if tuCurrent u = '''' \<or> on \<and> tmNow tm - tuLastTyping u < half_second then tuLastTyping u else tmNow tm)"
  "tui_typed (tui_note_typing tm u on) = tui_typed u + (if tuCurrent u = '''' \<or> \<not> on \<or> tmNow tm - tuLastTyping u < half_second then 0 else 1)"
  by (auto simp: tui_note_typing_def start_work_def tui_typed_def is_typing_on_def)

lemma gui_typing_effect:
  "seLastTyping (gui_note_typing dk s on) = (if seCurrent s = '''' \<or> on \<and> dkNow dk - seLastTyping s < gui_half_second then seLastTyping s else dkNow dk)"
  "gui_typed (gui_note_typing dk s on) = gui_typed s + (if seCurrent s = '''' \<or> \<not> on \<or> dkNow dk - seLastTyping s < gui_half_second then 0 else 1)"
  by (auto simp: gui_note_typing_def async_def gui_typed_def gui_is_typing_on_def)

interpretation tui_throttle: throttle "\<lambda>e. tmNow (fst e)" tui_press tuLastTyping tui_typed half_second
proof
  show "0 < half_second" by (simp add: half_second_def)
  fix u :: "'a tui" and e :: "terminal \<times> string"
  have same: "tui_typed (u\<lparr>tuInput := x\<rparr>) = tui_typed u" for x by (simp add: tui_typed_def)
  show "tuLastTyping (tui_press u e) = tuLastTyping u \<and> tui_typed (tui_press u e) = tui_typed u
    \<or> tuLastTyping (tui_press u e) = tmNow (fst e) \<and> (tui_typed (tui_press u e) = tui_typed u
      \<or> tui_typed (tui_press u e) = Suc (tui_typed u) \<and> half_second \<le> tmNow (fst e) - tuLastTyping u)"
    by (simp add: tui_press_def input_changed_def tui_typing_effect same)
qed

interpretation gui_throttle: throttle "\<lambda>e. dkNow (fst e)" gui_press seLastTyping gui_typed gui_half_second
proof
  show "0 < gui_half_second" by (simp add: gui_half_second_def)
  fix s :: "'a session" and e :: "desktop \<times> string"
  have same: "gui_typed (s\<lparr>seComposer := x\<rparr>) = gui_typed s" for x by (simp add: gui_typed_def)
  show "seLastTyping (gui_press s e) = seLastTyping s \<and> gui_typed (gui_press s e) = gui_typed s
    \<or> seLastTyping (gui_press s e) = dkNow (fst e) \<and> (gui_typed (gui_press s e) = gui_typed s
      \<or> gui_typed (gui_press s e) = Suc (gui_typed s) \<and> gui_half_second \<le> dkNow (fst e) - seLastTyping s)"
    by (simp add: gui_press_def composer_input_def gui_typing_effect same)
qed

text \<open>
  Typing is told at most twice a second. However the text of a composer changes between two instants, the terminal and
  the window start at most one call that somebody types, and one more for each half second between the two.
\<close>

theorem typing_throttled:
  assumes "sorted (map (\<lambda>e. tmNow (fst e)) es)" and "list_all (\<lambda>e. a \<le> tmNow (fst e) \<and> tmNow (fst e) \<le> b) es" and "a \<le> b"
    and "sorted (map (\<lambda>e. dkNow (fst e)) fs)" and "list_all (\<lambda>e. a \<le> dkNow (fst e) \<and> dkNow (fst e) \<le> b) fs"
  shows "int (tui_typed (foldl tui_press u es)) \<le> int (tui_typed u) + 1 + (b - a) div 500000000
    \<and> int (gui_typed (foldl gui_press s fs)) \<le> int (gui_typed s) + 1 + (b - a) div 500000000"
  using tui_throttle.rate [of es a b u] gui_throttle.rate [of fs a b s] assms
  by (simp add: list_all_iff half_second_def gui_half_second_def)

definition demo_terminal :: "gotime \<Rightarrow> terminal" where
  "demo_terminal t = \<lparr>tmNow = t, tmZone = (\<lambda>t. 0), tmZoneName = (\<lambda>t. ''UTC''), tmEscape = (\<lambda>s. s),
     tmAdded = (\<lambda>n. None), tmMoved = (\<lambda>i j. None), tmTextSet = False\<rparr>"

definition demo_desktop :: "gotime \<Rightarrow> desktop" where
  "demo_desktop t = \<lparr>dkNow = t, dkVisible = True, dkNoNotify = '''', dkDownloads = ''/dl'', dkTextSet = False\<rparr>"

theorem typing_throttled_witness:
  "int (tui_typed (foldl tui_press ((new_tui dev_rpc)\<lparr>tuCurrent := ''room:lobby''\<rparr>)
      [(demo_terminal 0, ''h''), (demo_terminal 200000000, ''hi''), (demo_terminal 600000000, ''hi!'')])) \<le> 2
   \<and> tui_typed (foldl tui_press ((new_tui dev_rpc)\<lparr>tuCurrent := ''room:lobby''\<rparr>)
      [(demo_terminal 0, ''h''), (demo_terminal 200000000, ''hi''), (demo_terminal 600000000, ''hi!'')]) = 2"
proof
  let ?u = "(new_tui dev_rpc)\<lparr>tuCurrent := ''room:lobby''\<rparr>"
  let ?es = "[(demo_terminal 0, ''h''), (demo_terminal 200000000, ''hi''), (demo_terminal 600000000, ''hi!'')]"
  let ?fs = "[(demo_desktop 0, ''h''), (demo_desktop 100000000, ''hi'')]"
  have "tui_typed ?u = 0" by (simp add: tui_typed_def new_tui_def)
  moreover have "sorted (map (\<lambda>e. tmNow (fst e)) ?es)" "list_all (\<lambda>e. 0 \<le> tmNow (fst e) \<and> tmNow (fst e) \<le> 600000000) ?es"
    "sorted (map (\<lambda>e. dkNow (fst e)) ?fs)" "list_all (\<lambda>e. 0 \<le> dkNow (fst e) \<and> dkNow (fst e) \<le> 600000000) ?fs"
    by (simp_all add: demo_terminal_def demo_desktop_def)
  ultimately show "int (tui_typed (foldl tui_press ?u ?es)) \<le> 2"
    using typing_throttled [of ?es 0 600000000 ?fs ?u "new_session dev_rpc"] by simp
  show "tui_typed (foldl tui_press ?u ?es) = 2"
    by (simp add: tui_press_def input_changed_def tui_note_typing_def start_work_def tui_typed_def is_typing_on_def
        new_tui_def demo_terminal_def half_second_def zero_time_def)
qed

end
