(* ===== verification/FrontSafety.thy ===== *)
theory FrontSafety
  imports FrontProperties
begin

text \<open>
  What the front ends cannot break: whatever a person does in either, and whatever the toolkit and the daemon call back,
  the daemon behind changes only by the calls of the interface, so it keeps what those keep. The proofs are in
  the context of the interface; \<open>keeps\<close> collects, for each operation of a front end, that it keeps the invariant.
\<close>

named_theorems keeps \<open>an operation of a front end keeps the invariant of the daemon\<close>

context answering begin

lemma tui_asked: "inv (tuBack u) \<Longrightarrow> inv (tuBack (fst (tui_call (\<lambda>d. ask_for get ask d c) u)))"
  by (simp add: tui_call_def ask_for_inv)

lemma tui_asked_cli:
  "inv (tuBack u) \<Longrightarrow> inv (tuBack (fst (tui_call (cli_identity ask) u)))"
  "inv (tuBack u) \<Longrightarrow> inv (tuBack (fst (tui_call (cli_status ask) u)))"
  "inv (tuBack u) \<Longrightarrow> inv (tuBack (fst (tui_call (cli_peers ask) u)))"
  "inv (tuBack u) \<Longrightarrow> inv (tuBack (fst (tui_call (cli_conversations ask) u)))"
  "inv (tuBack u) \<Longrightarrow> inv (tuBack (fst (tui_call (cli_transfers ask) u)))"
  by (simp_all add: tui_call_def cli_defs ask_for_inv)

lemmas tui_simps = case_prod_beta Let_def post_job_def start_work_def tui_note_def note_error_def tui_draw_status_def show_text_def
  show_help_def close_panel_def join_prompt_def

lemma tui_reads [keeps]:
  "inv (tuBack u) \<Longrightarrow> inv (tuBack (draw_headline ask u))"
  "inv (tuBack u) \<Longrightarrow> inv (tuBack (tui_reload_messages ask tm u))"
  "inv (tuBack u) \<Longrightarrow> inv (tuBack (tui_load_identity ask u))"
  "inv (tuBack u) \<Longrightarrow> inv (tuBack (tui_load_where ask u))"
  using tui_asked [of u to_view "ConvGet (Inr (tuCurrent u))"] tui_asked [of u to_messages "MessagesList (Inr (tuCurrent u, 500))"]
    tui_asked_cli [of u]
  by (simp_all add: draw_headline_def tui_reload_messages_def tui_load_identity_def tui_load_where_def cli_conversation_def
      cli_messages_def tui_simps split: sum.splits)

lemma tui_select [keeps]: "inv (tuBack u) \<Longrightarrow> inv (tuBack (tui_select_index ask tm u i))"
  by (simp add: tui_select_index_def tui_simps tui_reads)

lemma tui_callbacks [keeps]:
  "inv (tuBack u) \<Longrightarrow> inv (tuBack (set_current_item ask tm u i))"
  "inv (tuBack u) \<Longrightarrow> inv (tuBack (add_item ask tm u x))"
  by (simp_all add: set_current_item_def add_item_def called_back_def tui_select split: option.splits)

lemma tui_add_items [keeps]: "inv (tuBack u) \<Longrightarrow> inv (tuBack (foldl (add_item ask tm) u cs))"
  by (induction cs arbitrary: u) (simp_all add: tui_callbacks)

lemma tui_show_convs [keeps]: "inv (tuBack u) \<Longrightarrow> inv (tuBack (show_convs ask tm u cs ps))"
  by (simp add: show_convs_def Let_def tui_callbacks tui_select tui_add_items split: option.splits)

lemma tui_loads [keeps]:
  "inv (tuBack u) \<Longrightarrow> inv (tuBack (tui_reload_convs ask tm u))"
  by (simp add: tui_reload_convs_def tui_simps tui_asked_cli tui_show_convs split: sum.splits)

lemma tui_moves [keeps]:
  "inv (tuBack u) \<Longrightarrow> inv (tuBack (tui_reload_all ask tm u))"
  "inv (tuBack u) \<Longrightarrow> inv (tuBack (tui_select_conv ask tm u x))"
  "inv (tuBack u) \<Longrightarrow> inv (tuBack (tui_move_selection ask tm u delta))"
  by (simp_all add: tui_reload_all_def tui_select_conv_def tui_move_selection_def tui_simps keeps split: option.splits)

lemma tui_typing [keeps]: "tuBack (tui_note_typing tm u on) = tuBack u"
  by (simp add: tui_note_typing_def start_work_def)

lemma tui_panels [keeps]:
  "inv (tuBack u) \<Longrightarrow> inv (tuBack (show_peers ask tm u))"
  "inv (tuBack u) \<Longrightarrow> inv (tuBack (show_transfers ask tm u))"
  "inv (tuBack u) \<Longrightarrow> inv (tuBack (show_status ask tm u))"
  by (simp_all add: show_peers_def show_transfers_def show_status_def tui_simps tui_asked_cli split: sum.splits)

lemma tui_answer [keeps]: "inv (tuBack u) \<Longrightarrow> inv (tuBack (answer_transfer ask tm u yes i))"
proof -
  assume ok: "inv (tuBack u)"
  let ?u1 = "fst (tui_call (cli_transfers ask) u)"
  have one: "inv (tuBack ?u1)" using ok by (rule tui_asked_cli(5))
  have two: "inv (tuBack (fst (tui_call (\<lambda>d. if yes then cli_accept_file ask d x else cli_decline_file ask d x r) ?u1)))" for x r
    using tui_asked [OF one] by (cases yes) (simp_all add: cli_accept_file_def cli_decline_file_def)
  show ?thesis using one two by (simp add: answer_transfer_def tui_simps split: sum.splits option.splits)
qed

lemma tui_commands [keeps]:
  "inv (tuBack u) \<Longrightarrow> inv (tuBack (submit_message ask tm u x))"
  "inv (tuBack u) \<Longrightarrow> inv (tuBack (submit_join ask tm u x))"
  "inv (tuBack u) \<Longrightarrow> inv (tuBack (submit_leave ask tm u x))"
  "inv (tuBack u) \<Longrightarrow> inv (tuBack (submit_nick ask tm u x))"
  "inv (tuBack u) \<Longrightarrow> inv (tuBack (submit_send tm u x))"
  by (simp_all add: submit_message_def submit_join_def submit_leave_def submit_nick_def submit_send_def tui_simps cli_send_def
      cli_join_room_def cli_leave_room_def cli_set_identity_def tui_asked keeps split: sum.splits)

lemma tui_submit [keeps]: "inv (tuBack u) \<Longrightarrow> inv (tuBack (submit ask tm u x))"
  by (simp add: submit_def tui_simps keeps)

lemma tui_presence [keeps]: "inv (tuBack u) \<Longrightarrow> inv (tuBack (cycle_presence ask tm u))"
  by (simp add: cycle_presence_def tui_simps cli_set_presence_def tui_asked split: sum.splits)

lemma tui_key [keeps]: "inv (tuBack u) \<Longrightarrow> inv (tuBack (tui_keys ask tm u k))"
  by (cases k) (simp_all add: tui_keys_def cycle_focus_def tui_simps keeps)

lemma tui_input [keeps]:
  "tuBack (input_changed tm u x) = tuBack u"
  "inv (tuBack u) \<Longrightarrow> inv (tuBack (input_entered ask tm u))"
  "inv (tuBack u) \<Longrightarrow> inv (tuBack (prompt_done ask tm u enter x))"
  by (simp_all add: input_changed_def input_entered_def prompt_done_def tui_simps keeps)

lemma tui_jobs [keeps]: "inv (tuBack u) \<Longrightarrow> inv (tuBack (run_tui_job ask tm u j))"
  by (cases j) (simp_all add: run_tui_job_def tui_simps keeps split: option.splits)

lemma tui_works [keeps]: "inv (tuBack u) \<Longrightarrow> inv (tuBack (run_tui_work ask u k))"
  by (cases k) (simp_all add: run_tui_work_def tui_simps cli_mark_read_def cli_offer_file_def cli_set_typing_def tui_asked split: sum.splits)

lemma tui_events [keeps]:
  "tuBack (tui_on_event u ev) = tuBack u" "tuBack (tui_on_state u up) = tuBack u"
  by (simp_all add: tui_on_event_def tui_on_state_def tui_simps)

lemma tui_step_inv: "inv (tuBack u) \<Longrightarrow> inv (tuBack (tui_step ask u te))"
proof (cases te)
  case (Pair tm e)
  assume "inv (tuBack u)"
  then show ?thesis using Pair by (cases e) (simp_all add: tui_step_def keeps, simp_all add: tui_simps)
qed

section \<open>The window\<close>

lemma gui_asked: "inv (seBack s) \<Longrightarrow> inv (seBack (fst (gui_call (\<lambda>d. ask_for get ask d c) s)))"
  by (simp add: gui_call_def ask_for_inv)

lemma gui_asked_cli:
  "inv (seBack s) \<Longrightarrow> inv (seBack (fst (gui_call (cli_identity ask) s)))"
  "inv (seBack s) \<Longrightarrow> inv (seBack (fst (gui_call (cli_status ask) s)))"
  "inv (seBack s) \<Longrightarrow> inv (seBack (fst (gui_call (cli_peers ask) s)))"
  "inv (seBack s) \<Longrightarrow> inv (seBack (fst (gui_call (cli_conversations ask) s)))"
  "inv (seBack s) \<Longrightarrow> inv (seBack (fst (gui_call (cli_transfers ask) s)))"
  "inv (seBack s) \<Longrightarrow> inv (seBack (fst (gui_call (cli_notify_prefs ask) s)))"
  by (simp_all add: gui_call_def cli_defs ask_for_inv)

lemma gui_plain [keeps]:
  "seBack (gui_post s j) = seBack s" "seBack (async s k) = seBack s" "seBack (show_dialog s g) = seBack s"
  "seBack (gui_draw_status s) = seBack s" "seBack (draw_offer_bar s) = seBack s" "seBack (set_messages s ms) = seBack s"
  "seBack (warned s title err) = seBack s" "seBack (typing_update conv i on s) = seBack s"
  by (simp_all add: gui_post_def async_def show_dialog_def gui_draw_status_def draw_offer_bar_def set_messages_def warned_def
      typing_update_def split: option.splits)

lemma gui_reads [keeps]:
  "inv (seBack s) \<Longrightarrow> inv (seBack (draw_header ask s))"
  "inv (seBack s) \<Longrightarrow> inv (seBack (gui_reload_peers ask s))"
  "inv (seBack s) \<Longrightarrow> inv (seBack (gui_reload_transfers ask s))"
  "inv (seBack s) \<Longrightarrow> inv (seBack (gui_reload_messages ask s))"
  "inv (seBack s) \<Longrightarrow> inv (seBack (gui_load_identity ask s))"
  "inv (seBack s) \<Longrightarrow> inv (seBack (gui_load_server ask s))"
  using gui_asked [of s to_view "ConvGet (Inr (seCurrent s))"] gui_asked [of s to_messages "MessagesList (Inr (seCurrent s, 500))"]
    gui_asked_cli [of s]
  by (simp_all add: draw_header_def gui_reload_peers_def gui_reload_transfers_def gui_reload_messages_def gui_load_identity_def
      gui_load_server_def cli_conversation_def cli_messages_def gui_plain case_prod_beta Let_def split: sum.splits)

lemma gui_selects [keeps]: "inv (seBack s) \<Longrightarrow> inv (seBack (gui_select_index ask s i))"
  by (simp add: gui_select_index_def Let_def keeps)

lemma gui_loads [keeps]: "inv (seBack s) \<Longrightarrow> inv (seBack (gui_reload_convs ask s))"
  by (simp add: gui_reload_convs_def case_prod_beta Let_def gui_asked_cli keeps split: sum.splits)

lemma gui_moves [keeps]:
  "inv (seBack s) \<Longrightarrow> inv (seBack (gui_reload_all ask s))"
  "inv (seBack s) \<Longrightarrow> inv (seBack (gui_move_selection ask s d))"
  "inv (seBack s) \<Longrightarrow> inv (seBack (gui_select_conv ask s c))"
  by (simp_all add: gui_reload_all_def gui_move_selection_def gui_select_conv_def Let_def keeps split: option.splits)

lemma gui_actions [keeps]:
  "seBack (gui_note_typing dk s on) = seBack s" "seBack (composer_input dk s x) = seBack s" "seBack (gui_send dk s) = seBack s"
  "seBack (gui_attach s) = seBack s" "seBack (gui_accept_offer s) = seBack s" "seBack (gui_decline_offer s) = seBack s"
  "seBack (accept_answered s yes) = seBack s" "seBack (activate_message dk s m) = seBack s" "seBack (leave_room_ask s) = seBack s"
  "seBack (leave_answered s room yes) = seBack s" "seBack (set_blocked s b) = seBack s" "seBack (gui_mark_read s) = seBack s"
  "seBack (join_room_named s x) = seBack s" "seBack (save_preferences s shown nick i j kib np) = seBack s"
  "seBack (gui_on_event s ev) = seBack s"
  by (simp_all add: gui_note_typing_def composer_input_def gui_send_def clear_composer_def gui_attach_def gui_accept_offer_def
      gui_decline_offer_def accept_answered_def activate_message_def leave_room_ask_def leave_answered_def set_blocked_def
      gui_mark_read_def join_room_named_def save_preferences_def gui_on_event_def Let_def gui_plain split: option.splits)

lemma gui_panels [keeps]:
  "inv (seBack s) \<Longrightarrow> inv (seBack (gui_show_peers ask s))" "inv (seBack s) \<Longrightarrow> inv (seBack (gui_show_about ask s))"
  "seBack (transcript_key dk s k) = seBack s"
  using gui_asked_cli [of s]
  by (simp_all add: gui_show_peers_def gui_show_about_def transcript_key_def case_prod_beta Let_def gui_plain gui_actions
      split: sum.splits row_key.splits)

lemma gui_toast [keeps]: "inv (seBack s) \<Longrightarrow> inv (seBack (gui_notify ask dk s title body))"
  using gui_asked_cli(6) [of s] by (simp add: gui_notify_def case_prod_beta)

lemma gui_works [keeps]: "inv (seBack s) \<Longrightarrow> inv (seBack (run_gui_work ask s k))"
proof (cases k)
  case (GuiSave np i)
  assume ok: "inv (seBack s)"
  have one: "inv (seBack (fst (gui_call (\<lambda>d. cli_set_notify_prefs ask d np) s)))"
    using gui_asked [OF ok] by (simp add: cli_set_notify_prefs_def)
  have two: "inv (seBack (fst (gui_call (\<lambda>d. cli_set_identity ask d i) (fst (gui_call (\<lambda>d. cli_set_notify_prefs ask d np) s)))))"
    using gui_asked [OF one] by (simp add: cli_set_identity_def)
  show ?thesis using GuiSave one two by (simp add: run_gui_work_def case_prod_beta gui_plain split: sum.splits)
qed (simp_all add: run_gui_work_def read_quietly_def case_prod_beta gui_plain cli_defs gui_asked split: sum.splits)

lemma gui_jobs [keeps]: "inv (seBack s) \<Longrightarrow> inv (seBack (run_gui_job ask dk s j))"
  by (cases j) (simp_all add: run_gui_job_def done_defs Let_def keeps split: option.splits sum.splits)

lemma gui_step_inv: "inv (seBack s) \<Longrightarrow> inv (seBack (gui_step ask s de))"
proof (cases de)
  case (Pair dk e)
  assume "inv (seBack s)"
  then show ?thesis using Pair by (cases e) (simp_all add: gui_step_def keeps)
qed

end

section \<open>Both front ends at once\<close>

text \<open>
  A daemon with a terminal and a window open on it. A step is something at the terminal, at the window, or at the
  daemon, its link and its other front ends; the world the daemon reads may be another at each step.
\<close>

record both =
  boDaemon :: rpc
  boTui :: "rpc tui"
  boGui :: "rpc session"

datatype both_event =
  AtTerminal world terminal tui_event | AtWindow world desktop gui_event | AtDaemon world rpc_event

definition both_step :: "(error_detail \<Rightarrow> string) \<Rightarrow> both \<Rightarrow> both_event \<Rightarrow> both" where
  "both_step wording b e = (case e of
      AtTerminal w tm x \<Rightarrow>
       (let u = tui_step (ask_daemon w wording) ((boTui b)\<lparr>tuBack := boDaemon b\<rparr>) (tm, x) in b\<lparr>boDaemon := tuBack u, boTui := u\<rparr>)
    | AtWindow w dk x \<Rightarrow>
       (let s = gui_step (ask_daemon w wording) ((boGui b)\<lparr>seBack := boDaemon b\<rparr>) (dk, x) in b\<lparr>boDaemon := seBack s, boGui := s\<rparr>)
    | AtDaemon w x \<Rightarrow> b\<lparr>boDaemon := rpc_step (boDaemon b) (w, x)\<rparr>)"

lemma path_rpc_step: "store_path (dstore r) (dstore (rpc_step r we))"
proof (cases we)
  case (Pair w e)
  show ?thesis
  proof (cases e)
    case (Line c l)
    have same: "dstore (reply r' c i resp) = dstore r'" for r' i resp by (simp add: reply_def front_end_gone_def dstore_def)
    have out: "dstore (r\<lparr>rpOut := x\<rparr>) = dstore r" for x by (simp add: dstore_def)
    have "store_path (dstore r) (dstore (handle_line w r c l))"
      using path_dispatch by (simp add: handle_line_def case_prod_beta same out split: rpc_line.splits option.splits)
    then show ?thesis using Pair Line by (simp add: rpc_step_def)
  next
    case (DaemonStep de)
    then show ?thesis using Pair path_daemon_step by (simp add: rpc_step_def) (simp add: dstore_def path_daemon_step)
  qed (use Pair in \<open>simp_all add: rpc_step_def accept_front_end_def front_end_gone_def close_clients_def dstore_def\<close>)
qed

text \<open>What the interface keeps of a given cache: that it is well formed, and that the cache now came from it.\<close>

definition came_from :: "store \<Rightarrow> rpc \<Rightarrow> bool" where
  "came_from s0 r \<longleftrightarrow> store_ok s0 \<and> store_path s0 (dstore r)"

lemma came_from_trans: "came_from s0 r \<Longrightarrow> store_path (dstore r) (dstore r') \<Longrightarrow> came_from s0 r'"
  unfolding came_from_def using path_trans by blast

interpretation lasting: answering "ask_daemon w wording" "came_from s0"
proof unfold_locales
  fix d c d' v
  assume "came_from s0 d" and ask: "ask_daemon w wording d c = (d', Inr v)"
  then have "asks_ok d" using path_store_ok [of s0 "dstore d"] by (simp add: came_from_def asks_ok_def)
  from local_daemon.ask_fits [OF this ask] show "result_fits c v" .
next
  fix d c
  assume "came_from s0 d"
  then show "came_from s0 (fst (ask_daemon w wording d c))"
    by (rule came_from_trans) (simp add: ask_daemon_def path_dispatch)
qed

interpretation both_run: stepper "both_step wording" "\<lambda>b. came_from s0 (boDaemon b)"
proof
  fix b :: both and e
  assume ok: "came_from s0 (boDaemon b)"
  show "came_from s0 (boDaemon (both_step wording b e))"
  proof (cases e)
    case (AtTerminal w tm x)
    then show ?thesis
      using ok lasting.tui_step_inv [of s0 "(boTui b)\<lparr>tuBack := boDaemon b\<rparr>"] by (simp add: both_step_def Let_def)
  next
    case (AtWindow w dk x)
    then show ?thesis
      using ok lasting.gui_step_inv [of s0 "(boGui b)\<lparr>seBack := boDaemon b\<rparr>"] by (simp add: both_step_def Let_def)
  next
    case (AtDaemon w x)
    then show ?thesis using came_from_trans [OF ok path_rpc_step] by (simp add: both_step_def)
  qed
qed

text \<open>
  C26: nothing a person does loses a message. With a terminal and a window open on one daemon, whatever is typed, picked and
  answered in either, whatever the two front ends do by themselves, and whatever the daemon receives from
  the server or from other front ends meanwhile, the daemon's cache stays well formed and every message in it stays, in its
  conversation, with its sender, its text and its time.
\<close>

theorem front_ends_lose_nothing:
  assumes "store_ok (dstore (boDaemon b))" and "m \<in> set (conv_msgs (dstore (boDaemon b)) c)"
  shows "store_ok (dstore (boDaemon (foldl (both_step wording) b es)))
    \<and> content m \<in> content ` set (conv_msgs (dstore (boDaemon (foldl (both_step wording) b es))) c)"
proof -
  have "came_from (dstore (boDaemon b)) (boDaemon (foldl (both_step wording) b es))"
    by (rule both_run.inv_run) (simp add: came_from_def assms(1))
  then have path: "store_path (dstore (boDaemon b)) (dstore (boDaemon (foldl (both_step wording) b es)))" (is "store_path ?s ?t")
    by (simp add: came_from_def)
  have "content ` set (conv_msgs ?s c) \<subseteq> content ` set (conv_msgs ?t c)" by (rule path_content [OF path assms(1)])
  then show ?thesis using path_store_ok [OF path assms(1)] assms(2) by blast
qed

definition spoken_both :: both where
  "spoken_both = \<lparr>boDaemon = dev_rpc\<lparr>rpDaemon := spoke\<rparr>, boTui = new_tui dev_rpc, boGui = new_session dev_rpc\<rparr>"

theorem front_ends_lose_nothing_witness:
  "''hi'' \<in> mBody ` set (conv_msgs (dstore (boDaemon (foldl (both_step (\<lambda>e. '''')) spoken_both
     [AtTerminal dev_world (demo_terminal 0) (TuiState True), AtTerminal dev_world (demo_terminal 0) (TuiRunJob 0),
      AtWindow dev_world (demo_desktop 0) (GuiLeaveAnswer ''lobby'' True), AtWindow dev_world (demo_desktop 0) (GuiRunWork 0)]))) ''room:lobby'')"
  (is "_ \<in> mBody ` set (conv_msgs (dstore (boDaemon (foldl _ _ ?es))) _)")
proof -
  have s: "dstore (boDaemon spoken_both) = dmStore spoke" by (simp add: spoken_both_def dstore_def)
  have "map mBody (conv_msgs (dmStore spoke) ''room:lobby'') = [''hi'']" by code_simp
  then obtain m where m: "m \<in> set (conv_msgs (dstore (boDaemon spoken_both)) ''room:lobby'')" "mBody m = ''hi''"
    unfolding s by (auto simp: map_eq_Cons_conv)
  have "store_ok (dstore (boDaemon spoken_both))" using spoke_ok by (simp add: s daemon_ok_def)
  from front_ends_lose_nothing [OF this m(1), of "\<lambda>e. ''''" ?es] m(2) show ?thesis by (force simp: content_def)
qed

end
