(* ===== verification/FrontDivergences.thy ===== *)
theory FrontDivergences
  imports FrontProperties
begin

text \<open>
  Where the front ends and their client do something else than their comments say or than they mean to, each shown on
  the model.
\<close>

section \<open>The client of the local socket\<close>

text \<open>\<open>Close\<close> forgets the connection, so the read loop that ends does not release the calls that wait on it.\<close>

lemma close_keeps_waiting:
  assumes "clConn c = Some k" and "k \<in> set (clReaders c)" and "i \<in> set (clWaiting c)" and "map_of (clChan c) i = None"
  shows "i \<in> set (clWaiting (reader_ends (close_client c) k)) \<and> take_answer (reader_ends (close_client c) k) i = reader_ends (close_client c) k"
  using assms by (simp add: reader_ends_def close_client_def dropped_def take_answer_def)

text \<open>The wait between two attempts to dial again doubles to 6.4 seconds, past the 5 the comment names.\<close>

lemma redial_past_five: "(next_redial ^^ 6) first_redial = 6400000000" "next_redial 6400000000 = 6400000000"
  by (simp_all add: next_redial_def first_redial_def second_ns_def numeral_eq_Suc)

section \<open>The window\<close>

text \<open>
  Two files wait in a conversation. Opening the row of the second asks about the second; yes accepts the first.
\<close>

definition offer_at :: "transfer_id \<Rightarrow> string \<Rightarrow> gotime \<Rightarrow> transfer" where
  "offer_at i name t = \<lparr>tID = i, tConv = ''peer:bob'', tPeer = ''bob'', tName = name, tSize = 10, tMIME = '''', tSHA256 = '''',
     tIncoming = True, tState = TransferIncoming, tDone = 0, tPath = '''', tError = '''', tAt = t\<rparr>"

definition two_offers :: "unit session" where
  "two_offers = (new_session ())\<lparr>seCurrent := ''peer:bob'', seTransfers := [(''t1'', offer_at ''t1'' ''notes.txt'' 1), (''t2'', offer_at ''t2'' ''run.sh'' 2)]\<rparr>"

lemma window_accepts_other:
  assumes "mTransfer m = Some \<lparr>rID = ''t2'', rName = ''run.sh'', rSize = 10\<rparr>"
  shows "seDialogs (activate_message dk two_offers m) = [ConfirmAccept (accept_question dk two_offers (offer_at ''t2'' ''run.sh'' 2))]"
    and "seWork (accept_answered (activate_message dk two_offers m) True) = [GuiAccept ''t1'']"
  using assms by (simp_all add: activate_message_def two_offers_def new_session_def offer_at_def show_dialog_def accept_answered_def
      gui_accept_offer_def pending_offer_def older_offer_def offer_in_def async_def)

text \<open>Leaving a room that fails closes it all the same, without a word.\<close>

lemma failed_leave_leaves:
  assumes "ask (seBack s) (RoomsLeave (Inr room)) = (seBack s, Inl e)"
  shows "run_gui_work ask s (GuiLeave room) = gui_post s LeftRoom"
  using assms by (simp add: run_gui_work_def gui_call_def cli_leave_room_def ask_for_def)

text \<open>News of the link changes neither front end's line about the server, which stays as it was loaded.\<close>

lemma status_keeps_server:
  "seServer (run_gui_job ask dk s (OnStatus x)) = seServer s" "seConnected (run_gui_job ask dk s (OnStatus x)) = seConnected s"
  "tui_on_event u (event_of event_status) = u"
  by (simp_all add: run_gui_job_def gui_draw_status_def tui_on_event_def event_kind_defs zero_event_def)

section \<open>The terminal\<close>

text \<open>
  \<open>tview\<close> calls the changed function of a list when its first item is added. Rebuilding the list then
  selects the first conversation, and starts marking it read, although another is on the screen.
\<close>

lemma work_kept:
  "set (tuWork u) \<subseteq> set (tuWork (draw_headline ask u))" "set (tuWork u) \<subseteq> set (tuWork (tui_reload_messages ask tm u))"
  by (auto simp: draw_headline_def tui_reload_messages_def tui_call_def note_error_def tui_note_def Let_def split: sum.splits)

lemma work_select: "set (tuWork u) \<subseteq> set (tuWork (tui_select_index ask tm u i))"
proof -
  have "set (tuWork u) \<subseteq> set (tuWork (draw_headline ask (tui_reload_messages ask tm (u\<lparr>tuCurrent := c\<rparr>))))" for c
    using work_kept(2) [of "u\<lparr>tuCurrent := c\<rparr>" ask tm] work_kept(1) by fastforce
  then show ?thesis by (auto simp: tui_select_index_def start_work_def Let_def)
qed

lemma work_called: "set (tuWork u) \<subseteq> set (tuWork (called_back ask tm u cb))"
  by (simp add: called_back_def work_select split: option.splits)

lemma work_items: "set (tuWork u) \<subseteq> set (tuWork (foldl (add_item ask tm) u cs))"
proof (induction cs arbitrary: u)
  case (Cons c cs)
  have "set (tuWork u) \<subseteq> set (tuWork (add_item ask tm u c))"
    using work_called [of "u\<lparr>tuList := tuList u @ [(conv_title c, conv_subtitle c)]\<rparr>"] by (simp add: add_item_def)
  with Cons.IH [of "add_item ask tm u c"] show ?case by auto
qed simp

lemma reload_reads_first:
  assumes "tmAdded tm 0 = Some 0" and "cID c \<noteq> tuCurrent u"
  shows "WorkRead (cID c) \<in> set (tuWork (show_convs ask tm u (c # cs) ps))"
proof -
  let ?u1 = "u\<lparr>tuConvs := c # cs, tuNames := names_of ps, tuList := [], tuItem := 0\<rparr>"
  define u2 where "u2 = foldl (add_item ask tm) ?u1 (c # cs)"
  have "WorkRead (cID c) \<in> set (tuWork (add_item ask tm ?u1 c))"
    using assms by (simp add: add_item_def called_back_def tui_select_index_def start_work_def Let_def)
  then have u2: "WorkRead (cID c) \<in> set (tuWork u2)"
    using work_items [of "add_item ask tm ?u1 c" ask tm cs] by (auto simp: u2_def)
  have set_item: "set (tuWork u2) \<subseteq> set (tuWork (set_current_item ask tm u2 k))" for k
    using work_called [of "u2\<lparr>tuItem := k\<rparr>"] by (simp add: set_current_item_def)
  have "set (tuWork u2) \<subseteq> set (tuWork (tui_select_index ask tm (set_current_item ask tm u2 0) 0))"
    using set_item [of 0] work_select by blast
  with u2 set_item show ?thesis unfolding show_convs_def Let_def u2_def [symmetric] by (auto split: option.splits)
qed

text \<open>The name a peer gives itself is put into the markup of the transcript as it is, unlike what it says.\<close>

lemma nick_is_markup:
  assumes "mFromNick m \<noteq> ''''" and "\<not> mSystem m" and "mTransfer m = None" and "mFrom m \<noteq> self" and "\<not> mMine m"
  shows "message_line tm m self names = ''[gray]'' @ clock_text (tmZone tm) (mSent m) @ ''[-] ['' @ tcell_hex (color_for_id (mFrom m))
    @ ''::b]'' @ mFromNick m @ ''[-::-]  '' @ tmEscape tm (mBody m) @ [newline]"
  using assms by (simp add: message_line_def Let_def)

end
