(* ===== verification/SockLock.thy ===== *)
theory SockLock
  imports FileNames
begin

text \<open>
  The model of \<open>chatclientd/socklock.go\<close> and of \<open>ListenAndServe\<close> around it: the directory of the
  socket, the lock file, the socket file, who may connect, and the start and end of a client daemon as
  the system calls it makes, one step each, interleaved with those of other daemons on the same path.
  What a system call answers, where it may fail for a reason outside this state, is an argument of its
  step. The lemmas show that daemons exclude each other as long as no lock file is removed while another
  daemon is between opening it and locking it, and that a daemon that died does not keep a new one out.
\<close>

unbundle bit_operations_syntax

section \<open>The directory of the socket\<close>

text \<open>\<open>filepath.Dir\<close>.\<close>

definition path_dir :: "string \<Rightarrow> string" where
  "path_dir p = path_clean (rev (dropWhile not_slash (rev p)))"

text \<open>What the checks read of the process: its uid, \<open>os.TempDir\<close>, \<open>XDG_RUNTIME_DIR\<close> and its umask.
  Modes are in hexadecimal: \<open>0x1C0\<close> is \<open>0o700\<close>, \<open>0x3F\<close> is \<open>0o077\<close>, \<open>0x180\<close> is \<open>0o600\<close>.\<close>

record sock_env =
  seUid :: int
  seTemp :: string
  seRuntime :: string
  seUmask :: "9 word"

definition is_private_socket_dir :: "sock_env \<Rightarrow> string \<Rightarrow> bool" where
  "is_private_socket_dir e dir =
    (path_clean dir \<notin> set [path_clean (seTemp e), ''/'', ''/run'', ''/var/run'']
     \<and> (seRuntime e = '''' \<or> path_clean dir \<noteq> path_clean (seRuntime e)))"

text \<open>
  A directory has an owner and permission bits. \<open>MkdirAll\<close> creates every missing directory on the way;
  when it fails those it got to stay, which is the number of path prefixes it is given.
\<close>

record dir_stat =
  dtUid :: int
  dtMode :: "9 word"

type_synonym dirs = "(string \<times> dir_stat) list"

datatype sock_error =
  DirMkdir | DirStat | DirOwner string int int | LockOpen | LockBusy string | StaleKept | BindFailed | ChmodFailed

definition path_prefixes :: "string \<Rightarrow> string list" where
  "path_prefixes p = map (\<lambda>n. take n p) (filter (\<lambda>n. 0 < n \<and> (n = length p \<or> p ! n = CHR ''/'')) [0..<Suc (length p)])"

definition make_dir :: "sock_env \<Rightarrow> dirs \<Rightarrow> string \<Rightarrow> dirs" where
  "make_dir e ds p = (if map_of ds p = None then AList.update p \<lparr>dtUid = seUid e, dtMode = 0x1C0 AND NOT (seUmask e)\<rparr> ds else ds)"

definition mkdir_all :: "sock_env \<Rightarrow> dirs \<Rightarrow> nat option \<Rightarrow> string \<Rightarrow> dirs" where
  "mkdir_all e ds stops p = foldl (make_dir e) ds
    (case stops of None \<Rightarrow> path_prefixes p | Some n \<Rightarrow> take n (path_prefixes p))"

definition prepare_socket_dir :: "sock_env \<Rightarrow> nat option \<Rightarrow> bool \<Rightarrow> bool \<Rightarrow> dirs \<Rightarrow> string \<Rightarrow> dirs \<times> sock_error option" where
  "prepare_socket_dir e stops stats chmods ds socket =
    (let dir = path_dir socket; made = mkdir_all e ds stops dir in
     if stops \<noteq> None then (made, Some DirMkdir)
     else (case (if stats then map_of made dir else None) of
         None \<Rightarrow> (made, Some DirStat)
       | Some st \<Rightarrow>
           if dtUid st \<noteq> seUid e then (made, Some (DirOwner dir (dtUid st) (seUid e)))
           else if dtMode st AND 0x3F \<noteq> 0 \<and> is_private_socket_dir e dir \<and> chmods
             then (AList.update dir (st\<lparr>dtMode := 0x1C0\<rparr>) made, None)
           else (made, None)))"

section \<open>Who may connect\<close>

text \<open>
  What a connection answers when asked for its peer: it is not a Unix socket, an error on the way, or
  the credentials, which may be missing.
\<close>

datatype peer_cred = NoUnixConn | CredError string | CredMissing | CredUid int

definition peer_allowed :: "sock_env \<Rightarrow> peer_cred \<Rightarrow> bool \<times> string option" where
  "peer_allowed e p = (case p of
      NoUnixConn \<Rightarrow> (True, None)
    | CredError m \<Rightarrow> (False, Some m)
    | CredMissing \<Rightarrow> (False, Some ''chat: no peer credentials on the socket'')
    | CredUid u \<Rightarrow> (u = seUid e \<or> u = 0, None))"

definition admits :: "bool \<times> string option \<Rightarrow> bool" where
  "admits a \<longleftrightarrow> \<not> (snd a \<noteq> None \<or> \<not> fst a)"

lemma admits_iff: "admits (peer_allowed e p) \<longleftrightarrow> p \<in> {NoUnixConn, CredUid (seUid e), CredUid 0}"
  by (auto simp: admits_def peer_allowed_def split: peer_cred.splits)

lemma shared_dirs:
  "\<not> is_private_socket_dir e (seTemp e)" "seRuntime e \<noteq> '''' \<Longrightarrow> \<not> is_private_socket_dir e (seRuntime e)"
  by (simp_all add: is_private_socket_dir_def)

text \<open>A directory that passes is ours, and nobody else may enter one that is private to the daemon.\<close>

lemma prepared_private:
  assumes "prepare_socket_dir e stops stats True ds socket = (ds', None)"
  obtains st where "map_of ds' (path_dir socket) = Some st" "dtUid st = seUid e"
    "is_private_socket_dir e (path_dir socket) \<Longrightarrow> dtMode st AND 0x3F = 0"
  using assms by (fastforce simp: prepare_socket_dir_def Let_def update_conv' split: if_splits option.splits)


section \<open>The lock, the socket file and the daemons on one path\<close>

text \<open>
  Where a daemon that starts or stops is. The number is the inode of the lock file it has open, which is
  what \<open>flock\<close> locks: not the path.
\<close>

datatype sock_phase =
  NotStarted | DirReady | LockOpened nat | LockTaken nat | StaleGone nat | SocketBound nat | Serving nat
| ListenerClosed nat | LockUnlinked nat | Ended "sock_error option"

record sock_file =
  sfOwner :: nat
  sfMode :: "9 word"

text \<open>
  \<open>lpLock\<close> is the inode at \<open>socket + ".lock"\<close>, \<open>lpHolder\<close> which daemon has an inode locked,
  \<open>lpText\<close> what is written in it, \<open>lpFresh\<close> the next unused inode, \<open>lpSocket\<close> the file at the path
  of the socket with the daemon whose listener it leads to. Daemons are numbered; one that ended may be
  started again.
\<close>

record sock_path =
  lpName :: string
  lpLock :: "nat option"
  lpHolder :: "nat \<Rightarrow> nat option"
  lpText :: "nat \<Rightarrow> string"
  lpFresh :: nat
  lpSocket :: "sock_file option"
  lpPhase :: "sock_phase list"

definition at_phase :: "sock_path \<Rightarrow> nat \<Rightarrow> sock_phase \<Rightarrow> sock_path" where
  "at_phase s p ph = s\<lparr>lpPhase := (lpPhase s)[p := ph]\<rparr>"

text \<open>\<open>release\<close>: the lock is given up and the file closed.\<close>

definition release_lock :: "nat \<Rightarrow> sock_path \<Rightarrow> sock_path" where
  "release_lock i s = s\<lparr>lpHolder := (lpHolder s)(i := None)\<rparr>"

definition lock_open :: "nat \<Rightarrow> bool \<Rightarrow> sock_path \<Rightarrow> sock_path" where
  "lock_open p ok s =
    (if \<not> ok then at_phase s p (Ended (Some LockOpen))
     else (case lpLock s of
         Some i \<Rightarrow> at_phase s p (LockOpened i)
       | None \<Rightarrow> at_phase (s\<lparr>lpLock := Some (lpFresh s), lpText := (lpText s)(lpFresh s := ''''), lpFresh := Suc (lpFresh s)\<rparr>) p
           (LockOpened (lpFresh s))))"

definition lock_take :: "nat \<Rightarrow> nat \<Rightarrow> sock_path \<Rightarrow> sock_path" where
  "lock_take p i s =
    (if lpHolder s i \<noteq> None then at_phase s p (Ended (Some (LockBusy (lpName s))))
     else at_phase (s\<lparr>lpHolder := (lpHolder s)(i \<mapsto> p), lpText := (lpText s)(i := decimal p @ [char_of (10::nat)])\<rparr>) p (LockTaken i))"

definition stale_remove :: "nat \<Rightarrow> nat \<Rightarrow> bool \<Rightarrow> sock_path \<Rightarrow> sock_path" where
  "stale_remove p i ok s =
    (if \<not> ok then at_phase (release_lock i s) p (Ended (Some StaleKept))
     else at_phase (s\<lparr>lpSocket := None\<rparr>) p (StaleGone i))"

text \<open>\<open>net.Listen\<close> under the umask: binding fails if the path exists; the mode is \<open>0o777\<close> less \<open>0o177\<close>.\<close>

definition socket_bind :: "nat \<Rightarrow> nat \<Rightarrow> bool \<Rightarrow> sock_path \<Rightarrow> sock_path" where
  "socket_bind p i ok s =
    (if \<not> ok \<or> lpSocket s \<noteq> None then at_phase (release_lock i s) p (Ended (Some BindFailed))
     else at_phase (s\<lparr>lpSocket := Some \<lparr>sfOwner = p, sfMode = 0x1FF AND NOT 0x7F\<rparr>\<rparr>) p (SocketBound i))"

text \<open>
  \<open>os.Chmod\<close> on the path, which fails without one; closing a listener removes the file at its path,
  whichever listener that leads to by now.
\<close>

definition socket_chmod :: "nat \<Rightarrow> nat \<Rightarrow> bool \<Rightarrow> sock_path \<Rightarrow> sock_path" where
  "socket_chmod p i ok s = (case lpSocket s of
      Some f \<Rightarrow> (if ok then at_phase (s\<lparr>lpSocket := Some (f\<lparr>sfMode := 0x180\<rparr>)\<rparr>) p (Serving i)
        else at_phase (release_lock i (s\<lparr>lpSocket := None\<rparr>)) p (Ended (Some ChmodFailed)))
    | None \<Rightarrow> at_phase (release_lock i (s\<lparr>lpSocket := None\<rparr>)) p (Ended (Some ChmodFailed)))"

text \<open>
  The end of \<open>ListenAndServe\<close>: the listener is closed, and the deferred calls run last first, so the
  lock file is removed and then the lock released.
\<close>

definition listener_close :: "nat \<Rightarrow> nat \<Rightarrow> sock_path \<Rightarrow> sock_path" where
  "listener_close p i s = at_phase (s\<lparr>lpSocket := None\<rparr>) p (ListenerClosed i)"

definition lock_unlink :: "nat \<Rightarrow> nat \<Rightarrow> sock_path \<Rightarrow> sock_path" where
  "lock_unlink p i s = at_phase (s\<lparr>lpLock := None\<rparr>) p (LockUnlinked i)"

definition lock_done :: "nat \<Rightarrow> nat \<Rightarrow> sock_path \<Rightarrow> sock_path" where
  "lock_done p i s = at_phase (release_lock i s) p (Ended None)"

text \<open>
  One system call of daemon \<open>p\<close>. \<open>StartUp e\<close> is \<open>prepareSocketDir\<close> with its answer, \<open>Next ok\<close> the next
  call of \<open>listenSocket\<close>, \<open>Stop\<close> the next of the end, once the daemon serves, \<open>Killed\<close> the end of the
  process at any point: the kernel gives up its locks and nothing is removed.
\<close>

datatype sock_move = StartUp "sock_error option" | Next bool | Stop | Killed

fun lock_of :: "sock_phase \<Rightarrow> nat option" where
  "lock_of (LockTaken i) = Some i"
| "lock_of (StaleGone i) = Some i"
| "lock_of (SocketBound i) = Some i"
| "lock_of (Serving i) = Some i"
| "lock_of (ListenerClosed i) = Some i"
| "lock_of (LockUnlinked i) = Some i"
| "lock_of _ = None"

definition start_up :: "nat \<Rightarrow> sock_error option \<Rightarrow> sock_path \<Rightarrow> sock_path" where
  "start_up p e s = (case lpPhase s ! p of
      NotStarted \<Rightarrow> at_phase s p (if e = None then DirReady else Ended e)
    | Ended _ \<Rightarrow> at_phase s p (if e = None then DirReady else Ended e)
    | _ \<Rightarrow> s)"

definition next_call :: "nat \<Rightarrow> bool \<Rightarrow> sock_path \<Rightarrow> sock_path" where
  "next_call p ok s = (case lpPhase s ! p of
      DirReady \<Rightarrow> lock_open p ok s | LockOpened i \<Rightarrow> lock_take p i s | LockTaken i \<Rightarrow> stale_remove p i ok s
    | StaleGone i \<Rightarrow> socket_bind p i ok s | SocketBound i \<Rightarrow> socket_chmod p i ok s | _ \<Rightarrow> s)"

definition stop_call :: "nat \<Rightarrow> sock_path \<Rightarrow> sock_path" where
  "stop_call p s = (case lpPhase s ! p of
      Serving i \<Rightarrow> listener_close p i s | ListenerClosed i \<Rightarrow> lock_unlink p i s | LockUnlinked i \<Rightarrow> lock_done p i s | _ \<Rightarrow> s)"

definition killed :: "nat \<Rightarrow> sock_path \<Rightarrow> sock_path" where
  "killed p s = at_phase (case lock_of (lpPhase s ! p) of Some i \<Rightarrow> release_lock i s | None \<Rightarrow> s) p (Ended None)"

definition sock_step :: "sock_path \<Rightarrow> nat \<times> sock_move \<Rightarrow> sock_path" where
  "sock_step s = (\<lambda>(p, m). if p < length (lpPhase s) then
      (case m of StartUp e \<Rightarrow> start_up p e s | Next ok \<Rightarrow> next_call p ok s | Stop \<Rightarrow> stop_call p s | Killed \<Rightarrow> killed p s)
    else s)"

text \<open>A path with \<open>n\<close> daemons not yet started, and whatever an earlier one left behind.\<close>

definition new_sock_path :: "string \<Rightarrow> nat option \<Rightarrow> sock_file option \<Rightarrow> nat \<Rightarrow> sock_path" where
  "new_sock_path name l f n = \<lparr>lpName = name, lpLock = l, lpHolder = (\<lambda>_. None), lpText = (\<lambda>_. ''''),
     lpFresh = (case l of None \<Rightarrow> 0 | Some i \<Rightarrow> Suc i), lpSocket = f, lpPhase = replicate n NotStarted\<rparr>"


section \<open>Daemons exclude each other\<close>

text \<open>The inode a daemon relies on being the one at the path, and whether it has the path's socket bound.\<close>

fun lock_named :: "sock_phase \<Rightarrow> nat option" where
  "lock_named (LockOpened i) = Some i"
| "lock_named (LockTaken i) = Some i"
| "lock_named (StaleGone i) = Some i"
| "lock_named (SocketBound i) = Some i"
| "lock_named (Serving i) = Some i"
| "lock_named (ListenerClosed i) = Some i"
| "lock_named _ = None"

fun has_bound :: "sock_phase \<Rightarrow> bool" where
  "has_bound (SocketBound _) = True" | "has_bound (Serving _) = True" | "has_bound _ = False"

fun serving_phase :: "sock_phase \<Rightarrow> bool" where
  "serving_phase (Serving _) = True" | "serving_phase _ = False"

fun lock_pending :: "sock_phase \<Rightarrow> bool" where
  "lock_pending (LockOpened _) = True" | "lock_pending _ = False"

fun at_rest :: "sock_phase \<Rightarrow> bool" where
  "at_rest NotStarted = True" | "at_rest (Ended _) = True" | "at_rest _ = False"

definition in_charge :: "sock_phase \<Rightarrow> bool" where
  "in_charge ph \<longleftrightarrow> lock_of ph \<noteq> None \<and> lock_named ph \<noteq> None"

text \<open>A run is calm if no lock file is removed while another daemon has opened it and not yet locked it.\<close>

definition calm_at :: "sock_path \<Rightarrow> nat \<times> sock_move \<Rightarrow> bool" where
  "calm_at s e \<longleftrightarrow> (case e of (p, Stop) \<Rightarrow>
      (case lpPhase s ! p of ListenerClosed _ \<Rightarrow> \<not> list_ex lock_pending (lpPhase s) | _ \<Rightarrow> True) | _ \<Rightarrow> True)"

fun calm :: "sock_path \<Rightarrow> (nat \<times> sock_move) list \<Rightarrow> bool" where
  "calm s [] = True"
| "calm s (e # es) = (calm_at s e \<and> calm (sock_step s e) es)"

definition locks_held :: "sock_path \<Rightarrow> bool" where
  "locks_held s \<longleftrightarrow>
    (\<forall>i p. lpHolder s i = Some p \<longleftrightarrow> p < length (lpPhase s) \<and> lock_of (lpPhase s ! p) = Some i)"

definition path_owned :: "sock_path \<Rightarrow> bool" where
  "path_owned s \<longleftrightarrow> (\<forall>p < length (lpPhase s).
    (\<forall>i. lock_named (lpPhase s ! p) = Some i \<longrightarrow> lpLock s = Some i) \<and>
    (has_bound (lpPhase s ! p) \<longrightarrow> (\<exists>f. lpSocket s = Some f \<and> sfOwner f = p
       \<and> (serving_phase (lpPhase s ! p) \<longrightarrow> sfMode f = 0x180))))"

lemmas call_defs = start_up_def next_call_def stop_call_def killed_def lock_open_def lock_take_def stale_remove_def
  socket_bind_def socket_chmod_def listener_close_def lock_unlink_def lock_done_def

lemma at_phase_fields [simp]:
  "lpLock (at_phase s p ph) = lpLock s" "lpHolder (at_phase s p ph) = lpHolder s" "lpSocket (at_phase s p ph) = lpSocket s"
  "lpPhase (at_phase s p ph) = (lpPhase s)[p := ph]" "lpName (at_phase s p ph) = lpName s" "lpFresh (at_phase s p ph) = lpFresh s"
  by (simp_all add: at_phase_def)

lemma release_fields [simp]:
  "lpLock (release_lock i s) = lpLock s" "lpHolder (release_lock i s) = (lpHolder s)(i := None)"
  "lpSocket (release_lock i s) = lpSocket s" "lpPhase (release_lock i s) = lpPhase s" "lpName (release_lock i s) = lpName s"
  "lpFresh (release_lock i s) = lpFresh s"
  by (simp_all add: release_lock_def)

lemma length_step [simp]: "length (lpPhase (sock_step s e)) = length (lpPhase s)"
  by (auto simp: sock_step_def call_defs split: prod.splits sock_move.splits sock_phase.splits option.splits)

lemma length_run [simp]: "length (lpPhase (foldl sock_step s es)) = length (lpPhase s)"
  by (induction es arbitrary: s) simp_all

lemma name_step [simp]: "lpName (sock_step s e) = lpName s"
  by (auto simp: sock_step_def call_defs split: prod.splits sock_move.splits sock_phase.splits option.splits)

lemma name_run [simp]: "lpName (foldl sock_step s es) = lpName s"
  by (induction es arbitrary: s) simp_all

text \<open>A daemon that gets, keeps or gives up a lock.\<close>

lemma heldD: "locks_held s \<Longrightarrow> lpHolder s i = Some p \<longleftrightarrow> p < length (lpPhase s) \<and> lock_of (lpPhase s ! p) = Some i"
  by (simp add: locks_held_def)

lemma held_keep:
  assumes "locks_held s" "p < length (lpPhase s)" "lock_of ph = lock_of (lpPhase s ! p)" "lpHolder t = lpHolder s"
    "lpPhase t = lpPhase s"
  shows "locks_held (at_phase t p ph)"
  unfolding locks_held_def by (auto simp: heldD [OF assms(1)] assms(2-) nth_list_update)

lemma held_release:
  assumes h: "locks_held s" and p: "p < length (lpPhase s)" "lock_of (lpPhase s ! p) = Some i" and n: "lock_of ph = None"
    and t: "lpHolder t = lpHolder s" "lpPhase t = lpPhase s"
  shows "locks_held (at_phase (release_lock i t) p ph)"
proof -
  have "lpHolder s i = Some p" using h p by (simp add: heldD)
  hence "q = p" if "q < length (lpPhase s)" "lock_of (lpPhase s ! q) = Some i" for q
    using h that heldD [of s i q] by simp
  thus ?thesis unfolding locks_held_def by (auto simp: heldD [OF h] p n t nth_list_update)
qed

lemma held_take:
  assumes h: "locks_held s" and p: "p < length (lpPhase s)" "lock_of (lpPhase s ! p) = None" "lpHolder s i = None"
    and n: "lock_of ph = Some i"
  shows "locks_held (at_phase (s\<lparr>lpHolder := (lpHolder s)(i \<mapsto> p), lpText := x\<rparr>) p ph)"
proof -
  have "lock_of (lpPhase s ! q) \<noteq> Some i" if "q < length (lpPhase s)" for q
    using h that p(3) heldD [of s i q] by auto
  thus ?thesis unfolding locks_held_def using p by (auto simp: heldD [OF h] n nth_list_update)
qed

lemma held_step: "locks_held s \<Longrightarrow> locks_held (sock_step s e)"
proof (cases e)
  case (Pair p m)
  assume h: "locks_held s"
  show ?thesis
  proof (cases "p < length (lpPhase s)")
    case True
    note keep = held_keep [OF h True] and release = held_release [OF h True] and take = held_take [OF h True]
    show ?thesis
      using True h
      by (cases m; cases "lpPhase s ! p")
        (auto simp: Pair sock_step_def call_defs keep release take split: option.splits)
  qed (use h in \<open>simp add: Pair sock_step_def\<close>)
qed

interpretation locks: stepper sock_step locks_held
  by unfold_locales (rule held_step)


lemma charge_lock: "in_charge ph \<Longrightarrow> lock_named ph = Some i \<Longrightarrow> lock_of ph = Some i"
  by (cases ph) (simp_all add: in_charge_def)

lemma named_cases: "lock_named ph \<noteq> None \<Longrightarrow> lock_pending ph \<or> in_charge ph"
  by (cases ph) (simp_all add: in_charge_def)

lemma bound_charge: "has_bound ph \<Longrightarrow> in_charge ph"
  by (cases ph) (simp_all add: in_charge_def)

lemma one_in_charge:
  assumes h: "locks_held s" and o: "path_owned s"
    and p: "p < length (lpPhase s)" "in_charge (lpPhase s ! p)" and q: "q < length (lpPhase s)" "in_charge (lpPhase s ! q)"
  shows "p = q"
proof -
  have holder: "lpLock s = Some i \<Longrightarrow> lpHolder s i = Some r"
    if "r < length (lpPhase s)" "in_charge (lpPhase s ! r)" for r i
    using that o h charge_lock [OF that(2)] unfolding path_owned_def in_charge_def by (auto simp: heldD)
  obtain i where "lpLock s = Some i" using p o unfolding path_owned_def in_charge_def by auto
  thus ?thesis using holder [OF p] holder [OF q] by simp
qed

lemma owned_phase:
  assumes h: "locks_held s" and o: "path_owned s" and p: "p < length (lpPhase s)"
    and t: "lpPhase t = lpPhase s" "lpLock t = lpLock s \<or> (\<forall>q < length (lpPhase s). q \<noteq> p \<longrightarrow> lock_named (lpPhase s ! q) = None)"
      "lpSocket t = lpSocket s \<or> in_charge (lpPhase s ! p)"
    and n: "\<forall>i. lock_named ph = Some i \<longrightarrow> lpLock t = Some i"
      "has_bound ph \<longrightarrow> (\<exists>f. lpSocket t = Some f \<and> sfOwner f = p \<and> (serving_phase ph \<longrightarrow> sfMode f = 0x180))"
  shows "path_owned (at_phase t p ph)"
proof -
  have other: "(\<forall>i. lock_named (lpPhase s ! q) = Some i \<longrightarrow> lpLock t = Some i) \<and>
      (has_bound (lpPhase s ! q) \<longrightarrow> (\<exists>f. lpSocket t = Some f \<and> sfOwner f = q \<and> (serving_phase (lpPhase s ! q) \<longrightarrow> sfMode f = 0x180)))"
    if q: "q < length (lpPhase s)" "q \<noteq> p" for q
  proof (intro conjI allI impI)
    show "lpLock t = Some i" if "lock_named (lpPhase s ! q) = Some i" for i
      using that q o t(2) unfolding path_owned_def by auto
    assume b: "has_bound (lpPhase s ! q)"
    have "\<not> in_charge (lpPhase s ! p)" using one_in_charge [OF h o p _ q(1) bound_charge [OF b]] q(2) by auto
    thus "\<exists>f. lpSocket t = Some f \<and> sfOwner f = q \<and> (serving_phase (lpPhase s ! q) \<longrightarrow> sfMode f = 0x180)"
      using b q o t(3) unfolding path_owned_def by auto
  qed
  show ?thesis unfolding path_owned_def using p n other by (simp add: t(1) nth_list_update)
qed

lemma owned_step:
  assumes h: "locks_held s" and o: "path_owned s" and c: "calm_at s e"
  shows "path_owned (sock_step s e)"
proof (cases e)
  case (Pair p m)
  show ?thesis
  proof (cases "p < length (lpPhase s)")
    case True
    note own = owned_phase [OF h o True]
    have self: "lock_named (lpPhase s ! p) = Some i \<Longrightarrow> lpLock s = Some i"
      "has_bound (lpPhase s ! p) \<Longrightarrow> \<exists>md. lpSocket s = Some \<lparr>sfOwner = p, sfMode = md\<rparr>" for i
      using o True unfolding path_owned_def by (blast, metis sock_file.cases sock_file.select_convs(1))
    have none: "lpLock s = None \<Longrightarrow> q < length (lpPhase s) \<Longrightarrow> lock_named (lpPhase s ! q) = None" for q
      using o unfolding path_owned_def by fastforce
    have alone: "q < length (lpPhase s) \<Longrightarrow> q \<noteq> p \<Longrightarrow> lock_named (lpPhase s ! q) = None"
      if "m = Stop" "lpPhase s ! p = ListenerClosed i" for q i
      using c that Pair one_in_charge [OF h o True, of q] named_cases [of "lpPhase s ! q"]
      by (cases "lock_named (lpPhase s ! q)") (auto simp: calm_at_def in_charge_def list_ex_iff dest: nth_mem)
    show ?thesis
      using True o self none alone
      by (cases m; cases "lpPhase s ! p")
        (auto simp: Pair sock_step_def call_defs own in_charge_def split: option.splits)
  qed (use o in \<open>simp add: Pair sock_step_def\<close>)
qed

lemma calm_run:
  "locks_held s \<Longrightarrow> path_owned s \<Longrightarrow> calm s es \<Longrightarrow> path_owned (foldl sock_step s es)"
  by (induction es arbitrary: s) (simp_all add: owned_step held_step)

lemma new_path_ok: "locks_held (new_sock_path name l f n)" "path_owned (new_sock_path name l f n)"
  by (auto simp: new_sock_path_def locks_held_def path_owned_def)


section \<open>Properties\<close>

text \<open>
  C25: in a run of any daemons on one path in which no lock file is removed while another daemon has it
  open and not yet locked, at most one daemon at a time is between taking the lock and closing its
  listener; the socket file of one that serves leads to it and is for its owner only; and another that
  gets as far as the lock meanwhile is told the path is served, and changes nothing but itself.
\<close>

theorem daemons_exclude_each_other:
  assumes "calm (new_sock_path name l f n) es" and "s = foldl sock_step (new_sock_path name l f n) es"
    and "p < n" and "in_charge (lpPhase s ! p)" and "q < n" and "q \<noteq> p"
  shows "\<not> in_charge (lpPhase s ! q)
    \<and> (serving_phase (lpPhase s ! p) \<longrightarrow> lpSocket s = Some \<lparr>sfOwner = p, sfMode = 0x180\<rparr>)
    \<and> (lock_pending (lpPhase s ! q) \<longrightarrow> sock_step s (q, Next ok) = at_phase s q (Ended (Some (LockBusy name))))"
proof -
  let ?s = "new_sock_path name l f n"
  have len: "length (lpPhase s) = n" and name: "lpName s = name" by (simp_all add: assms(2)) (simp_all add: new_sock_path_def)
  have h: "locks_held s" unfolding assms(2) by (rule locks.inv_run, rule new_path_ok)
  have o: "path_owned s" unfolding assms(2) by (rule calm_run [OF new_path_ok assms(1)])
  note mine = assms(3) [folded len] and theirs = assms(5) [folded len]
  have "\<not> in_charge (lpPhase s ! q)" using one_in_charge [OF h o mine assms(4) theirs] assms(6) by auto
  moreover have "lpSocket s = Some \<lparr>sfOwner = p, sfMode = 0x180\<rparr>" if "serving_phase (lpPhase s ! p)"
    using that o mine unfolding path_owned_def by (cases "lpPhase s ! p") fastforce+
  moreover obtain i where i: "lock_of (lpPhase s ! p) = Some i" "lpLock s = Some i" "lpHolder s i = Some p"
    using assms(4) mine o h charge_lock [OF assms(4)] unfolding in_charge_def path_owned_def by (auto simp: heldD)
  moreover have "sock_step s (q, Next ok) = at_phase s q (Ended (Some (LockBusy name)))" if "lock_pending (lpPhase s ! q)"
    using that o theirs i name unfolding path_owned_def
    by (cases "lpPhase s ! q") (fastforce simp: sock_step_def next_call_def lock_take_def)+
  ultimately show ?thesis by blast
qed

definition start_calls :: "nat \<Rightarrow> (nat \<times> sock_move) list" where
  "start_calls p = (p, StartUp None) # replicate 5 (p, Next True)"

definition stop_calls :: "nat \<Rightarrow> (nat \<times> sock_move) list" where
  "stop_calls p = replicate 3 (p, Stop)"

text \<open>A run in which the first daemon is killed, the second serves and a third has opened the lock file.\<close>

definition killed_run :: "(nat \<times> sock_move) list" where
  "killed_run = start_calls 0 @ [(0, Killed)] @ start_calls 1 @ [(2, StartUp None), (2, Next True)]"

definition after_kill :: sock_path where
  "after_kill = foldl sock_step (new_sock_path ''s'' (Some 4) None 3) killed_run"

lemma after_kill: "lpPhase after_kill = [Ended None, Serving 4, LockOpened 4]" "calm (new_sock_path ''s'' (Some 4) None 3) killed_run"
  by (simp_all add: after_kill_def killed_run_def start_calls_def eval_nat_numeral sock_step_def call_defs calm_at_def at_phase_def
      release_lock_def new_sock_path_def)

theorem daemons_exclude_each_other_witness:
  "lpSocket after_kill = Some \<lparr>sfOwner = 1, sfMode = 0x180\<rparr>
    \<and> sock_step after_kill (2, Next True) = at_phase after_kill 2 (Ended (Some (LockBusy ''s'')))"
  using daemons_exclude_each_other [OF after_kill(2) after_kill_def, of 1 2 True]
  by (simp add: after_kill(1) in_charge_def eval_nat_numeral)

text \<open>
  Whatever runs came before, once every daemon on the path has ended or was killed a new one starts
  and serves: neither the lock file nor the socket file that others left keeps it out.
\<close>

theorem daemon_starts_after_all:
  assumes "s = foldl sock_step (new_sock_path name l f n) es" and "list_all at_rest (lpPhase s)" and "p < n"
  shows "\<exists>i. lpPhase (foldl sock_step s (start_calls p)) = (lpPhase s)[p := Serving i]
    \<and> lpSocket (foldl sock_step s (start_calls p)) = Some \<lparr>sfOwner = p, sfMode = 0x180\<rparr>
    \<and> lpHolder (foldl sock_step s (start_calls p)) i = Some p \<and> lpLock (foldl sock_step s (start_calls p)) = Some i"
proof -
  have len: "p < length (lpPhase s)" using assms(3) by (simp add: assms(1)) (simp add: new_sock_path_def)
  have h: "locks_held s" unfolding assms(1) by (rule locks.inv_run, rule new_path_ok)
  have rest: "at_rest (lpPhase s ! q)" if "q < length (lpPhase s)" for q
    using that assms(2) by (simp add: list_all_length)
  have free: "lpHolder s i = None" for i
  proof (cases "lpHolder s i")
    case (Some q)
    hence "q < length (lpPhase s)" "lock_of (lpPhase s ! q) = Some i" using h by (simp_all add: heldD)
    thus ?thesis using rest [of q] by (cases "lpPhase s ! q") simp_all
  qed
  have "sock_step s (p, StartUp None) = at_phase s p DirReady"
    using rest [OF len] len by (cases "lpPhase s ! p") (simp_all add: sock_step_def start_up_def)
  thus ?thesis
    by (cases "lpLock s")
      (simp_all add: start_calls_def eval_nat_numeral sock_step_def len free next_call_def lock_open_def lock_take_def
        stale_remove_def socket_bind_def socket_chmod_def at_phase_def)
qed

theorem daemon_starts_after_all_witness:
  "\<exists>i. lpHolder (foldl sock_step (foldl sock_step (new_sock_path ''s'' None None 2)
     (start_calls 0 @ [(0, Killed)])) (start_calls 1)) i = Some 1"
  using daemon_starts_after_all [OF refl, of "''s''" None None 2 "start_calls 0 @ [(0, Killed)]" 1]
  by (auto simp: start_calls_def eval_nat_numeral sock_step_def call_defs at_phase_def release_lock_def new_sock_path_def)

text \<open>
  The order of the two deferred calls of \<open>ListenAndServe\<close>: the lock file goes before the lock does. A
  daemon that opened the file before and locks it after holds the lock of a file that is no longer at
  the path, a third one makes a new file, removes the socket of the second, and both serve.
\<close>

definition lock_race :: "(nat \<times> sock_move) list" where
  "lock_race = start_calls 0 @ [(1, StartUp None), (1, Next True)] @ stop_calls 0 @ replicate 4 (1, Next True) @ start_calls 2"

lemma two_daemons_serve:
  "lpPhase (foldl sock_step (new_sock_path name None None 3) lock_race) = [Ended None, Serving 0, Serving 1]"
  "lpSocket (foldl sock_step (new_sock_path name None None 3) lock_race) = Some \<lparr>sfOwner = 2, sfMode = 0x180\<rparr>"
  by (simp_all add: lock_race_def start_calls_def stop_calls_def eval_nat_numeral sock_step_def call_defs at_phase_def
      release_lock_def new_sock_path_def)

end
