(* ===== verification/Startup.thy ===== *)
theory Startup
  imports SockLock Numbers Rpc Handle
begin

text \<open>
  How the programs start and stop: the directories and the socket of \<open>chat/paths.go\<close> and
  \<open>chat/transfer.go\<close>, the choices of the four mains, \<open>Open\<close>, the listener and the end of
  \<open>Run\<close> of \<open>chatserver\<close>, and the accept loop of the client daemon's socket. Environment, home directory,
  temporary directory and uid are a record, and what a listener or a connection answers is an input.
  The lemmas show what the lookups prefer, that the writer of a connection writes what was queued in order,
  and what the server's end leaves open.
\<close>

section \<open>Directories and the socket\<close>

record host_env =
  heVar :: "string \<Rightarrow> string"
  heHome :: "string option"
  heTemp :: string
  heUid :: int
  heIsDir :: "string \<Rightarrow> bool"

text \<open>\<open>filepath.Join\<close> of several elements.\<close>

definition is_empty_name :: "string \<Rightarrow> bool" where
  "is_empty_name x \<longleftrightarrow> x = ''''"

definition path_join_all :: "string list \<Rightarrow> string" where
  "path_join_all xs = (case dropWhile is_empty_name xs of [] \<Rightarrow> '''' | y # ys \<Rightarrow> path_clean (join_with ''/'' (y # ys)))"

text \<open>A home directory that is known and not empty.\<close>

definition home_of :: "host_env \<Rightarrow> string option" where
  "home_of h = (case heHome h of None \<Rightarrow> None | Some d \<Rightarrow> (if d = '''' then None else Some d))"

definition data_dir :: "host_env \<Rightarrow> string" where
  "data_dir h =
    (if trim_space (heVar h ''UITK_CHAT_HOME'') \<noteq> '''' then trim_space (heVar h ''UITK_CHAT_HOME'')
     else if trim_space (heVar h ''XDG_DATA_HOME'') \<noteq> '''' then path_join_all [trim_space (heVar h ''XDG_DATA_HOME''), ''comms-chat-lan'']
     else (case home_of h of
         None \<Rightarrow> path_join_all [heTemp h, ''comms-chat-lan-'' @ decimal_int (heUid h)]
       | Some d \<Rightarrow> path_join_all [d, ''.local'', ''share'', ''comms-chat-lan'']))"

definition default_socket :: "host_env \<Rightarrow> string" where
  "default_socket h =
    (if trim_space (heVar h ''UITK_CHAT_SOCK'') \<noteq> '''' then trim_space (heVar h ''UITK_CHAT_SOCK'')
     else if trim_space (heVar h ''XDG_RUNTIME_DIR'') \<noteq> ''''
       then path_join_all [trim_space (heVar h ''XDG_RUNTIME_DIR''), ''comms-chat-lan-clientd.sock'']
     else path_join_all [heTemp h, ''comms-chat-lan-clientd-'' @ decimal_int (heUid h) @ ''.sock''])"

definition download_dir :: "host_env \<Rightarrow> string" where
  "download_dir h =
    (if trim_space (heVar h ''UITK_CHAT_DOWNLOADS'') \<noteq> '''' then trim_space (heVar h ''UITK_CHAT_DOWNLOADS'')
     else if trim_space (heVar h ''XDG_DOWNLOAD_DIR'') \<noteq> '''' \<and> heIsDir h (trim_space (heVar h ''XDG_DOWNLOAD_DIR''))
       then trim_space (heVar h ''XDG_DOWNLOAD_DIR'')
     else (case home_of h of
         None \<Rightarrow> path_join_all [data_dir h, ''files'']
       | Some d \<Rightarrow> (if heIsDir h (path_join_all [d, ''Downloads'']) then path_join_all [d, ''Downloads'']
           else path_join_all [data_dir h, ''files''])))"

text \<open>What the socket checks read of the same environment: \<open>XDG_RUNTIME_DIR\<close> as it is.\<close>

definition sock_env_of :: "host_env \<Rightarrow> 9 word \<Rightarrow> sock_env" where
  "sock_env_of h um = \<lparr>seUid = heUid h, seTemp = heTemp h, seRuntime = heVar h ''XDG_RUNTIME_DIR'', seUmask = um\<rparr>"

section \<open>The mains\<close>

definition server_default_dir :: "host_env \<Rightarrow> string" where
  "server_default_dir h =
    (if heVar h ''UITK_CHAT_HOME'' \<noteq> '''' then heVar h ''UITK_CHAT_HOME''
     else if heVar h ''XDG_DATA_HOME'' \<noteq> '''' then heVar h ''XDG_DATA_HOME'' @ ''/comms-chat-lan-server''
     else (case home_of h of None \<Rightarrow> heTemp h @ ''/comms-chat-lan-server''
       | Some d \<Rightarrow> d @ ''/.local/share/comms-chat-lan-server''))"

definition main_data :: "string \<Rightarrow> bool \<Rightarrow> string" where
  "main_data dir mem = (if mem then '''' else dir)"

definition storage_label :: "string \<Rightarrow> string" where
  "storage_label dir = (if dir = '''' then ''memory (nothing is written to disk)'' else dir)"

definition server_name :: "string \<Rightarrow> string" where
  "server_name addr = (if addr = '''' then ''whichever one announces itself on the LAN'' else addr)"

text \<open>What the flags set in the environment before anything is opened: \<open>-no-discovery\<close> and \<open>-nick\<close>.\<close>

definition set_var :: "string \<Rightarrow> string \<Rightarrow> host_env \<Rightarrow> host_env" where
  "set_var k v h = h\<lparr>heVar := (heVar h)(k := v)\<rparr>"

definition flag_env :: "string \<Rightarrow> bool \<Rightarrow> host_env \<Rightarrow> host_env" where
  "flag_env nick no_disc h =
    (let h1 = (if nick \<noteq> '''' then set_var ''UITK_CHAT_NICK'' nick h else h)
     in if no_disc then set_var ''UITK_CHAT_NO_DISCOVERY'' ''1'' h1 else h1)"

section \<open>The server's start\<close>

definition server_port :: "int \<Rightarrow> string \<Rightarrow> int" where
  "server_port port var =
    (if port < 0 then 0
     else if port = 0 then (case parse_int64 (trim_space var) of Some p \<Rightarrow> (if 0 < p then p else default_server_port) | None \<Rightarrow> default_server_port)
     else port)"

text \<open>What dialling the test network answers: an error, an address that is not UDP's, or one.\<close>

definition local_address :: "string option option \<Rightarrow> string" where
  "local_address a = (case a of Some (Some ip) \<Rightarrow> ip | _ \<Rightarrow> ''0.0.0.0'')"

definition loopback :: "string \<Rightarrow> string" where
  "loopback listen = (case last_index listen (CHR '':'') of
      None \<Rightarrow> listen | Some i \<Rightarrow> (if 0 < i then ''127.0.0.1'' @ drop i listen else listen))"

definition open_server :: "env \<Rightarrow> peer_id \<Rightarrow> string \<Rightarrow> disk \<Rightarrow> string \<Rightarrow> string \<Rightarrow> (server \<times> string) option \<times> store_error option" where
  "open_server e fresh dir dk off host = (case new_store e fresh dir dk of
      (None, err) \<Rightarrow> (None, err)
    | (Some st, err) \<Rightarrow> (Some (new_server st host, if discovery_off off '''' then ''off'' else ''beacon''), err))"

text \<open>
  The beginning of \<open>Run\<close>, with what \<open>net.Listen\<close> answers for the port: the error, or the port it listens
  on, the address it stores and what it announces.
\<close>

definition server_starts :: "server \<Rightarrow> int \<Rightarrow> string \<Rightarrow> (int \<Rightarrow> string + int) \<Rightarrow> string option option \<Rightarrow> string + string \<times> announcement" where
  "server_starts s port var listens dialled = (case listens (server_port port var) of
      Inl e \<Rightarrow> Inl (''chat: server listener: '' @ e)
    | Inr actual \<Rightarrow> Inr (join_host_port (local_address dialled) actual,
        zero_announcement\<lparr>aVersion := protocol_version, aID := server_ident s, aName := server_display_name s,
          aHost := svHost s, aPort := actual\<rparr>))"

section \<open>The server's end\<close>

definition bye_close :: "server \<Rightarrow> client_conn \<Rightarrow> server" where
  "bye_close s c = close_conn
    (if ccId c \<in> set (svClosed s) \<or> ccId c \<in> set (svStuck s) then s
     else s\<lparr>svOut := svOut s @ [(ccId c, (frame_of frame_bye)\<lparr>fReason := ''the server is stopping''\<rparr>)]\<rparr>) c"

definition close_all :: "server \<Rightarrow> server" where
  "close_all s = foldl bye_close s (every_conn s)"

text \<open>\<open>writeLoop\<close> over what it selects: the connection was closed, or a frame and whether it could be written.\<close>

datatype out_event = ConnClosed | Queued frame bool

fun write_loop :: "out_event list \<Rightarrow> frame list" where
  "write_loop [] = []"
| "write_loop (ConnClosed # es) = []"
| "write_loop (Queued f ok # es) = (if ok then f # write_loop es else [])"

section \<open>The client daemon's accept loop\<close>

text \<open>What \<open>Accept\<close> answers: a connection, or an error, which may be \<open>net.ErrClosed\<close> itself.\<close>

datatype accepted = NewConn nat | AcceptError bool string

definition closed_text :: string where
  "closed_text = ''use of closed network connection''"

fun contains_text :: "string \<Rightarrow> string \<Rightarrow> bool" where
  "contains_text [] p = (p = [])"
| "contains_text (c # cs) p = (has_prefix (c # cs) p \<or> contains_text cs p)"

definition is_closed_error :: "bool \<Rightarrow> string \<Rightarrow> bool" where
  "is_closed_error same msg \<longleftrightarrow> same \<or> contains_text msg closed_text"

text \<open>\<open>Serve\<close>: the connections handed to \<open>handleConn\<close>, and how it returned once it did.\<close>

fun serve_loop :: "bool \<Rightarrow> accepted list \<Rightarrow> nat list \<times> string option option" where
  "serve_loop serving [] = ([], None)"
| "serve_loop serving (NewConn c # xs) = (case serve_loop serving xs of (cs, r) \<Rightarrow> (c # cs, r))"
| "serve_loop serving (AcceptError same msg # xs) =
     ([], Some (if is_closed_error same msg \<or> \<not> serving then None else Some msg))"

text \<open>The beginning of \<open>handleConn\<close>: who the peer is decides whether it is let in.\<close>

definition front_end_connects :: "sock_env \<Rightarrow> peer_cred \<Rightarrow> rpc \<Rightarrow> nat \<Rightarrow> rpc" where
  "front_end_connects e p r c = accept_front_end (admits (peer_allowed e p)) r c"


section \<open>The port and the address\<close>

text \<open>A port the server is told in its environment, with any space around it, is the port it listens on.\<close>

lemma server_port_given:
  "0 < p \<Longrightarrow> p < 2 ^ 63 \<Longrightarrow> trim_space var = decimal_int p \<Longrightarrow> server_port 0 var = p"
  by (simp add: server_port_def parse_int64_decimal)

lemma server_port_default: "parse_int64 (trim_space var) = None \<Longrightarrow> server_port 0 var = default_server_port"
  by (simp add: server_port_def)

lemma last_index_none: "c \<notin> set xs \<Longrightarrow> last_index xs c = None"
  by (induction xs) auto

lemma last_index_append: "c \<notin> set ys \<Longrightarrow> last_index (xs @ c # ys) c = Some (length xs)"
  by (induction xs) (simp_all add: last_index_none)

lemma decimal_int_colon: "CHR '':'' \<notin> set (decimal_int i)"
proof -
  have "CHR '':'' \<notin> set (decimal n)" for n
    using decimal_digits [of n] by (auto simp: list_all_iff is_digit_def)
  thus ?thesis by (simp add: decimal_int_def)
qed

text \<open>Whatever address the server stores, the tests dial the same port on the loopback address.\<close>

lemma loopback_listen: "host \<noteq> '''' \<Longrightarrow> loopback (join_host_port host port) = ''127.0.0.1:'' @ decimal_int port"
  using last_index_append [OF decimal_int_colon, of "''['' @ host @ '']''" port]
    last_index_append [OF decimal_int_colon, of host port]
  by (simp add: loopback_def join_host_port_def)

section \<open>The server's end\<close>

lemma bye_close_fields [simp]:
  "svStore (bye_close s c) = svStore s" "svConns (bye_close s c) = svConns s" "svStuck (bye_close s c) = svStuck s"
  "svClosed (bye_close s c) = (if ccId c \<in> set (svClosed s) then svClosed s else ccId c # svClosed s)"
  "svXfers (bye_close s c) = svXfers s"
  by (simp_all add: bye_close_def close_conn_def)

lemma bye_run [simp]:
  "svStore (foldl bye_close s cs) = svStore s" "svConns (foldl bye_close s cs) = svConns s"
  "set (svClosed (foldl bye_close s cs)) = set (svClosed s) \<union> ccId ` set cs"
  "svStuck (foldl bye_close s cs) = svStuck s"
  by (induction cs arbitrary: s) auto

definition told_bye :: "server \<Rightarrow> client_conn \<Rightarrow> bool" where
  "told_bye s c \<longleftrightarrow> ccId c \<notin> set (svClosed s) \<and> ccId c \<notin> set (svStuck s)"

definition bye_to :: "client_conn \<Rightarrow> nat \<times> frame" where
  "bye_to c = (ccId c, (frame_of frame_bye)\<lparr>fReason := ''the server is stopping''\<rparr>)"

lemma bye_close_out: "svOut (bye_close s c) = svOut s @ (if told_bye s c then [bye_to c] else [])"
  by (simp add: bye_close_def close_conn_def told_bye_def bye_to_def)

lemma bye_run_out:
  "distinct (map ccId cs) \<Longrightarrow> svOut (foldl bye_close s cs) = svOut s @ map bye_to (filter (told_bye s) cs)"
proof (induction cs arbitrary: s)
  case (Cons c cs)
  have "filter (told_bye (bye_close s c)) cs = filter (told_bye s) cs"
  proof (rule filter_cong [OF refl])
    fix x assume "x \<in> set cs"
    hence "ccId x \<in> set (map ccId cs)" by simp
    hence "ccId x \<noteq> ccId c" using Cons.prems by (metis distinct.simps(2) list.simps(9))
    thus "told_bye (bye_close s c) x = told_bye s x" by (simp add: told_bye_def)
  qed
  thus ?case using Cons by (simp add: bye_close_out)
qed simp

text \<open>
  At the server's end everybody connected is told so once and closed, and the history is as it was.
\<close>

theorem server_ends:
  assumes "distinct (map ccId (every_conn s))"
  shows "svStore (close_all s) = svStore s \<and> every_conn (close_all s) = every_conn s
    \<and> (\<forall>c \<in> set (every_conn s). ccId c \<in> set (svClosed (close_all s)))
    \<and> svOut (close_all s) = svOut s @ map bye_to (filter (told_bye s) (every_conn s))"
  using bye_run_out [OF assms, of s] by (simp add: close_all_def every_conn_def)

text \<open>
  A connection that was still enrolling when the server closed them all registers after, and is not closed:
  \<open>Run\<close> then waits for its reader, which waits for a frame or the idle timeout.
\<close>

lemma late_conn_stays_open:
  assumes "k \<notin> set (svClosed s)" "c = \<lparr>ccPeer = i, ccId = k\<rparr>" "\<forall>d \<in> set (every_conn s). ccId d \<noteq> k"
  shows "ccId c \<notin> set (svClosed (close_all s))"
  using assms by (auto simp: close_all_def)

section \<open>What is written to a connection\<close>

definition out_frames :: "out_event list \<Rightarrow> frame list" where
  "out_frames es = concat (map (\<lambda>e. case e of Queued f _ \<Rightarrow> [f] | ConnClosed \<Rightarrow> []) es)"

lemma write_loop_prefix: "\<exists>rest. out_frames es = write_loop es @ rest"
  by (induction es rule: write_loop.induct) (auto simp: out_frames_def)

lemma write_loop_all: "list_all (\<lambda>e. case e of Queued _ ok \<Rightarrow> ok | ConnClosed \<Rightarrow> False) es \<Longrightarrow> write_loop es = out_frames es"
  by (induction es rule: write_loop.induct) (auto simp: out_frames_def)

section \<open>The accept loop\<close>

lemma contains_prefix: "has_prefix s p \<Longrightarrow> contains_text s p"
  by (cases s) (auto simp: has_prefix_def)

lemma contains_text_append: "contains_text (xs @ p @ ys) p"
  by (induction xs) (simp_all add: contains_prefix)

text \<open>The listener being closed ends the loop without an error, after every connection accepted before.\<close>

lemma serve_closed:
  "serve_loop serving (map NewConn cs @ AcceptError same (m1 @ closed_text @ m2) # xs) = (cs, Some None)"
  by (induction cs) (simp_all add: is_closed_error_def contains_text_append)

lemma stranger_not_served:
  "u \<noteq> seUid e \<Longrightarrow> u \<noteq> 0 \<Longrightarrow> front_end_connects e (CredUid u) r c = r"
  by (simp add: front_end_connects_def admits_iff accept_front_end_def)

section \<open>The runtime directory with a space\<close>

text \<open>
  \<open>DefaultSocket\<close> trims the variable and \<open>isPrivateSocketDir\<close> does not, so the runtime directory may be
  taken for one that is private to the daemon.
\<close>

definition spaced_env :: host_env where
  "spaced_env = \<lparr>heVar = (\<lambda>k. if k = ''XDG_RUNTIME_DIR'' then ''/run/u '' else ''''), heHome = None, heTemp = ''/tmp'', heUid = 7,
     heIsDir = (\<lambda>_. False)\<rparr>"

lemma runtime_dir_untrimmed:
  "path_dir (default_socket spaced_env) = ''/run/u''"
  "is_private_socket_dir (sock_env_of spaced_env 0x12) (path_dir (default_socket spaced_env))"
  by code_simp+

end
