(* ===== verification/Transcript.thy ===== *)
theory Transcript
  imports Texts
begin

text \<open>
  The widget of \<open>chatui/transcript.go\<close>: how it lays out a conversation, what it paints, and what the keyboard, the
  mouse and a screen reader do to it. A coordinate is a \<open>float32\<close>, of which only the order is used here: the arithmetic,
  \<open>style.Dip\<close> and what the toolkit's fonts measure are a record of functions (\<open>metrics\<close>), so that nothing depends on
  how the sums are rounded. What the widget tells the window is a log. \<open>None\<close> is the panic of \<open>wrapText\<close>,
  which valid UTF-8 does not reach.
\<close>

section \<open>State\<close>

record 'f metrics =
  mtAdd :: "'f \<Rightarrow> 'f \<Rightarrow> 'f"
  mtSub :: "'f \<Rightarrow> 'f \<Rightarrow> 'f"
  mtTimes :: "'f \<Rightarrow> 'f \<Rightarrow> 'f"
  mtHalf :: "'f \<Rightarrow> 'f"
  mtNum :: "int \<Rightarrow> 'f"
  mtDip :: "nat \<Rightarrow> 'f"
  mtLineHeight :: 'f
  mtBoldHeight :: 'f
  mtAdvance :: "string \<Rightarrow> 'f"
  mtBold :: "string \<Rightarrow> 'f"
  mtFit :: "string \<Rightarrow> 'f \<Rightarrow> string"

record 'f trow =
  trMsg :: message
  trLines :: "string list"
  trTop :: 'f
  trHeight :: 'f

datatype 'f script_out = Activated message | ScrollTo 'f | RanAfterLayout | TookFocus

text \<open>
  \<open>scNames\<close>, \<open>scColors\<close> and \<open>scLookup\<close> are the functions the session supplies, \<open>scOpens\<close> whether it
  supplied what to do with an activated row, \<open>scScrolls\<close> whether the parent can scroll.
\<close>

record 'f script =
  scMsgs :: "message list"
  scNames :: "(peer_id \<Rightarrow> string) option"
  scColors :: "(peer_id \<Rightarrow> string) option"
  scLookup :: "(transfer_id \<Rightarrow> transfer option) option"
  scOpens :: bool
  scScrolls :: bool
  scAfter :: bool
  scSelected :: int
  scRows :: "'f trow list"
  scLaidFor :: 'f
  scTotal :: 'f
  scOut :: "'f script_out list"

definition new_script :: "'f metrics \<Rightarrow> bool \<Rightarrow> 'f script" where
  "new_script mt scrolls = \<lparr>scMsgs = [], scNames = None, scColors = None, scLookup = None, scOpens = False, scScrolls = scrolls,
     scAfter = False, scSelected = - 1, scRows = [], scLaidFor = mtNum mt 0, scTotal = mtNum mt 0, scOut = []\<rparr>"

definition tell :: "'f script \<Rightarrow> 'f script_out \<Rightarrow> 'f script" where
  "tell sc x = sc\<lparr>scOut := scOut sc @ [x]\<rparr>"

definition script_messages :: "'f metrics \<Rightarrow> 'f script \<Rightarrow> message list \<Rightarrow> 'f script" where
  "script_messages mt sc ms = sc\<lparr>scMsgs := ms, scSelected := after_messages (length ms) (scSelected sc), scLaidFor := mtNum mt 0\<rparr>"

section \<open>Layout\<close>

definition gutter :: nat where "gutter = 12"
definition avatar_size :: nat where "avatar_size = 28"
definition avatar_gap :: nat where "avatar_gap = 10"
definition header_line :: nat where "header_line = 18"
definition row_gap :: nat where "row_gap = 8"

definition text_width :: "('f::linorder) metrics \<Rightarrow> 'f \<Rightarrow> 'f" where
  "text_width mt w =
    (let tw = mtSub mt (mtSub mt w (mtTimes mt (mtDip mt gutter) (mtNum mt 2))) (mtDip mt (avatar_size + avatar_gap))
     in if tw < mtDip mt 80 then mtDip mt 80 else tw)"

definition row_height :: "'f metrics \<Rightarrow> string list \<Rightarrow> 'f" where
  "row_height mt ls = mtAdd mt (mtTimes mt (mtLineHeight mt) (mtNum mt (int (length ls)))) (mtDip mt (header_line + row_gap))"

definition fits_in :: "('f::linorder) metrics \<Rightarrow> 'f \<Rightarrow> string \<Rightarrow> bool" where
  "fits_in mt w l \<longleftrightarrow> mtAdvance mt l \<le> w"

text \<open>The rows from a height on, and the height after them.\<close>

fun lay_rows :: "('f::linorder) metrics \<Rightarrow> (transfer_id \<Rightarrow> transfer option) option \<Rightarrow> 'f \<Rightarrow> 'f \<Rightarrow> message list
    \<Rightarrow> ('f trow list \<times> 'f) option" where
  "lay_rows mt lookup tw y [] = Some ([], y)"
| "lay_rows mt lookup tw y (m # ms) = (case wrap_text (fits_in mt tw) (display_body m lookup) of
     None \<Rightarrow> None
   | Some ls \<Rightarrow> (case lay_rows mt lookup tw (mtAdd mt y (row_height mt ls)) ms of
       None \<Rightarrow> None
     | Some (rs, end) \<Rightarrow> Some (\<lparr>trMsg = m, trLines = ls, trTop = y, trHeight = row_height mt ls\<rparr> # rs, end)))"

definition relayout :: "('f::linorder) metrics \<Rightarrow> 'f script \<Rightarrow> 'f \<Rightarrow> 'f script option" where
  "relayout mt sc w =
    (if w \<le> mtNum mt 0 \<or> w = scLaidFor sc \<and> length (scRows sc) = length (scMsgs sc) then Some sc
     else (case lay_rows mt (scLookup sc) (text_width mt w) (mtDip mt 6) (scMsgs sc) of
         None \<Rightarrow> None
       | Some (rs, end) \<Rightarrow> Some (sc\<lparr>scRows := rs, scTotal := mtAdd mt end (mtDip mt 6), scLaidFor := w\<rparr>)))"

text \<open>\<open>Measure\<close> with the constraint's width, if it has one, and its least height; \<open>Arrange\<close>.\<close>

definition measure_script :: "('f::linorder) metrics \<Rightarrow> 'f script \<Rightarrow> 'f option \<Rightarrow> 'f \<Rightarrow> ('f script \<times> 'f \<times> 'f) option" where
  "measure_script mt sc max_w min_h =
    (let w = (case max_w of None \<Rightarrow> mtNum mt 640 | Some x \<Rightarrow> if x \<le> mtNum mt 0 then mtNum mt 640 else x)
     in map_option (\<lambda>sc'. (sc', w, if scTotal sc' < min_h then min_h else scTotal sc')) (relayout mt sc w))"

definition arrange_script :: "('f::linorder) metrics \<Rightarrow> 'f script \<Rightarrow> 'f \<Rightarrow> 'f script option" where
  "arrange_script mt sc w = map_option (\<lambda>sc'. if scAfter sc' then tell (sc'\<lparr>scAfter := False\<rparr>) RanAfterLayout else sc')
     (relayout mt sc w)"

section \<open>Keyboard, mouse, screen reader\<close>

text \<open>The index stands for a row.\<close>

definition has_row :: "'f script \<Rightarrow> int \<Rightarrow> bool" where
  "has_row sc i \<longleftrightarrow> \<not> (i < 0 \<or> int (length (scRows sc)) \<le> i)"

definition reveal_selected :: "'f script \<Rightarrow> 'f script" where
  "reveal_selected sc = (if has_row sc (scSelected sc) \<and> scScrolls sc
     then tell sc (ScrollTo (trTop (scRows sc ! nat (scSelected sc)))) else sc)"

definition activate_row :: "'f script \<Rightarrow> 'f script \<times> bool" where
  "activate_row sc = (if has_row sc (scSelected sc) \<and> scOpens sc
     then (tell sc (Activated (trMsg (scRows sc ! nat (scSelected sc)))), True) else (sc, False))"

definition moved_to :: "'f script \<Rightarrow> int \<times> bool \<Rightarrow> 'f script \<times> bool" where
  "moved_to sc r = (if snd r then (reveal_selected (sc\<lparr>scSelected := fst r\<rparr>), True) else (sc, False))"

datatype script_key = KeyUp | KeyDown | KeyHome | KeyEnd | KeyOpen | KeyOther

definition script_press :: "'f script \<Rightarrow> script_key \<Rightarrow> 'f script \<times> bool" where
  "script_press sc k =
    (let n = length (scRows sc) in case k of
      KeyUp \<Rightarrow> moved_to sc (move_row n (scSelected sc) (- 1))
    | KeyDown \<Rightarrow> moved_to sc (move_row n (scSelected sc) 1)
    | KeyHome \<Rightarrow> moved_to sc (select_row n (scSelected sc) 0)
    | KeyEnd \<Rightarrow> moved_to sc (select_row n (scSelected sc) (int n - 1))
    | KeyOpen \<Rightarrow> activate_row sc
    | KeyOther \<Rightarrow> (sc, False))"

definition row_at :: "('f::linorder) metrics \<Rightarrow> 'f \<Rightarrow> 'f trow \<Rightarrow> bool" where
  "row_at mt y r \<longleftrightarrow> trTop r \<le> y \<and> y < mtAdd mt (trTop r) (trHeight r)"

definition mouse_press :: "('f::linorder) metrics \<Rightarrow> 'f script \<Rightarrow> 'f \<Rightarrow> 'f script \<times> bool" where
  "mouse_press mt sc y = (case find (\<lambda>i. row_at mt y (scRows sc ! i)) [0 ..< length (scRows sc)] of
      None \<Rightarrow> (sc, False)
    | Some i \<Rightarrow> (tell (sc\<lparr>scSelected := int i\<rparr>) TookFocus, True))"

datatype access_action = ActDefault | ActScroll | ActOther

definition access_row :: "'f script \<Rightarrow> int \<Rightarrow> access_action \<Rightarrow> 'f script \<times> bool" where
  "access_row sc i a = (if \<not> has_row sc i then (sc, False)
     else (case a of
         ActDefault \<Rightarrow> activate_row (sc\<lparr>scSelected := i\<rparr>)
       | ActScroll \<Rightarrow> (reveal_selected (sc\<lparr>scSelected := i\<rparr>), True)
       | ActOther \<Rightarrow> (sc, False)))"

record 'f access_item =
  aiName :: string
  aiTop :: 'f
  aiWidth :: 'f
  aiHeight :: 'f
  aiIndex :: nat
  aiCount :: nat
  aiSelected :: bool

definition access_items :: "'f metrics \<Rightarrow> (gotime \<Rightarrow> int) \<Rightarrow> 'f script \<Rightarrow> 'f \<Rightarrow> 'f \<Rightarrow> 'f access_item list" where
  "access_items mt zone sc origin w = map (\<lambda>i. let r = scRows sc ! i in
     \<lparr>aiName = spoken_row zone (scNames sc) (trMsg r) (trLines r), aiTop = mtAdd mt origin (trTop r), aiWidth = w,
      aiHeight = trHeight r, aiIndex = Suc i, aiCount = length (scRows sc), aiSelected = (int i = scSelected sc)\<rparr>)
     [0 ..< length (scRows sc)]"

section \<open>Colours\<close>

text \<open>
  \<open>fmt.Sscanf\<close> with \<open>"%02x%02x%02x"\<close>, over the runes of the text: each verb skips spaces, where a newline is an error, with a
  carriage return before it or not, and reads at most two runes: a sign, if there is one, and hexadecimal digits, at
  least one.
\<close>

fun skip_spaces :: "nat list \<Rightarrow> nat list option" where
  "skip_spaces [] = Some []"
| "skip_spaces (r # rs) =
     (if r = 13 \<and> rs \<noteq> [] \<and> hd rs = 10 then skip_spaces rs
      else if r = 10 then None
      else if is_space r then skip_spaces rs else Some (r # rs))"

definition hex_value :: "nat \<Rightarrow> int option" where
  "hex_value r =
    (if 48 \<le> r \<and> r \<le> 57 then Some (int r - 48)
     else if 97 \<le> r \<and> r \<le> 102 then Some (int r - 87)
     else if 65 \<le> r \<and> r \<le> 70 then Some (int r - 55) else None)"

fun hex_digits :: "nat \<Rightarrow> int \<Rightarrow> nat list \<Rightarrow> int \<times> nat list" where
  "hex_digits n acc [] = (acc, [])"
| "hex_digits n acc (r # rs) = (if n = 0 then (acc, r # rs)
     else (case hex_value r of Some v \<Rightarrow> hex_digits (n - 1) (16 * acc + v) rs | None \<Rightarrow> (acc, r # rs)))"

definition scan_hex :: "nat list \<Rightarrow> (int \<times> nat list) option" where
  "scan_hex rs0 = (case skip_spaces rs0 of
      None \<Rightarrow> None
    | Some rs \<Rightarrow>
       (let sign = (rs \<noteq> [] \<and> (hd rs = 43 \<or> hd rs = 45)); neg = (rs \<noteq> [] \<and> hd rs = 45); ds = (if sign then tl rs else rs)
        in if ds = [] \<or> hex_value (hd ds) = None then None
           else (case hex_digits (if sign then 1 else 2) 0 ds of (v, rest) \<Rightarrow> Some (if neg then - v else v, rest))))"

definition scan_rgb :: "nat list \<Rightarrow> (int \<times> int \<times> int) option" where
  "scan_rgb rs = (case scan_hex rs of None \<Rightarrow> None | Some (r, rs1) \<Rightarrow> (case scan_hex rs1 of None \<Rightarrow> None
     | Some (g, rs2) \<Rightarrow> (case scan_hex rs2 of None \<Rightarrow> None | Some (b, rs3) \<Rightarrow> Some (r, g, b))))"

text \<open>\<open>None\<close> is the fallback; a component is divided by 255 for the toolkit.\<close>

definition parse_color :: "string \<Rightarrow> (int \<times> int \<times> int) option" where
  "parse_color hex = (if length hex \<noteq> 7 \<or> hd hex \<noteq> CHR ''#'' then None else scan_rgb (runes (tl hex)))"

section \<open>Painting\<close>

text \<open>
  What is drawn, in order. A colour is the palette's, or the sender's as \<open>parseColor\<close> reads it, where
  \<open>None\<close> is the accent.
\<close>

datatype ink = InkText | InkMuted | InkAccent | InkOnAccent | InkDanger

datatype 'f mark =
  Selection 'f 'f 'f 'f | Avatar 'f 'f 'f "(int \<times> int \<times> int) option"
| BoldText string 'f 'f ink | MutedText string 'f 'f ink | BodyText string 'f 'f ink | FocusRing

record 'f bounds =
  bdLeft :: 'f
  bdTop :: 'f
  bdRight :: 'f
  bdBottom :: 'f

fun paint_lines :: "'f metrics \<Rightarrow> ink \<Rightarrow> 'f \<Rightarrow> 'f \<Rightarrow> string list \<Rightarrow> 'f mark list" where
  "paint_lines mt c x ty [] = []"
| "paint_lines mt c x ty (l # ls) = BodyText l x ty c # paint_lines mt c x (mtAdd mt ty (mtLineHeight mt)) ls"

definition row_meta :: "(gotime \<Rightarrow> int) \<Rightarrow> message \<Rightarrow> string" where
  "row_meta zone m = clock_text zone (mSent m) @ (if delivery_note m \<noteq> '''' then ''  '' @ delivery_note m else '''')"

definition paint_system :: "'f metrics \<Rightarrow> 'f bounds \<Rightarrow> 'f trow \<Rightarrow> 'f mark list" where
  "paint_system mt b r =
    (let pad = mtDip mt gutter in
     [MutedText (mtFit mt (join_with '' '' (trLines r)) (mtSub mt (mtSub mt (bdRight b) (bdLeft b)) (mtTimes mt pad (mtNum mt 2))))
        (mtAdd mt (mtAdd mt (mtAdd mt (bdLeft b) pad) (mtDip mt avatar_size)) (mtDip mt avatar_gap))
        (mtAdd mt (mtAdd mt (bdTop b) (trTop r)) (mtDip mt 4)) InkMuted])"

definition paint_said :: "'f metrics \<Rightarrow> (nat \<Rightarrow> nat) \<Rightarrow> (gotime \<Rightarrow> int) \<Rightarrow> 'f script \<Rightarrow> 'f bounds \<Rightarrow> 'f trow \<Rightarrow> 'f mark list" where
  "paint_said mt upper zone sc b r =
    (let add = mtAdd mt; top = add (bdTop b) (trTop r); av = mtDip mt avatar_size; m = trMsg r;
         cx = add (bdLeft b) (mtDip mt gutter); cy = add top (mtDip mt 2);
         who = sender_name (scNames sc) m; letters = initials upper who;
         x = add (add (add (bdLeft b) (mtDip mt gutter)) av) (mtDip mt avatar_gap)
     in [Avatar cx cy av (parse_color (sender_color (scColors sc) m)),
         BoldText letters (add cx (mtHalf mt (mtSub mt av (mtBold mt letters)))) (add cy (mtHalf mt (mtSub mt av (mtBoldHeight mt)))) InkOnAccent,
         BoldText who x (add top (mtDip mt 2)) InkText,
         MutedText (row_meta zone m) (add (add x (mtBold mt who)) (mtDip mt 8)) (add top (mtDip mt 3))
           (if delivery_danger m then InkDanger else InkMuted)]
        @ paint_lines mt (if mTransfer m \<noteq> None then InkAccent else InkText) x (add (add top (mtDip mt header_line)) (mtDip mt 2)) (trLines r))"

definition in_view :: "('f::linorder) metrics \<Rightarrow> 'f bounds \<Rightarrow> 'f trow \<Rightarrow> bool" where
  "in_view mt b r \<longleftrightarrow> \<not> (bdBottom b < mtAdd mt (bdTop b) (trTop r)
     \<or> mtAdd mt (mtAdd mt (bdTop b) (trTop r)) (trHeight r) < bdTop b)"

definition paint_row :: "('f::linorder) metrics \<Rightarrow> (nat \<Rightarrow> nat) \<Rightarrow> (gotime \<Rightarrow> int) \<Rightarrow> 'f script \<Rightarrow> 'f bounds \<Rightarrow> nat \<Rightarrow> 'f mark list" where
  "paint_row mt upper zone sc b i =
    (let r = scRows sc ! i in
     if \<not> in_view mt b r then []
     else (if int i = scSelected sc
         then [Selection (bdLeft b) (mtAdd mt (bdTop b) (trTop r)) (mtSub mt (bdRight b) (bdLeft b)) (trHeight r)] else [])
       @ (if mSystem (trMsg r) then paint_system mt b r else paint_said mt upper zone sc b r))"

definition paint_script :: "('f::linorder) metrics \<Rightarrow> (nat \<Rightarrow> nat) \<Rightarrow> (gotime \<Rightarrow> int) \<Rightarrow> 'f script \<Rightarrow> 'f bounds \<Rightarrow> bool
    \<Rightarrow> ('f script \<times> 'f mark list) option" where
  "paint_script mt upper zone sc0 b focused = map_option (\<lambda>sc. (sc,
      concat (map (paint_row mt upper zone sc b) [0 ..< length (scRows sc)])
      @ (if scRows sc = [] then [MutedText ''No messages yet.'' (mtAdd mt (bdLeft b) (mtDip mt gutter))
           (mtAdd mt (bdTop b) (mtDip mt gutter)) InkMuted] else [])
      @ (if focused then [FocusRing] else [])))
    (relayout mt sc0 (mtSub mt (bdRight b) (bdLeft b)))"


section \<open>The rows tile the transcript\<close>

fun tiles :: "'f metrics \<Rightarrow> 'f \<Rightarrow> 'f trow list \<Rightarrow> 'f \<Rightarrow> bool" where
  "tiles mt y [] end = (y = end)"
| "tiles mt y (r # rs) end = (trTop r = y \<and> tiles mt (mtAdd mt y (trHeight r)) rs end)"

text \<open>What is assumed of the rounded sums: a row, which is at least a header high, makes the transcript longer.\<close>

definition rows_grow :: "('f::linorder) metrics \<Rightarrow> bool" where
  "rows_grow mt \<longleftrightarrow> (\<forall>y ls. y < mtAdd mt y (row_height mt ls))"

definition row_of :: "('f::linorder) metrics \<Rightarrow> (transfer_id \<Rightarrow> transfer option) option \<Rightarrow> 'f \<Rightarrow> 'f trow \<Rightarrow> bool" where
  "row_of mt lookup tw r \<longleftrightarrow> wrap_text (fits_in mt tw) (display_body (trMsg r) lookup) = Some (trLines r)
     \<and> trHeight r = row_height mt (trLines r)"

lemma lay_rows_ok:
  "lay_rows mt lookup tw y ms = Some (rs, end) \<Longrightarrow>
     map trMsg rs = ms \<and> list_all (row_of mt lookup tw) rs \<and> tiles mt y rs end"
  by (induction mt lookup tw y ms arbitrary: rs "end" rule: lay_rows.induct)
    (auto simp: row_of_def split: option.splits)

lemma tiles_grow:
  assumes "rows_grow mt"
  shows "tiles mt y rs end \<Longrightarrow> list_all (row_of mt lookup tw) rs \<Longrightarrow> y \<le> end"
proof (induction rs arbitrary: y)
  case (Cons r rs)
  have "y < mtAdd mt y (trHeight r)" using assms Cons.prems by (simp add: rows_grow_def row_of_def)
  thus ?case using Cons by fastforce
qed simp

lemma tiles_row_above:
  assumes "rows_grow mt"
  shows "tiles mt y rs end \<Longrightarrow> list_all (row_of mt lookup tw) rs \<Longrightarrow> r \<in> set rs \<Longrightarrow> y \<le> trTop r"
proof (induction rs arbitrary: y)
  case (Cons a rs)
  have "y < mtAdd mt y (trHeight a)" using assms Cons.prems by (simp add: rows_grow_def row_of_def)
  thus ?case using Cons by fastforce
qed simp

lemma tiles_hit:
  assumes "rows_grow mt"
  shows "tiles mt y0 rs end \<Longrightarrow> list_all (row_of mt lookup tw) rs \<Longrightarrow>
    (\<exists>r \<in> set rs. row_at mt y r) \<longleftrightarrow> y0 \<le> y \<and> y < end"
proof (induction rs arbitrary: y0)
  case (Cons a rs)
  have "y0 < mtAdd mt y0 (trHeight a)" using assms Cons.prems by (simp add: rows_grow_def row_of_def)
  moreover have "mtAdd mt y0 (trHeight a) \<le> end" by (rule tiles_grow [OF assms]) (use Cons.prems in auto)
  moreover have "(\<exists>r \<in> set rs. row_at mt y r) \<longleftrightarrow> mtAdd mt y0 (trHeight a) \<le> y \<and> y < end"
    using Cons.IH [of "mtAdd mt y0 (trHeight a)"] Cons.prems by simp
  ultimately show ?case using Cons.prems by (auto simp: row_at_def [of mt y a])
qed auto

lemma tiles_one:
  assumes "rows_grow mt"
  shows "tiles mt y0 rs end \<Longrightarrow> list_all (row_of mt lookup tw) rs \<Longrightarrow> i < length rs \<Longrightarrow> j < length rs
    \<Longrightarrow> row_at mt y (rs ! i) \<Longrightarrow> row_at mt y (rs ! j) \<Longrightarrow> i = j"
proof (induction rs arbitrary: y0 i j)
  case (Cons a rs)
  have below: "r \<in> set rs \<Longrightarrow> mtAdd mt (trTop a) (trHeight a) \<le> trTop r" for r
    using tiles_row_above [OF assms] Cons.prems by auto
  have clash: "\<not> (row_at mt y a \<and> row_at mt y (rs ! k))" if "k < length rs" for k
    using below [OF nth_mem [OF that]] by (auto simp: row_at_def)
  show ?case using Cons clash by (cases i; cases j) auto
qed simp

lemma fresh_layout:
  assumes "mtNum mt 0 < w" "arrange_script mt (script_messages mt sc0 ms) w = Some sc"
  obtains bottom where "map trMsg (scRows sc) = ms" "list_all (row_of mt (scLookup sc0) (text_width mt w)) (scRows sc)"
    "tiles mt (mtDip mt 6) (scRows sc) bottom" "scTotal sc = mtAdd mt bottom (mtDip mt 6)"
    "scLookup sc = scLookup sc0" "scLaidFor sc = w" "scMsgs sc = ms" "scOpens sc = scOpens sc0"
proof -
  from assms obtain rs bottom where lay: "lay_rows mt (scLookup sc0) (text_width mt w) (mtDip mt 6) ms = Some (rs, bottom)"
      "scRows sc = rs" "scTotal sc = mtAdd mt bottom (mtDip mt 6)" "scLookup sc = scLookup sc0" "scLaidFor sc = w" "scMsgs sc = ms"
      "scOpens sc = scOpens sc0"
    by (auto simp: arrange_script_def relayout_def script_messages_def tell_def split: option.splits if_splits)
  show thesis by (rule that) (use lay lay_rows_ok [OF lay(1)] in simp_all)
qed

section \<open>What is said is painted\<close>

fun body_texts :: "'f mark list \<Rightarrow> string list" where
  "body_texts [] = []"
| "body_texts (BodyText l x y c # ms) = l # body_texts ms"
| "body_texts (m # ms) = body_texts ms"

lemma body_texts_lines [simp]: "body_texts (paint_lines mt c x ty ls) = ls"
  by (induction ls arbitrary: ty) simp_all

lemma body_texts_append [simp]: "body_texts (a @ b) = body_texts a @ body_texts b"
  by (induction a rule: body_texts.induct) simp_all

lemma body_texts_row:
  "in_view mt b (scRows sc ! i) \<Longrightarrow> \<not> mSystem (trMsg (scRows sc ! i)) \<Longrightarrow>
     body_texts (paint_row mt upper zone sc b i) = trLines (scRows sc ! i)"
  unfolding paint_row_def paint_said_def Let_def
  by simp

lemma press_open:
  assumes "find (\<lambda>i. row_at mt y (scRows sc ! i)) [0 ..< length (scRows sc)] = Some i" "scOpens sc"
  shows "snd (mouse_press mt sc y)" "scSelected (fst (mouse_press mt sc y)) = int i"
    "script_press (fst (mouse_press mt sc y)) KeyOpen = (tell (fst (mouse_press mt sc y)) (Activated (trMsg (scRows sc ! i))), True)"
proof -
  have i: "i < length (scRows sc)" using assms(1) by (auto simp: find_Some_iff)
  have p: "mouse_press mt sc y = (tell (sc\<lparr>scSelected := int i\<rparr>) TookFocus, True)" using assms(1) by (simp add: mouse_press_def)
  show "snd (mouse_press mt sc y)" "scSelected (fst (mouse_press mt sc y)) = int i"
    "script_press (fst (mouse_press mt sc y)) KeyOpen = (tell (fst (mouse_press mt sc y)) (Activated (trMsg (scRows sc ! i))), True)"
    using i assms(2) by (simp_all add: p script_press_def activate_row_def has_row_def tell_def)
qed


text \<open>Whole units, a line 16 high, a character 8 wide.\<close>

definition whole_metrics :: "int metrics" where
  "whole_metrics = \<lparr>mtAdd = (+), mtSub = (-), mtTimes = (*), mtHalf = (\<lambda>x. x div 2), mtNum = (\<lambda>n. n), mtDip = int,
     mtLineHeight = 16, mtBoldHeight = 16, mtAdvance = (\<lambda>s. 8 * int (length s)), mtBold = (\<lambda>s. 9 * int (length s)),
     mtFit = (\<lambda>s w. take (nat (w div 8)) s)\<rparr>"

lemma whole_metrics_grow: "rows_grow whole_metrics"
  by (simp add: rows_grow_def row_height_def whole_metrics_def header_line_def add_pos_nonneg)

definition two_messages :: "message list" where
  "two_messages = [zero_message\<lparr>mID := ''a'', mFromNick := ''ann'', mBody := ''one two three four''\<rparr>,
     zero_message\<lparr>mID := ''b'', mFromNick := ''bob'', mBody := ''ok''\<rparr>]"

definition laid_out :: "int script option" where
  "laid_out = arrange_script whole_metrics (script_messages whole_metrics ((new_script whole_metrics True)\<lparr>scOpens := True\<rparr>) two_messages) 150"

lemma laid_out: "map_option (\<lambda>sc. map trLines (scRows sc)) laid_out = Some [[''one two'', ''three four''], [''ok'']]"
  by code_simp


section \<open>Where the widget does something else\<close>

text \<open>
  The message opened is that of a laid out row: between \<open>SetMessages\<close> and the next layout that is a row of the
  conversation shown before.
\<close>

lemma stale_row_opens:
  "has_row sc i \<Longrightarrow> scOpens sc \<Longrightarrow> scSelected sc = i \<Longrightarrow> i < int (length ms) \<Longrightarrow>
    script_press (script_messages mt sc ms) KeyOpen
      = (tell (script_messages mt sc ms) (Activated (trMsg (scRows sc ! nat i))), True)"
  by (simp add: script_press_def activate_row_def script_messages_def has_row_def after_messages_def)

text \<open>A line of the system is one text, cut to the width by the toolkit, however many lines it was laid out with.\<close>

lemma system_row_one_text:
  "in_view mt b (scRows sc ! i) \<Longrightarrow> mSystem (trMsg (scRows sc ! i)) \<Longrightarrow>
    body_texts (paint_row mt upper zone sc b i) = []
    \<and> (\<exists>w x y. MutedText (mtFit mt (join_with '' '' (trLines (scRows sc ! i))) w) x y InkMuted \<in> set (paint_row mt upper zone sc b i))"
  by (auto simp: paint_row_def paint_system_def Let_def)

text \<open>Texts that are no colour but are read as one.\<close>

lemma spaces_and_signs_are_colours:
  "parse_color ''# a b c'' = Some (10, 11, 12)" "parse_color ''#-1+2-3'' = Some (- 1, 2, - 3)"
  by code_simp+

lemma parse_color_plain: "parse_color ''#2f6fd0'' = Some (0x2F, 0x6F, 0xD0)" "parse_color ''#2f6fzz'' = None"
  by code_simp+


section \<open>The colours the daemon keeps are read\<close>

lemma rune_chunks_plain: "list_all (\<lambda>b. b < 128) bs \<Longrightarrow> map fst (rune_chunks bs) = bs"
  by (induction bs) (simp_all add: rune_chunks.simps)

lemma runes_plain: "list_all (\<lambda>c. (of_char c :: nat) < 128) s \<Longrightarrow> runes s = map of_char s"
  unfolding runes_def bytes_of_def by (rule rune_chunks_plain) (simp add: list_all_iff)

lemma hex_byte_value:
  assumes "is_hex_byte c"
  obtains v where "hex_value (of_char c) = Some v" "0 \<le> v" "v < 16" "(of_char c :: nat) < 128" "(of_char c :: nat) \<notin> {10, 13, 43, 45}"
    "\<not> is_space (of_char c)"
proof -
  let ?b = "of_char c :: nat"
  have cases: "48 \<le> ?b \<and> ?b \<le> 57 \<or> 97 \<le> ?b \<and> ?b \<le> 102 \<or> 65 \<le> ?b \<and> ?b \<le> 70" using assms by (simp add: is_hex_byte_def Let_def)
  then obtain v where "hex_value ?b = Some v" "0 \<le> v" "v < 16"
    unfolding hex_value_def by (elim disjE) (simp_all split: if_splits)
  moreover have "?b < 128" "?b \<notin> {10, 13, 43, 45}" "\<not> is_space ?b" using cases by (auto simp: is_space_def)
  ultimately show thesis by (rule that)
qed

lemma scan_two_digits:
  assumes "is_hex_byte c" "is_hex_byte d"
  shows "\<exists>v. scan_hex (of_char c # of_char d # rest) = Some (v, rest) \<and> 0 \<le> v \<and> v < 256"
proof -
  obtain a where a: "hex_value (of_char c) = Some a" "0 \<le> a" "a < 16" "(of_char c :: nat) \<notin> {10, 13, 43, 45}" "\<not> is_space (of_char c)"
    using hex_byte_value [OF assms(1)] by metis
  obtain b where b: "hex_value (of_char d) = Some b" "0 \<le> b" "b < 16" using hex_byte_value [OF assms(2)] by metis
  have "scan_hex (of_char c # of_char d # rest) = Some (16 * a + b, rest)"
    using a b by (cases rest) (auto simp: scan_hex_def eval_nat_numeral)
  thus ?thesis using a b by simp
qed

lemma valid_color_read:
  assumes "valid_color s"
  obtains r g b where "parse_color s = Some (r, g, b)" "r \<in> {0 ..< 256}" "g \<in> {0 ..< 256}" "b \<in> {0 ..< 256}"
proof -
  from assms obtain h where s: "s = CHR ''#'' # h" "length h = 6" "list_all is_hex_byte h"
    by (auto simp: valid_color_def split: list.splits)
  then obtain c1 c2 c3 c4 c5 c6 where h: "h = [c1, c2, c3, c4, c5, c6]"
    by (auto simp: eval_nat_numeral length_Suc_conv)
  have "list_all (\<lambda>c. (of_char c :: nat) < 128) h" using s(3) by (auto simp: list_all_iff is_hex_byte_def Let_def)
  hence runes: "runes h = map of_char h" by (rule runes_plain)
  obtain r where r: "scan_hex (of_char c1 # of_char c2 # map of_char [c3, c4, c5, c6]) = Some (r, map of_char [c3, c4, c5, c6])" "0 \<le> r" "r < 256"
    using scan_two_digits [of c1 c2 "map of_char [c3, c4, c5, c6]"] s(3) unfolding h by auto
  obtain g where g: "scan_hex (of_char c3 # of_char c4 # map of_char [c5, c6]) = Some (g, map of_char [c5, c6])" "0 \<le> g" "g < 256"
    using scan_two_digits [of c3 c4 "map of_char [c5, c6]"] s(3) unfolding h by auto
  obtain b where b: "scan_hex (of_char c5 # of_char c6 # []) = Some (b, [])" "0 \<le> b" "b < 256"
    using scan_two_digits [of c5 c6 "[]"] s(3) unfolding h by auto
  have "parse_color s = Some (r, g, b)" using r g b s(1,2) runes by (simp add: parse_color_def h scan_rgb_def)
  thus thesis using that r g b by simp
qed

end
