(* ===== verification/Window.thy ===== *)
theory Window
  imports Gui Transcript Startup
begin

text \<open>
  The rest of the window: the identity strip (\<open>chatui/identity.go\<close>), the window's own keys and menus (\<open>chatui/keys.go\<close>,
  \<open>ui.go\<close>), the preferences as they are shown and saved (\<open>chatui/dialogs.go\<close>), the tray and how the window opens
  and quits. Toolkit widgets appear as what they hold. The lemmas show what saving the preferences unchanged
  does to an identity, and which keys the help promises a menu for and has none.
\<close>

section \<open>The identity strip\<close>

record id_bar =
  ibNick :: string
  ibColor :: string
  ibNote :: string
  ibActive :: bool
  ibHover :: bool
  ibOpened :: nat
  ibRedraws :: nat

definition new_id_bar :: "bool \<Rightarrow> id_bar" where
  "new_id_bar active = \<lparr>ibNick = ellipsis, ibColor = '''', ibNote = ''starting up'', ibActive = active, ibHover = False,
     ibOpened = 0, ibRedraws = 0\<rparr>"

definition bar_redraw :: "id_bar \<Rightarrow> id_bar" where
  "bar_redraw b = b\<lparr>ibRedraws := Suc (ibRedraws b)\<rparr>"

definition bar_set :: "id_bar \<Rightarrow> identity \<Rightarrow> string \<Rightarrow> id_bar" where
  "bar_set b self x =
    (let nick = (if iNick self = '''' then ''(no name yet)'' else iNick self)
     in if ibNick b = nick \<and> ibColor b = iColor self \<and> ibNote b = x then b
        else bar_redraw (b\<lparr>ibNick := nick, ibColor := iColor self, ibNote := x\<rparr>))"

definition id_avatar :: nat where "id_avatar = 30"
definition id_gap :: nat where "id_gap = 10"
definition id_pad_x :: nat where "id_pad_x = 12"
definition id_pad_y :: nat where "id_pad_y = 10"

definition bar_measure :: "('f::linorder) metrics \<Rightarrow> 'f option \<Rightarrow> 'f \<times> 'f" where
  "bar_measure mt max_w =
    (case max_w of None \<Rightarrow> mtDip mt 220 | Some w \<Rightarrow> if w \<le> mtNum mt 0 then mtDip mt 220 else w,
     mtAdd mt (mtTimes mt (mtDip mt id_pad_y) (mtNum mt 2)) (mtDip mt id_avatar))"

datatype 'f bar_mark = BarHighlight | BarFocus | BarAvatar 'f 'f 'f "(int \<times> int \<times> int) option" | BarBold string 'f 'f ink
| BarFitBold string 'f 'f 'f | BarFitMuted string 'f 'f 'f

definition bar_paint :: "('f::linorder) metrics \<Rightarrow> (nat \<Rightarrow> nat) \<Rightarrow> id_bar \<Rightarrow> 'f bounds \<Rightarrow> bool \<Rightarrow> 'f bar_mark list" where
  "bar_paint mt upper b r focused =
    (let add = mtAdd mt; av = mtDip mt id_avatar; cx = add (bdLeft r) (mtDip mt id_pad_x); cy = add (bdTop r) (mtDip mt id_pad_y);
         letters = initials upper (ibNick b); x = add (add cx av) (mtDip mt id_gap);
         tw0 = mtSub mt (mtSub mt (bdRight r) (mtDip mt id_pad_x)) x; tw = (if tw0 < mtNum mt 0 then mtNum mt 0 else tw0)
     in (if ibHover b \<and> ibActive b then [BarHighlight] else []) @ (if focused then [BarFocus] else [])
        @ [BarAvatar cx cy av (parse_color (ibColor b)),
           BarBold letters (add cx (mtHalf mt (mtSub mt av (mtBold mt letters)))) (add cy (mtHalf mt (mtSub mt av (mtBoldHeight mt)))) InkOnAccent,
           BarFitBold (ibNick b) tw x cy,
           BarFitMuted (ibNote b) tw x (add (add cy (mtBoldHeight mt)) (mtDip mt 1))])"

datatype bar_input = BarEnter | BarLeave | BarClick bool | BarKey bool | BarAction bool

text \<open>
  The mouse enters, leaves or presses a button, the left one or another; a key, Return or Space or another; an action of
  a screen reader, the default or another. The result tells whether it was used.
\<close>

definition run_bar_input :: "id_bar \<Rightarrow> bar_input \<Rightarrow> id_bar \<times> bool" where
  "run_bar_input b e =
    (let used = (\<lambda>mine. if \<not> mine \<or> \<not> ibActive b then (b, False) else (b\<lparr>ibOpened := Suc (ibOpened b)\<rparr>, True)) in
     case e of
       BarEnter \<Rightarrow> (bar_redraw (b\<lparr>ibHover := True\<rparr>), True)
     | BarLeave \<Rightarrow> (bar_redraw (b\<lparr>ibHover := False\<rparr>), True)
     | BarClick left \<Rightarrow> used left
     | BarKey open_key \<Rightarrow> used open_key
     | BarAction act \<Rightarrow> used act)"

definition bar_tooltip :: "id_bar \<Rightarrow> string" where
  "bar_tooltip b = (if \<not> ibActive b then '''' else ''You '' @ em_dash @ '' click to change your name'')"

definition bar_spoken :: "id_bar \<Rightarrow> string \<times> string \<times> bool" where
  "bar_spoken b = (''You: '' @ ibNick b, ibNote b, ibActive b)"

text \<open>The strip shows what \<open>identity_strip\<close> says, and is drawn again only if that changed.\<close>

lemma bar_set_shows:
  "(ibNick (bar_set b self x), ibColor (bar_set b self x), ibNote (bar_set b self x)) = identity_strip self x"
  by (auto simp: bar_set_def identity_strip_def bar_redraw_def Let_def)

lemma bar_set_twice: "bar_set (bar_set b self x) self x = bar_set b self x"
  by (auto simp: bar_set_def bar_redraw_def Let_def)

section \<open>The window's keys\<close>

datatype focus = FocusTextField | FocusNumberField | FocusTextArea bool | FocusElsewhere

definition is_text_focus :: "focus \<Rightarrow> bool" where
  "is_text_focus f = (case f of FocusTextField \<Rightarrow> True | FocusNumberField \<Rightarrow> True | FocusTextArea read_only \<Rightarrow> \<not> read_only
     | FocusElsewhere \<Rightarrow> False)"

text \<open>
  Where the keyboard is, the height of the scroll view and the distances it was scrolled by. Negating a
  \<open>float32\<close> and multiplying it by 0.8 are arguments.
\<close>

record 'f window =
  wnFocus :: focus
  wnHeight :: 'f
  wnScrolled :: "'f list"
  wnReady :: bool
  wnVisible :: bool
  wnCloseHides :: bool
  wnTray :: bool

definition page_step :: "('f::linorder) metrics \<Rightarrow> ('f \<Rightarrow> 'f) \<Rightarrow> 'f window \<Rightarrow> 'f" where
  "page_step mt tenths8 w = (if mtNum mt 0 < wnHeight w then tenths8 (wnHeight w) else mtNum mt 200)"

datatype window_key = WinUp | WinDown | WinEscape | WinPageUp | WinPageDown | WinOther

definition window_plain_key :: "('f::linorder) metrics \<Rightarrow> ('f \<Rightarrow> 'f) \<Rightarrow> ('f \<Rightarrow> 'f) \<Rightarrow> 'f window \<Rightarrow> window_key \<Rightarrow> 'f window \<times> bool" where
  "window_plain_key mt neg tenths8 w k = (case k of
      WinEscape \<Rightarrow> (if is_text_focus (wnFocus w) then (w, False) else (w\<lparr>wnFocus := FocusTextField\<rparr>, True))
    | WinPageUp \<Rightarrow> (w\<lparr>wnScrolled := wnScrolled w @ [neg (page_step mt tenths8 w)]\<rparr>, True)
    | WinPageDown \<Rightarrow> (w\<lparr>wnScrolled := wnScrolled w @ [page_step mt tenths8 w]\<rparr>, True)
    | _ \<Rightarrow> (w, False))"

definition handle_window_key :: "('f::linorder) metrics \<Rightarrow> ('f \<Rightarrow> 'f) \<Rightarrow> ('f \<Rightarrow> 'f) \<Rightarrow> 'd asker \<Rightarrow> 'f window \<times> 'd session \<Rightarrow> bool
    \<Rightarrow> window_key \<Rightarrow> ('f window \<times> 'd session) \<times> bool" where
  "handle_window_key mt neg tenths8 ask ws alt k = (case ws of (w, s) \<Rightarrow>
     if alt \<and> k = WinUp then ((w, gui_move_selection ask s (- 1)), True)
     else if alt \<and> k = WinDown then ((w, gui_move_selection ask s 1), True)
     else (case window_plain_key mt neg tenths8 w k of (w', used) \<Rightarrow> ((w', s), used)))"

text \<open>\<open>Arrange\<close> of the root: the first time it has a host the cursor goes to the composer.\<close>

definition root_arrange :: "bool \<Rightarrow> 'f window \<Rightarrow> 'f window" where
  "root_arrange hosted w = (if \<not> wnReady w \<and> hosted then w\<lparr>wnReady := True, wnFocus := FocusTextField\<rparr> else w)"

section \<open>Tray, opening, quitting\<close>

definition setup_tray :: "bool \<Rightarrow> bool \<Rightarrow> 'f window \<Rightarrow> 'f window" where
  "setup_tray has_app alive w = (if \<not> has_app \<or> \<not> alive then w else w\<lparr>wnTray := True, wnCloseHides := True\<rparr>)"

definition show_main :: "'f window \<Rightarrow> 'f window" where
  "show_main w = w\<lparr>wnVisible := True, wnFocus := FocusTextField\<rparr>"

definition quit_window :: "'f window \<times> 'd session \<Rightarrow> 'f window \<times> 'd session" where
  "quit_window ws = (case ws of (w, s) \<Rightarrow> (w\<lparr>wnTray := False\<rparr>, s\<lparr>seQuit := True\<rparr>))"

definition open_window :: "'f metrics \<Rightarrow> 'd asker \<Rightarrow> bool \<Rightarrow> bool \<Rightarrow> 'd \<Rightarrow> 'f window \<times> 'd session" where
  "open_window mt ask has_app alive d = (setup_tray has_app alive
     \<lparr>wnFocus = FocusElsewhere, wnHeight = mtNum mt 0, wnScrolled = [], wnReady = False, wnVisible = True, wnCloseHides = False,
      wnTray = False\<rparr>, gui_reload_all ask (new_session d))"

text \<open>A window that hides when it is closed can be shown again: there is a tray item.\<close>

lemma hides_only_with_tray: "\<not> wnCloseHides w \<or> wnTray w \<Longrightarrow> wnCloseHides (setup_tray a b w) \<Longrightarrow> wnTray (setup_tray a b w)"
  by (auto simp: setup_tray_def split: if_splits)


section \<open>Menus and the help\<close>

datatype menu_action =
  DoJoin | DoAttach | DoPreferences | DoQuit | DoRead | DoMove int | DoLeave | DoBlock bool | DoPresence presence
| DoPeers | DoKeys | DoSecurity | DoAbout

text \<open>A label with the accelerator, if it has one; a radio item with whether it is marked.\<close>

datatype menu_item = Item string "string option" menu_action | RadioItem string bool menu_action | Separator

definition window_menus :: "(string \<times> menu_item list) list" where
  "window_menus =
    [(''&Chat'', [Item (''&Join Room'' @ ellipsis) (Some ''Ctrl+N'') DoJoin, Item (''Send &File'' @ ellipsis) (Some ''Ctrl+O'') DoAttach, Separator,
       Item (''&Preferences'' @ ellipsis) (Some ''Ctrl+P'') DoPreferences, Separator, Item ''&Quit'' (Some ''Ctrl+Q'') DoQuit]),
     (''&Conversation'', [Item ''Mark as &Read'' (Some ''Ctrl+R'') DoRead, Item ''&Next Conversation'' (Some ''Alt+Down'') (DoMove 1),
       Item ''&Previous Conversation'' (Some ''Alt+Up'') (DoMove (- 1)), Separator, Item ''&Leave Room'' None DoLeave,
       Item ''&Block This Peer'' None (DoBlock True), Item ''&Unblock This Peer'' None (DoBlock False)]),
     (''&Status'', [RadioItem ''&Online'' True (DoPresence presence_online), RadioItem ''&Away'' False (DoPresence presence_away),
       RadioItem ''&Busy'' False (DoPresence presence_busy)]),
     (''&Help'', [Item ''&Who Is Here'' None DoPeers, Item ''&Keyboard Shortcuts'' None DoKeys, Item ''&Security and Privacy'' None DoSecurity,
       Separator, Item ''&About'' None DoAbout])]"

definition accelerators :: "string list" where
  "accelerators = concat (map (\<lambda>i. case i of Item _ (Some k) _ \<Rightarrow> [k] | _ \<Rightarrow> []) (concat (map snd window_menus)))"

text \<open>The lines of \<open>showKeys\<close>: the keys, and what they are said to do.\<close>

definition key_lines :: "(string \<times> string) list" where
  "key_lines =
    [(''Ctrl+N'', ''join a room''), (''Ctrl+O'', ''send a file to the peer in this conversation''),
     (''Ctrl+R'', ''mark this conversation read''), (''Ctrl+P'', ''preferences''), (''Ctrl+Q'', ''quit''),
     (''Alt+Up/Down'', ''previous / next conversation''), (''Page Up/Down'', ''scroll the conversation''),
     (''Escape'', ''put the cursor back in the composer''), (''Tab'', ''move between the composer, the list and the transcript''),
     (''Return'', ''send, or open the file on the selected line'')]"

definition show_keys :: "'d session \<Rightarrow> 'd session" where
  "show_keys s = show_dialog s (Panel ''Keyboard''
    (concat (map (\<lambda>l. pad_right 14 (fst l) @ snd l @ [newline]) key_lines) @ [newline]
     @ ''Every one of these is in a menu as well: nothing in this window can only'' @ [newline]
     @ ''be reached with the mouse, and nothing can only be reached with a key.''))"

text \<open>The help says that all of these are in a menu; these four lines are not.\<close>

lemma keys_without_menu:
  "filter (\<lambda>k. k \<notin> set accelerators) (map fst key_lines) = [''Alt+Up/Down'', ''Page Up/Down'', ''Escape'', ''Tab'', ''Return'']"
  "''Alt+Up'' \<in> set accelerators" "''Alt+Down'' \<in> set accelerators"
  by code_simp+

text \<open>No key is given to two items.\<close>

lemma accelerators_distinct: "distinct accelerators"
  by code_simp

section \<open>The preferences\<close>

definition offered_presences :: "presence list" where
  "offered_presences = [presence_online, presence_away, presence_busy]"

text \<open>The last index at which a list has a value, 0 if none.\<close>

definition chosen_index :: "string list \<Rightarrow> string \<Rightarrow> int" where
  "chosen_index xs x = foldl (\<lambda>at i. if xs ! i = x then int i else at) 0 [0 ..< length xs]"

record prefs_form =
  pfNick :: string
  pfColors :: "string list"
  pfColor :: int
  pfPresence :: int
  pfAuto :: string
  pfNotify :: bool
  pfDesktop :: bool
  pfDirect :: bool
  pfMention :: bool

definition shown_form :: "identity \<Rightarrow> notify_prefs \<Rightarrow> prefs_form" where
  "shown_form self np = \<lparr>pfNick = iNick self, pfColors = map color_name avatar_palette,
     pfColor = chosen_index avatar_palette (iColor self), pfPresence = chosen_index offered_presences (presence_valid (iPresence self)),
     pfAuto = decimal_int (iAutoAccept self sdiv 1024), pfNotify = nEnabled np, pfDesktop = nDesktop np,
     pfDirect = nDirectOnly np, pfMention = nMentions np\<rparr>"

definition show_preferences :: "'d asker \<Rightarrow> 'd session \<Rightarrow> 'd session \<times> identity \<times> prefs_form" where
  "show_preferences ask s = (case gui_call (cli_notify_prefs ask) s of
     (s1, r) \<Rightarrow> (s1, seSelf s, shown_form (seSelf s) (case r of Inl e \<Rightarrow> default_notify_prefs | Inr np \<Rightarrow> np)))"

definition form_prefs :: "prefs_form \<Rightarrow> notify_prefs" where
  "form_prefs f = \<lparr>nEnabled = pfNotify f, nDirectOnly = pfDirect f, nDesktop = pfDesktop f, nMentions = pfMention f\<rparr>"

definition form_identity :: "identity \<Rightarrow> prefs_form \<Rightarrow> identity" where
  "form_identity self f = preferred_identity self (pfNick f) (pfColor f) (pfPresence f) (pfAuto f)"

definition apply_preferences :: "'d session \<Rightarrow> identity \<Rightarrow> prefs_form \<Rightarrow> 'd session" where
  "apply_preferences s self f = save_preferences s self (pfNick f) (pfColor f) (pfPresence f) (pfAuto f) (form_prefs f)"

lemma apply_preferences_work: "apply_preferences s self f = async s (GuiSave (form_prefs f) (form_identity self f))"
  by (simp add: apply_preferences_def save_preferences_def form_identity_def)

lemma form_prefs_shown: "form_prefs (shown_form self np) = np"
  by (simp add: form_prefs_def shown_form_def)

lemma chosen_index_step:
  "n \<le> length xs \<Longrightarrow> (let k = foldl (\<lambda>at i. if xs ! i = x then int i else at) 0 [0 ..< n] in
     (x \<in> set (take n xs) \<longrightarrow> 0 \<le> k \<and> k < int n \<and> xs ! nat k = x) \<and> (x \<notin> set (take n xs) \<longrightarrow> k = 0))"
  by (induction n) (auto simp: Let_def take_Suc_conv_app_nth)

lemma chosen_index_ok:
  "x \<in> set xs \<Longrightarrow> 0 \<le> chosen_index xs x \<and> chosen_index xs x < int (length xs) \<and> xs ! nat (chosen_index xs x) = x"
  "x \<notin> set xs \<Longrightarrow> chosen_index xs x = 0"
  using chosen_index_step [of "length xs" xs x] by (simp_all add: chosen_index_def Let_def)

lemma rune_chunks_ascii: "list_all (\<lambda>b. b < 128) bs \<Longrightarrow> rune_chunks bs = map (\<lambda>b. (b, [b])) bs"
  by (induction bs) (simp_all add: rune_chunks.simps)

lemma strip_by_none: "list_all (\<lambda>x. \<not> P x) xs \<Longrightarrow> strip_by P xs = xs"
proof -
  assume a: "list_all (\<lambda>x. \<not> P x) xs"
  have "dropWhile P ys = ys" if "list_all (\<lambda>x. \<not> P x) ys" for ys using that by (cases ys) auto
  thus ?thesis using a by (simp add: strip_by_def list_all_rev)
qed

lemma trim_space_digits:
  assumes "list_all is_digit s"
  shows "trim_space s = s"
proof -
  have chunks: "rune_chunks (bytes_of s) = map (\<lambda>b. (b, [b])) (bytes_of s)"
    using assms by (intro rune_chunks_ascii) (auto simp: bytes_of_def list_all_iff is_digit_def)
  have strip: "strip_by space_chunk (map (\<lambda>b. (b, [b])) (bytes_of s)) = map (\<lambda>b. (b, [b])) (bytes_of s)"
    using assms by (intro strip_by_none) (auto simp: bytes_of_def list_all_iff space_chunk_def is_space_def is_digit_def)
  show ?thesis unfolding trim_space_def chunks strip by (simp add: bytes_of_def string_of_bytes_def o_def)
qed

text \<open>
  Saving the preferences as they were shown: the notification settings go back as they came; the identity keeps its
  colour if it is one of the palette, and otherwise gets the first of it, and the limit of the files that are accepted by
  themselves is rounded down to a KiB.
\<close>

theorem preferences_untouched:
  assumes "0 \<le> iAutoAccept self" "iAutoAccept self < 2 ^ 63"
  shows "form_prefs (shown_form self np) = np
    \<and> form_identity self (shown_form self np) = self\<lparr>iNick := trim_space (iNick self),
        iColor := (if iColor self \<in> set avatar_palette then iColor self else ''#2f6fd0''),
        iPresence := (if presence_valid (iPresence self) = presence_offline then presence_online else iPresence self),
        iAutoAccept := iAutoAccept self - iAutoAccept self mod 1024\<rparr>"
proof -
  let ?kib = "iAutoAccept self div 1024"
  have kib: "iAutoAccept self sdiv 1024 = ?kib" "0 \<le> ?kib" "?kib < 2 ^ 53" using assms by (auto simp: signed_divide_int_def sgn_if)
  hence auto: "parse_int64 (trim_space (decimal_int (iAutoAccept self sdiv 1024))) = Some ?kib"
    using decimal_digits [of "nat ?kib"] parse_int64_decimal [of ?kib] by (simp add: decimal_int_def trim_space_digits)
  have times: "times_kib ?kib = iAutoAccept self - iAutoAccept self mod 1024"
  proof -
    have "signed_take_bit 63 (?kib * 1024) = ?kib * 1024" using kib by (intro signed_take_bit_int_eq_self) simp_all
    thus ?thesis unfolding times_kib_def sint_sbintrunc' by (simp add: minus_mod_eq_mult_div)
  qed
  have color: "(let k = chosen_index avatar_palette (iColor self) in 0 \<le> k \<and> k < 10 \<and>
      avatar_palette ! nat k = (if iColor self \<in> set avatar_palette then iColor self else ''#2f6fd0''))"
    using chosen_index_ok [of "iColor self" avatar_palette] by (auto simp: avatar_palette_def Let_def)
  have presence: "(let k = chosen_index offered_presences (presence_valid (iPresence self)) in 0 \<le> k \<and> k < 3 \<and>
      offered_presences ! nat k = (if presence_valid (iPresence self) = presence_offline then presence_online else iPresence self))"
    using chosen_index_ok [of "presence_valid (iPresence self)" offered_presences]
    by (auto simp: offered_presences_def presence_valid_def presence_defs Let_def split: if_splits)
  have ten: "length avatar_palette = 10" by (simp add: avatar_palette_def)
  have "form_identity self (shown_form self np) = self\<lparr>iNick := trim_space (iNick self),
        iColor := (if iColor self \<in> set avatar_palette then iColor self else ''#2f6fd0''),
        iPresence := (if presence_valid (iPresence self) = presence_offline then presence_online else iPresence self),
        iAutoAccept := iAutoAccept self - iAutoAccept self mod 1024\<rparr>"
    unfolding form_identity_def preferred_identity_def offered_presences_def [symmetric]
    using kib auto times color presence by (simp add: shown_form_def ten Let_def)
  thus ?thesis by (simp add: form_prefs_shown)
qed

text \<open>An identity of the palette, with its limit in whole KiB, is not changed; another one is.\<close>

lemma preferences_kept:
  assumes "0 \<le> iAutoAccept self" "iAutoAccept self < 2 ^ 63" "1024 dvd iAutoAccept self" "trim_space (iNick self) = iNick self"
    "iColor self \<in> set avatar_palette" "presence_valid (iPresence self) \<noteq> presence_offline"
  shows "form_identity self (shown_form self np) = self"
  using preferences_untouched [OF assms(1,2), of np] assms(3-) by simp

lemma preferences_change_a_colour:
  assumes "0 \<le> iAutoAccept self" "iAutoAccept self < 2 ^ 63" "iColor self = ''#123456''"
  shows "valid_color (iColor self) \<and> iColor (form_identity self (shown_form self np)) = ''#2f6fd0''"
proof -
  have "valid_color ''#123456''" "''#123456'' \<notin> set avatar_palette" by code_simp+
  thus ?thesis using preferences_untouched [OF assms(1,2), of np] assms(3) by simp
qed

end
