(* ===== verification/Lines.thy ===== *)
theory Lines
  imports Client "HOL-Library.Sublist"
begin

text \<open>
  The bytes of the local socket: one JSON text to a line (\<open>WriteJSON\<close>, \<open>DecodeParams\<close> and \<open>MaxRPCLine\<close> of
  \<open>chat/proto.go\<close>), read by \<open>bufio.Scanner\<close> at both ends (\<open>readLoop\<close> of \<open>chat/client.go\<close>, \<open>handleConn\<close> of \<open>chatclientd/rpc.go\<close>).
  \<open>encoding/json\<close> is a parameter; what is assumed of it is that a text it writes has no line break in it. The
  lemmas show that lines are read back as written, wherever the stream is cut, up to the first that is too long.
\<close>

type_synonym bytes = "nat list"

definition max_rpc_line :: nat where
  "max_rpc_line = 4 * 1024 * 1024"

section \<open>Writing\<close>

datatype write_error = MarshalError string | SocketError

text \<open>What was written and the error; \<open>takes\<close> is how many bytes the connection still takes.\<close>

definition write_json :: "('v \<Rightarrow> string + bytes) \<Rightarrow> nat option \<Rightarrow> 'v \<Rightarrow> bytes \<times> write_error option" where
  "write_json enc takes v = (case enc v of
      Inl e \<Rightarrow> ([], Some (MarshalError e))
    | Inr b \<Rightarrow> (case takes of
        None \<Rightarrow> (b @ [10], None)
      | Some n \<Rightarrow> (take n (b @ [10]), if n < length b + 1 then Some SocketError else None)))"

definition decode_params :: "(bytes \<Rightarrow> string + 'p) \<Rightarrow> 'p \<Rightarrow> bytes \<Rightarrow> string + 'p" where
  "decode_params dec zero raw = (if raw = [] then Inr zero else dec raw)"

text \<open>\<open>result\<close> of \<open>rpc.go\<close>: an answer that cannot be encoded is an internal error.\<close>

definition err_internal :: int where "err_internal = - 32603"

definition answer_of :: "(rpc_result \<Rightarrow> string + bytes) \<Rightarrow> rpc_result \<Rightarrow> rpc_response" where
  "answer_of enc v = (case enc v of Inl e \<Rightarrow> Inl (err_internal, Because e) | Inr b \<Rightarrow> Inr v)"

section \<open>Reading\<close>

text \<open>
  \<open>bufio.ScanLines\<close> drops a carriage return at the end of a line. A scanner whose buffer is full, which is when it holds
  \<open>limit\<close> bytes and no line break, stops with an error.
\<close>

definition drop_return :: "bytes \<Rightarrow> bytes" where
  "drop_return l = (if l \<noteq> [] \<and> last l = 13 then butlast l else l)"

datatype scan_end = Waiting bytes | TooLong

text \<open>The lines of what has arrived, while more may come; \<open>Waiting\<close> is the line that is not complete.\<close>

definition no_break :: "nat \<Rightarrow> bool" where
  "no_break b \<longleftrightarrow> b \<noteq> 10"

function scan_lines :: "nat \<Rightarrow> bytes \<Rightarrow> bytes list \<times> scan_end" where
  "scan_lines limit bs =
    (let l = takeWhile no_break bs; rest = dropWhile no_break bs in
     if limit \<le> length l then ([], TooLong)
     else if rest = [] then ([], Waiting l)
     else (case scan_lines limit (tl rest) of (ls, e) \<Rightarrow> (drop_return l # ls, e)))"
  by pat_completeness auto
termination
proof (relation "measure (\<lambda>(limit, bs). length bs)", goal_cases)
  case (2 limit bs l rest)
  then have "rest \<noteq> []" "length rest \<le> length bs" by (auto simp: length_dropWhile_le)
  then show ?case by (cases rest) auto
qed simp

declare scan_lines.simps [simp del]

text \<open>At the end of the stream an incomplete line is a line, unless there is nothing in it.\<close>

definition scan_closed :: "nat \<Rightarrow> bytes \<Rightarrow> bytes list \<times> bool" where
  "scan_closed limit bs = (case scan_lines limit bs of
      (ls, TooLong) \<Rightarrow> (ls, True)
    | (ls, Waiting l) \<Rightarrow> (if l = [] then ls else ls @ [drop_return l], False))"

text \<open>What the reading loops pass on: empty lines are skipped.\<close>

definition read_lines :: "bytes \<Rightarrow> bytes list \<times> bool" where
  "read_lines bs = (case scan_closed max_rpc_line bs of (ls, e) \<Rightarrow> (filter (\<lambda>l. l \<noteq> []) ls, e))"

section \<open>Lines are read as written\<close>

definition one_line :: "nat \<Rightarrow> bytes \<Rightarrow> bool" where
  "one_line limit b \<longleftrightarrow> b \<noteq> [] \<and> 10 \<notin> set b \<and> last b \<noteq> 13 \<and> length b < limit"

lemma take_break [simp]:
  "10 \<notin> set b \<Longrightarrow> takeWhile no_break (b @ 10 # bs) = b" "10 \<notin> set b \<Longrightarrow> dropWhile no_break (b @ 10 # bs) = 10 # bs"
  "10 \<notin> set b \<Longrightarrow> takeWhile no_break b = b" "10 \<notin> set b \<Longrightarrow> dropWhile no_break b = []"
  by (induction b) (auto simp: no_break_def)

lemma scan_one: "one_line limit b \<Longrightarrow> scan_lines limit (b @ 10 # bs) = (case scan_lines limit bs of (ls, e) \<Rightarrow> (b # ls, e))"
  by (subst scan_lines.simps) (simp add: one_line_def drop_return_def)

lemma scan_rest: "10 \<notin> set p \<Longrightarrow> length p < limit \<Longrightarrow> scan_lines limit p = ([], Waiting p)"
  by (subst scan_lines.simps) simp

lemma scan_too_long: "10 \<notin> set b \<Longrightarrow> limit \<le> length b \<Longrightarrow> scan_lines limit (b @ 10 # bs) = ([], TooLong)"
  by (subst scan_lines.simps) simp

definition stream_of :: "bytes list \<Rightarrow> bytes" where
  "stream_of bs = concat (map (\<lambda>b. b @ [10]) bs)"

lemma stream_of_Cons: "stream_of (b # bs) = b @ 10 # stream_of bs"
  by (simp add: stream_of_def)

lemma scan_stream:
  "list_all (one_line limit) bs \<Longrightarrow> scan_lines limit (stream_of bs @ r) = (case scan_lines limit r of (ls, e) \<Rightarrow> (bs @ ls, e))"
  by (induction bs) (auto simp: stream_of_Cons scan_one stream_of_def split: prod.splits)

text \<open>A stream cut anywhere: some whole lines and the beginning of the next.\<close>

lemma stream_cut:
  "\<exists>k p. k \<le> length bs \<and> take n (stream_of bs) = stream_of (take k bs) @ p \<and> (p = [] \<or> (k < length bs \<and> prefix p (bs ! k)))"
proof (induction bs arbitrary: n)
  case (Cons b bs)
  show ?case
  proof (cases "n \<le> length b")
    case True
    then have "take n (stream_of (b # bs)) = stream_of (take 0 (b # bs)) @ take n b" by (simp add: stream_of_Cons) (simp add: stream_of_def)
    moreover have "prefix (take n b) ((b # bs) ! 0)" by (simp add: take_is_prefix)
    ultimately show ?thesis by (intro exI [of _ 0] exI [of _ "take n b"]) simp
  next
    case False
    then obtain m where n: "n = length b + Suc m" by (metis add.commute less_iff_Suc_add not_le add_Suc_right)
    obtain k p where IH: "k \<le> length bs" "take m (stream_of bs) = stream_of (take k bs) @ p"
      "p = [] \<or> (k < length bs \<and> prefix p (bs ! k))" using Cons.IH by metis
    have "take n (stream_of (b # bs)) = stream_of (take (Suc k) (b # bs)) @ p" using IH(2) by (simp add: n stream_of_Cons)
    then show ?thesis using IH by (intro exI [of _ "Suc k"] exI [of _ p]) auto
  qed
qed (simp add: stream_of_def)


lemma cut_lines:
  assumes "list_all (one_line limit) bs" "0 < limit"
  shows "\<exists>k \<le> length bs. \<exists>p. scan_lines limit (take n (stream_of bs)) = (take k bs, Waiting p)"
proof -
  obtain k p where k: "k \<le> length bs" "take n (stream_of bs) = stream_of (take k bs) @ p" "p = [] \<or> (k < length bs \<and> prefix p (bs ! k))"
    using stream_cut by metis
  have "one_line limit (bs ! k)" if "k < length bs" using that assms by (simp add: list_all_length)
  hence "10 \<notin> set p \<and> length p < limit" if "p \<noteq> []"
    using k(3) that by (auto simp: one_line_def dest: set_mono_prefix prefix_length_le)
  moreover have "scan_lines limit p = ([], Waiting p)" if "10 \<notin> set p" "length p < limit" using that by (rule scan_rest)
  moreover have "list_all (one_line limit) (take k bs)" using assms by (auto simp: list_all_iff dest: in_set_takeD)
  moreover have "scan_lines limit [] = ([], Waiting [])" using assms(2) scan_rest [of "[]" limit] by simp
  ultimately have "scan_lines limit (take n (stream_of bs)) = (take k bs, Waiting p)"
    using k(2) scan_stream [of limit "take k bs" p] by (cases "p = []") auto
  thus ?thesis using k(1) by blast
qed

definition encoded :: "('v \<Rightarrow> string + bytes) \<Rightarrow> 'v \<Rightarrow> bytes" where
  "encoded enc v = (case enc v of Inl e \<Rightarrow> [] | Inr b \<Rightarrow> b)"

text \<open>A value that is written as one line a reader takes.\<close>

definition line_value :: "('v \<Rightarrow> string + bytes) \<Rightarrow> 'v \<Rightarrow> bool" where
  "line_value enc v \<longleftrightarrow> (\<exists>b. enc v = Inr b \<and> one_line max_rpc_line b)"

definition written_lines :: "('v \<Rightarrow> string + bytes) \<Rightarrow> 'v list \<Rightarrow> bytes" where
  "written_lines enc vs = concat (map (\<lambda>v. fst (write_json enc None v)) vs)"

lemma written_stream: "list_all (line_value enc) vs \<Longrightarrow> written_lines enc vs = stream_of (map (encoded enc) vs)"
  by (induction vs) (auto simp: written_lines_def stream_of_def line_value_def write_json_def encoded_def)

lemma encoded_lines: "list_all (line_value enc) vs \<Longrightarrow> list_all (one_line max_rpc_line) (map (encoded enc) vs)"
  by (auto simp: list_all_iff line_value_def encoded_def)

lemma limit_pos: "0 < max_rpc_line"
  by (simp add: max_rpc_line_def)

lemma read_stream:
  assumes "list_all (one_line max_rpc_line) bs"
  shows "read_lines (stream_of bs) = (bs, False)"
    "10 \<notin> set b \<Longrightarrow> max_rpc_line \<le> length b \<Longrightarrow> read_lines (stream_of bs @ b @ 10 # after) = (bs, True)"
proof -
  have filter: "filter (\<lambda>l. l \<noteq> []) bs = bs" using assms by (auto simp: list_all_iff one_line_def intro!: filter_True)
  show "read_lines (stream_of bs) = (bs, False)"
    using scan_stream [OF assms, of "[]"] scan_rest [of "[]" max_rpc_line] limit_pos filter by (simp add: read_lines_def scan_closed_def)
  show "read_lines (stream_of bs @ b @ 10 # after) = (bs, True)" if "10 \<notin> set b" "max_rpc_line \<le> length b"
    using scan_stream [OF assms, of "b @ 10 # after"] scan_too_long [OF that, of after] filter by (simp add: read_lines_def scan_closed_def)
qed

text \<open>
  C31: what one end of the socket writes with \<open>WriteJSON\<close> the other end reads line by line, all of it and in order; cut
  anywhere, what has arrived gives the first lines and never one that was not written; and a line of \<open>MaxRPCLine\<close> bytes or
  more ends the connection's reading after the lines before it, so that everything after it is lost.
\<close>

theorem rpc_lines_roundtrip:
  assumes "list_all (line_value enc) vs"
  shows "read_lines (written_lines enc vs) = (map (encoded enc) vs, False)
    \<and> (\<exists>k \<le> length vs. \<exists>p. scan_lines max_rpc_line (take n (written_lines enc vs)) = (take k (map (encoded enc) vs), Waiting p))
    \<and> (enc v = Inr b \<and> 10 \<notin> set b \<and> max_rpc_line \<le> length b
        \<longrightarrow> read_lines (written_lines enc (vs @ v # after)) = (map (encoded enc) vs, True))"
proof -
  note lines = encoded_lines [OF assms] and stream = written_stream [OF assms]
  have "written_lines enc (vs @ v # after) = stream_of (map (encoded enc) vs) @ b @ 10 # written_lines enc after" if "enc v = Inr b"
    using that stream by (simp add: written_lines_def write_json_def)
  thus ?thesis using read_stream [OF lines] cut_lines [OF lines limit_pos, of n] by (auto simp: stream)
qed

text \<open>A number is written in decimal.\<close>

definition number_json :: "nat \<Rightarrow> string + bytes" where
  "number_json n = Inr (bytes_of (decimal n))"

theorem rpc_lines_roundtrip_witness:
  "read_lines (written_lines number_json [12, 7]) = ([[49, 50], [55]], False)"
proof -
  have "list_all (line_value number_json) [12, 7]"
    by (simp add: line_value_def number_json_def one_line_def max_rpc_line_def bytes_of_def decimal.simps)
  moreover have "map (encoded number_json) [12, 7] = [[49, 50], [55]]"
    by (simp add: encoded_def number_json_def bytes_of_def decimal.simps)
  ultimately show ?thesis using rpc_lines_roundtrip [of number_json "[12, 7]"] by simp
qed

section \<open>An answer longer than a line\<close>

text \<open>
  The bodies of the messages are in the answer to \<open>messages.list\<close>. A front end asks for 500 of them, and a body may have
  8000 runes, which is more than 8389 bytes as soon as one rune in twenty is not ASCII: such an answer is longer than the
  client's scanner takes.
\<close>

definition bodies_size :: "message list \<Rightarrow> nat" where
  "bodies_size ms = sum_list (map (\<lambda>m. length (mBody m)) ms)"

lemma bodies_size_ge: "list_all (\<lambda>m. n \<le> length (mBody m)) ms \<Longrightarrow> n * length ms \<le> bodies_size ms"
  by (induction ms) (auto simp: bodies_size_def)

theorem long_history_unread:
  assumes "enc (MessagesAre ms) = Inr b" "10 \<notin> set b" "bodies_size ms \<le> length b"
    and "length ms = 500" "list_all (\<lambda>m. 8389 \<le> length (mBody m)) ms"
  shows "read_lines (written_lines enc (MessagesAre ms # after)) = ([], True)"
proof -
  have "max_rpc_line \<le> length b" using bodies_size_ge [OF assms(5)] assms(3,4) by (simp add: max_rpc_line_def)
  moreover have "written_lines enc (MessagesAre ms # after) = stream_of [] @ b @ 10 # written_lines enc after"
    using assms(1) by (simp add: written_lines_def write_json_def stream_of_def)
  ultimately show ?thesis using read_stream(2) [of "[]" b] assms(2) by simp
qed

end
