(* ===== verification/Sample.thy ===== *)
theory Sample
  imports Startup Texts
begin

text \<open>
  What tests, the screenshot and a single process use: the sample conversation (\<open>chat/sample.go\<close>), a whole daemon or
  server in one process (\<open>StartInProcess\<close> and its variants in \<open>chatclientd/start.go\<close> and \<open>chatserver/start.go\<close>), the notifier
  seam (\<open>chat/notify.go\<close>) and the options of the beacon's socket (\<open>chatwire/reuseport_unix.go\<close>). The lemmas show that the
  sample keeps a store well formed, what it shows, and that every way out of a start leaves nothing behind but a
  running daemon.
\<close>

section \<open>The sample\<close>

definition nadia_id :: peer_id where "nadia_id = ''11112222333344445555666677778888''"
definition theo_id :: peer_id where "theo_id = ''99990000aaaabbbbccccddddeeeeffff''"

definition minute_ns :: int where "minute_ns = 60 * second_ns"

definition sample_lines :: "peer_id \<Rightarrow> (peer_id \<times> string \<times> string \<times> int) list" where
  "sample_lines self =
    [(nadia_id, ''nadia'', ''Morning. The build machine is back up '' @ em_dash @ '' it was the switch in the cupboard, not the machine.'', 46),
     (self, ''sam'', ''That explains the two of us staring at logs yesterday.'', 44),
     (theo_id, ''theo'', ''I'm going to put a label on that switch so the next person doesn't lose an afternoon to it.'', 41),
     (nadia_id, ''nadia'', ''Please do. I'll send over the photos from the rack while I'm at it '' @ em_dash @ '' there are four, none of them large.'', 12),
     (self, ''sam'', ''Go on then.'', 11)]"

definition sample_message :: "gotime \<Rightarrow> peer_id \<Rightarrow> nat \<Rightarrow> peer_id \<times> string \<times> string \<times> int \<Rightarrow> message" where
  "sample_message now self i l = (case l of (from, nick, body, ago) \<Rightarrow>
     zero_message\<lparr>mID := ''sample-'' @ [char_of (97 + i)], mConv := room_conv ''general'', mFrom := from, mFromNick := nick, mBody := body,
       mSent := now - ago * minute_ns, mSeq := of_nat (i + 1), mMine := (from = self), mRead := True,
       mState := (if from = self then StateDelivered else StateNone)\<rparr>)"

definition sample_direct :: "gotime \<Rightarrow> message" where
  "sample_direct now = zero_message\<lparr>mID := ''sample-direct'', mConv := direct_conv nadia_id, mFrom := nadia_id, mFromNick := ''nadia'',
     mBody := ''Separately: are you around at four? Ten minutes on the release plan, no slides.'', mSent := now - 6 * minute_ns, mSeq := 9\<rparr>"

definition sample_peers :: "gotime \<Rightarrow> peer list" where
  "sample_peers now =
    [zero_peer\<lparr>pID := nadia_id, pNick := ''nadia'', pColor := color_for_id nadia_id, pHost := ''kestrel'', pAddr := ''192.168.1.24:47772'',
       pRooms := Some [''general''], pPresence := presence_online, pLastSeen := now\<rparr>,
     zero_peer\<lparr>pID := theo_id, pNick := ''theo'', pColor := color_for_id theo_id, pHost := ''workshop'', pAddr := ''192.168.1.31:47772'',
       pRooms := Some [''general''], pPresence := presence_away, pLastSeen := now - 4 * minute_ns\<rparr>]"

definition file_samples :: "gotime \<Rightarrow> store \<Rightarrow> message list \<Rightarrow> store" where
  "file_samples now s ms = foldl (\<lambda>s m. fst (append_message now s m)) s ms"

definition seed_sample :: "env \<Rightarrow> peer_id \<Rightarrow> gotime \<Rightarrow> store \<Rightarrow> store" where
  "seed_sample e fresh now s0 =
    (let wanted = (stSelf s0)\<lparr>iNick := ''sam'', iColor := ''#2f6fd0''\<rparr>; (s1, out, err) = set_self e fresh s0 wanted;
         self = iID (if err = None then out else wanted);
         s2 = fst (join_room e fresh s1 ''general'');
         s3 = foldl (\<lambda>s p. fst (put_peer s p)) s2 (sample_peers now)
     in file_samples now s3 (map (\<lambda>i. sample_message now self i (sample_lines self ! i)) [0 ..< 5] @ [sample_direct now]))"

lemma store_ok_file_samples: "store_ok s \<Longrightarrow> store_ok (file_samples now s ms)"
  by (induction ms arbitrary: s) (simp_all add: file_samples_def)

theorem sample_ok: "store_ok s \<Longrightarrow> store_ok (seed_sample e fresh now s)"
  by (simp add: seed_sample_def Let_def case_prod_beta sample_peers_def store_ok_file_samples)

definition sample_env :: env where
  "sample_env = \<lparr>eNick = '''', eUser = Some ''u'', eHost = Some ''h''\<rparr>"

definition sample_store :: store where
  "sample_store = seed_sample sample_env ''0123456789abcdef0123456789abcdef'' 0 (new_memory_store sample_env ''0123456789abcdef0123456789abcdef'')"

text \<open>In an empty store: the room in order, one unread message from nadia, and a counter past every number.\<close>

lemma sample_counter: "stNextSeq sample_store = 9"
  by code_simp

lemma sample_room: "map mFromNick (messages sample_store (room_conv ''general'') 0) = [''nadia'', ''sam'', ''theo'', ''nadia'', ''sam'']"
  by code_simp

lemma sample_unread: "unread sample_store (direct_conv nadia_id) = 1"
  by code_simp

section \<open>One process\<close>

text \<open>
  A turn of the waiting loop: whether the deadline is ahead, what is there to be found, and whether the daemon has
  returned, with its error.
\<close>

datatype start_error = NoTempDir string | NoStore "store_error option" | EndedWith string | EndedEarly | NeverThere

fun await_start :: "(bool \<times> 'a option \<times> string option option) list \<Rightarrow> (start_error + 'a) option" where
  "await_start [] = None"
| "await_start ((early, there, ended) # ts) =
     (if \<not> early then Some (Inl NeverThere)
      else (case there of
          Some x \<Rightarrow> Some (Inr x)
        | None \<Rightarrow> (case ended of
            None \<Rightarrow> await_start ts
          | Some None \<Rightarrow> Some (Inl EndedEarly)
          | Some (Some e) \<Rightarrow> Some (Inl (EndedWith e)))))"

text \<open>
  What is left running, and whether the temporary directory is still there. \<open>None\<close> while the loop waits.
\<close>

record 'a started =
  sdResult :: "start_error + 'a"
  sdRunning :: bool
  sdDir :: "string option"

definition start_result :: "string \<Rightarrow> start_error + 'a \<Rightarrow> 'a started" where
  "start_result dir r = (case r of
      Inl e \<Rightarrow> \<lparr>sdResult = Inl e, sdRunning = False, sdDir = None\<rparr>
    | Inr x \<Rightarrow> \<lparr>sdResult = Inr x, sdRunning = True, sdDir = Some dir\<rparr>)"

definition failed_start :: "start_error \<Rightarrow> 'a started" where
  "failed_start e = \<lparr>sdResult = Inl e, sdRunning = False, sdDir = None\<rparr>"

definition client_in_process :: "string + string \<Rightarrow> env \<Rightarrow> peer_id \<Rightarrow> disk \<Rightarrow> string \<Rightarrow> string \<Rightarrow> (store \<Rightarrow> store) \<Rightarrow> string \<Rightarrow> filesystem
    \<Rightarrow> (server_id \<times> uint64) file_content \<Rightarrow> (bool \<times> unit option \<times> string option option) list \<Rightarrow> (daemon \<times> string) started option" where
  "client_in_process tmp e fresh dk disc addr seed host fs cf turns = (case tmp of
      Inl m \<Rightarrow> Some (failed_start (NoTempDir m))
    | Inr dir \<Rightarrow> (case new_store e fresh (path_join dir ''data'') dk of
        (None, err) \<Rightarrow> Some (failed_start (NoStore err))
      | (Some st, err) \<Rightarrow> map_option (\<lambda>r. start_result dir (map_sum id
            (\<lambda>_. ((new_daemon (seed st) disc host fs cf)\<lparr>dmAddr := addr\<rparr>, path_join dir ''clientd.sock'')) r)) (await_start turns)))"

definition start_client where
  "start_client tmp e fresh dk disc = client_in_process tmp e fresh dk disc '''' id"

definition start_against where
  "start_against tmp e fresh dk addr = client_in_process tmp e fresh dk ''off'' addr id"

definition start_sample where
  "start_sample tmp e fresh dk now = client_in_process tmp e fresh dk ''off'' '''' (seed_sample e fresh now)"

text \<open>The server listens on any free port; a turn finds the address it stored.\<close>

definition server_in_process :: "string + string \<Rightarrow> env \<Rightarrow> peer_id \<Rightarrow> disk \<Rightarrow> string \<Rightarrow> (bool \<times> string option \<times> string option option) list
    \<Rightarrow> (server \<times> string) started option" where
  "server_in_process tmp e fresh dk host turns = (case tmp of
      Inl m \<Rightarrow> Some (failed_start (NoTempDir m))
    | Inr dir \<Rightarrow> (case new_store e fresh dir dk of
        (None, err) \<Rightarrow> Some (failed_start (NoStore err))
      | (Some st, err) \<Rightarrow> map_option (\<lambda>r. start_result dir (map_sum id (\<lambda>a. (new_server st host, loopback a)) r)) (await_start turns)))"

text \<open>A start that fails leaves neither a process nor a directory; one that succeeds has both.\<close>

definition clean_start :: "'a started \<Rightarrow> bool" where
  "clean_start r \<longleftrightarrow> (if isl (sdResult r) then \<not> sdRunning r \<and> sdDir r = None else sdRunning r \<and> sdDir r \<noteq> None)"

lemma start_result_clean [simp]: "clean_start (start_result dir r)" "clean_start (failed_start e)"
  by (cases r) (simp_all add: clean_start_def start_result_def failed_start_def)

lemma start_leaves_nothing:
  "client_in_process tmp e fresh dk disc addr seed host fs cf turns = Some r \<Longrightarrow> clean_start r"
  "server_in_process tmp e fresh dk host turns' = Some r' \<Longrightarrow> clean_start r'"
  by (auto simp: client_in_process_def server_in_process_def split: sum.splits option.splits prod.splits)

text \<open>The loop ends by its deadline, and reports what is found first.\<close>

lemma await_start_ends: "\<exists>t \<in> set ts. \<not> fst t \<Longrightarrow> await_start ts \<noteq> None"
  by (induction ts rule: await_start.induct) (auto split: option.splits)

lemma await_start_finds: "await_start (replicate n (True, None, None) @ (True, Some x, ended) # ts) = Some (Inr x)"
  by (induction n) simp_all

section \<open>The notifier seam\<close>

definition toast_body :: "string \<Rightarrow> string" where
  "toast_body b = (if 180 < length b then take 180 b @ ellipsis else b)"

definition notify_desktop :: "host_env \<Rightarrow> bool \<Rightarrow> string \<Rightarrow> string \<Rightarrow> (string \<times> string) option" where
  "notify_desktop h has_notifier title body =
    (if \<not> has_notifier then None
     else if heVar h ''UITK_CHAT_NO_NOTIFY'' \<noteq> '''' then None
     else if heVar h ''DISPLAY'' = '''' \<and> heVar h ''WAYLAND_DISPLAY'' = '''' then None
     else Some (if trim_space title = '''' then ''Chat'' else trim_space title, toast_body (trim_space body)))"

text \<open>The body is cut at a byte, which may be in the middle of a character.\<close>

lemma toast_cuts_a_character:
  "toast_body (replicate 179 (CHR ''a'') @ glyph 0xE9 @ ''b'') = replicate 179 (CHR ''a'') @ [char_of (0xC3::nat)] @ ellipsis"
  by code_simp

section \<open>The options of the beacon's socket\<close>

datatype sock_option = ReuseAddr | ReusePort

text \<open>The options set and the error; \<open>control\<close> is the error of \<open>Control\<close> itself, which then calls nothing.\<close>

definition reuse_port :: "string option \<Rightarrow> (sock_option \<Rightarrow> string option) \<Rightarrow> sock_option list \<times> string option" where
  "reuse_port control fails = (case control of
      Some e \<Rightarrow> ([], Some e)
    | None \<Rightarrow> (case fails ReuseAddr of
        Some e \<Rightarrow> ([], Some e)
      | None \<Rightarrow> (case fails ReusePort of Some e \<Rightarrow> ([ReuseAddr], Some e) | None \<Rightarrow> ([ReuseAddr, ReusePort], None))))"

definition reuse_port_other :: "sock_option list \<times> string option" where
  "reuse_port_other = ([], None)"

lemma reuse_port_both: "snd (reuse_port control fails) = None \<longleftrightarrow> fst (reuse_port control fails) = [ReuseAddr, ReusePort]"
  by (auto simp: reuse_port_def split: option.splits)

end
